(* ===== verification/Prelude.thy ===== *)
theory Prelude
  imports Complex_Main "HOL-Library.AList" "HOL-Library.Product_Lexorder" "HOL-Library.Multiset"
begin

text \<open>
  The vocabulary every component shares: exceptions as values, time, Python's number rounding,
  insertion-ordered dictionaries, JSON values, text helpers, and database tables as lists of
  rows with the queryset operations the services call on them.
\<close>

section \<open>Collections of facts\<close>

named_theorems model_defs \<open>definitions of handlers and guards, to be unfolded together\<close>

named_theorems row_simps \<open>how an update acts on the fields of one row\<close>

section \<open>Errors as values\<close>

text \<open>
  The exceptions of \<open>core/exceptions.py\<close> that the services raise, each with its message, plus the
  exceptions of Python and Django that reach a caller.
\<close>

datatype error =
    NotFoundError string
  | PermissionDeniedError string
  | ValidationError string
  | RateLimitError string
  | SubmissionError string
  | JudgeUnavailableError string
  | JudgeJobConflictError string
  | ContestError string
  | ContestAccessDeniedError string
  | HttpError int string
  | DjangoValidationError string
  | KeyError string
  | ValueError string
  | TypeError string
  | OverflowError string
  | AttributeError string
  | IntegrityError string
  | DataError string
  | MultipleObjectsReturned string
  | CommandError string
  | ZeroDivisionError string

text \<open>The \<open>status_code\<close> and \<open>code\<close> class attributes of the exception classes; \<open>None\<close> for an
  exception that is not a \<open>JudgeLoomError\<close> and falls through to the catch-all handler.\<close>

fun error_status :: "error \<Rightarrow> int option" where
  "error_status (NotFoundError _) = Some 404"
| "error_status (PermissionDeniedError _) = Some 403"
| "error_status (ValidationError _) = Some 422"
| "error_status (RateLimitError _) = Some 429"
| "error_status (SubmissionError _) = Some 400"
| "error_status (JudgeUnavailableError _) = Some 503"
| "error_status (JudgeJobConflictError _) = Some 409"
| "error_status (ContestError _) = Some 400"
| "error_status (ContestAccessDeniedError _) = Some 403"
| "error_status (HttpError n _) = Some n"
| "error_status (DjangoValidationError _) = None"
| "error_status (KeyError _) = None"
| "error_status (ValueError _) = None"
| "error_status (TypeError _) = None"
| "error_status (OverflowError _) = None"
| "error_status (AttributeError _) = None"
| "error_status (IntegrityError _) = None"
| "error_status (DataError _) = None"
| "error_status (MultipleObjectsReturned _) = None"
| "error_status (CommandError _) = None"
| "error_status (ZeroDivisionError _) = None"

text \<open>The HTTP status of the response the handlers of \<open>configure_api_exception_handlers\<close> produce.\<close>

definition response_status :: "error \<Rightarrow> int" where
  "response_status e = (case error_status e of Some n \<Rightarrow> n | None \<Rightarrow> 500)"

text \<open>The exception of \<open>get_object_or_404\<close>.\<close>

definition not_found :: error where
  "not_found = HttpError 404 ''Not Found''"

type_synonym 'a result = "error + 'a"

text \<open>Sequencing: the rest of a handler runs only when the call before it returned.\<close>

fun andThen :: "'a result \<Rightarrow> ('a \<Rightarrow> 'b result) \<Rightarrow> 'b result" where
  "andThen (Inl e) f = Inl e"
| "andThen (Inr x) f = f x"

text \<open>\<open>if cond: raise e\<close> before the rest of a handler.\<close>

definition raise_if :: "bool \<Rightarrow> error \<Rightarrow> 'a result \<Rightarrow> 'a result" where
  "raise_if c e r = (if c then Inl e else r)"

lemma raise_if_Inr [simp]: "(raise_if c e r = Inr x) = (\<not> c \<and> r = Inr x)"
  by (simp add: raise_if_def)

lemma raise_if_False [simp]: "raise_if False e r = r"
  by (simp add: raise_if_def)

lemma raise_if_True [simp]: "raise_if True e r = Inl e"
  by (simp add: raise_if_def)

lemma andThen_Inr [simp]: "(andThen r f = Inr y) = (\<exists>x. r = Inr x \<and> f x = Inr y)"
  by (cases r) auto

section \<open>Time and numbers\<close>

text \<open>A \<open>datetime\<close> or \<open>timedelta\<close> is its exact number of microseconds.\<close>

type_synonym time = int

definition seconds :: "int \<Rightarrow> time" where
  "seconds n = n * 1000000"

definition minutes :: "int \<Rightarrow> time" where
  "minutes n = seconds (n * 60)"

text \<open>\<open>timedelta.total_seconds()\<close>; a Python float is a rational here.\<close>

definition total_seconds :: "time \<Rightarrow> rat" where
  "total_seconds t = of_int t / 1000000"

text \<open>Python's \<open>round(x)\<close>: to the nearest integer, a tie to the even one.\<close>

definition py_round :: "rat \<Rightarrow> int" where
  "py_round x =
     (let f = \<lfloor>x\<rfloor>; d = x - of_int f
      in if d < 1/2 then f else if d > 1/2 then f + 1 else if even f then f else f + 1)"

text \<open>\<open>round(x, n)\<close>\<close>

definition round_to :: "nat \<Rightarrow> rat \<Rightarrow> rat" where
  "round_to n x = of_int (py_round (x * 10 ^ n)) / 10 ^ n"

lemma py_round_mono: "x \<le> y \<Longrightarrow> py_round x \<le> py_round y"
proof -
  assume le: "x \<le> y"
  then have fl: "\<lfloor>x\<rfloor> \<le> \<lfloor>y\<rfloor>" by (rule floor_mono)
  show ?thesis
  proof (cases "\<lfloor>x\<rfloor> = \<lfloor>y\<rfloor>")
    case True
    then show ?thesis using le by (auto simp: py_round_def Let_def)
  next
    case False
    with fl have "\<lfloor>x\<rfloor> + 1 \<le> \<lfloor>y\<rfloor>" by linarith
    then show ?thesis by (auto simp: py_round_def Let_def)
  qed
qed

lemma py_round_of_int [simp]: "py_round (of_int n) = n"
  by (simp add: py_round_def)

lemma py_round_0 [simp]: "py_round 0 = 0"
  using py_round_of_int [of 0] by simp

lemma py_round_numeral [simp]: "py_round (numeral k) = numeral k"
  by (metis of_int_numeral py_round_of_int)

lemma py_round_nonneg [simp]: "0 \<le> x \<Longrightarrow> 0 \<le> py_round x"
  using py_round_mono [of 0 x] by simp

lemma round_to_mono: "x \<le> y \<Longrightarrow> round_to n x \<le> round_to n y"
  unfolding round_to_def by (intro divide_right_mono) (auto intro!: py_round_mono mult_right_mono)

lemma round_to_0 [simp]: "round_to n 0 = 0"
  by (simp add: round_to_def)

lemma round_to_nonneg [simp]: "0 \<le> x \<Longrightarrow> 0 \<le> round_to n x"
  using round_to_mono [of 0 x n] by simp

lemma py_round_error: "\<bar>of_int (py_round x) - x\<bar> \<le> 1/2"
proof -
  have "of_int \<lfloor>x\<rfloor> \<le> x" "x < of_int \<lfloor>x\<rfloor> + 1" by linarith+
  then show ?thesis by (auto simp: py_round_def Let_def abs_le_iff)
qed

section \<open>Dictionaries in insertion order\<close>

text \<open>
  A Python \<open>dict\<close> is an association list with distinct keys: \<open>AList.update\<close> replaces the value of a
  key in place and appends a new key at the end, as item assignment does.
\<close>

type_synonym ('k, 'v) dict = "('k \<times> 'v) list"

text \<open>\<open>d[k] = d.get(k, v0)\<close> transformed by \<open>f\<close>, which is \<open>d.setdefault(k, v0)\<close> followed by a mutation.\<close>

definition dict_modify :: "'k \<Rightarrow> 'v \<Rightarrow> ('v \<Rightarrow> 'v) \<Rightarrow> ('k, 'v) dict \<Rightarrow> ('k, 'v) dict" where
  "dict_modify k v0 f d = AList.update k (f (case map_of d k of Some v \<Rightarrow> v | None \<Rightarrow> v0)) d"

lemma map_of_dict_modify:
  "map_of (dict_modify k v0 f d) k' =
     (if k' = k then Some (f (case map_of d k of Some v \<Rightarrow> v | None \<Rightarrow> v0)) else map_of d k')"
  by (simp add: dict_modify_def update_conv')

lemma distinct_update_keys: "distinct (map fst d) \<Longrightarrow> distinct (map fst (AList.update k v d))"
  by (rule distinct_update)

lemma distinct_dict_modify: "distinct (map fst d) \<Longrightarrow> distinct (map fst (dict_modify k v0 f d))"
  by (simp add: dict_modify_def distinct_update)

lemma update_keys_in: "k \<in> set (map fst d) \<Longrightarrow> map fst (AList.update k v d) = map fst d"
  by (induction d) (auto split: if_splits)

lemma keys_update [simp]: "fst ` set (AList.update k v d) = insert k (fst ` set d)"
  by (induction d) auto

lemma dict_modify_keys:
  "k \<in> set (map fst d) \<Longrightarrow> map fst (dict_modify k v0 f d) = map fst d"
  unfolding dict_modify_def by (rule update_keys_in)

lemma map_of_in_keys: "k \<in> set (map fst d) \<Longrightarrow> \<exists>v. map_of d k = Some v"
  by (induction d) auto

lemma sum_list_map_mono:
  fixes f g :: "'a \<Rightarrow> rat"
  shows "(\<And>x. x \<in> set xs \<Longrightarrow> f x \<le> g x) \<Longrightarrow> sum_list (map f xs) \<le> sum_list (map g xs)"
  by (induction xs) (auto intro: add_mono)

lemma sum_list_nonneg_rat:
  fixes xs :: "rat list"
  shows "(\<And>x. x \<in> set xs \<Longrightarrow> 0 \<le> x) \<Longrightarrow> 0 \<le> sum_list xs"
  by (induction xs) auto

section \<open>JSON values\<close>

text \<open>The values \<open>JSONField\<close> columns and request payloads hold. Numbers are finite.\<close>

datatype json =
    JNull
  | JBool bool
  | JInt int
  | JFloat rat
  | JStr string
  | JArr "json list"
  | JObj "(string \<times> json) list"

section \<open>Text\<close>

text \<open>\<open>str.lower()\<close> on ASCII letters; a string is its list of characters, all below 128.\<close>

definition lower_char :: "char \<Rightarrow> char" where
  "lower_char c = (let n = of_char c :: nat in if 65 \<le> n \<and> n \<le> 90 then char_of (n + 32) else c)"

definition lower :: "string \<Rightarrow> string" where
  "lower s = map lower_char s"

definition is_space :: "char \<Rightarrow> bool" where
  "is_space c = (let n = of_char c :: nat in n = 32 \<or> 9 \<le> n \<and> n \<le> 13 \<or> 28 \<le> n \<and> n \<le> 31)"

text \<open>\<open>str.strip()\<close>, \<open>str.rstrip()\<close>\<close>

definition rstrip :: "string \<Rightarrow> string" where
  "rstrip s = rev (dropWhile is_space (rev s))"

definition strip :: "string \<Rightarrow> string" where
  "strip s = rstrip (dropWhile is_space s)"

text \<open>\<open>s.split(sep)\<close> for a one-character separator\<close>

fun split_on :: "char \<Rightarrow> string \<Rightarrow> string list" where
  "split_on c [] = [[]]"
| "split_on c (x # xs) =
     (if x = c then [] # split_on c xs
      else case split_on c xs of [] \<Rightarrow> [[x]] | w # ws \<Rightarrow> (x # w) # ws)"

text \<open>\<open>sep.join(parts)\<close>\<close>

fun join_with :: "string \<Rightarrow> string list \<Rightarrow> string" where
  "join_with sep [] = []"
| "join_with sep [p] = p"
| "join_with sep (p # q # ps) = p @ sep @ join_with sep (q # ps)"

lemma split_on_nonempty [simp]: "split_on c s \<noteq> []"
  by (induction s) (auto split: list.splits)

lemma split_on_no_sep: "c \<notin> set s \<Longrightarrow> split_on c s = [s]"
  by (induction s) auto

lemma split_on_append_sep: "split_on c (s @ c # t) = split_on c s @ split_on c t"
  by (induction s) (auto split: list.splits)

text \<open>Decimal digits of a natural number, \<open>str(n)\<close>\<close>

definition digit_char :: "nat \<Rightarrow> char" where
  "digit_char d = char_of (48 + d)"

fun show_nat :: "nat \<Rightarrow> string" where
  "show_nat n = (if n < 10 then [digit_char n] else show_nat (n div 10) @ [digit_char (n mod 10)])"

declare show_nat.simps [simp del]

definition show_int :: "int \<Rightarrow> string" where
  "show_int i = (if i < 0 then CHR ''-'' # show_nat (nat (- i)) else show_nat (nat i))"

text \<open>Reading a string of ASCII digits back, \<open>int(s)\<close>\<close>

definition is_digit :: "char \<Rightarrow> bool" where
  "is_digit c = (let n = of_char c :: nat in 48 \<le> n \<and> n \<le> 57)"

definition digit_val :: "char \<Rightarrow> nat" where
  "digit_val c = of_char c - 48"

definition read_nat :: "string \<Rightarrow> nat option" where
  "read_nat s = (if s \<noteq> [] \<and> list_all is_digit s
     then Some (foldl (\<lambda>n c. n * 10 + digit_val c) 0 s) else None)"

lemma digit_char_digit: "d < 10 \<Longrightarrow> is_digit (digit_char d) \<and> digit_val (digit_char d) = d"
  by (simp add: is_digit_def digit_val_def digit_char_def Let_def of_char_of)

lemma show_nat_digits: "list_all is_digit (show_nat n) \<and> show_nat n \<noteq> []"
proof (induction n rule: show_nat.induct)
  case (1 n)
  then show ?case by (subst (1 2) show_nat.simps) (auto simp: digit_char_digit)
qed

lemma read_show_fold: "foldl (\<lambda>m c. m * 10 + digit_val c) 0 (show_nat n) = n"
proof (induction n rule: show_nat.induct)
  case (1 n)
  then show ?case by (subst show_nat.simps) (auto simp: digit_char_digit)
qed

lemma read_show_nat [simp]: "read_nat (show_nat n) = Some n"
  by (simp add: read_nat_def show_nat_digits read_show_fold)

section \<open>Tables\<close>

text \<open>
  A table is the list of its rows in primary-key order; \<open>key\<close> reads the primary key. The
  operations are the queryset calls: \<open>objects.filter(pk=k).first()\<close>, \<open>.filter(p).update(f)\<close>,
  \<open>.filter(p).delete()\<close> and \<open>objects.create\<close> with a fresh primary key.
\<close>

definition row_get :: "('r \<Rightarrow> nat) \<Rightarrow> nat \<Rightarrow> 'r list \<Rightarrow> 'r option" where
  "row_get key k rows = List.find (\<lambda>r. key r = k) rows"

definition rows_update :: "('r \<Rightarrow> bool) \<Rightarrow> ('r \<Rightarrow> 'r) \<Rightarrow> 'r list \<Rightarrow> 'r list" where
  "rows_update p f rows = map (\<lambda>r. if p r then f r else r) rows"

definition rows_delete :: "('r \<Rightarrow> bool) \<Rightarrow> 'r list \<Rightarrow> 'r list" where
  "rows_delete p rows = filter (\<lambda>r. \<not> p r) rows"

definition row_put :: "('r \<Rightarrow> nat) \<Rightarrow> 'r \<Rightarrow> 'r list \<Rightarrow> 'r list" where
  "row_put key r rows = rows_update (\<lambda>x. key x = key r) (\<lambda>_. r) rows"

definition fresh_key :: "('r \<Rightarrow> nat) \<Rightarrow> 'r list \<Rightarrow> nat" where
  "fresh_key key rows = Suc (foldr max (map key rows) 0)"

definition first :: "'r list \<Rightarrow> 'r option" where
  "first rs = (case rs of [] \<Rightarrow> None | r # _ \<Rightarrow> Some r)"

lemma first_simps [simp]: "first [] = None" "first (r # rs) = Some r"
  by (simp_all add: first_def)

lemma first_None_iff [simp]: "first rs = None \<longleftrightarrow> rs = []"
  by (cases rs) auto

lemma first_in: "first rs = Some r \<Longrightarrow> r \<in> set rs"
  by (cases rs) auto

text \<open>The laws of a keyed table, over the operations alone.\<close>

locale keyed_rows =
  fixes key :: "'r \<Rightarrow> nat"
    and get :: "nat \<Rightarrow> 'r list \<Rightarrow> 'r option"
    and put :: "'r \<Rightarrow> 'r list \<Rightarrow> 'r list"
  assumes get_key: "get k rows = Some r \<Longrightarrow> key r = k \<and> r \<in> set rows"
    and get_none: "get k rows = None \<Longrightarrow> k \<notin> key ` set rows"
    and get_put: "get k (put r rows) =
          (if k = key r then (if get k rows = None then None else Some r) else get k rows)"
    and keys_put: "map key (put r rows) = map key rows"
begin

lemma get_put_same: "get (key r) rows = Some r' \<Longrightarrow> get (key r) (put r rows) = Some r"
  by (simp add: get_put)

lemma get_put_other: "k \<noteq> key r \<Longrightarrow> get k (put r rows) = get k rows"
  by (simp add: get_put)

lemma distinct_put: "distinct (map key rows) \<Longrightarrow> distinct (map key (put r rows))"
  by (simp add: keys_put)

lemma get_of_member:
  assumes "distinct (map key rows)" and "r \<in> set rows"
  shows "get (key r) rows = Some r"
proof (cases "get (key r) rows")
  case None
  then show ?thesis using get_none assms(2) by blast
next
  case (Some s)
  then have "key s = key r" "s \<in> set rows" using get_key by blast+
  then have "s = r" using assms by (meson distinct_map inj_onD)
  then show ?thesis using Some by simp
qed

lemma put_put: "get k (put r (put r rows)) = get k (put r rows)"
  by (simp add: get_put)

end

lemma find_map_key:
  assumes "\<And>r. key (f r) = key r"
  shows "List.find (\<lambda>r. key r = k) (map f rows) = map_option f (List.find (\<lambda>r. key r = k) rows)"
  by (induction rows) (auto simp: assms)

lemma row_get_SomeD: "row_get key k rows = Some r \<Longrightarrow> key r = k \<and> r \<in> set rows"
  by (auto simp: row_get_def find_Some_iff)

lemma row_get_NoneD: "row_get key k rows = None \<Longrightarrow> k \<notin> key ` set rows"
  by (auto simp: row_get_def find_None_iff)

lemma row_get_put:
  "row_get key k (row_put key r rows) =
     (if k = key r then (if row_get key k rows = None then None else Some r) else row_get key k rows)"
  by (induction rows) (auto simp: row_get_def row_put_def rows_update_def)

lemma map_rows_update: "(\<And>x. P x \<Longrightarrow> view (f x) = view x) \<Longrightarrow> map view (rows_update P f rows) = map view rows"
  by (simp add: rows_update_def)

lemma map_row_put:
  "(\<And>x. x \<in> set rows \<Longrightarrow> key x = key r \<Longrightarrow> g x = g r) \<Longrightarrow> map g (row_put key r rows) = map g rows"
  by (auto simp: row_put_def rows_update_def)

lemma row_put_same: "distinct (map key rows) \<Longrightarrow> r \<in> set rows \<Longrightarrow> row_put key r rows = rows"
  unfolding row_put_def rows_update_def by (rule map_idI) (auto simp: distinct_map dest: inj_onD)

lemma keys_row_put: "map key (row_put key r rows) = map key rows"
  by (induction rows) (auto simp: row_put_def rows_update_def)

lemma set_row_put:
  "set (row_put key r rows) = (if key r \<in> key ` set rows then {r} else {}) \<union> {x \<in> set rows. key x \<noteq> key r}"
  by (auto simp: row_put_def rows_update_def image_iff)

lemma foldr_max_ge: "x \<in> set xs \<Longrightarrow> (x::nat) \<le> foldr max xs a"
  by (induction xs) auto

lemma fresh_key_notin: "fresh_key key rows \<notin> key ` set rows"
proof
  assume "fresh_key key rows \<in> key ` set rows"
  then have "fresh_key key rows \<le> foldr max (map key rows) 0"
    by (intro foldr_max_ge) simp
  then show False by (simp add: fresh_key_def)
qed

section \<open>Simulations\<close>

text \<open>A machine with permitted moves, the runs it allows, and a concrete system whose labelled steps it
  simulates under an invariant.\<close>

fun machine_run :: "('l \<Rightarrow> 'm \<Rightarrow> bool) \<Rightarrow> ('l \<Rightarrow> 'm \<Rightarrow> 'm) \<Rightarrow> 'm \<Rightarrow> 'l list \<Rightarrow> 'm option" where
  "machine_run permitted move m [] = Some m"
| "machine_run permitted move m (l # ls) = (if permitted l m then machine_run permitted move (move l m) ls else None)"

inductive labelled_run :: "('l \<Rightarrow> 's \<Rightarrow> 's \<Rightarrow> bool) \<Rightarrow> 's \<Rightarrow> 'l list \<Rightarrow> 's \<Rightarrow> bool" for step where
  stop: "labelled_run step s [] s"
| next_step: "step l s s' \<Longrightarrow> labelled_run step s' ls s'' \<Longrightarrow> labelled_run step s (l # ls) s''"

locale labelled_simulation =
  fixes step :: "'l \<Rightarrow> 's \<Rightarrow> 's \<Rightarrow> bool" and ok :: "'s \<Rightarrow> bool" and abst :: "'s \<Rightarrow> 'm"
    and permitted :: "'l \<Rightarrow> 'm \<Rightarrow> bool" and move :: "'l \<Rightarrow> 'm \<Rightarrow> 'm"
  assumes step_ok: "ok s \<Longrightarrow> step l s s' \<Longrightarrow> ok s'"
    and step_permitted: "ok s \<Longrightarrow> step l s s' \<Longrightarrow> permitted l (abst s)"
    and step_moves: "ok s \<Longrightarrow> step l s s' \<Longrightarrow> abst s' = move l (abst s)"
begin

lemma run_ok: "labelled_run step s ls s' \<Longrightarrow> ok s \<Longrightarrow> ok s'"
  by (induction rule: labelled_run.induct) (auto dest: step_ok)

lemma run_refines: "labelled_run step s ls s' \<Longrightarrow> ok s \<Longrightarrow> machine_run permitted move (abst s) ls = Some (abst s')"
proof (induction rule: labelled_run.induct)
  case (stop s)
  then show ?case by simp
next
  case (next_step l s s' ls s'')
  then show ?case using step_ok [of s l s'] step_permitted [of s l s'] step_moves [of s l s'] by simp
qed

end

end
