(* ===== verification/Model.thy ===== *)
theory Model
  imports Prelude
begin

text \<open>
  The data model: the enumerations of the \<open>constants.py\<close> files and the rows of the \<open>models/\<close>
  packages, one record per table with the fields the modelled services read or write, and the
  database as the record of its tables. Columns nothing in the services reads (display texts,
  indexes, \<open>updated_at\<close> apart from the judges') are left out. A foreign key is the primary key of
  the row it names.
\<close>

section \<open>Enumerations\<close>

datatype sub_mode = Mode_SUBMIT | Mode_RUN

datatype sub_status = Sub_QUEUED | Sub_COMPILING | Sub_JUDGING | Sub_COMPLETED | Sub_ERROR

datatype verdict = AC | WA | TLE | MLE | RTE | CE | IR | OLE | IE | PARTIAL

datatype job_status =
  Job_QUEUED | Job_CLAIMED | Job_RUNNING | Job_SUCCEEDED | Job_FAILED | Job_EXPIRED | Job_CANCELLED

text \<open>A column keeps whatever string a request put there; \<open>Con_OTHER\<close> and \<open>Prob_OTHER\<close> are codes that no
  choice has.\<close>

datatype contest_visibility = Con_PRIVATE | Con_ORGANIZATION | Con_PUBLIC | Con_OTHER string

datatype participation_status = Part_LIVE | Part_SPECTATING | Part_VIRTUAL

datatype problem_visibility = Prob_PRIVATE | Prob_UNLISTED | Prob_PUBLIC | Prob_CONTEST_ONLY | Prob_OTHER string

text \<open>The stored codes of the two submission enumerations.\<close>

fun verdict_code :: "verdict \<Rightarrow> string" where
  "verdict_code AC = ''AC''"
| "verdict_code WA = ''WA''"
| "verdict_code TLE = ''TLE''"
| "verdict_code MLE = ''MLE''"
| "verdict_code RTE = ''RTE''"
| "verdict_code CE = ''CE''"
| "verdict_code IR = ''IR''"
| "verdict_code OLE = ''OLE''"
| "verdict_code IE = ''IE''"
| "verdict_code PARTIAL = ''PT''"

fun status_code :: "sub_status \<Rightarrow> string" where
  "status_code Sub_QUEUED = ''Q''"
| "status_code Sub_COMPILING = ''CP''"
| "status_code Sub_JUDGING = ''JG''"
| "status_code Sub_COMPLETED = ''CM''"
| "status_code Sub_ERROR = ''ER''"

definition all_verdicts :: "verdict list" where
  "all_verdicts = [AC, WA, TLE, MLE, RTE, CE, IR, OLE, IE, PARTIAL]"

text \<open>\<open>s in SubmissionResult.values\<close>, with the member it names.\<close>

definition verdict_of_code :: "string \<Rightarrow> verdict option" where
  "verdict_of_code s = List.find (\<lambda>v. verdict_code v = s) all_verdicts"

text \<open>\<open>if status not in SubmissionResult.values: status = SubmissionResult.IR\<close>\<close>

definition normalise_verdict :: "string \<Rightarrow> verdict" where
  "normalise_verdict s = (case verdict_of_code s of Some v \<Rightarrow> v | None \<Rightarrow> IR)"

lemma verdict_of_code_code [simp]: "verdict_of_code (verdict_code v) = Some v"
  by (cases v) (simp_all add: verdict_of_code_def all_verdicts_def)

lemma normalise_verdict_code [simp]: "normalise_verdict (verdict_code v) = v"
  by (simp add: normalise_verdict_def)

lemma verdict_code_inject [simp]: "verdict_code v = verdict_code w \<longleftrightarrow> v = w"
  by (metis verdict_of_code_code option.inject)

text \<open>The stored codes of \<open>JudgeJobStatus\<close> and of \<open>SubmissionMode\<close>.\<close>

fun job_status_code :: "job_status \<Rightarrow> string" where
  "job_status_code Job_QUEUED = ''queued''"
| "job_status_code Job_CLAIMED = ''claimed''"
| "job_status_code Job_RUNNING = ''running''"
| "job_status_code Job_SUCCEEDED = ''succeeded''"
| "job_status_code Job_FAILED = ''failed''"
| "job_status_code Job_EXPIRED = ''expired''"
| "job_status_code Job_CANCELLED = ''cancelled''"

fun mode_code :: "sub_mode \<Rightarrow> string" where
  "mode_code Mode_SUBMIT = ''submit''"
| "mode_code Mode_RUN = ''run''"

section \<open>Packages\<close>

text \<open>
  The manifest of a package, by the entries the services read. An option is an entry that may be
  absent or null, which the code reads with \<open>.get(key, default)\<close> or \<open>or\<close>.
\<close>

record mcase =
  mc_points :: "rat option"
  mc_group :: "string option"

record mgroup =
  mg_id :: "string option"
  mg_mode :: "string option"
  mg_points :: "rat option"

record manifest =
  m_cases :: "mcase list"
  m_groups :: "mgroup list"
  m_partial_score :: "bool option"
  m_short_circuit :: "bool option"
  m_time_limit :: "rat option"
  m_memory_limit :: "int option"
  m_checker :: "json option"
  m_output_prefix :: "json option"

definition empty_manifest :: manifest where
  "empty_manifest = \<lparr>m_cases = [], m_groups = [], m_partial_score = None, m_short_circuit = None,
     m_time_limit = None, m_memory_limit = None, m_checker = None,
     m_output_prefix = None\<rparr>"

record package =
  pk_id :: nat
  pk_problem :: nat
  pk_version :: nat
  pk_sha256 :: string
  pk_manifest :: manifest
  pk_is_active :: bool

section \<open>Users, organizations, languages, problems\<close>

datatype user_role = Role_PARTICIPANT | Role_PROBLEM_SETTER | Role_JUDGE | Role_ADMIN

text \<open>The password is the encoded one; \<open>u_full_name\<close> is \<open>get_full_name()\<close> of Django's two name columns.\<close>

record user =
  u_id :: nat
  u_username :: string
  u_email :: string
  u_is_active :: bool
  u_is_staff :: bool
  u_is_superuser :: bool
  u_is_banned :: bool
  u_ban_reason :: string
  u_token_version :: nat
  u_organizations :: "nat list"
  u_rating :: int
  u_max_rating :: int
  u_points :: rat
  u_performance_points :: rat
  u_problem_count :: nat
  u_password :: string
  u_full_name :: string
  u_role :: user_role
  u_timezone :: string
  u_language :: string
  u_theme :: string
  u_display_rank :: string
  u_about :: string
  u_notes :: string
  u_is_totp_enabled :: bool
  u_mfa_enabled :: bool
  u_api_token :: "string option"

record language =
  l_id :: nat
  l_key :: string
  l_is_enabled :: bool
  l_name :: string
  l_short_name :: string
  l_ace_mode :: string
  l_pygments_name :: string
  l_description :: string
  l_extension :: string

record problem =
  p_id :: nat
  p_code :: string
  p_authors :: "nat list"
  p_curators :: "nat list"
  p_testers :: "nat list"
  p_time_limit :: rat
  p_memory_limit :: int
  p_points :: rat
  p_partial_score :: bool
  p_short_circuit :: bool
  p_languages_allowed :: "nat list"
  p_visibility :: problem_visibility
  p_is_organization_private :: bool
  p_organizations :: "nat list"
  p_name :: string
  p_slug :: string
  p_description :: string
  p_difficulty :: "string option"
  p_source :: string
  p_summary :: string

record language_limit =
  ll_problem :: nat
  ll_language :: nat
  ll_time_limit :: rat
  ll_memory_limit :: int

section \<open>Judges and jobs\<close>

record judge =
  j_id :: nat
  j_name :: string
  j_token_hash :: "string option"
  j_protocol_version :: int
  j_capabilities :: json
  j_online :: bool
  j_start_time :: "time option"
  j_last_seen :: "time option"
  j_ping :: "rat option"
  j_load :: "rat option"
  j_current_load :: rat
  j_is_blocked :: bool
  j_updated_at :: time
  j_hostname :: string
  j_description :: string
  j_last_ip :: "string option"
  j_runtimes :: "nat list"
  j_problems :: "nat list"
  j_auth_key :: string

text \<open>The limits and scoring mode a job snapshots (\<open>JudgeJob.config\<close>); an option is a key that the
  dictionary may not have.\<close>

record job_config =
  cf_time_limit :: "rat option"
  cf_memory_limit :: "int option"
  cf_short_circuit :: "bool option"
  cf_partial_score :: "bool option"
  cf_mode :: "sub_mode option"
  cf_custom_input :: "string option"
  cf_expected_output :: "string option"
  cf_contest_points :: "rat option"

record judge_job =
  jj_id :: nat
  jj_submission :: nat
  jj_package :: "nat option"
  jj_language :: nat
  jj_status :: job_status
  jj_priority :: int
  jj_claimed_by :: "nat option"
  jj_lease_expires_at :: "time option"
  jj_attempts :: nat
  jj_max_attempts :: nat
  jj_config :: job_config
  jj_last_error :: string
  jj_claimed_at :: "time option"
  jj_started_at :: "time option"
  jj_finished_at :: "time option"
  jj_created_at :: time

text \<open>One entry of a worker's batch (\<open>JudgeCaseIn\<close> of \<open>judge/api/gateway_schemas.py\<close>).\<close>

record case_in =
  ci_case_number :: int
  ci_status :: string
  ci_time_used :: rat
  ci_memory_used :: int
  ci_points :: rat
  ci_total_points :: rat
  ci_feedback :: string
  ci_output :: string

text \<open>A non-scoring replay of a submission.\<close>

record shadow_job =
  sh_id :: nat
  sh_submission :: nat
  sh_package :: "nat option"
  sh_language :: nat
  sh_target_judge :: "nat option"
  sh_status :: job_status
  sh_priority :: int
  sh_claimed_by :: "nat option"
  sh_lease_expires_at :: "time option"
  sh_attempts :: nat
  sh_max_attempts :: nat
  sh_config :: job_config
  sh_case_results :: "case_in list"
  sh_result :: string
  sh_total_points :: rat
  sh_case_total :: nat
  sh_case_passed :: nat
  sh_error_message :: string
  sh_claimed_at :: "time option"
  sh_started_at :: "time option"
  sh_finished_at :: "time option"
  sh_created_at :: time

section \<open>Submissions\<close>

record submission =
  s_id :: nat
  s_user :: nat
  s_problem :: nat
  s_language :: nat
  s_time_used :: rat
  s_memory_used :: int
  s_points :: rat
  s_result :: "verdict option"
  s_status :: sub_status
  s_subtask_scores :: "(string, rat) dict"
  s_case_total :: int
  s_case_passed :: int
  s_current_testcase :: int
  s_error_message :: string
  s_contest_participation :: "nat option"
  s_is_public :: bool
  s_share_token :: "nat option"
  s_mode :: sub_mode
  s_custom_input :: string
  s_custom_expected_output :: string
  s_judged_on :: "nat option"
  s_judged_at :: "time option"
  s_created_at :: time

record submission_source =
  src_submission :: nat
  src_code :: string

record test_case =
  t_submission :: nat
  t_case_number :: int
  t_status :: verdict
  t_time_used :: rat
  t_memory_used :: int
  t_points :: rat
  t_total_points :: rat
  t_group :: string
  t_feedback :: string
  t_output :: string

section \<open>Contests\<close>

record contest =
  c_id :: nat
  c_key :: string
  c_name :: string
  c_description :: string
  c_start_time :: time
  c_end_time :: time
  c_time_limit :: "time option"
  c_visibility :: contest_visibility
  c_is_rated :: bool
  c_rate_all :: bool
  c_rate_exclude :: "nat list"
  c_rating_floor :: "int option"
  c_rating_ceiling :: "int option"
  c_organizers :: "nat list"
  c_curators :: "nat list"
  c_testers :: "nat list"
  c_organizations :: "nat list"
  c_format_name :: string
  c_format_config :: "(string, json) dict"
  c_scoreboard_frozen_after :: "time option"
  c_points_precision :: nat
  c_access_code :: "string option"
  c_banned_users :: "nat list"
  c_is_visible :: bool
  c_started_at :: "time option"
  c_ended_at :: "time option"

record contest_problem =
  cp_id :: nat
  cp_contest :: nat
  cp_problem :: nat
  cp_order :: int
  cp_label :: string
  cp_points :: rat
  cp_partial_score :: bool
  cp_output_prefix_override :: "int option"
  cp_max_submissions :: "nat option"

record participation =
  pa_id :: nat
  pa_contest :: nat
  pa_user :: nat
  pa_status :: participation_status
  pa_virtual_start :: "time option"
  pa_score :: rat
  pa_cumulative_time :: time
  pa_tiebreaker :: rat
  pa_is_disqualified :: bool
  pa_format_data :: json

section \<open>Ratings\<close>

text \<open>One rated participation. The float columns of the rating system are reals.\<close>

record rating =
  rt_id :: nat
  rt_user :: nat
  rt_contest :: nat
  rt_participation :: nat
  rt_rank :: int
  rt_rating_before :: int
  rt_rating_after :: int
  rt_mean :: real
  rt_volatility_before :: int
  rt_volatility_after :: int
  rt_performance :: real
  rt_created_at :: time

section \<open>Events\<close>

text \<open>An event handed to \<open>publish_sync\<close>, with the channel group it is addressed to.\<close>

record event =
  ev_type :: string
  ev_payload :: "(string, json) dict"
  ev_group :: "string option"

text \<open>\<open>ev_group\<close> is the group a caller names; without one \<open>_derive_channel\<close> takes the plural of the first
  part of the event type.\<close>

definition derive_channel :: "string \<Rightarrow> string" where
  "derive_channel ty = (let namespace = hd (split_on (CHR ''.'') ty)
     in if namespace \<noteq> [] \<and> last namespace = CHR ''s'' then namespace else namespace @ ''s'')"

definition resolved_group :: "event \<Rightarrow> string" where
  "resolved_group e = (case ev_group e of
     Some g \<Rightarrow> if g \<noteq> [] then g else derive_channel (ev_type e) | None \<Rightarrow> derive_channel (ev_type e))"

section \<open>The database\<close>

text \<open>
  The tables, and the log of the events published so far. A handler is a function from the
  database to a result holding the new database: a transaction that raises leaves no trace, since
  the \<open>Inl\<close> branch carries no state.
\<close>

record db =
  db_users :: "user list"
  db_languages :: "language list"
  db_problems :: "problem list"
  db_language_limits :: "language_limit list"
  db_packages :: "package list"
  db_judges :: "judge list"
  db_jobs :: "judge_job list"
  db_shadow_jobs :: "shadow_job list"
  db_submissions :: "submission list"
  db_sources :: "submission_source list"
  db_test_cases :: "test_case list"
  db_contests :: "contest list"
  db_contest_problems :: "contest_problem list"
  db_participations :: "participation list"
  db_ratings :: "rating list"
  db_events :: "event list"

definition empty_db :: db where
  "empty_db = \<lparr>db_users = [], db_languages = [], db_problems = [], db_language_limits = [],
     db_packages = [], db_judges = [], db_jobs = [], db_shadow_jobs = [], db_submissions = [], db_sources = [],
     db_test_cases = [], db_contests = [], db_contest_problems = [], db_participations = [], db_ratings = [],
     db_events = []\<rparr>"

definition publish :: "event \<Rightarrow> db \<Rightarrow> db" where
  "publish e d = d\<lparr>db_events := db_events d @ [e]\<rparr>"

abbreviation get_job :: "nat \<Rightarrow> db \<Rightarrow> judge_job option" where
  "get_job i d \<equiv> row_get jj_id i (db_jobs d)"

abbreviation get_submission_row :: "nat \<Rightarrow> db \<Rightarrow> submission option" where
  "get_submission_row i d \<equiv> row_get s_id i (db_submissions d)"

abbreviation get_package :: "nat \<Rightarrow> db \<Rightarrow> package option" where
  "get_package i d \<equiv> row_get pk_id i (db_packages d)"

abbreviation get_participation :: "nat \<Rightarrow> db \<Rightarrow> participation option" where
  "get_participation i d \<equiv> row_get pa_id i (db_participations d)"

abbreviation get_contest :: "nat \<Rightarrow> db \<Rightarrow> contest option" where
  "get_contest i d \<equiv> row_get c_id i (db_contests d)"

abbreviation get_judge_row :: "nat \<Rightarrow> db \<Rightarrow> judge option" where
  "get_judge_row i d \<equiv> row_get j_id i (db_judges d)"

text \<open>Settings and third-party functions the code calls: configuration values, the integer
  coercion of the pydantic models, and SHA-256.\<close>

record env =
  e_coerce_int :: "json \<Rightarrow> int option"
  e_sha256_hex :: "string \<Rightarrow> string"
  e_run_rate_limit :: nat
  e_submission_rate_limit :: nat
  e_max_submission_size :: nat
  e_rating_floor :: int
  e_rating_ceiling :: int

section \<open>New rows\<close>

text \<open>Rows with the field defaults of the models, and one instance of the parameters.\<close>

definition new_user :: "nat \<Rightarrow> user" where
  "new_user i = \<lparr>u_id = i, u_username = ''user'' @ show_nat i, u_email = [], u_is_active = True, u_is_staff = False,
     u_is_superuser = False, u_is_banned = False, u_ban_reason = [], u_token_version = 0,
     u_organizations = [], u_rating = 0, u_max_rating = 0, u_points = 0, u_performance_points = 0,
     u_problem_count = 0, u_password = [], u_full_name = [], u_role = Role_PARTICIPANT, u_timezone = ''UTC'',
     u_language = ''en'', u_theme = ''system'', u_display_rank = [], u_about = [], u_notes = [],
     u_is_totp_enabled = False, u_mfa_enabled = False, u_api_token = None\<rparr>"

definition new_problem :: "nat \<Rightarrow> problem" where
  "new_problem i = \<lparr>p_id = i, p_code = ''p'' @ show_nat i, p_authors = [], p_curators = [], p_testers = [],
     p_time_limit = 2, p_memory_limit = 262144, p_points = 0, p_partial_score = False, p_short_circuit = False,
     p_languages_allowed = [], p_visibility = Prob_PRIVATE, p_is_organization_private = False, p_organizations = [],
     p_name = [], p_slug = [], p_description = [], p_difficulty = None, p_source = [], p_summary = []\<rparr>"

definition new_judge :: "nat \<Rightarrow> time \<Rightarrow> judge" where
  "new_judge i now = \<lparr>j_id = i, j_name = ''judge'' @ show_nat i, j_token_hash = None, j_protocol_version = 1,
     j_capabilities = JObj [], j_online = False, j_start_time = None, j_last_seen = None, j_ping = None,
     j_load = None, j_current_load = 0, j_is_blocked = False, j_updated_at = now,
     j_hostname = [], j_description = [], j_last_ip = None, j_runtimes = [], j_problems = [], j_auth_key = []\<rparr>"

definition empty_config :: job_config where
  "empty_config = \<lparr>cf_time_limit = None, cf_memory_limit = None, cf_short_circuit = None, cf_partial_score = None,
     cf_mode = None, cf_custom_input = None, cf_expected_output = None, cf_contest_points = None\<rparr>"

definition new_job :: "nat \<Rightarrow> nat \<Rightarrow> nat option \<Rightarrow> nat \<Rightarrow> time \<Rightarrow> judge_job" where
  "new_job i sub pkg lang now = \<lparr>jj_id = i, jj_submission = sub, jj_package = pkg, jj_language = lang,
     jj_status = Job_QUEUED, jj_priority = 0, jj_claimed_by = None, jj_lease_expires_at = None, jj_attempts = 0,
     jj_max_attempts = 3, jj_config = empty_config, jj_last_error = [], jj_claimed_at = None,
     jj_started_at = None, jj_finished_at = None, jj_created_at = now\<rparr>"

definition new_submission :: "nat \<Rightarrow> nat \<Rightarrow> nat \<Rightarrow> nat \<Rightarrow> time \<Rightarrow> submission" where
  "new_submission i uid prob lang now = \<lparr>s_id = i, s_user = uid, s_problem = prob, s_language = lang,
     s_time_used = 0, s_memory_used = 0, s_points = 0, s_result = None, s_status = Sub_QUEUED,
     s_subtask_scores = [], s_case_total = 0, s_case_passed = 0, s_current_testcase = 0,
     s_error_message = [], s_contest_participation = None, s_is_public = False, s_share_token = None,
     s_mode = Mode_SUBMIT, s_custom_input = [], s_custom_expected_output = [], s_judged_on = None,
     s_judged_at = None, s_created_at = now\<rparr>"

definition new_contest :: "nat \<Rightarrow> string \<Rightarrow> time \<Rightarrow> time \<Rightarrow> contest" where
  "new_contest i key start end_time = \<lparr>c_id = i, c_key = key, c_name = key, c_description = [], c_start_time = start, c_end_time = end_time,
     c_time_limit = None, c_visibility = Con_PRIVATE, c_is_rated = False, c_rate_all = False, c_rate_exclude = [],
     c_rating_floor = None, c_rating_ceiling = None, c_organizers = [], c_curators = [], c_testers = [],
     c_organizations = [], c_format_name = ''default'', c_format_config = [], c_scoreboard_frozen_after = None, c_points_precision = 2,
     c_access_code = None, c_banned_users = [], c_is_visible = True, c_started_at = None, c_ended_at = None\<rparr>"

definition new_contest_problem :: "nat \<Rightarrow> nat \<Rightarrow> nat \<Rightarrow> int \<Rightarrow> string \<Rightarrow> rat \<Rightarrow> contest_problem" where
  "new_contest_problem i con prob ord label pts = \<lparr>cp_id = i, cp_contest = con, cp_problem = prob, cp_order = ord,
     cp_label = label, cp_points = pts, cp_partial_score = False, cp_output_prefix_override = None, cp_max_submissions = None\<rparr>"

definition new_participation :: "nat \<Rightarrow> nat \<Rightarrow> nat \<Rightarrow> participation" where
  "new_participation i con uid = \<lparr>pa_id = i, pa_contest = con, pa_user = uid, pa_status = Part_LIVE,
     pa_virtual_start = None, pa_score = 0, pa_cumulative_time = 0, pa_tiebreaker = 0,
     pa_is_disqualified = False, pa_format_data = JObj []\<rparr>"

definition sample_env :: env where
  "sample_env = \<lparr>e_coerce_int = (\<lambda>j. case j of JInt n \<Rightarrow> Some n | _ \<Rightarrow> None), e_sha256_hex = (\<lambda>s. s),
     e_run_rate_limit = 10, e_submission_rate_limit = 30, e_max_submission_size = 65536,
     e_rating_floor = 0, e_rating_ceiling = 4000\<rparr>"

text \<open>The job table and the submission table are keyed tables.\<close>

interpretation jobs_table: keyed_rows jj_id "row_get jj_id" "row_put jj_id"
  by unfold_locales (auto dest: row_get_SomeD row_get_NoneD simp: row_get_put keys_row_put)

interpretation submissions_table: keyed_rows s_id "row_get s_id" "row_put s_id"
  by unfold_locales (auto dest: row_get_SomeD row_get_NoneD simp: row_get_put keys_row_put)

interpretation participations_table: keyed_rows pa_id "row_get pa_id" "row_put pa_id"
  by unfold_locales (auto dest: row_get_SomeD row_get_NoneD simp: row_get_put keys_row_put)

end
