(* ===== verification/Scoring.thy ===== *)
theory Scoring
  imports Model
begin

text \<open>
  \<open>apps/judge/services/scoring_service.py\<close>: the server-side score of a submission, recomputed from
  the per-case results and the case and group definitions of the package. The three loops of
  \<open>ScoringService.score\<close> are folds over the same dictionaries; the section on the reference
  definition shows what they compute, group by group.
\<close>

section \<open>The service\<close>

record score_summary =
  sum_points :: rat
  sum_subtask_scores :: "(string, rat) dict"
  sum_result :: verdict
  sum_status :: sub_status
  sum_case_total :: int
  sum_case_passed :: int
  sum_time_used :: rat
  sum_memory_used :: int

text \<open>One entry of the \<open>cases\<close> argument; an option is a value read with \<open>.get\<close> or \<open>or\<close>.\<close>

record case_report =
  cr_case_number :: int
  cr_status :: string
  cr_time_used :: "rat option"
  cr_memory_used :: "int option"
  cr_points :: "rat option"
  cr_total_points :: "rat option"

text \<open>\<open>float(x.get(key, 0) or 0)\<close>\<close>

definition num_or_0 :: "'a::zero option \<Rightarrow> 'a" where
  "num_or_0 x = (case x of Some v \<Rightarrow> v | None \<Rightarrow> 0)"

text \<open>\<open>case_by_number.get(n)\<close>, where \<open>case_by_number\<close> numbers the manifest cases from 1.\<close>

definition case_by_number :: "mcase list \<Rightarrow> int \<Rightarrow> mcase option" where
  "case_by_number cs n = (if 1 \<le> n \<and> n \<le> int (length cs) then Some (cs ! nat (n - 1)) else None)"

definition default_group :: "mcase list \<Rightarrow> mgroup" where
  "default_group cs = \<lparr>mg_id = Some ''default'',
     mg_mode = Some ''sum'', mg_points = Some (sum_list (map (\<lambda>c. num_or_0 (mc_points c)) cs))\<rparr>"

text \<open>\<open>manifest.get("groups") or [default]\<close>\<close>

definition groups_of :: "manifest \<Rightarrow> mgroup list" where
  "groups_of m = (if m_groups m = [] then [default_group (m_cases m)] else m_groups m)"

definition group_id :: "mgroup \<Rightarrow> string" where
  "group_id g = (case mg_id g of Some i \<Rightarrow> i | None \<Rightarrow> ''default'')"

definition group_defs :: "mgroup list \<Rightarrow> (string, mgroup) dict" where
  "group_defs gs = fold (\<lambda>g d. AList.update (group_id g) g d) gs []"

text \<open>The group a manifest case scores in: its own, or the fallback when no group has that id.\<close>

definition resolve_group :: "(string, mgroup) dict \<Rightarrow> mcase \<Rightarrow> string" where
  "resolve_group defs c =
     (let g = (case mc_group c of Some g \<Rightarrow> g | None \<Rightarrow> ''default'')
      in if g \<in> set (map fst defs) then g
         else if ''default'' \<in> set (map fst defs) then ''default''
         else case defs of [] \<Rightarrow> ''default'' | (k, _) # _ \<Rightarrow> k)"

text \<open>The points one reported case earns: \<open>round(maximum * ratio, 4)\<close>.\<close>

definition case_score :: "mcase \<Rightarrow> case_report \<Rightarrow> rat" where
  "case_score mc r =
     (let status = normalise_verdict (cr_status r);
          maximum = num_or_0 (mc_points mc);
          reported0 = num_or_0 (cr_points r);
          reported_total = (case cr_total_points r of None \<Rightarrow> maximum
                            | Some t \<Rightarrow> if t = 0 then maximum else t);
          reported1 = (if status \<notin> {AC, PARTIAL} then 0 else reported0);
          reported = (if status = AC \<and> reported1 \<le> 0
                      then (if reported_total \<noteq> 0 then reported_total else maximum) else reported1);
          ratio = (if reported_total > 0 then min (max (reported / reported_total) 0) 1
                   else if status = AC then 1 else 0)
      in round_to 4 (maximum * ratio))"

record score_state =
  st_case_scores :: "(string, rat list) dict"
  st_statuses :: "(int, verdict) dict"
  st_time_used :: rat
  st_memory_used :: int
  st_case_passed :: int

definition append_score :: "string \<Rightarrow> rat \<Rightarrow> (string, rat list) dict \<Rightarrow> (string, rat list) dict" where
  "append_score g x d = dict_modify g [] (\<lambda>xs. xs @ [x]) d"

text \<open>One iteration of the first loop (\<open>for case in cases\<close>).\<close>

definition score_case :: "mcase list \<Rightarrow> (string, mgroup) dict \<Rightarrow> case_report \<Rightarrow> score_state \<Rightarrow> score_state" where
  "score_case mcs defs r st =
     (case case_by_number mcs (cr_case_number r) of
        None \<Rightarrow> st
      | Some mc \<Rightarrow>
          (let status = normalise_verdict (cr_status r)
           in \<lparr>st_case_scores = append_score (resolve_group defs mc) (case_score mc r) (st_case_scores st),
               st_statuses = AList.update (cr_case_number r) status (st_statuses st),
               st_time_used = max (st_time_used st) (num_or_0 (cr_time_used r)),
               st_memory_used = max (st_memory_used st) (num_or_0 (cr_memory_used r)),
               st_case_passed = (if status = AC then st_case_passed st + 1 else st_case_passed st)\<rparr>))"

definition init_score_state :: "(string, mgroup) dict \<Rightarrow> score_state" where
  "init_score_state defs = \<lparr>st_case_scores = map (\<lambda>(k, _). (k, [])) defs, st_statuses = [],
     st_time_used = 0, st_memory_used = 0, st_case_passed = 0\<rparr>"

text \<open>One iteration of the second loop: a manifest case nobody reported scores 0.\<close>

definition score_missing ::
    "(string, mgroup) dict \<Rightarrow> (int, verdict) dict \<Rightarrow> int \<times> mcase \<Rightarrow> (string, rat list) dict \<Rightarrow> (string, rat list) dict" where
  "score_missing defs sts nc d =
     (if fst nc \<in> set (map fst sts) then d else append_score (resolve_group defs (snd nc)) 0 d)"

definition numbered :: "mcase list \<Rightarrow> (int \<times> mcase) list" where
  "numbered mcs = zip (map int [1..<Suc (length mcs)]) mcs"

definition group_cap :: "mgroup \<Rightarrow> rat" where
  "group_cap g = max 0 (num_or_0 (mg_points g))"

definition min_score :: "rat list \<Rightarrow> rat" where
  "min_score xs = foldr min xs (hd xs)"

text \<open>One iteration of the third loop: a group's score from the scores of its cases.\<close>

definition subtask_score :: "(string, mgroup) dict \<Rightarrow> string \<Rightarrow> rat list \<Rightarrow> rat" where
  "subtask_score defs gid scores =
     (let group = (case map_of defs gid of Some g \<Rightarrow> g
                   | None \<Rightarrow> \<lparr>mg_id = Some gid, mg_mode = Some ''sum'', mg_points = None\<rparr>);
          mode = (case mg_mode group of Some m \<Rightarrow> m | None \<Rightarrow> ''sum'');
          score = (if scores = [] then 0 else if mode = ''min'' then min_score scores else sum_list scores)
      in round_to 4 (min score (group_cap group)))"

definition aggregate_result :: "verdict set \<Rightarrow> rat \<Rightarrow> rat \<Rightarrow> int \<Rightarrow> int \<Rightarrow> verdict" where
  "aggregate_result vs points total_possible case_total case_passed =
     (if CE \<in> vs then CE
      else if IE \<in> vs then IE
      else case List.find (\<lambda>v. v \<in> vs) [TLE, MLE, RTE, OLE] of
        Some v \<Rightarrow> v
      | None \<Rightarrow>
          if case_total > 0 \<and> case_passed = case_total \<and> (total_possible \<le> 0 \<or> points \<ge> total_possible)
          then AC else if points > 0 then PARTIAL else WA)"

definition total_possible :: "manifest \<Rightarrow> rat" where
  "total_possible m = sum_list (map (\<lambda>g. num_or_0 (mg_points g)) (groups_of m))"

text \<open>The state after the first loop, and the case scores after the second.\<close>

definition reported_state :: "manifest \<Rightarrow> case_report list \<Rightarrow> score_state" where
  "reported_state m cases =
     (let defs = group_defs (groups_of m)
      in fold (score_case (m_cases m) defs) cases (init_score_state defs))"

definition all_case_scores :: "manifest \<Rightarrow> case_report list \<Rightarrow> (string, rat list) dict" where
  "all_case_scores m cases =
     (let defs = group_defs (groups_of m); st = reported_state m cases
      in fold (score_missing defs (st_statuses st)) (numbered (m_cases m)) (st_case_scores st))"

definition subtask_scores :: "manifest \<Rightarrow> case_report list \<Rightarrow> (string, rat) dict" where
  "subtask_scores m cases =
     (let defs = group_defs (groups_of m)
      in map (\<lambda>(gid, scores). (gid, subtask_score defs gid scores)) (all_case_scores m cases))"

definition score :: "manifest \<Rightarrow> case_report list \<Rightarrow> score_summary" where
  "score m cases =
     (let st = reported_state m cases;
          subs = subtask_scores m cases;
          points = round_to 2 (sum_list (map snd subs));
          case_total = (if m_cases m \<noteq> [] then int (length (m_cases m)) else int (length cases));
          result = aggregate_result (snd ` set (st_statuses st)) points (total_possible m)
                     case_total (st_case_passed st);
          zeroed = (\<not> (case m_partial_score m of Some b \<Rightarrow> b | None \<Rightarrow> False) \<and> result \<notin> {AC, CE, IE});
          result' = (if zeroed \<and> result = PARTIAL then WA else result)
      in \<lparr>sum_points = (if zeroed then 0 else points),
          sum_subtask_scores = (if zeroed then map (\<lambda>(g, _). (g, 0)) subs else subs),
          sum_result = result',
          sum_status = (if result' \<in> {CE, IE} then Sub_ERROR else Sub_COMPLETED),
          sum_case_total = case_total,
          sum_case_passed = st_case_passed st,
          sum_time_used = st_time_used st,
          sum_memory_used = st_memory_used st\<rparr>)"

section \<open>What the dictionary loops compute\<close>

text \<open>The scores collected for a group so far.\<close>

definition dget :: "(string, rat list) dict \<Rightarrow> string \<Rightarrow> rat list" where
  "dget d g = (case map_of d g of Some xs \<Rightarrow> xs | None \<Rightarrow> [])"

lemma dget_append_score [simp]:
  "dget (append_score g x d) g' = (if g' = g then dget d g' @ [x] else dget d g')"
  by (simp add: dget_def append_score_def map_of_dict_modify)

lemma append_score_keys [simp]:
  "g \<in> set (map fst d) \<Longrightarrow> map fst (append_score g x d) = map fst d"
  unfolding append_score_def by (rule dict_modify_keys)

lemma update_nonempty [simp]: "AList.update k v d \<noteq> []"
  by (cases d) auto

lemma group_defs_nonempty: "gs \<noteq> [] \<Longrightarrow> group_defs gs \<noteq> []"
proof -
  have "d \<noteq> [] \<Longrightarrow> fold (\<lambda>g d. AList.update (group_id g) g d) hs d \<noteq> []" for hs d
    by (induction hs arbitrary: d) auto
  then show "gs \<noteq> [] \<Longrightarrow> group_defs gs \<noteq> []"
    by (cases gs) (auto simp: group_defs_def)
qed

lemma groups_of_nonempty [simp]: "groups_of m \<noteq> []"
  by (simp add: groups_of_def)

lemma resolve_group_in: "defs \<noteq> [] \<Longrightarrow> resolve_group defs c \<in> set (map fst defs)"
  by (cases defs) (auto simp: resolve_group_def Let_def)

lemma group_defs_keys: "set (map fst (group_defs gs)) = group_id ` set gs"
proof -
  have "set (map fst (fold (\<lambda>g d. AList.update (group_id g) g d) hs d)) = set (map fst d) \<union> group_id ` set hs"
    for hs d
    by (induction hs arbitrary: d) auto
  then show ?thesis by (simp add: group_defs_def)
qed

lemma group_defs_distinct: "distinct (map fst (group_defs gs))"
proof -
  have "distinct (map fst d) \<Longrightarrow> distinct (map fst (fold (\<lambda>g d. AList.update (group_id g) g d) hs d))"
    for hs d
    by (induction hs arbitrary: d) (auto simp: distinct_update)
  then show ?thesis by (simp add: group_defs_def)
qed

text \<open>The reference: the reports of a group in order, and its unreported cases.\<close>

definition group_report_scores :: "mcase list \<Rightarrow> (string, mgroup) dict \<Rightarrow> case_report list \<Rightarrow> string \<Rightarrow> rat list" where
  "group_report_scores mcs defs cases gid =
     concat (map (\<lambda>r. case case_by_number mcs (cr_case_number r) of
                        None \<Rightarrow> []
                      | Some mc \<Rightarrow> if resolve_group defs mc = gid then [case_score mc r] else []) cases)"

definition reported_numbers :: "mcase list \<Rightarrow> case_report list \<Rightarrow> int set" where
  "reported_numbers mcs cases =
     {cr_case_number r |r. r \<in> set cases \<and> case_by_number mcs (cr_case_number r) \<noteq> None}"

definition group_missing_count :: "mcase list \<Rightarrow> (string, mgroup) dict \<Rightarrow> case_report list \<Rightarrow> string \<Rightarrow> nat" where
  "group_missing_count mcs defs cases gid =
     length (filter (\<lambda>nc. fst nc \<notin> reported_numbers mcs cases \<and> resolve_group defs (snd nc) = gid) (numbered mcs))"

definition spec_group_scores :: "manifest \<Rightarrow> case_report list \<Rightarrow> string \<Rightarrow> rat list" where
  "spec_group_scores m cases gid =
     group_report_scores (m_cases m) (group_defs (groups_of m)) cases gid
     @ replicate (group_missing_count (m_cases m) (group_defs (groups_of m)) cases gid) 0"

lemma score_case_keys:
  assumes "defs \<noteq> []" and "map fst (st_case_scores st) = map fst defs"
  shows "map fst (st_case_scores (score_case mcs defs r st)) = map fst defs"
  using assms resolve_group_in [OF assms(1)]
  by (auto simp: score_case_def Let_def split: option.splits simp del: set_map)

lemma fold_score_case:
  assumes "defs \<noteq> []" and "map fst (st_case_scores st) = map fst defs"
  shows "dget (st_case_scores (fold (score_case mcs defs) cases st)) gid =
           dget (st_case_scores st) gid @ group_report_scores mcs defs cases gid
         \<and> map fst (st_case_scores (fold (score_case mcs defs) cases st)) = map fst defs
         \<and> set (map fst (st_statuses (fold (score_case mcs defs) cases st))) =
             set (map fst (st_statuses st)) \<union> reported_numbers mcs cases"
  using assms(2)
proof (induction cases arbitrary: st)
  case Nil
  then show ?case by (simp add: group_report_scores_def reported_numbers_def)
next
  case (Cons r cases)
  let ?st = "score_case mcs defs r st"
  have keys: "map fst (st_case_scores ?st) = map fst defs"
    using assms(1) Cons.prems by (rule score_case_keys)
  have nums: "reported_numbers mcs (r # cases) =
      (if case_by_number mcs (cr_case_number r) = None then {} else {cr_case_number r}) \<union> reported_numbers mcs cases"
    by (auto simp: reported_numbers_def)
  have "dget (st_case_scores ?st) gid =
          dget (st_case_scores st) gid @ group_report_scores mcs defs [r] gid"
    by (auto simp: score_case_def Let_def group_report_scores_def split: option.splits)
  moreover have "set (map fst (st_statuses ?st)) = set (map fst (st_statuses st)) \<union>
      (if case_by_number mcs (cr_case_number r) = None then {} else {cr_case_number r})"
    by (auto simp: score_case_def Let_def split: option.splits)
  ultimately show ?case
    using Cons.IH [OF keys] nums by (auto simp: group_report_scores_def simp del: set_map)
qed

lemma fold_score_missing:
  assumes "defs \<noteq> []" and "map fst d = map fst defs"
  shows "dget (fold (score_missing defs sts) ncs d) gid = dget d gid @ replicate
           (length (filter (\<lambda>nc. fst nc \<notin> set (map fst sts) \<and> resolve_group defs (snd nc) = gid) ncs)) 0
         \<and> map fst (fold (score_missing defs sts) ncs d) = map fst defs"
  using assms(2)
proof (induction ncs arbitrary: d)
  case (Cons nc ncs)
  have keys: "map fst (score_missing defs sts nc d) = map fst defs"
    using Cons.prems resolve_group_in [OF assms(1)] by (simp add: score_missing_def del: set_map)
  show ?case
    using Cons.IH [OF keys] by (auto simp: score_missing_def replicate_app_Cons_same simp del: set_map)
qed simp

lemma init_keys [simp]: "map fst (st_case_scores (init_score_state defs)) = map fst defs"
  by (auto simp: init_score_state_def)

lemma init_dget [simp]: "dget (st_case_scores (init_score_state defs)) g = []"
proof -
  have "map_of (map (\<lambda>(k, _). (k, [])) defs) g = Some xs \<Longrightarrow> xs = []" for xs :: "rat list"
    by (auto dest!: map_of_SomeD)
  then show ?thesis by (auto simp: init_score_state_def dget_def split: option.splits)
qed

lemma init_statuses [simp]: "st_statuses (init_score_state defs) = []"
  by (simp add: init_score_state_def)

lemma reported_state_facts:
  "dget (st_case_scores (reported_state m cases)) gid =
     group_report_scores (m_cases m) (group_defs (groups_of m)) cases gid
   \<and> map fst (st_case_scores (reported_state m cases)) = map fst (group_defs (groups_of m))
   \<and> set (map fst (st_statuses (reported_state m cases))) = reported_numbers (m_cases m) cases"
  using fold_score_case [OF group_defs_nonempty [OF groups_of_nonempty], of "init_score_state _" m]
  by (simp add: reported_state_def Let_def del: set_map)

lemma all_case_scores_facts:
  "dget (all_case_scores m cases) gid = spec_group_scores m cases gid
   \<and> map fst (all_case_scores m cases) = map fst (group_defs (groups_of m))"
  using fold_score_missing [OF group_defs_nonempty [OF groups_of_nonempty], of "st_case_scores (reported_state m cases)" m]
        reported_state_facts [of m cases]
  by (simp add: all_case_scores_def Let_def spec_group_scores_def group_missing_count_def del: set_map)

lemma subtask_keys: "map fst (subtask_scores m cases) = map fst (group_defs (groups_of m))"
  using all_case_scores_facts [of m cases] by (simp add: subtask_scores_def Let_def case_prod_beta comp_def)

lemma map_of_map_value: "map_of (map (\<lambda>(k, v). (k, f k v)) d) k = map_option (f k) (map_of d k)"
  by (induction d) auto


section \<open>The reference definition of the subtask scores\<close>


lemma min_score_Min: "xs \<noteq> [] \<Longrightarrow> min_score xs = Min (set xs)"
proof -
  have f: "foldr min ys a = Min (insert a (set ys))" for ys and a :: rat
  proof (induction ys)
    case (Cons y ys)
    then show ?case by (simp add: insert_commute [of a y])
  qed simp
  then show "xs \<noteq> [] \<Longrightarrow> min_score xs = Min (set xs)"
    by (simp add: min_score_def insert_absorb)
qed

lemma list_of_keys_and_lookup:
  assumes "map fst xs = map fst ys" and "distinct (map fst ys)"
    and "\<And>k v. (k, v) \<in> set xs \<Longrightarrow> v = f k (the (map_of ys k))"
  shows "xs = map (\<lambda>(k, w). (k, f k w)) ys"
  using assms
proof (induction xs arbitrary: ys)
  case (Cons x xs)
  then obtain y ys' where ys: "ys = y # ys'" by (cases ys) auto
  have "snd x = f (fst x) (snd y)" using Cons.prems(1) Cons.prems(3) [of "fst x" "snd x"] ys by (cases x; cases y) auto
  moreover have "xs = map (\<lambda>(k, w). (k, f k w)) ys'"
  proof (rule Cons.IH)
    fix k v assume kv: "(k, v) \<in> set xs"
    then have "k \<in> fst ` set xs" by force
    then have "k \<in> fst ` set ys'" using Cons.prems(1) ys by (metis list.inject list.map(2) set_map)
    then have "k \<noteq> fst y" using Cons.prems(2) ys by (metis distinct.simps(2) list.simps(9) list.set_map)
    then show "v = f k (the (map_of ys' k))" using Cons.prems(3) [of k v] kv ys by (cases y) auto
  qed (use Cons.prems ys in auto)
  ultimately show ?case using Cons.prems(1) ys by (cases x; cases y) auto
qed simp

definition spec_subtask :: "manifest \<Rightarrow> case_report list \<Rightarrow> string \<Rightarrow> mgroup \<Rightarrow> rat" where
  "spec_subtask m cases gid g =
     (let xs = spec_group_scores m cases gid;
          total = (if xs = [] then 0 else if mg_mode g = Some ''min'' then Min (set xs) else sum_list xs)
      in round_to 4 (min total (group_cap g)))"

lemma subtask_score_spec:
  assumes "map_of defs gid = Some g"
  shows "subtask_score defs gid xs = round_to 4 (min
     (if xs = [] then 0 else if mg_mode g = Some ''min'' then Min (set xs) else sum_list xs) (group_cap g))"
  using assms by (auto simp: subtask_score_def Let_def min_score_Min split: option.splits)

lemma subtask_scores_eq:
  "subtask_scores m cases = map (\<lambda>(gid, g). (gid, spec_subtask m cases gid g)) (group_defs (groups_of m))"
proof (rule list_of_keys_and_lookup)
  let ?defs = "group_defs (groups_of m)"
  fix gid v assume "(gid, v) \<in> set (subtask_scores m cases)"
  then obtain xs where xs: "(gid, xs) \<in> set (all_case_scores m cases)" and v: "v = subtask_score ?defs gid xs"
    by (auto simp: subtask_scores_def Let_def)
  have keys: "map fst (all_case_scores m cases) = map fst ?defs"
    and get: "dget (all_case_scores m cases) gid = spec_group_scores m cases gid"
    using all_case_scores_facts by auto
  have "distinct (map fst (all_case_scores m cases))" unfolding keys by (rule group_defs_distinct)
  then have "map_of (all_case_scores m cases) gid = Some xs" using xs by simp
  then have "xs = spec_group_scores m cases gid" using get by (simp add: dget_def)
  moreover obtain g where "map_of ?defs gid = Some g"
    using xs keys map_of_in_keys [of gid ?defs] by (metis fst_conv imageI list.set_map)
  ultimately show "v = spec_subtask m cases gid (the (map_of ?defs gid))"
    using v subtask_score_spec by (simp add: spec_subtask_def Let_def)
qed (simp_all add: subtask_keys group_defs_distinct)


lemma case_score_nonneg: "0 \<le> num_or_0 (mc_points mc) \<Longrightarrow> 0 \<le> case_score mc r"
  by (auto simp: case_score_def Let_def min_def max_def intro!: round_to_nonneg mult_nonneg_nonneg)

lemma case_by_number_in: "case_by_number mcs n = Some mc \<Longrightarrow> mc \<in> set mcs"
  by (auto simp: case_by_number_def split: if_splits intro!: nth_mem)

lemma spec_group_scores_nonneg:
  assumes "\<And>mc. mc \<in> set (m_cases m) \<Longrightarrow> 0 \<le> num_or_0 (mc_points mc)" and "x \<in> set (spec_group_scores m cases gid)"
  shows "0 \<le> x"
proof -
  consider "x = 0" | r mc where "case_by_number (m_cases m) (cr_case_number r) = Some mc" "x = case_score mc r"
    using assms(2) by (auto simp: spec_group_scores_def group_report_scores_def split: option.splits if_splits)
      (metis)
  then show ?thesis
    using assms(1) case_score_nonneg case_by_number_in by cases auto
qed

lemma spec_subtask_le: "spec_subtask m cases gid g \<le> round_to 4 (group_cap g)"
  unfolding spec_subtask_def Let_def by (rule round_to_mono) simp

lemma spec_subtask_nonneg:
  assumes "\<And>mc. mc \<in> set (m_cases m) \<Longrightarrow> 0 \<le> num_or_0 (mc_points mc)"
  shows "0 \<le> spec_subtask m cases gid g"
proof -
  let ?xs = "spec_group_scores m cases gid"
  have nn: "\<And>x. x \<in> set ?xs \<Longrightarrow> 0 \<le> x" using spec_group_scores_nonneg [OF assms] .
  have "0 \<le> (if ?xs = [] then 0 else if mg_mode g = Some ''min'' then Min (set ?xs) else sum_list ?xs)"
    using nn by (auto intro!: sum_list_nonneg_rat)
  then show ?thesis unfolding spec_subtask_def Let_def by (auto intro!: round_to_nonneg simp: group_cap_def)
qed

definition max_points :: "manifest \<Rightarrow> rat" where
  "max_points m = round_to 2 (sum_list (map (\<lambda>(_, g). round_to 4 (group_cap g)) (group_defs (groups_of m))))"

lemma subtask_sum_le:
  "sum_list (map snd (subtask_scores m cases)) \<le> sum_list (map (\<lambda>(_, g). round_to 4 (group_cap g)) (group_defs (groups_of m)))"
  unfolding subtask_scores_eq
  by (auto simp: comp_def case_prod_beta intro!: sum_list_map_mono spec_subtask_le)

lemma score_points_cases:
  "sum_points (score m cases) = 0 \<or> sum_points (score m cases) = round_to 2 (sum_list (map snd (subtask_scores m cases)))"
  by (simp add: score_def Let_def)

section \<open>Accepted submissions\<close>

lemma score_case_passed:
  "st_case_passed (score_case mcs defs r st) =
     st_case_passed st + (if case_by_number mcs (cr_case_number r) \<noteq> None \<and> normalise_verdict (cr_status r) = AC then 1 else 0)"
  by (auto simp: score_case_def Let_def split: option.splits)

definition accepted_reports :: "mcase list \<Rightarrow> case_report list \<Rightarrow> case_report list" where
  "accepted_reports mcs cases =
     filter (\<lambda>r. case_by_number mcs (cr_case_number r) \<noteq> None \<and> normalise_verdict (cr_status r) = AC) cases"

lemma accepted_reports_mem:
  "r \<in> set (accepted_reports mcs cases) \<Longrightarrow> r \<in> set cases \<and> normalise_verdict (cr_status r) = AC"
  by (simp add: accepted_reports_def)

lemma accepted_reports_Nil [simp]: "accepted_reports [] cases = []"
  by (induction cases) (auto simp: accepted_reports_def case_by_number_def)

lemma fold_score_case_passed:
  "st_case_passed (fold (score_case mcs defs) cases st) = st_case_passed st + int (length (accepted_reports mcs cases))"
  by (induction cases arbitrary: st) (auto simp: score_case_passed accepted_reports_def)

lemma reported_passed:
  "st_case_passed (reported_state m cases) = int (length (accepted_reports (m_cases m) cases))"
  by (simp add: reported_state_def Let_def fold_score_case_passed init_score_state_def)

lemma aggregate_AC:
  "aggregate_result vs p tp n k = AC \<Longrightarrow> n > 0 \<and> k = n \<and> (tp \<le> 0 \<or> tp \<le> p)"
  by (auto simp: aggregate_result_def split: if_splits option.splits)

lemma score_result_AC:
  assumes "sum_result (score m cases) = AC"
  shows "m_cases m \<noteq> []" and "length (accepted_reports (m_cases m) cases) = length (m_cases m)"
    and "total_possible m \<le> 0 \<or> total_possible m \<le> round_to 2 (sum_list (map snd (subtask_scores m cases)))"
proof -
  let ?n = "if m_cases m \<noteq> [] then int (length (m_cases m)) else int (length cases)"
  have *: "aggregate_result (snd ` set (st_statuses (reported_state m cases)))
      (round_to 2 (sum_list (map snd (subtask_scores m cases)))) (total_possible m) ?n
      (st_case_passed (reported_state m cases)) = AC"
    using assms by (auto simp: score_def Let_def split: if_splits)
  note agg = aggregate_AC [OF *]
  show ne: "m_cases m \<noteq> []"
    using agg by (auto simp: reported_passed)
  show "length (accepted_reports (m_cases m) cases) = length (m_cases m)"
    using agg ne by (simp add: reported_passed)
  show "total_possible m \<le> 0 \<or> total_possible m \<le> round_to 2 (sum_list (map snd (subtask_scores m cases)))"
    using agg by blast
qed

lemma never_accepted:
  assumes "max_points m < total_possible m" and "0 < total_possible m"
  shows "sum_result (score m cases) \<noteq> AC"
proof
  assume "sum_result (score m cases) = AC"
  then have "total_possible m \<le> round_to 2 (sum_list (map snd (subtask_scores m cases)))"
    using score_result_AC(3) assms(2) by force
  also have "\<dots> \<le> max_points m"
    unfolding max_points_def by (rule round_to_mono [OF subtask_sum_le])
  finally show False using assms(1) by simp
qed

section \<open>Full marks\<close>


lemma py_round_mult_int [simp]: "round_to n (of_int k / 10 ^ n) = of_int k / 10 ^ n"
  by (simp add: round_to_def)

lemma round_to_cents: "100 * x = of_int k \<Longrightarrow> round_to 2 x = x \<and> round_to 4 x = x"
proof -
  assume k: "100 * x = of_int k"
  then have x: "x = of_int k / 10 ^ 2" by simp
  have "x = of_int (100 * k) / 10 ^ 4" using k by simp
  then show ?thesis using x py_round_mult_int [of 2 k] py_round_mult_int [of 4 "100 * k"] by metis
qed

text \<open>A report that earns its case in full: accepted, and with either no points or all the points of the
  total it names (an absent or zero total is the points of the manifest case).\<close>

definition full_marks :: "mcase \<Rightarrow> case_report \<Rightarrow> bool" where
  "full_marks mc r \<longleftrightarrow> normalise_verdict (cr_status r) = AC
     \<and> (num_or_0 (cr_points r) \<le> 0
         \<or> (if num_or_0 (cr_total_points r) = 0 then num_or_0 (mc_points mc) else num_or_0 (cr_total_points r)) \<le> num_or_0 (cr_points r))"

definition full_reports :: "mcase list \<Rightarrow> case_report list \<Rightarrow> bool" where
  "full_reports mcs cases \<longleftrightarrow>
     map cr_case_number cases = map int [1..<Suc (length mcs)] \<and> list_all2 full_marks mcs cases"

definition whole_cents :: "mcase list \<Rightarrow> bool" where
  "whole_cents mcs \<longleftrightarrow> list_all (\<lambda>mc. 0 \<le> num_or_0 (mc_points mc)
     \<and> of_int \<lfloor>100 * num_or_0 (mc_points mc)\<rfloor> = 100 * num_or_0 (mc_points mc)) mcs"

lemma case_score_full:
  assumes "full_marks mc r" and "0 \<le> num_or_0 (mc_points mc)"
    and "of_int \<lfloor>100 * num_or_0 (mc_points mc)\<rfloor> = 100 * num_or_0 (mc_points mc)"
  shows "case_score mc r = num_or_0 (mc_points mc)"
proof -
  have round: "round_to 4 (num_or_0 (mc_points mc)) = num_or_0 (mc_points mc)"
    using round_to_cents assms(3) by metis
  let ?total = "case cr_total_points r of None \<Rightarrow> num_or_0 (mc_points mc) | Some t \<Rightarrow> if t = 0 then num_or_0 (mc_points mc) else t"
  have total: "?total = (if num_or_0 (cr_total_points r) = 0 then num_or_0 (mc_points mc) else num_or_0 (cr_total_points r))"
    by (simp add: num_or_0_def split: option.splits)
  have ac: "normalise_verdict (cr_status r) = AC" "num_or_0 (cr_points r) \<le> 0 \<or> ?total \<le> num_or_0 (cr_points r)"
    using assms(1) unfolding full_marks_def total by simp_all
  show ?thesis
  proof (cases "num_or_0 (cr_points r) \<le> 0")
    case True
    then show ?thesis using ac(1) round unfolding case_score_def Let_def by simp
  next
    case False
    then have "?total \<le> num_or_0 (cr_points r)" using ac(2) by blast
    then have "0 < ?total \<Longrightarrow> 1 \<le> num_or_0 (cr_points r) / ?total" by (simp add: pos_le_divide_eq)
    then show ?thesis using ac(1) round False unfolding case_score_def Let_def by simp
  qed
qed

lemma full_reports_nth:
  assumes "full_reports mcs cases"
  shows "length cases = length mcs" and "i < length mcs \<Longrightarrow> cr_case_number (cases ! i) = int i + 1"
    and "i < length mcs \<Longrightarrow> case_by_number mcs (cr_case_number (cases ! i)) = Some (mcs ! i)"
proof -
  have m: "map cr_case_number cases = map int [1..<Suc (length mcs)]" using assms by (simp add: full_reports_def)
  show len: "length cases = length mcs" using arg_cong [OF m, of length] by (simp del: upt_Suc)
  show n: "cr_case_number (cases ! i) = int i + 1" if "i < length mcs" for i
    using arg_cong [OF m, of "\<lambda>xs. xs ! i"] that len by (simp del: upt_Suc)
  show "case_by_number mcs (cr_case_number (cases ! i)) = Some (mcs ! i)" if "i < length mcs"
    using n [OF that] that by (simp add: case_by_number_def)
qed

lemma full_report_scores:
  assumes "full_reports mcs cases" and "whole_cents mcs" and "\<And>mc. resolve_group defs mc = gid"
  shows "group_report_scores mcs defs cases gid = map (\<lambda>mc. num_or_0 (mc_points mc)) mcs"
proof -
  note nth = full_reports_nth [OF assms(1)]
  have "(case case_by_number mcs (cr_case_number (cases ! i)) of None \<Rightarrow> []
        | Some mc \<Rightarrow> if resolve_group defs mc = gid then [case_score mc (cases ! i)] else [])
        = [num_or_0 (mc_points (mcs ! i))]" if "i < length mcs" for i
    using assms(1,2) nth that
    by (auto simp: assms(3) full_reports_def whole_cents_def list_all_length list_all2_conv_all_nth intro!: case_score_full)
  then have "map (\<lambda>r. case case_by_number mcs (cr_case_number r) of None \<Rightarrow> []
        | Some mc \<Rightarrow> if resolve_group defs mc = gid then [case_score mc r] else []) cases
      = map (\<lambda>mc. [num_or_0 (mc_points mc)]) mcs"
    using nth(1) by (auto intro: nth_equalityI)
  then show ?thesis by (simp add: group_report_scores_def)
qed

lemma full_reports_missing:
  assumes "full_reports mcs cases"
  shows "group_missing_count mcs defs cases gid = 0"
proof -
  note nth = full_reports_nth [OF assms]
  have "fst nc \<in> reported_numbers mcs cases" if mem: "nc \<in> set (numbered mcs)" for nc
  proof -
    obtain i where i: "i < length mcs" "fst nc = int i + 1"
      using mem by (auto simp: numbered_def in_set_conv_nth simp del: upt_Suc)
    then show ?thesis using nth by (auto simp: reported_numbers_def intro!: exI [of _ "cases ! i"])
  qed
  then show ?thesis by (simp add: group_missing_count_def)
qed

lemma sum_list_cents:
  "whole_cents mcs \<Longrightarrow> \<exists>k. 100 * sum_list (map (\<lambda>mc. num_or_0 (mc_points mc)) mcs) = of_int k
     \<and> 0 \<le> sum_list (map (\<lambda>mc. num_or_0 (mc_points mc)) mcs)"
proof (induction mcs)
  case (Cons mc mcs)
  then obtain k where "100 * sum_list (map (\<lambda>mc. num_or_0 (mc_points mc)) mcs) = of_int k"
     "0 \<le> sum_list (map (\<lambda>mc. num_or_0 (mc_points mc)) mcs)" by (auto simp: whole_cents_def)
  then show ?case using Cons.prems
    by (auto simp: whole_cents_def distrib_left intro!: exI [of _ "\<lfloor>100 * num_or_0 (mc_points mc)\<rfloor> + k"])
qed simp

lemma accepted_full:
  assumes "full_reports mcs cases"
  shows "accepted_reports mcs cases = cases"
proof -
  note nth = full_reports_nth [OF assms]
  have "case_by_number mcs (cr_case_number r) \<noteq> None \<and> normalise_verdict (cr_status r) = AC" if mem: "r \<in> set cases" for r
  proof -
    obtain i where "i < length mcs" "r = cases ! i" using mem nth(1) by (auto simp: in_set_conv_nth)
    then show ?thesis using nth assms by (simp add: full_reports_def list_all2_conv_all_nth full_marks_def)
  qed
  then show ?thesis unfolding accepted_reports_def by (rule filter_True [rule_format])
qed

lemma fold_score_statuses:
  "snd ` set (st_statuses (fold (score_case mcs defs) cases st)) \<subseteq>
     snd ` set (st_statuses st) \<union> (\<lambda>r. normalise_verdict (cr_status r)) ` set cases"
proof (induction cases arbitrary: st)
  case (Cons r cases)
  have "snd ` set (AList.update k v d) \<subseteq> insert v (snd ` set d)" for k :: int and v :: verdict and d
    by (induction d) auto
  then have "snd ` set (st_statuses (score_case mcs defs r st)) \<subseteq>
      insert (normalise_verdict (cr_status r)) (snd ` set (st_statuses st))"
    by (auto simp: score_case_def Let_def split: option.splits)
  then show ?case using Cons.IH [of "score_case mcs defs r st"] by (simp del: image_subset_iff) blast
qed simp

lemma full_score:
  assumes groups: "groups_of m = [g]" "group_id g = ''default''" "mg_mode g = Some ''sum''"
      "num_or_0 (mg_points g) = sum_list (map (\<lambda>mc. num_or_0 (mc_points mc)) (m_cases m))"
    and "m_cases m \<noteq> []" and "whole_cents (m_cases m)" and "full_reports (m_cases m) cases"
  shows "sum_result (score m cases) = AC \<and> sum_points (score m cases) = total_possible m"
proof -
  let ?total = "sum_list (map (\<lambda>mc. num_or_0 (mc_points mc)) (m_cases m))"
  have defs: "group_defs (groups_of m) = [(''default'', g)]"
    by (simp add: groups group_defs_def)
  have res: "resolve_group (group_defs (groups_of m)) mc = ''default''" for mc
    by (simp add: defs resolve_group_def Let_def)
  obtain k where k: "100 * ?total = of_int k" "0 \<le> ?total" using sum_list_cents [OF assms(6)] by blast
  have "spec_group_scores m cases ''default'' = map (\<lambda>mc. num_or_0 (mc_points mc)) (m_cases m)"
    using full_report_scores [OF assms(7,6) res] full_reports_missing [OF assms(7)] by (simp add: spec_group_scores_def)
  then have "subtask_scores m cases = [(''default'', ?total)]"
    using k(2) round_to_cents [OF k(1)] assms(5)
    by (simp add: subtask_scores_eq defs spec_subtask_def Let_def group_cap_def groups(3,4))
  then have points: "round_to 2 (sum_list (map snd (subtask_scores m cases))) = ?total"
    using round_to_cents [OF k(1)] by simp
  have tp: "total_possible m = ?total" by (simp add: total_possible_def groups(1,4))
  have "\<forall>r \<in> set cases. normalise_verdict (cr_status r) = AC"
    using accepted_full [OF assms(7)] accepted_reports_mem [of _ "m_cases m" cases] by metis
  then have "snd ` set (st_statuses (reported_state m cases)) \<subseteq> {AC}"
    using fold_score_statuses [of "m_cases m" _ cases "init_score_state _"]
    by (force simp: reported_state_def Let_def)
  then have "aggregate_result (snd ` set (st_statuses (reported_state m cases))) ?total ?total
      (int (length (m_cases m))) (st_case_passed (reported_state m cases)) = AC"
    using assms(5) accepted_full [OF assms(7)] full_reports_nth(1) [OF assms(7)]
    by (auto simp: aggregate_result_def reported_passed find_Some_iff split: option.splits)
  then show ?thesis using assms(5) points tp by (simp add: score_def Let_def)
qed

section \<open>A group out of reach\<close>

lemma group_defs_eq:
  assumes "distinct (map group_id gs)"
  shows "group_defs gs = map (\<lambda>g. (group_id g, g)) gs"
proof -
  have "fold (\<lambda>g d. AList.update (group_id g) g d) hs d = d @ map (\<lambda>g. (group_id g, g)) hs"
    if "distinct (map fst d @ map group_id hs)" for hs and d :: "(string, mgroup) dict"
    using that
  proof (induction hs arbitrary: d)
    case (Cons h hs)
    have "AList.update k v e = e @ [(k, v)]" if "k \<notin> fst ` set e" for k :: string and v :: mgroup and e
      using that by (induction e) auto
    then have "AList.update (group_id h) h d = d @ [(group_id h, h)]" using Cons.prems by simp
    then show ?case using Cons.IH [of "d @ [(group_id h, h)]"] Cons.prems by simp
  qed simp
  from this [of "[]" gs] assms show ?thesis by (simp add: group_defs_def)
qed

text \<open>A group that no case of the manifest scores in earns nothing, whatever is reported.\<close>

lemma unreached_group:
  assumes "\<And>mc. mc \<in> set (m_cases m) \<Longrightarrow> resolve_group (group_defs (groups_of m)) mc \<noteq> gid"
  shows "spec_subtask m cases gid g = 0"
proof -
  have "group_report_scores (m_cases m) (group_defs (groups_of m)) cases gid = []"
    using assms case_by_number_in by (fastforce simp: group_report_scores_def split: option.splits)
  moreover have "group_missing_count (m_cases m) (group_defs (groups_of m)) cases gid = 0"
    using assms by (fastforce simp: group_missing_count_def numbered_def filter_empty_conv simp del: upt_Suc dest!: set_zip_rightD)
  ultimately have "spec_group_scores m cases gid = []" by (simp add: spec_group_scores_def)
  then show ?thesis by (simp add: spec_subtask_def Let_def group_cap_def round_to_def)
qed

definition cents :: "rat \<Rightarrow> bool" where
  "cents x \<longleftrightarrow> of_int \<lfloor>100 * x\<rfloor> = 100 * x"

lemma centsI: "100 * x = of_int k \<Longrightarrow> cents x"
  by (simp add: cents_def)

lemma centsE: "cents x \<Longrightarrow> (\<And>k. 100 * x = of_int k \<Longrightarrow> P) \<Longrightarrow> P"
  unfolding cents_def by metis

lemma cents_sum: "(\<And>x. x \<in> set xs \<Longrightarrow> cents x) \<Longrightarrow> cents (sum_list xs)"
proof (induction xs)
  case Nil
  show ?case by (rule centsI [of _ 0]) simp
next
  case (Cons x xs)
  then have "cents x" "cents (sum_list xs)" by auto
  then obtain k l where "100 * x = of_int k" "100 * sum_list xs = of_int l" by (elim centsE)
  then show ?case by (intro centsI [of _ "k + l"]) (simp add: distrib_left)
qed

lemma cents_round: "cents x \<Longrightarrow> round_to 2 x = x \<and> round_to 4 x = x"
  unfolding cents_def using round_to_cents by metis

lemma lost_group_score:
  assumes "m_groups m \<noteq> []" and "distinct (map group_id (m_groups m))" and "g \<in> set (m_groups m)"
    and "\<And>h. h \<in> set (m_groups m) \<Longrightarrow> 0 \<le> num_or_0 (mg_points h) \<and> cents (num_or_0 (mg_points h))"
    and "\<And>mc. mc \<in> set (m_cases m) \<Longrightarrow> resolve_group (group_defs (m_groups m)) mc \<noteq> group_id g"
    and "0 < num_or_0 (mg_points g)"
  shows "sum_points (score m cases) \<le> total_possible m - num_or_0 (mg_points g) \<and> sum_result (score m cases) \<noteq> AC"
proof -
  let ?pts = "\<lambda>h. num_or_0 (mg_points h)"
  let ?won = "\<lambda>h. if h = g then 0 else ?pts h"
  have groups: "groups_of m = m_groups m" using assms(1) by (simp add: groups_of_def)
  have scores: "map snd (subtask_scores m cases) = map (\<lambda>h. spec_subtask m cases (group_id h) h) (m_groups m)"
    by (simp add: subtask_scores_eq groups group_defs_eq [OF assms(2)] comp_def)
  have "spec_subtask m cases (group_id h) h \<le> ?won h" if h: "h \<in> set (m_groups m)" for h
  proof (cases "h = g")
    case True
    then show ?thesis using unreached_group [of m "group_id g" cases g] assms(5) groups by simp
  next
    case False
    have "group_cap h = ?pts h" using assms(4) [OF h] by (simp add: group_cap_def max_def)
    then show ?thesis using spec_subtask_le [of m cases "group_id h" h] cents_round assms(4) [OF h] False by simp
  qed
  then have "sum_list (map snd (subtask_scores m cases)) \<le> sum_list (map ?won (m_groups m))"
    unfolding scores by (intro sum_list_map_mono) auto
  then have "round_to 2 (sum_list (map snd (subtask_scores m cases))) \<le> round_to 2 (sum_list (map ?won (m_groups m)))"
    by (rule round_to_mono)
  also have "cents (sum_list (map ?won (m_groups m)))" by (rule cents_sum) (use assms(4) in \<open>auto simp: cents_def\<close>)
  then have "round_to 2 (sum_list (map ?won (m_groups m))) = sum_list (map ?won (m_groups m))" using cents_round by blast
  also have total: "\<dots> = total_possible m - ?pts g"
  proof -
    have "sum_list (map ?won hs) + (if g \<in> set hs then ?pts g else 0) = sum_list (map ?pts hs)" if "distinct hs" for hs
      using that by (induction hs) auto
    moreover have "distinct (m_groups m)" using assms(2) by (simp add: distinct_map)
    ultimately have "sum_list (map ?won (m_groups m)) + ?pts g = sum_list (map ?pts (m_groups m))" using assms(3) by force
    then show ?thesis unfolding total_possible_def groups by linarith
  qed
  finally have le: "round_to 2 (sum_list (map snd (subtask_scores m cases))) \<le> total_possible m - ?pts g" .
  have "0 \<le> sum_list (map ?won (m_groups m))" by (rule sum_list_nonneg_rat) (use assms(4) in auto)
  then have "0 \<le> total_possible m - ?pts g" using total by simp
  moreover have "sum_result (score m cases) \<noteq> AC"
  proof
    assume "sum_result (score m cases) = AC"
    from score_result_AC(3) [OF this] le \<open>0 \<le> total_possible m - ?pts g\<close> assms(6) show False by linarith
  qed
  ultimately show ?thesis using le score_points_cases [of m cases] by auto
qed

section \<open>Properties\<close>

definition sample_manifest :: manifest where
  "sample_manifest = empty_manifest\<lparr>
     m_cases := [\<lparr>mc_points = Some 30, mc_group = Some ''easy''\<rparr>, \<lparr>mc_points = Some 70, mc_group = Some ''hard''\<rparr>],
     m_groups := [\<lparr>mg_id = Some ''easy'', mg_mode = Some ''sum'', mg_points = Some 30\<rparr>,
                  \<lparr>mg_id = Some ''hard'', mg_mode = Some ''min'', mg_points = Some 70\<rparr>],
     m_partial_score := Some True\<rparr>"

definition sample_report :: "int \<Rightarrow> string \<Rightarrow> rat \<Rightarrow> case_report" where
  "sample_report n st p = \<lparr>cr_case_number = n, cr_status = st, cr_time_used = Some (1/10), cr_memory_used = Some 1024,
     cr_points = Some p, cr_total_points = Some p\<rparr>"

definition thirds_manifest :: manifest where
  "thirds_manifest = empty_manifest\<lparr>
     m_cases := replicate 3 \<lparr>mc_points = Some (11111/1000), mc_group = None\<rparr>,
     m_groups := [\<lparr>mg_id = Some ''default'', mg_mode = Some ''sum'', mg_points = Some (33333/1000)\<rparr>]\<rparr>"


text \<open>C4: The subtask scores the three loops build, entry by entry and in manifest order, are
  those of the reference definition: for each group the minimum or the sum of its cases' scores, an
  unreported case counting 0, capped by the group's points and rounded to four digits.\<close>

theorem subtask_scores_reference:
  "subtask_scores m cases = map (\<lambda>(gid, g). (gid, spec_subtask m cases gid g)) (group_defs (groups_of m))"
  by (rule subtask_scores_eq)

text \<open>C11: Whatever a worker reports, when no manifest case has negative points: no subtask score is
  negative or above its group's points rounded to four digits, and the points of the submission lie
  between 0 and the sum of those, rounded to hundredths. (The rounding can go up: a group of 33.336
  points is worth 33.34.)\<close>

theorem score_points_bounds:
  assumes "\<forall>mc \<in> set (m_cases m). 0 \<le> num_or_0 (mc_points mc)"
  shows "0 \<le> sum_points (score m cases)
         \<and> sum_points (score m cases) \<le> round_to 2 (sum_list (map (\<lambda>(_, g). round_to 4 (group_cap g)) (group_defs (groups_of m))))
         \<and> (\<forall>(gid, x) \<in> set (sum_subtask_scores (score m cases)).
              0 \<le> x \<and> (\<exists>g. map_of (group_defs (groups_of m)) gid = Some g \<and> x \<le> round_to 4 (group_cap g)))"
proof -
  let ?defs = "group_defs (groups_of m)"
  have nn: "\<And>mc. mc \<in> set (m_cases m) \<Longrightarrow> 0 \<le> num_or_0 (mc_points mc)" using assms by blast
  have cap: "0 \<le> round_to 4 (group_cap g)" for g by (rule round_to_nonneg) (simp add: group_cap_def)
  have group: "\<exists>g. map_of ?defs gid = Some g" if "(gid, x) \<in> set (subtask_scores m cases)" for gid x
    using that group_defs_distinct [of "groups_of m"] by (auto simp: subtask_scores_eq)
  have subs: "0 \<le> x \<and> (\<exists>g. map_of ?defs gid = Some g \<and> x \<le> round_to 4 (group_cap g))"
    if "(gid, x) \<in> set (subtask_scores m cases)" for gid x
    using that spec_subtask_nonneg [OF nn] spec_subtask_le group_defs_distinct [of "groups_of m"]
    by (auto simp: subtask_scores_eq)
  then have "0 \<le> sum_list (map snd (subtask_scores m cases))" by (intro sum_list_nonneg_rat) auto
  moreover have "0 \<le> max_points m"
    unfolding max_points_def by (intro round_to_nonneg sum_list_nonneg_rat) (use cap in auto)
  moreover have "round_to 2 (sum_list (map snd (subtask_scores m cases))) \<le> max_points m"
    unfolding max_points_def by (rule round_to_mono [OF subtask_sum_le])
  ultimately have "0 \<le> sum_points (score m cases) \<and> sum_points (score m cases) \<le> max_points m"
    using score_points_cases [of m cases] by auto
  moreover have "0 \<le> x \<and> (\<exists>g. map_of ?defs gid = Some g \<and> x \<le> round_to 4 (group_cap g))"
    if "(gid, x) \<in> set (sum_subtask_scores (score m cases))" for gid x
  proof -
    have "(gid, x) \<in> set (subtask_scores m cases) \<or> x = 0 \<and> (\<exists>y. (gid, y) \<in> set (subtask_scores m cases))"
      using that by (auto simp: score_def Let_def split: if_splits)
    then show ?thesis using subs group cap by (metis order_refl)
  qed
  ultimately show ?thesis unfolding max_points_def by blast
qed

theorem score_points_bounds_witness:
  "0 \<le> sum_points (score sample_manifest [sample_report 1 ''AC'' 1000, sample_report 1 ''AC'' 1000])
   \<and> sum_points (score sample_manifest [sample_report 1 ''AC'' 1000, sample_report 1 ''AC'' 1000]) \<le> 100"
proof -
  have "\<forall>mc \<in> set (m_cases sample_manifest). 0 \<le> num_or_0 (mc_points mc)"
    by (simp add: sample_manifest_def empty_manifest_def num_or_0_def)
  moreover have "max_points sample_manifest = 100" by code_simp
  ultimately show ?thesis using score_points_bounds [of sample_manifest] unfolding max_points_def by auto
qed

text \<open>C8: A submission is accepted only when every case of the manifest was reported accepted, and
  the points it got reach the points of the groups (for reports that name each case once).\<close>

theorem accepted_means_every_case:
  assumes "distinct (map cr_case_number cases)" and "sum_result (score m cases) = AC"
  shows "m_cases m \<noteq> [] \<and> (\<forall>n \<in> {1..int (length (m_cases m))}.
           \<exists>r \<in> set cases. cr_case_number r = n \<and> normalise_verdict (cr_status r) = AC)
         \<and> (total_possible m \<le> 0 \<or> total_possible m \<le> sum_points (score m cases))"
proof -
  let ?acc = "accepted_reports (m_cases m) cases" and ?N = "{1..int (length (m_cases m))}"
  note ac = score_result_AC [OF assms(2)]
  have sub: "cr_case_number ` set ?acc \<subseteq> ?N"
    by (auto simp: accepted_reports_def case_by_number_def split: if_splits)
  have "distinct (map cr_case_number ?acc)"
    unfolding accepted_reports_def using assms(1) by (rule distinct_map_filter)
  then have "card (cr_case_number ` set ?acc) = length ?acc"
    using distinct_card [of "map cr_case_number ?acc"] by simp
  then have "card (cr_case_number ` set ?acc) = card ?N" using ac(2) by simp
  then have "cr_case_number ` set ?acc = ?N" using sub by (intro card_subset_eq) auto
  then have all: "\<forall>n \<in> ?N. \<exists>r \<in> set cases. cr_case_number r = n \<and> normalise_verdict (cr_status r) = AC"
    using accepted_reports_mem by (metis (no_types, lifting) imageE)
  have pts: "sum_points (score m cases) = round_to 2 (sum_list (map snd (subtask_scores m cases)))"
    using assms(2) by (auto simp: score_def Let_def split: if_splits)
  show ?thesis using ac(1,3) all by (simp add: pts)
qed

theorem accepted_means_every_case_witness:
  "\<exists>r \<in> set [sample_report 1 ''AC'' 30, sample_report 2 ''AC'' 70].
     cr_case_number r = 2 \<and> normalise_verdict (cr_status r) = AC"
proof -
  let ?cs = "[sample_report 1 ''AC'' 30, sample_report 2 ''AC'' 70]"
  have "distinct (map cr_case_number ?cs)" by code_simp
  moreover have "sum_result (score sample_manifest ?cs) = AC" by code_simp
  moreover have "int (length (m_cases sample_manifest)) = 2" by code_simp
  ultimately show ?thesis using accepted_means_every_case [of ?cs sample_manifest] by simp
qed

text \<open>A package with the default group whose case points are whole hundredths gives every
  submission whose cases are all reported accepted the verdict AC and the full points.\<close>

theorem full_score_accepted:
  assumes "m_groups m = []" and "m_cases m \<noteq> []" and "whole_cents (m_cases m)"
    and "full_reports (m_cases m) cases"
  shows "sum_result (score m cases) = AC \<and> sum_points (score m cases) = total_possible m"
  using assms by (intro full_score [of m "default_group (m_cases m)"])
    (simp_all add: groups_of_def group_id_def default_group_def num_or_0_def [of "Some _"])

theorem full_score_accepted_witness:
  "sum_points (score (sample_manifest\<lparr>m_groups := []\<rparr>)
     (map (\<lambda>i. sample_report i ''AC'' 50) [1, 2])) = total_possible (sample_manifest\<lparr>m_groups := []\<rparr>)"
  by (rule full_score_accepted [THEN conjunct2]; code_simp)

text \<open>Without partial scoring a submission that is not accepted gets no points and no subtask
  score at all, and is never reported as partial, unless it failed to compile or the judge failed.\<close>

theorem all_or_nothing:
  assumes "m_partial_score m \<noteq> Some True" and "sum_result (score m cases) \<notin> {AC, CE, IE}"
  shows "sum_points (score m cases) = 0 \<and> sum_result (score m cases) \<noteq> PARTIAL
         \<and> (\<forall>x \<in> set (sum_subtask_scores (score m cases)). snd x = 0)"
  using assms by (auto simp: score_def Let_def split: if_splits option.splits)

theorem all_or_nothing_witness:
  "sum_points (score (sample_manifest\<lparr>m_partial_score := None\<rparr>) [sample_report 1 ''AC'' 30]) = 0"
  by (rule all_or_nothing [THEN conjunct1]; code_simp)

text \<open>Group points with more than two decimals make a package that nobody can solve: points are
  rounded to two digits before they are compared with the unrounded total.\<close>

theorem fractional_points_never_accepted:
  "sum_result (score thirds_manifest cases) \<noteq> AC"
proof (rule never_accepted)
  show "max_points thirds_manifest < total_possible thirds_manifest" by code_simp
  show "0 < total_possible thirds_manifest" by code_simp
qed

text \<open>In all-or-nothing scoring a run in which the judge failed on one case keeps the points of
  the cases that passed.\<close>

theorem internal_error_keeps_points:
  "let m = sample_manifest\<lparr>m_partial_score := Some False\<rparr>;
       s = score m [sample_report 1 ''AC'' 30, sample_report 2 ''IE'' 0]
   in sum_result s = IE \<and> sum_status s = Sub_ERROR \<and> sum_points s = 30"
  by code_simp

end
