(* ===== verification/Formats.thy ===== *)
theory Formats
  imports Model
begin

text \<open>
  Contest scoring: \<open>apps/contests/formats/\<close> (the five formats and what they share in
  \<open>base.py\<close>) and \<open>apps/contests/services/ranking_service.py\<close>. A format's \<open>get_problem_result\<close> is
  a function of the submissions of one participation on one problem, its
  \<open>calculate_participation\<close> of the database, so that the frozen scoreboard is the same function
  over fewer submissions. The locale \<open>contest_format\<close> states what the ranking service relies on.
\<close>

section \<open>What the formats share (\<open>base.py\<close>)\<close>

record calculation =
  calc_score :: rat
  calc_tiebreaker :: rat
  calc_cumulative_time :: time
  calc_format_data :: json

text \<open>\<open>_submission_queryset\<close>: the submission model has the fields \<open>contest_participation\<close>, \<open>user\<close>,
  \<open>problem\<close> and \<open>created_at\<close>, so these are the filters that apply.\<close>

definition submission_queryset ::
    "db \<Rightarrow> participation \<Rightarrow> contest_problem \<Rightarrow> time option \<Rightarrow> submission list" where
  "submission_queryset d p cp freeze = sort_key (\<lambda>s. (s_created_at s, s_id s))
     (filter (\<lambda>s. s_contest_participation s = Some (pa_id p) \<and> s_user s = pa_user p
        \<and> s_problem s = cp_problem cp
        \<and> (case freeze of None \<Rightarrow> True | Some t \<Rightarrow> s_created_at s \<le> t)) (db_submissions d))"

definition is_accepted :: "submission \<Rightarrow> bool" where
  "is_accepted s =
     (case s_result s of Some v \<Rightarrow> verdict_code v = ''AC''
      | None \<Rightarrow> lower (status_code (s_status s)) \<in> {''ac'', ''accepted'', ''ok'', ''correct''})"

definition participation_start :: "contest \<Rightarrow> participation \<Rightarrow> time" where
  "participation_start c p = (case pa_virtual_start p of Some t \<Rightarrow> t | None \<Rightarrow> c_start_time c)"

definition submission_time_seconds :: "contest \<Rightarrow> participation \<Rightarrow> submission \<Rightarrow> rat" where
  "submission_time_seconds c p s = max (total_seconds (s_created_at s - participation_start c p)) 0"

text \<open>\<open>int(seconds // 60)\<close>\<close>

definition submission_minutes :: "contest \<Rightarrow> participation \<Rightarrow> submission \<Rightarrow> int" where
  "submission_minutes c p s = \<lfloor>submission_time_seconds c p s / 60\<rfloor>"

text \<open>\<open>contest.contest_problems.all()\<close>, in the order of \<open>Meta.ordering\<close>.\<close>

definition contest_problems_of :: "db \<Rightarrow> contest \<Rightarrow> contest_problem list" where
  "contest_problems_of d c = sort_key cp_order (filter (\<lambda>cp. cp_contest cp = c_id c) (db_contest_problems d))"

text \<open>\<open>contest.participations.all()\<close>: the ordering is \<open>-score, cumulative_time, id\<close>.\<close>

definition participations_of :: "db \<Rightarrow> contest \<Rightarrow> participation list" where
  "participations_of d c = sort_key (\<lambda>p. (- pa_score p, pa_cumulative_time p, pa_id p))
     (filter (\<lambda>p. pa_contest p = c_id c) (db_participations d))"

text \<open>An integer entry of a format's configuration: absent means the default, and a value the
  model's coercion or bound rejects raises pydantic's \<open>ValidationError\<close>, a \<open>ValueError\<close>.\<close>

definition config_int :: "env \<Rightarrow> string \<Rightarrow> int \<Rightarrow> int option \<Rightarrow> (string, json) dict \<Rightarrow> int result" where
  "config_int env key dflt lower_bound cfg =
     (case map_of cfg key of
        None \<Rightarrow> Inr dflt
      | Some v \<Rightarrow> (case e_coerce_int env v of
            None \<Rightarrow> Inl (ValueError key)
          | Some n \<Rightarrow> (case lower_bound of
                Some b \<Rightarrow> if n < b then Inl (ValueError key) else Inr n
              | None \<Rightarrow> Inr n)))"

definition problems_json :: "(string, json) dict \<Rightarrow> string \<times> json" where
  "problems_json rs = (''problems'', JObj rs)"

section \<open>\<open>default.py\<close>\<close>

record default_result =
  dr_points :: rat
  dr_attempts :: nat
  dr_ac_seconds :: rat
  dr_solved :: bool

definition default_problem_result ::
    "contest \<Rightarrow> participation \<Rightarrow> submission list \<Rightarrow> default_result" where
  "default_problem_result c p subs =
     (let best = fold (\<lambda>s b. if s_points s > b then s_points s else b) subs 0;
          ac = fold (\<lambda>s a. if is_accepted s then max a (submission_time_seconds c p s) else a) subs 0
      in \<lparr>dr_points = best, dr_attempts = length subs, dr_ac_seconds = ac, dr_solved = (ac > 0)\<rparr>)"

definition default_json :: "default_result \<Rightarrow> json" where
  "default_json r = JObj [(''points'', JFloat (dr_points r)), (''attempts'', JInt (int (dr_attempts r))),
     (''ac_seconds'', JFloat (dr_ac_seconds r)), (''solved'', JBool (dr_solved r))]"

text \<open>One iteration over the contest problems.\<close>

definition default_step ::
    "(contest_problem \<Rightarrow> default_result) \<Rightarrow> contest_problem \<Rightarrow> rat \<times> rat \<times> time \<times> (string, json) dict
     \<Rightarrow> rat \<times> rat \<times> time \<times> (string, json) dict" where
  "default_step res cp st =
     (case st of (tot, last_ac, cumulative, rs) \<Rightarrow>
        let r = res cp;
            last_ac' = (if dr_ac_seconds r > 0 then max last_ac (dr_ac_seconds r) else last_ac);
            cumulative' = (if dr_ac_seconds r > 0 then py_round (last_ac' * 1000000) else cumulative)
        in (tot + dr_points r, last_ac', cumulative', AList.update (cp_label cp) (default_json r) rs))"

definition default_calculate ::
    "env \<Rightarrow> db \<Rightarrow> contest \<Rightarrow> participation \<Rightarrow> time option \<Rightarrow> calculation result" where
  "default_calculate env d c p freeze =
     (case fold (default_step (\<lambda>cp. default_problem_result c p (submission_queryset d p cp freeze)))
             (contest_problems_of d c) (0, 0, 0, []) of
        (tot, last_ac, cumulative, rs) \<Rightarrow>
          Inr \<lparr>calc_score = tot, calc_tiebreaker = last_ac, calc_cumulative_time = cumulative,
               calc_format_data = JObj [problems_json rs]\<rparr>)"

section \<open>\<open>icpc.py\<close>\<close>

record icpc_result =
  ir_points :: rat
  ir_attempts :: int
  ir_wrong_attempts :: int
  ir_solved :: bool
  ir_solve_minutes :: int
  ir_penalty_minutes :: int

text \<open>The loop over the submissions, \<open>break\<close> at the first accepted one: the wrong attempts before it
  and the submission that solved the problem.\<close>

fun icpc_scan :: "submission list \<Rightarrow> int \<Rightarrow> int \<times> submission option" where
  "icpc_scan [] wrong = (wrong, None)"
| "icpc_scan (s # ss) wrong =
     (if s_result s \<in> {Some CE, Some IE} then icpc_scan ss wrong
      else if is_accepted s then (wrong, Some s)
      else icpc_scan ss (wrong + 1))"

definition icpc_problem_result ::
    "int \<Rightarrow> contest \<Rightarrow> participation \<Rightarrow> submission list \<Rightarrow> icpc_result" where
  "icpc_problem_result wrong_penalty c p subs =
     (case icpc_scan subs 0 of (wrong, ac) \<Rightarrow>
        let mins = (case ac of Some s \<Rightarrow> submission_minutes c p s | None \<Rightarrow> 0);
            solved = (ac \<noteq> None)
        in \<lparr>ir_points = (if solved then 1 else 0), ir_attempts = wrong + (if solved then 1 else 0),
            ir_wrong_attempts = wrong, ir_solved = solved, ir_solve_minutes = mins,
            ir_penalty_minutes = (if solved then mins + wrong * wrong_penalty else 0)\<rparr>)"

definition icpc_json :: "icpc_result \<Rightarrow> json" where
  "icpc_json r = JObj [(''points'', JFloat (ir_points r)), (''attempts'', JInt (ir_attempts r)),
     (''wrong_attempts'', JInt (ir_wrong_attempts r)), (''solved'', JBool (ir_solved r)),
     (''solve_minutes'', JInt (ir_solve_minutes r)), (''penalty_minutes'', JInt (ir_penalty_minutes r))]"

definition icpc_step ::
    "(contest_problem \<Rightarrow> icpc_result) \<Rightarrow> contest_problem \<Rightarrow> int \<times> int \<times> (string, json) dict
     \<Rightarrow> int \<times> int \<times> (string, json) dict" where
  "icpc_step res cp st =
     (case st of (solved, penalty, rs) \<Rightarrow>
        let r = res cp
        in (solved + (if ir_solved r then 1 else 0), penalty + ir_penalty_minutes r,
            AList.update (cp_label cp) (icpc_json r) rs))"

definition icpc_calculate ::
    "env \<Rightarrow> db \<Rightarrow> contest \<Rightarrow> participation \<Rightarrow> time option \<Rightarrow> calculation result" where
  "icpc_calculate env d c p freeze =
     andThen (config_int env ''wrong_penalty_minutes'' 20 None (c_format_config c)) (\<lambda>wp.
       case fold (icpc_step (\<lambda>cp. icpc_problem_result wp c p (submission_queryset d p cp freeze)))
              (contest_problems_of d c) (0, 0, []) of
         (solved, penalty, rs) \<Rightarrow>
           Inr \<lparr>calc_score = of_int solved, calc_tiebreaker = of_int penalty,
                calc_cumulative_time = minutes penalty,
                calc_format_data = JObj [(''wrong_penalty_minutes'', JInt wp), problems_json rs]\<rparr>)"

section \<open>\<open>ioi.py\<close>\<close>

record ioi_result =
  or_points :: rat
  or_attempts :: nat
  or_subtasks :: "(string, rat) dict"
  or_solved :: bool

text \<open>The best score of each subtask over the submissions, and the best points among the submissions
  without subtask scores.\<close>

definition ioi_step :: "submission \<Rightarrow> (string, rat) dict \<times> rat \<Rightarrow> (string, rat) dict \<times> rat" where
  "ioi_step s st =
     (case st of (best_subtasks, best_points) \<Rightarrow>
        if s_subtask_scores s \<noteq> []
        then (fold (\<lambda>(k, v). dict_modify k 0 (\<lambda>b. max b v)) (s_subtask_scores s) best_subtasks, best_points)
        else (best_subtasks, max best_points (s_points s)))"

definition ioi_problem_result :: "submission list \<Rightarrow> ioi_result" where
  "ioi_problem_result subs =
     (case fold ioi_step subs ([], 0) of (best_subtasks, best0) \<Rightarrow>
        let best = (if best_subtasks \<noteq> [] then sum_list (map snd best_subtasks) else best0)
        in \<lparr>or_points = best, or_attempts = length subs, or_subtasks = best_subtasks, or_solved = (best > 0)\<rparr>)"

definition ioi_json :: "ioi_result \<Rightarrow> json" where
  "ioi_json r = JObj [(''points'', JFloat (or_points r)), (''attempts'', JInt (int (or_attempts r))),
     (''subtasks'', JObj (map (\<lambda>(k, v). (k, JFloat v)) (or_subtasks r))), (''solved'', JBool (or_solved r))]"

definition ioi_total_step ::
    "(contest_problem \<Rightarrow> ioi_result) \<Rightarrow> contest_problem \<Rightarrow> rat \<times> (string, json) dict \<Rightarrow> rat \<times> (string, json) dict" where
  "ioi_total_step res cp st =
     (case st of (tot, rs) \<Rightarrow>
        (tot + or_points (res cp), AList.update (cp_label cp) (ioi_json (res cp)) rs))"

definition ioi_calculate ::
    "env \<Rightarrow> db \<Rightarrow> contest \<Rightarrow> participation \<Rightarrow> time option \<Rightarrow> calculation result" where
  "ioi_calculate env d c p freeze =
     (case fold (ioi_total_step (\<lambda>cp. ioi_problem_result (submission_queryset d p cp freeze)))
             (contest_problems_of d c) (0, []) of
        (tot, rs) \<Rightarrow>
          Inr \<lparr>calc_score = tot, calc_tiebreaker = 0, calc_cumulative_time = 0,
               calc_format_data = JObj [problems_json rs]\<rparr>)"

section \<open>\<open>atcoder.py\<close>\<close>

record atcoder_result =
  ar_points :: rat
  ar_attempts :: int
  ar_wrong_attempts :: int
  ar_solved :: bool
  ar_ac_minutes :: int

fun atcoder_scan :: "submission list \<Rightarrow> int \<Rightarrow> int \<times> submission option" where
  "atcoder_scan [] wrong = (wrong, None)"
| "atcoder_scan (s # ss) wrong =
     (if is_accepted s then (wrong, Some s) else atcoder_scan ss (wrong + 1))"

definition atcoder_problem_result ::
    "contest \<Rightarrow> participation \<Rightarrow> contest_problem \<Rightarrow> submission list \<Rightarrow> atcoder_result" where
  "atcoder_problem_result c p cp subs =
     (case atcoder_scan subs 0 of (wrong, ac) \<Rightarrow>
        let solved = (ac \<noteq> None)
        in \<lparr>ar_points = (if solved then cp_points cp else 0), ar_attempts = wrong + (if solved then 1 else 0),
            ar_wrong_attempts = wrong, ar_solved = solved,
            ar_ac_minutes = (case ac of Some s \<Rightarrow> submission_minutes c p s | None \<Rightarrow> 0)\<rparr>)"

definition atcoder_json :: "atcoder_result \<Rightarrow> json" where
  "atcoder_json r = JObj [(''points'', JFloat (ar_points r)), (''attempts'', JInt (ar_attempts r)),
     (''wrong_attempts'', JInt (ar_wrong_attempts r)), (''solved'', JBool (ar_solved r)),
     (''ac_minutes'', JInt (ar_ac_minutes r))]"

definition atcoder_step ::
    "(contest_problem \<Rightarrow> atcoder_result) \<Rightarrow> contest_problem \<Rightarrow> rat \<times> int \<times> int \<times> (string, json) dict
     \<Rightarrow> rat \<times> int \<times> int \<times> (string, json) dict" where
  "atcoder_step res cp st =
     (case st of (tot, wrong, last_ac, rs) \<Rightarrow>
        let r = res cp; rs' = AList.update (cp_label cp) (atcoder_json r) rs
        in if ar_solved r
           then (tot + cp_points cp, wrong + ar_wrong_attempts r, max last_ac (ar_ac_minutes r), rs')
           else (tot, wrong, last_ac, rs'))"

definition atcoder_calculate ::
    "env \<Rightarrow> db \<Rightarrow> contest \<Rightarrow> participation \<Rightarrow> time option \<Rightarrow> calculation result" where
  "atcoder_calculate env d c p freeze =
     andThen (config_int env ''penalty_minutes'' 5 (Some 0) (c_format_config c)) (\<lambda>pm.
       case fold (atcoder_step (\<lambda>cp. atcoder_problem_result c p cp (submission_queryset d p cp freeze)))
              (contest_problems_of d c) (0, 0, 0, []) of
         (tot, wrong, last_ac, rs) \<Rightarrow>
           (let penalty = last_ac + wrong * pm
            in Inr \<lparr>calc_score = tot, calc_tiebreaker = of_int penalty,
                    calc_cumulative_time = minutes penalty,
                    calc_format_data = JObj [(''penalty_minutes'', JInt pm), problems_json rs]\<rparr>))"

section \<open>\<open>ecoo.py\<close>\<close>

record ecoo_result =
  er_points :: rat
  er_attempts :: nat
  er_solved :: bool
  er_tries_allowed :: int

definition ecoo_problem_result :: "int \<Rightarrow> submission list \<Rightarrow> ecoo_result" where
  "ecoo_problem_result tries_per_problem subs =
     (let tries = take (nat tries_per_problem) subs; solved = list_ex is_accepted tries
      in \<lparr>er_points = (if solved then 1 else 0), er_attempts = length tries, er_solved = solved,
          er_tries_allowed = tries_per_problem\<rparr>)"

definition ecoo_json :: "ecoo_result \<Rightarrow> json" where
  "ecoo_json r = JObj [(''points'', JFloat (er_points r)), (''attempts'', JInt (int (er_attempts r))),
     (''solved'', JBool (er_solved r)), (''tries_allowed'', JInt (er_tries_allowed r))]"

definition ecoo_step ::
    "(contest_problem \<Rightarrow> ecoo_result) \<Rightarrow> contest_problem \<Rightarrow> int \<times> (string, json) dict \<Rightarrow> int \<times> (string, json) dict" where
  "ecoo_step res cp st =
     (case st of (tot, rs) \<Rightarrow>
        (tot + (if er_solved (res cp) then 1 else 0), AList.update (cp_label cp) (ecoo_json (res cp)) rs))"

text \<open>The configuration is parsed inside \<open>get_problem_result\<close>, so a contest without problems never
  sees a bad one.\<close>

definition ecoo_calculate ::
    "env \<Rightarrow> db \<Rightarrow> contest \<Rightarrow> participation \<Rightarrow> time option \<Rightarrow> calculation result" where
  "ecoo_calculate env d c p freeze =
     (let cps = contest_problems_of d c;
          finish = (\<lambda>tries. case fold (ecoo_step (\<lambda>cp. ecoo_problem_result tries (submission_queryset d p cp freeze)))
                                   cps (0, []) of
             (tot, rs) \<Rightarrow>
               Inr \<lparr>calc_score = of_int tot, calc_tiebreaker = 0, calc_cumulative_time = 0,
                    calc_format_data = JObj [problems_json rs]\<rparr>)
      in if cps = [] then finish 3
         else andThen (config_int env ''tries_per_problem'' 3 (Some 1) (c_format_config c)) finish)"

section \<open>The registry (\<open>formats/__init__.py\<close>)\<close>

datatype contest_format =
  DefaultContestFormat | ICPCContestFormat | IOIContestFormat | AtCoderContestFormat | ECOOContestFormat

fun format_key :: "contest_format \<Rightarrow> string" where
  "format_key DefaultContestFormat = ''default''"
| "format_key ICPCContestFormat = ''icpc''"
| "format_key IOIContestFormat = ''ioi''"
| "format_key AtCoderContestFormat = ''atcoder''"
| "format_key ECOOContestFormat = ''ecoo''"

text \<open>\<open>_autodiscover_formats\<close> imports the modules in this order, each registering its class.\<close>

definition registry :: "(string, contest_format) dict" where
  "registry = fold (\<lambda>f r. AList.update (format_key f) f r)
     [DefaultContestFormat, ICPCContestFormat, IOIContestFormat, AtCoderContestFormat, ECOOContestFormat] []"

definition get_format :: "string \<Rightarrow> contest_format result" where
  "get_format k = (case map_of registry k of
     None \<Rightarrow> Inl (KeyError (''Unknown contest format: '' @ k)) | Some f \<Rightarrow> Inr f)"

fun calculate_participation ::
    "contest_format \<Rightarrow> env \<Rightarrow> db \<Rightarrow> contest \<Rightarrow> participation \<Rightarrow> time option \<Rightarrow> calculation result" where
  "calculate_participation DefaultContestFormat = default_calculate"
| "calculate_participation ICPCContestFormat = icpc_calculate"
| "calculate_participation IOIContestFormat = ioi_calculate"
| "calculate_participation AtCoderContestFormat = atcoder_calculate"
| "calculate_participation ECOOContestFormat = ecoo_calculate"

section \<open>Updating and ranking\<close>

text \<open>\<open>save(update_fields=...)\<close> writes the four computed fields of the stored row.\<close>

definition store_calculation :: "calculation \<Rightarrow> participation \<Rightarrow> participation" where
  "store_calculation r p = p\<lparr>pa_score := calc_score r, pa_tiebreaker := calc_tiebreaker r,
     pa_cumulative_time := calc_cumulative_time r, pa_format_data := calc_format_data r\<rparr>"

definition update_participation ::
    "contest_format \<Rightarrow> env \<Rightarrow> contest \<Rightarrow> participation \<Rightarrow> db \<Rightarrow> db result" where
  "update_participation f env c p d =
     andThen (calculate_participation f env d c p None) (\<lambda>r.
       Inr (d\<lparr>db_participations :=
         rows_update (\<lambda>q. pa_id q = pa_id p) (store_calculation r) (db_participations d)\<rparr>))"

record ranking_entry =
  en_participation :: nat
  en_user :: nat
  en_username :: string
  en_score :: rat
  en_tiebreaker :: rat
  en_cumulative_time :: time
  en_format_data :: json
  en_rank :: nat

definition username_of :: "db \<Rightarrow> nat \<Rightarrow> string" where
  "username_of d uid = (case row_get u_id uid (db_users d) of Some u \<Rightarrow> u_username u | None \<Rightarrow> show_nat uid)"

definition stored_entry :: "db \<Rightarrow> participation \<Rightarrow> ranking_entry" where
  "stored_entry d p = \<lparr>en_participation = pa_id p, en_user = pa_user p, en_username = username_of d (pa_user p),
     en_score = pa_score p, en_tiebreaker = pa_tiebreaker p, en_cumulative_time = pa_cumulative_time p,
     en_format_data = pa_format_data p, en_rank = 0\<rparr>"

text \<open>\<open>entries.sort(key=...)\<close>, which is stable, and the loop that numbers the entries from 1.\<close>

definition rank_key :: "ranking_entry \<Rightarrow> rat \<times> rat \<times> nat" where
  "rank_key e = (- en_score e, en_tiebreaker e, en_user e)"

definition rank_entries :: "ranking_entry list \<Rightarrow> ranking_entry list" where
  "rank_entries es = map2 (\<lambda>r e. e\<lparr>en_rank := r\<rparr>) [1..<Suc (length es)] (sort_key rank_key es)"

definition eligible_participations :: "db \<Rightarrow> contest \<Rightarrow> participation list" where
  "eligible_participations d c = filter (\<lambda>p. \<not> pa_is_disqualified p) (participations_of d c)"

definition get_ranking :: "contest_format \<Rightarrow> db \<Rightarrow> contest \<Rightarrow> ranking_entry list" where
  "get_ranking f d c = rank_entries (map (stored_entry d) (eligible_participations d c))"

definition get_contest_ranking :: "db \<Rightarrow> contest \<Rightarrow> ranking_entry list result" where
  "get_contest_ranking d c = andThen (get_format (c_format_name c)) (\<lambda>f. Inr (get_ranking f d c))"

definition recalculate_participation :: "env \<Rightarrow> contest \<Rightarrow> participation \<Rightarrow> db \<Rightarrow> db result" where
  "recalculate_participation env c p d =
     andThen (get_format (c_format_name c)) (\<lambda>f. update_participation f env c p d)"

definition recalculate_contest :: "env \<Rightarrow> contest \<Rightarrow> db \<Rightarrow> db result" where
  "recalculate_contest env c d =
     fold (\<lambda>p r. andThen r (recalculate_participation env c p)) (participations_of d c) (Inr d)"

definition freeze_instant :: "contest \<Rightarrow> time option" where
  "freeze_instant c = (case c_scoreboard_frozen_after c of
     None \<Rightarrow> None | Some a \<Rightarrow> if a = 0 then None else Some (c_start_time c + a))"

text \<open>\<open>Contest.is_frozen\<close>; a zero duration is falsy.\<close>

definition is_frozen :: "time \<Rightarrow> contest \<Rightarrow> bool" where
  "is_frozen now c = (case freeze_instant c of None \<Rightarrow> False | Some t \<Rightarrow> t \<le> now \<and> now < c_end_time c)"

definition frozen_entry :: "db \<Rightarrow> participation \<Rightarrow> calculation \<Rightarrow> ranking_entry" where
  "frozen_entry d p r = \<lparr>en_participation = pa_id p, en_user = pa_user p, en_username = username_of d (pa_user p),
     en_score = calc_score r, en_tiebreaker = calc_tiebreaker r,
     en_cumulative_time = calc_cumulative_time r,
     en_format_data = JObj [(''frozen'', JBool True)], en_rank = 0\<rparr>"

text \<open>A loop that may raise at an element: the results in order, or the first exception.\<close>

fun collect :: "('a \<Rightarrow> 'b result) \<Rightarrow> 'a list \<Rightarrow> 'b list result" where
  "collect f [] = Inr []"
| "collect f (x # xs) = andThen (f x) (\<lambda>y. andThen (collect f xs) (\<lambda>ys. Inr (y # ys)))"

definition get_frozen_ranking :: "env \<Rightarrow> time \<Rightarrow> db \<Rightarrow> contest \<Rightarrow> ranking_entry list result" where
  "get_frozen_ranking env now d c =
     (if \<not> is_frozen now c then get_contest_ranking d c
      else andThen (get_format (c_format_name c)) (\<lambda>f.
        andThen (collect (\<lambda>p. andThen (calculate_participation f env d c p (freeze_instant c))
                                   (\<lambda>r. Inr (frozen_entry d p r)))
                   (eligible_participations d c))
          (\<lambda>es. Inr (rank_entries es))))"

section \<open>The contract of a format\<close>

text \<open>What the ranking service relies on, of any format: a frozen calculation is the live one over the
  submissions made until the freeze; only the submissions of the participation count; and of the
  participation only its identity and start are read, none of the stored results.\<close>

definition submissions_until :: "time \<Rightarrow> db \<Rightarrow> submission list" where
  "submissions_until t d = filter (\<lambda>s. s_created_at s \<le> t) (db_submissions d)"

definition own_submission :: "participation \<Rightarrow> submission \<Rightarrow> bool" where
  "own_submission p s \<longleftrightarrow> s_contest_participation s = Some (pa_id p)"

definition same_entrant :: "participation \<Rightarrow> participation \<Rightarrow> bool" where
  "same_entrant p q \<longleftrightarrow> pa_id p = pa_id q \<and> pa_user p = pa_user q \<and> pa_virtual_start p = pa_virtual_start q"

locale contest_format =
  fixes calc :: "db \<Rightarrow> contest \<Rightarrow> participation \<Rightarrow> time option \<Rightarrow> calculation result"
  assumes frozen_is_live: "calc d c p (Some t) = calc (d\<lparr>db_submissions := submissions_until t d\<rparr>) c p None"
    and own_only: "filter (own_submission p) (db_submissions d) = filter (own_submission p) (db_submissions d')
          \<Longrightarrow> db_contest_problems d = db_contest_problems d' \<Longrightarrow> calc d c p fz = calc d' c p fz"
    and entrant_only: "same_entrant p q \<Longrightarrow> calc d c p fz = calc d c q fz"
begin

lemma no_leak:
  assumes "submissions_until t d = submissions_until t d'" and "db_contest_problems d = db_contest_problems d'"
    and "same_entrant p q"
  shows "calc d c p (Some t) = calc d' c q (Some t)"
  using assms by (simp add: frozen_is_live [of _ c _ t] entrant_only [of p q]) (rule own_only; simp)

lemma tables_only:
  assumes "db_submissions d = db_submissions d'" and "db_contest_problems d = db_contest_problems d'"
  shows "calc d c p fz = calc d' c p fz"
  using assms by (intro own_only) simp_all

lemma others_irrelevant:
  assumes "\<not> own_submission p s"
  shows "calc (d\<lparr>db_submissions := db_submissions d @ [s]\<rparr>) c p fz = calc d c p fz"
  using assms by (intro own_only) simp_all

lemma store_irrelevant: "calc (d\<lparr>db_participations := ps\<rparr>) c (store_calculation r p) fz = calc d c p fz"
proof -
  have "calc d c (store_calculation r p) fz = calc d c p fz"
    by (rule entrant_only) (simp add: same_entrant_def store_calculation_def)
  then show ?thesis using tables_only [of "d\<lparr>db_participations := ps\<rparr>" d] by simp
qed

end

lemma queryset_frozen:
  "submission_queryset d p cp (Some t) = submission_queryset (d\<lparr>db_submissions := submissions_until t d\<rparr>) p cp None"
  by (simp add: submission_queryset_def submissions_until_def conj_commute conj_left_commute)

lemma queryset_own:
  assumes "filter (own_submission p) (db_submissions d) = filter (own_submission p) (db_submissions d')"
  shows "submission_queryset d p cp fz = submission_queryset d' p cp fz"
proof -
  let ?P = "\<lambda>s. s_user s = pa_user p \<and> s_problem s = cp_problem cp
        \<and> (case fz of None \<Rightarrow> True | Some t \<Rightarrow> s_created_at s \<le> t)"
  have "submission_queryset d p cp fz = sort_key (\<lambda>s. (s_created_at s, s_id s))
      (filter ?P (filter (own_submission p) (db_submissions d)))" for d
    by (simp add: submission_queryset_def own_submission_def conj_commute conj_left_commute)
  then show ?thesis using assms by (simp del: filter_filter)
qed

lemma queryset_entrant: "same_entrant p q \<Longrightarrow> submission_queryset d p cp fz = submission_queryset d q cp fz"
  by (simp add: submission_queryset_def same_entrant_def)

lemma start_entrant: "same_entrant p q \<Longrightarrow> submission_time_seconds c p = submission_time_seconds c q"
  by (rule ext) (simp add: submission_time_seconds_def participation_start_def same_entrant_def)

lemma problems_submissions [simp]:
  "contest_problems_of (d\<lparr>db_submissions := x\<rparr>) c = contest_problems_of d c"
  by (simp add: contest_problems_of_def)

lemma problems_cong: "db_contest_problems d = db_contest_problems d' \<Longrightarrow> contest_problems_of d c = contest_problems_of d' c"
  by (simp add: contest_problems_of_def)

lemma minutes_entrant: "same_entrant p q \<Longrightarrow> submission_minutes c p = submission_minutes c q"
  by (rule ext) (simp add: submission_minutes_def start_entrant [of p q])

lemmas entrant_rules = queryset_entrant start_entrant minutes_entrant

interpretation default_format: contest_format "default_calculate env"
proof (unfold_locales, goal_cases)
  case (1 d c p t)
  then show ?case by (simp add: default_calculate_def queryset_frozen)
next
  case (2 p d d' c fz)
  then show ?case by (simp add: default_calculate_def queryset_own [of p d d'] problems_cong [of d d'])
next
  case (3 p q d c fz)
  then show ?case by (simp add: default_calculate_def default_problem_result_def entrant_rules [of p q] cong: if_cong)
qed

interpretation icpc_format: contest_format "icpc_calculate env"
proof (unfold_locales, goal_cases)
  case (1 d c p t)
  then show ?case by (simp add: icpc_calculate_def queryset_frozen)
next
  case (2 p d d' c fz)
  then show ?case by (simp add: icpc_calculate_def queryset_own [of p d d'] problems_cong [of d d'])
next
  case (3 p q d c fz)
  then show ?case by (simp add: icpc_calculate_def icpc_problem_result_def entrant_rules [of p q] cong: option.case_cong)
qed

interpretation ioi_format: contest_format "ioi_calculate env"
proof (unfold_locales, goal_cases)
  case (1 d c p t)
  then show ?case by (simp add: ioi_calculate_def queryset_frozen)
next
  case (2 p d d' c fz)
  then show ?case by (simp add: ioi_calculate_def queryset_own [of p d d'] problems_cong [of d d'])
next
  case (3 p q d c fz)
  then show ?case by (simp add: ioi_calculate_def entrant_rules [of p q])
qed

interpretation atcoder_format: contest_format "atcoder_calculate env"
proof (unfold_locales, goal_cases)
  case (1 d c p t)
  then show ?case by (simp add: atcoder_calculate_def queryset_frozen)
next
  case (2 p d d' c fz)
  then show ?case by (simp add: atcoder_calculate_def queryset_own [of p d d'] problems_cong [of d d'])
next
  case (3 p q d c fz)
  then show ?case by (simp add: atcoder_calculate_def atcoder_problem_result_def entrant_rules [of p q] cong: option.case_cong)
qed

interpretation ecoo_format: contest_format "ecoo_calculate env"
proof (unfold_locales, goal_cases)
  case (1 d c p t)
  then show ?case by (simp add: ecoo_calculate_def queryset_frozen)
next
  case (2 p d d' c fz)
  then show ?case by (simp add: ecoo_calculate_def queryset_own [of p d d'] problems_cong [of d d'])
next
  case (3 p q d c fz)
  then show ?case by (simp add: ecoo_calculate_def entrant_rules [of p q])
qed

text \<open>The dispatch of \<open>format_impl.calculate_participation\<close> keeps the contract.\<close>

interpretation any_format: contest_format "calculate_participation f env" for f env
proof (unfold_locales, goal_cases)
  case (1 d c p t)
  show ?case
    by (cases f) (simp_all only: calculate_participation.simps default_format.frozen_is_live [of env d]
       icpc_format.frozen_is_live [of env d] ioi_format.frozen_is_live [of env d]
       atcoder_format.frozen_is_live [of env d] ecoo_format.frozen_is_live [of env d])
next
  case (2 p d d' c fz)
  then show ?case
    by (cases f) (auto intro: default_format.own_only icpc_format.own_only ioi_format.own_only
       atcoder_format.own_only ecoo_format.own_only)
next
  case (3 p q d c fz)
  then show ?case
    by (cases f) (auto intro: default_format.entrant_only icpc_format.entrant_only ioi_format.entrant_only
       atcoder_format.entrant_only ecoo_format.entrant_only)
qed

section \<open>Ranking\<close>

lemma mset_sort_filter: "mset (sort_key k (filter P xs)) = filter_mset P (mset xs)"
  by simp

lemma rank_entries_facts:
  "map en_rank (rank_entries es) = [1..<Suc (length es)]
   \<and> map rank_key (rank_entries es) = map rank_key (sort_key rank_key es)
   \<and> map en_participation (rank_entries es) = map en_participation (sort_key rank_key es)"
proof -
  have "map en_rank (map2 (\<lambda>r e. e\<lparr>en_rank := r\<rparr>) rs xs) = rs
      \<and> map rank_key (map2 (\<lambda>r e. e\<lparr>en_rank := r\<rparr>) rs xs) = map rank_key xs
      \<and> map en_participation (map2 (\<lambda>r e. e\<lparr>en_rank := r\<rparr>) rs xs) = map en_participation xs"
    if "length rs = length xs" for rs and xs :: "ranking_entry list"
    using that by (induction rs xs rule: list_induct2) (auto simp: rank_key_def)
  from this [of "[1..<Suc (length es)]" "sort_key rank_key es"] show ?thesis
    by (simp add: rank_entries_def del: upt_Suc)
qed

lemma rank_entries_cong:
  assumes "mset es = mset es'" and "inj_on rank_key (set es)"
  shows "rank_entries es = rank_entries es'"
proof -
  have "sort_key rank_key es = sort_key rank_key es'"
    by (rule sort_key_inj_key_eq) (use assms in simp_all)
  moreover have "length es = length es'" using assms(1) by (rule mset_eq_length)
  ultimately show ?thesis by (simp add: rank_entries_def)
qed

lemma eligible_mset:
  "mset (eligible_participations d c) =
     mset (filter (\<lambda>p. pa_contest p = c_id c \<and> \<not> pa_is_disqualified p) (db_participations d))"
  by (simp add: eligible_participations_def participations_of_def filter_filter_mset conj_commute)

lemma get_ranking_facts:
  "map en_rank (get_ranking f d c) = [1..<Suc (length (get_ranking f d c))]
   \<and> sorted (map rank_key (get_ranking f d c))
   \<and> mset (map en_participation (get_ranking f d c)) =
       mset (map pa_id (filter (\<lambda>p. pa_contest p = c_id c \<and> \<not> pa_is_disqualified p) (db_participations d)))"
proof -
  let ?es = "map (stored_entry d) (eligible_participations d c)"
  note facts = rank_entries_facts [of ?es]
  have "mset (map en_participation (rank_entries ?es)) = image_mset en_participation (mset ?es)"
    using facts by (metis mset_map mset_sort)
  also have "\<dots> = image_mset pa_id (mset (eligible_participations d c))"
    by (simp add: image_mset.compositionality comp_def stored_entry_def)
  finally have m: "mset (map en_participation (get_ranking f d c)) = image_mset pa_id (mset (eligible_participations d c))"
    by (simp add: get_ranking_def)
  have "length (rank_entries ?es) = length ?es"
    by (simp add: rank_entries_def del: upt_Suc)
  then have "map en_rank (get_ranking f d c) = [1..<Suc (length (get_ranking f d c))]"
    using facts by (simp add: get_ranking_def del: upt_Suc)
  moreover have "sorted (map rank_key (get_ranking f d c))"
    using facts by (simp add: get_ranking_def)
  ultimately show ?thesis using m by (simp only: eligible_mset mset_map simp_thms)
qed

lemma collect_Inr_iff:
  "collect f xs = Inr ys \<longleftrightarrow> (\<forall>x \<in> set xs. \<exists>y. f x = Inr y) \<and> ys = map (\<lambda>x. projr (f x)) xs"
  by (induction xs arbitrary: ys) auto

text \<open>Two rows of one participation that differ in the stored results only.\<close>

definition same_row :: "participation \<Rightarrow> participation \<Rightarrow> bool" where
  "same_row p q \<longleftrightarrow> (\<exists>r. q = store_calculation r p)"

lemma same_row_facts:
  assumes "same_row p q"
  shows "same_entrant p q" "pa_id q = pa_id p" "pa_user q = pa_user p" "pa_contest q = pa_contest p"
    "pa_is_disqualified q = pa_is_disqualified p"
  using assms by (auto simp: same_row_def same_entrant_def store_calculation_def)

lemma filter_map_rel:
  assumes "list_all2 R xs ys" and "\<And>x y. R x y \<Longrightarrow> P x = P' y \<and> (P x \<longrightarrow> g x = g' y)"
  shows "map g (filter P xs) = map g' (filter P' ys)"
  using assms(1) by (induction rule: list_all2_induct) (use assms(2) in auto)

lemma collect_mset:
  assumes "mset (map f xs) = mset (map g ys)" and "collect f xs = Inr es"
  shows "\<exists>es'. collect g ys = Inr es' \<and> mset es = mset es'"
proof -
  have "\<forall>x \<in> set xs. \<exists>e. f x = Inr e" and es: "es = map (\<lambda>x. projr (f x)) xs"
    using assms(2) unfolding collect_Inr_iff by auto
  moreover have "f ` set xs = g ` set ys" using mset_eq_setD [OF assms(1)] by simp
  ultimately have "\<forall>y \<in> set ys. \<exists>e. g y = Inr e" by (metis imageE imageI)
  moreover have "image_mset projr (image_mset f (mset xs)) = image_mset projr (image_mset g (mset ys))"
    using assms(1) by simp
  then have "mset es = mset (map (\<lambda>y. projr (g y)) ys)"
    by (simp add: es image_mset.compositionality comp_def)
  ultimately show ?thesis using collect_Inr_iff [of g ys] by blast
qed

definition frozen_row :: "contest_format \<Rightarrow> env \<Rightarrow> db \<Rightarrow> contest \<Rightarrow> time option \<Rightarrow> participation \<Rightarrow> ranking_entry result" where
  "frozen_row f env d c t p = andThen (calculate_participation f env d c p t) (\<lambda>r. Inr (frozen_entry d p r))"

lemma get_frozen_ranking_rows:
  assumes "is_frozen now c" and "get_format (c_format_name c) = Inr f"
  shows "get_frozen_ranking env now d c =
    andThen (collect (frozen_row f env d c (freeze_instant c)) (eligible_participations d c)) (\<lambda>es. Inr (rank_entries es))"
  using assms by (simp add: get_frozen_ranking_def frozen_row_def [abs_def])

lemma frozen_row_user: "frozen_row f env d c t p = Inr e \<Longrightarrow> en_user e = pa_user p"
  by (auto simp: frozen_row_def frozen_entry_def)

lemma collect_users:
  "collect (frozen_row f env d c t) ps = Inr es \<Longrightarrow> map en_user es = map pa_user ps"
proof (induction ps arbitrary: es)
  case (Cons p ps)
  then show ?case by (auto dest: frozen_row_user)
qed simp

lemma frozen_row_same:
  assumes "submissions_until t d = submissions_until t d'" and "db_contest_problems d = db_contest_problems d'"
    and "db_users d = db_users d'" and "same_row p q"
  shows "frozen_row f env d c (Some t) p = frozen_row f env d' c (Some t) q"
proof -
  have "calculate_participation f env d c p (Some t) = calculate_participation f env d' c q (Some t)"
    by (rule any_format.no_leak) (use assms same_row_facts in auto)
  moreover have "frozen_entry d p = frozen_entry d' q"
    by (rule ext) (simp add: frozen_entry_def username_of_def assms(3) same_row_facts [OF assms(4)])
  ultimately show ?thesis by (simp add: frozen_row_def)
qed

lemma frozen_rows_mset:
  assumes "submissions_until t d = submissions_until t d'" and "db_contest_problems d = db_contest_problems d'"
    and "db_users d = db_users d'" and "list_all2 same_row (db_participations d) (db_participations d')"
  shows "mset (map (frozen_row f env d c (Some t)) (eligible_participations d c))
       = mset (map (frozen_row f env d' c (Some t)) (eligible_participations d' c))"
proof -
  let ?P = "\<lambda>p. pa_contest p = c_id c \<and> \<not> pa_is_disqualified p"
  have "map (frozen_row f env d c (Some t)) (filter ?P (db_participations d))
      = map (frozen_row f env d' c (Some t)) (filter ?P (db_participations d'))"
    by (rule filter_map_rel [OF assms(4)]) (use frozen_row_same [OF assms(1-3)] same_row_facts in auto)
  then have "mset (map (frozen_row f env d c (Some t)) (filter ?P (db_participations d)))
      = mset (map (frozen_row f env d' c (Some t)) (filter ?P (db_participations d')))" by (rule arg_cong)
  then show ?thesis unfolding mset_map eligible_mset .
qed

text \<open>What a rank shows of its user; and an entry without its rank.\<close>

definition shown_entry :: "ranking_entry \<Rightarrow> nat \<times> nat \<times> string \<times> rat \<times> rat" where
  "shown_entry e = (en_rank e, en_user e, en_username e, en_score e, en_tiebreaker e)"

definition unranked :: "ranking_entry \<Rightarrow> ranking_entry" where
  "unranked e = e\<lparr>en_rank := 0\<rparr>"

lemma sorted_keys: "map k (sort_key k xs) = sort (map k xs)"
  by (rule sym, rule properties_for_sort) simp_all

lemma rank_entries_unranked:
  assumes "\<forall>e \<in> set es. en_rank e = 0"
  shows "map unranked (rank_entries es) = sort_key rank_key es"
proof -
  have "map unranked (map2 (\<lambda>r e. e\<lparr>en_rank := r\<rparr>) rs xs) = xs"
    if "length rs = length xs" "\<forall>e \<in> set xs. en_rank e = 0" for rs and xs :: "ranking_entry list"
    using that by (induction rs xs rule: list_induct2) (auto simp: unranked_def)
  then show ?thesis using assms by (simp add: rank_entries_def del: upt_Suc)
qed

lemma rank_entries_shown:
  assumes "mset es = mset es'" and "\<forall>e \<in> set es. en_rank e = 0 \<and> en_username e = name (en_user e)"
  shows "map shown_entry (rank_entries es) = map shown_entry (rank_entries es')"
    and "mset (map unranked (rank_entries es)) = mset (map unranked (rank_entries es'))"
proof -
  let ?row = "\<lambda>r k. (r, snd (snd k), name (snd (snd k)), - fst k, fst (snd k))"
  have zero: "\<forall>e \<in> set es'. en_rank e = 0 \<and> en_username e = name (en_user e)"
    using assms(2) mset_eq_setD [OF assms(1)] by simp
  have row: "map shown_entry (map2 (\<lambda>r e. e\<lparr>en_rank := r\<rparr>) rs xs) = map2 ?row rs (map rank_key xs)"
    if "length rs = length xs" "\<forall>e \<in> set xs. en_username e = name (en_user e)" for rs and xs :: "ranking_entry list"
    using that by (induction rs xs rule: list_induct2) (auto simp: shown_entry_def rank_key_def)
  have shown: "map shown_entry (rank_entries xs) = map2 ?row [1..<Suc (length xs)] (sort (map rank_key xs))"
    if "\<forall>e \<in> set xs. en_rank e = 0 \<and> en_username e = name (en_user e)" for xs
    unfolding rank_entries_def by (subst row) (use that in \<open>simp_all add: sorted_keys del: upt_Suc\<close>)
  have "mset (map rank_key es) = mset (map rank_key es')" using assms(1) by simp
  then have "sort (map rank_key es) = sort (map rank_key es')"
    by (intro properties_for_sort) simp_all
  then show "map shown_entry (rank_entries es) = map shown_entry (rank_entries es')"
    unfolding shown [OF assms(2)] shown [OF zero] by (simp add: mset_eq_length [OF assms(1)])
  show "mset (map unranked (rank_entries es)) = mset (map unranked (rank_entries es'))"
    using assms rank_entries_unranked [of es] rank_entries_unranked [of es'] zero by simp
qed

lemma frozen_row_entry: "frozen_row f env d c t p = Inr e \<Longrightarrow> en_rank e = 0 \<and> en_username e = username_of d (en_user e)"
  by (auto simp: frozen_row_def frozen_entry_def)

lemma frozen_row_shape:
  "collect (frozen_row f env d c t) ps = Inr es \<Longrightarrow> \<forall>e \<in> set es. en_rank e = 0 \<and> en_username e = username_of d (en_user e)"
proof (induction ps arbitrary: es)
  case (Cons p ps)
  then obtain e es' where "frozen_row f env d c t p = Inr e" "collect (frozen_row f env d c t) ps = Inr es'" "es = e # es'"
    by auto
  then show ?case using Cons.IH frozen_row_entry by auto
qed simp

lemma frozen_ranking_cong:
  assumes frozen: "is_frozen now c" "freeze_instant c = Some t"
    and same: "submissions_until t d = submissions_until t d'" "db_contest_problems d = db_contest_problems d'"
      "db_users d = db_users d'" "list_all2 same_row (db_participations d) (db_participations d')"
    and ok: "get_frozen_ranking env now d c = Inr es"
  shows "\<exists>es'. get_frozen_ranking env now d' c = Inr es' \<and> map shown_entry es' = map shown_entry es
     \<and> mset (map unranked es') = mset (map unranked es)
     \<and> (distinct (map pa_user (eligible_participations d c)) \<longrightarrow> es' = es)"
proof -
  obtain f where f: "get_format (c_format_name c) = Inr f"
    using ok frozen by (auto simp: get_frozen_ranking_def)
  note run = get_frozen_ranking_rows [OF frozen(1) f, unfolded frozen(2)]
  obtain es0 where es0: "collect (frozen_row f env d c (Some t)) (eligible_participations d c) = Inr es0"
    "es = rank_entries es0" using ok by (auto simp: run)
  obtain es1 where es1: "collect (frozen_row f env d' c (Some t)) (eligible_participations d' c) = Inr es1"
    and m: "mset es0 = mset es1" using collect_mset [OF frozen_rows_mset [OF same] es0(1)] by blast
  have "es = rank_entries es1" if "distinct (map pa_user (eligible_participations d c))"
  proof -
    have "inj_on en_user (set es0)" using that collect_users [OF es0(1)] by (metis distinct_map)
    then have "inj_on rank_key (set es0)" by (auto simp: inj_on_def rank_key_def)
    with m show ?thesis unfolding es0(2) by (rule rank_entries_cong)
  qed
  moreover have "get_frozen_ranking env now d' c = Inr (rank_entries es1)" using es1 by (simp add: run)
  ultimately show ?thesis using rank_entries_shown [OF m frozen_row_shape [OF es0(1)]] es0(2) by auto
qed

section \<open>The attempts before the first accepted submission\<close>

lemma status_code_not_accepted:
  "lower (status_code st) \<notin> {''ac'', ''accepted'', ''ok'', ''correct''}"
proof -
  have "map (lower \<circ> status_code) [Sub_QUEUED, Sub_COMPILING, Sub_JUDGING, Sub_COMPLETED, Sub_ERROR]
      = [''q'', ''cp'', ''jg'', ''cm'', ''er'']" by code_simp
  then show ?thesis by (cases st) auto
qed

lemma is_accepted_iff [simp]: "is_accepted s \<longleftrightarrow> s_result s = Some AC"
proof (cases "s_result s")
  case None
  then show ?thesis using status_code_not_accepted by (simp add: is_accepted_def)
next
  case (Some v)
  have "verdict_code v = ''AC'' \<longleftrightarrow> v = AC" using verdict_code_inject [of v AC] by simp
  then show ?thesis using Some by (simp add: is_accepted_def)
qed

definition counted_wrong :: "submission list \<Rightarrow> submission list" where
  "counted_wrong subs = filter (\<lambda>s. s_result s \<notin> {Some CE, Some IE}) (takeWhile (\<lambda>s. s_result s \<noteq> Some AC) subs)"

lemma icpc_scan_spec:
  "icpc_scan subs w = (w + int (length (counted_wrong subs)), List.find (\<lambda>s. s_result s = Some AC) subs)"
  by (induction subs w rule: icpc_scan.induct) (auto simp: counted_wrong_def)

lemma atcoder_scan_spec:
  "atcoder_scan subs w = (w + int (length (takeWhile (\<lambda>s. s_result s \<noteq> Some AC) subs)),
     List.find (\<lambda>s. s_result s = Some AC) subs)"
  by (induction subs w rule: atcoder_scan.induct) auto

section \<open>Recalculation\<close>

lemma rows_update_id: "(\<And>r. r \<in> set rows \<Longrightarrow> P r \<Longrightarrow> f r = r) \<Longrightarrow> rows_update P f rows = rows"
  by (simp add: rows_update_def map_idI)

text \<open>One recalculation, as an update of the row with the participation's id.\<close>

definition up_to_date :: "env \<Rightarrow> db \<Rightarrow> contest \<Rightarrow> participation \<Rightarrow> bool" where
  "up_to_date env d c p \<longleftrightarrow> (case get_format (c_format_name c) of Inl e \<Rightarrow> False
     | Inr f \<Rightarrow> (case calculate_participation f env d c p None of Inl e \<Rightarrow> False
                 | Inr r \<Rightarrow> store_calculation r p = p))"

lemma recalculate_InrD:
  assumes "recalculate_participation env c p d = Inr d'"
  obtains f r where "get_format (c_format_name c) = Inr f" "calculate_participation f env d c p None = Inr r"
    "d' = d\<lparr>db_participations := rows_update (\<lambda>q. pa_id q = pa_id p) (store_calculation r) (db_participations d)\<rparr>"
  using assms by (auto simp: recalculate_participation_def update_participation_def)

lemma up_to_date_step:
  assumes "recalculate_participation env c p d = Inr d'" and "up_to_date env d c q"
  shows "up_to_date env d' c q"
proof -
  obtain f r where *: "d' = d\<lparr>db_participations := rows_update (\<lambda>q. pa_id q = pa_id p) (store_calculation r) (db_participations d)\<rparr>"
    using assms(1) by (rule recalculate_InrD)
  have "calculate_participation f env d' c q None = calculate_participation f env d c q None" for f
    by (rule any_format.tables_only) (simp_all add: *)
  then show ?thesis using assms(2) by (auto simp: up_to_date_def split: sum.splits)
qed

lemma up_to_date_stored:
  assumes "recalculate_participation env c p d = Inr d'" and "same_entrant p q"
    and "get_format (c_format_name c) = Inr f" and "calculate_participation f env d c p None = Inr r"
  shows "up_to_date env d' c (store_calculation r q)"
proof -
  obtain r' where *: "d' = d\<lparr>db_participations := rows_update (\<lambda>q. pa_id q = pa_id p) (store_calculation r') (db_participations d)\<rparr>"
    using assms(1) by (rule recalculate_InrD)
  have "calculate_participation f env d' c (store_calculation r q) None = calculate_participation f env d c q None"
    unfolding * by (rule any_format.store_irrelevant)
  also have "\<dots> = calculate_participation f env d c p None"
    using any_format.entrant_only [OF assms(2)] by metis
  finally show ?thesis using assms(3,4) by (simp add: up_to_date_def store_calculation_def)
qed

lemma fold_andThen_Inl [simp]: "fold (\<lambda>p r. andThen r (g p)) ps (Inl e) = Inl e"
  by (induction ps) auto

text \<open>A loop of fallible updates relates its ends when each update does.\<close>

lemma fold_andThen_relates:
  assumes "fold (\<lambda>p r. andThen r (g p)) ps (Inr d) = Inr d'"
    and "\<And>p d d1. g p d = Inr d1 \<Longrightarrow> R d d1" and "\<And>d. R d d" and "\<And>d d1 d2. R d d1 \<Longrightarrow> R d1 d2 \<Longrightarrow> R d d2"
  shows "R d d'"
  using assms(1)
proof (induction ps arbitrary: d)
  case (Cons p ps)
  obtain d1 where step: "g p d = Inr d1" and run: "fold (\<lambda>p r. andThen r (g p)) ps (Inr d1) = Inr d'"
    using Cons.prems by (cases "g p d") auto
  show ?case by (rule assms(4) [OF assms(2) [OF step] Cons.IH [OF run]])
qed (simp add: assms(3))

lemma recalculate_step_rows:
  assumes run: "recalculate_participation env c p d = Inr d'" and "p \<in> set (db_participations d)"
    and "distinct (map pa_id (db_participations d))"
  shows "map (\<lambda>q. (pa_id q, pa_contest q)) (db_participations d') = map (\<lambda>q. (pa_id q, pa_contest q)) (db_participations d)"
    and "\<And>q. pa_id q \<noteq> pa_id p \<Longrightarrow> q \<in> set (db_participations d') \<longleftrightarrow> q \<in> set (db_participations d)"
    and "\<And>q. q \<in> set (db_participations d') \<Longrightarrow> pa_id q = pa_id p \<Longrightarrow> up_to_date env d' c q"
proof -
  obtain f r where fr: "get_format (c_format_name c) = Inr f" "calculate_participation f env d c p None = Inr r"
    and d': "d' = d\<lparr>db_participations := rows_update (\<lambda>q. pa_id q = pa_id p) (store_calculation r) (db_participations d)\<rparr>"
    using run by (rule recalculate_InrD)
  show "map (\<lambda>q. (pa_id q, pa_contest q)) (db_participations d') = map (\<lambda>q. (pa_id q, pa_contest q)) (db_participations d)"
    by (simp add: d' rows_update_def store_calculation_def)
  show "q \<in> set (db_participations d') \<longleftrightarrow> q \<in> set (db_participations d)" if "pa_id q \<noteq> pa_id p" for q
    using that by (auto simp: d' rows_update_def store_calculation_def image_iff split: if_splits)
  show "up_to_date env d' c q" if q: "q \<in> set (db_participations d')" "pa_id q = pa_id p" for q
  proof -
    obtain q0 where "q0 \<in> set (db_participations d)" "q = (if pa_id q0 = pa_id p then store_calculation r q0 else q0)"
      using q by (auto simp: d' rows_update_def)
    then have "q = store_calculation r p"
      using q assms(2,3) by (auto simp: store_calculation_def distinct_map split: if_splits dest: inj_onD)
    then show ?thesis using up_to_date_stored [OF run _ fr] by (simp add: same_entrant_def)
  qed
qed

lemma up_to_date_fold:
  "fold (\<lambda>p r. andThen r (recalculate_participation env c p)) ps (Inr d) = Inr d' \<Longrightarrow> up_to_date env d c q
   \<Longrightarrow> up_to_date env d' c q"
proof (induction ps arbitrary: d)
  case (Cons p ps)
  then obtain d1 where "recalculate_participation env c p d = Inr d1"
    by (cases "recalculate_participation env c p d") auto
  then show ?case using Cons up_to_date_step by auto
qed simp

lemma recalculate_fold:
  assumes "fold (\<lambda>p r. andThen r (recalculate_participation env c p)) ps (Inr d) = Inr d'"
    and "set ps \<subseteq> set (db_participations d)" and "distinct (map pa_id (db_participations d))"
    and "distinct (map pa_id ps)"
  shows "map (\<lambda>q. (pa_id q, pa_contest q)) (db_participations d') = map (\<lambda>q. (pa_id q, pa_contest q)) (db_participations d)
    \<and> (\<forall>q \<in> set (db_participations d'). if pa_id q \<in> pa_id ` set ps then up_to_date env d' c q
          else q \<in> set (db_participations d))"
  using assms
proof (induction ps arbitrary: d)
  case (Cons p ps)
  obtain d1 where step: "recalculate_participation env c p d = Inr d1"
    and run: "fold (\<lambda>p r. andThen r (recalculate_participation env c p)) ps (Inr d1) = Inr d'"
    using Cons.prems(1) by (cases "recalculate_participation env c p d") auto
  have "p \<in> set (db_participations d)" using Cons.prems(2) by simp
  note rows = recalculate_step_rows [OF step this Cons.prems(3)]
  have ids: "map pa_id (db_participations d1) = map pa_id (db_participations d)"
    using arg_cong [OF rows(1), of "map fst"] by (simp add: comp_def)
  have "q \<in> set (db_participations d1)" if "q \<in> set ps" for q
  proof -
    have "pa_id q \<noteq> pa_id p" using that Cons.prems(4) by (metis distinct.simps(2) image_eqI list.simps(9) set_map)
    then show ?thesis using rows(2) that Cons.prems(2) by auto
  qed
  then have "set ps \<subseteq> set (db_participations d1)" by blast
  moreover have "distinct (map pa_id (db_participations d1))" "distinct (map pa_id ps)"
    using Cons.prems(3,4) ids by simp_all
  ultimately have IH: "map (\<lambda>q. (pa_id q, pa_contest q)) (db_participations d') = map (\<lambda>q. (pa_id q, pa_contest q)) (db_participations d1)
    \<and> (\<forall>q \<in> set (db_participations d'). if pa_id q \<in> pa_id ` set ps then up_to_date env d' c q
          else q \<in> set (db_participations d1))"
    by (rule Cons.IH [OF run])
  have "up_to_date env d' c q" if "q \<in> set (db_participations d1)" "pa_id q = pa_id p" for q
    using up_to_date_fold [OF run rows(3) [OF that]] .
  then show ?case using IH rows(1,2) by (auto split: if_splits)
qed simp

lemma participations_of_set: "set (participations_of d c) = {p \<in> set (db_participations d). pa_contest p = c_id c}"
  by (auto simp: participations_of_def)

lemma participations_of_distinct:
  assumes "distinct (map pa_id (db_participations d))"
  shows "distinct (map pa_id (participations_of d c))"
proof -
  have "distinct (map pa_id (filter P (db_participations d)))" for P
    using assms by (rule distinct_map_filter)
  then show ?thesis by (simp add: participations_of_def distinct_map)
qed

lemma recalculate_contest_up_to_date:
  assumes "recalculate_contest env c d = Inr d'" and "distinct (map pa_id (db_participations d))"
    and "q \<in> set (db_participations d')"
  shows "if pa_contest q = c_id c then up_to_date env d' c q else q \<in> set (db_participations d)"
proof -
  note facts = recalculate_fold [OF assms(1)[unfolded recalculate_contest_def] _ assms(2) participations_of_distinct [OF assms(2)]]
  have rows: "map (\<lambda>q. (pa_id q, pa_contest q)) (db_participations d') = map (\<lambda>q. (pa_id q, pa_contest q)) (db_participations d)"
    using facts by (auto simp: participations_of_set)
  have "(pa_id q, pa_contest q) \<in> (\<lambda>q. (pa_id q, pa_contest q)) ` set (db_participations d)"
    using assms(3) arg_cong [OF rows, of set] by auto
  then obtain q0 where q0: "q0 \<in> set (db_participations d)" "pa_id q0 = pa_id q" "pa_contest q0 = pa_contest q"
    by auto
  have "pa_id q \<in> pa_id ` set (participations_of d c) \<longleftrightarrow> pa_contest q = c_id c"
  proof
    assume "pa_id q \<in> pa_id ` set (participations_of d c)"
    then obtain q1 where "q1 \<in> set (db_participations d)" "pa_contest q1 = c_id c" "pa_id q1 = pa_id q"
      by (auto simp: participations_of_set)
    then show "pa_contest q = c_id c" using q0 assms(2) by (metis distinct_map inj_onD)
  next
    assume "pa_contest q = c_id c"
    then have "q0 \<in> set (participations_of d c)" using q0 by (simp add: participations_of_set)
    then show "pa_id q \<in> pa_id ` set (participations_of d c)" using q0(2) by (metis imageI)
  qed
  then show ?thesis using facts assms(3) by (simp add: participations_of_set)
qed

lemma up_to_date_recalculate:
  assumes "up_to_date env d c p" and "p \<in> set (db_participations d)" and "distinct (map pa_id (db_participations d))"
  shows "recalculate_participation env c p d = Inr d"
proof -
  obtain f r where fr: "get_format (c_format_name c) = Inr f" "calculate_participation f env d c p None = Inr r"
    "store_calculation r p = p"
    using assms(1) by (auto simp: up_to_date_def split: sum.splits)
  have "rows_update (\<lambda>q. pa_id q = pa_id p) (store_calculation r) (db_participations d) = db_participations d"
    by (rule rows_update_id) (use assms(2,3) fr(3) in \<open>metis distinct_map inj_onD\<close>)
  then show ?thesis using fr by (simp add: recalculate_participation_def update_participation_def)
qed

lemma recalculate_contest_again:
  assumes "recalculate_contest env c d = Inr d'" and "distinct (map pa_id (db_participations d))"
  shows "recalculate_contest env c d' = Inr d'"
proof -
  have "map (\<lambda>q. (pa_id q, pa_contest q)) (db_participations d') = map (\<lambda>q. (pa_id q, pa_contest q)) (db_participations d)"
    using recalculate_fold [OF assms(1)[unfolded recalculate_contest_def] _ assms(2) participations_of_distinct [OF assms(2)]]
    by (auto simp: participations_of_set)
  from arg_cong [OF this, of "map fst"] have d': "distinct (map pa_id (db_participations d'))"
    using assms(2) by (simp add: comp_def)
  have "fold (\<lambda>p r. andThen r (recalculate_participation env c p)) ps (Inr d') = Inr d'"
    if "set ps \<subseteq> set (participations_of d' c)" for ps
    using that
  proof (induction ps)
    case (Cons p ps)
    then have "p \<in> set (db_participations d')" "pa_contest p = c_id c" by (auto simp: participations_of_set)
    then have "recalculate_participation env c p d' = Inr d'"
      using up_to_date_recalculate [OF _ _ d'] recalculate_contest_up_to_date [OF assms] by simp
    then show ?case using Cons by simp
  qed simp
  then show ?thesis by (simp add: recalculate_contest_def)
qed

section \<open>Properties\<close>

text \<open>A contest whose scoreboard is frozen, seen before and after a submission made in the freeze.\<close>

definition sample_contest :: contest where
  "sample_contest = (new_contest 1 ''sample'' 0 (seconds 1000))\<lparr>c_scoreboard_frozen_after := Some (seconds 500)\<rparr>"

definition sample_attempt :: "nat \<Rightarrow> int \<Rightarrow> verdict \<Rightarrow> rat \<Rightarrow> submission" where
  "sample_attempt i sec v pts = (new_submission i 7 5 1 (seconds sec))\<lparr>s_contest_participation := Some 3,
     s_status := Sub_COMPLETED, s_result := Some v, s_points := pts\<rparr>"

definition sample_entrant :: participation where
  "sample_entrant = new_participation 3 1 7"

definition sample_letter :: contest_problem where
  "sample_letter = new_contest_problem 1 1 5 0 ''A'' 100"

definition sample_scoreboard :: db where
  "sample_scoreboard = empty_db\<lparr>db_users := [new_user 7], db_contests := [sample_contest],
     db_contest_problems := [sample_letter], db_participations := [sample_entrant],
     db_submissions := [sample_attempt 1 100 PARTIAL 40]\<rparr>"

definition sample_scoreboard_late :: db where
  "sample_scoreboard_late = sample_scoreboard\<lparr>
     db_participations := [sample_entrant\<lparr>pa_score := 100, pa_tiebreaker := 600\<rparr>],
     db_submissions := [sample_attempt 1 100 PARTIAL 40, sample_attempt 2 600 AC 100]\<rparr>"

lemma sample_lookups:
  "get_format (c_format_name sample_contest) = Inr DefaultContestFormat"
  "is_frozen (seconds 700) sample_contest" "freeze_instant sample_contest = Some (seconds 500)"
  "contest_problems_of sample_scoreboard sample_contest = [sample_letter]"
  "contest_problems_of sample_scoreboard_late sample_contest = [sample_letter]"
  "eligible_participations sample_scoreboard sample_contest = [sample_entrant]"
  "participations_of sample_scoreboard_late sample_contest = db_participations sample_scoreboard_late"
  "username_of sample_scoreboard 7 = ''user7''" "cp_label sample_letter = ''A''"
  "pa_id sample_entrant = 3" "pa_user sample_entrant = 7"
  by code_simp+

lemma sample_frozen_result:
  "default_problem_result sample_contest sample_entrant
      (submission_queryset sample_scoreboard sample_entrant sample_letter (Some (seconds 500)))
   = \<lparr>dr_points = 40, dr_attempts = 1, dr_ac_seconds = 0, dr_solved = False\<rparr>"
proof -
  have "submission_queryset sample_scoreboard sample_entrant sample_letter (Some (seconds 500))
      = [sample_attempt 1 100 PARTIAL 40]" by code_simp
  moreover have "default_problem_result sample_contest sample_entrant [sample_attempt 1 100 PARTIAL 40]
      = \<lparr>dr_points = 40, dr_attempts = 1, dr_ac_seconds = 0, dr_solved = False\<rparr>" by code_simp
  ultimately show ?thesis by simp
qed

lemma sample_frozen_ranking:
  "get_frozen_ranking sample_env (seconds 700) sample_scoreboard sample_contest
     = Inr [\<lparr>en_participation = 3, en_user = 7, en_username = ''user7'', en_score = 40, en_tiebreaker = 0,
             en_cumulative_time = 0, en_format_data = JObj [(''frozen'', JBool True)], en_rank = 1\<rparr>]"
  by (simp add: get_frozen_ranking_rows [OF sample_lookups(2,1)] sample_lookups frozen_row_def frozen_entry_def
      default_calculate_def default_step_def sample_frozen_result Let_def rank_entries_def)

lemma sample_recalculation:
  "\<exists>d'. recalculate_contest sample_env sample_contest sample_scoreboard_late = Inr d'"
  by (simp add: recalculate_contest_def recalculate_participation_def update_participation_def sample_lookups
      sample_scoreboard_late_def [THEN arg_cong, of db_participations] default_calculate_def
      split: prod.splits)

text \<open>C3: While the scoreboard is frozen it shows nothing that happened after the freeze, in any
  format: two databases with the same submissions up to the freeze, whatever was submitted since
  and whatever results are stored in the participations, show the same users at the same ranks with
  the same names, scores and tiebreakers, and the same entries altogether; where no user takes part
  twice the two rankings are equal. (Of two entries of one user that tie, a live and a virtual one,
  the order is all that the stored results may decide.)\<close>

theorem frozen_scoreboard_no_leak:
  assumes "is_frozen now c" and "freeze_instant c = Some t"
    and "submissions_until t d = submissions_until t d'" and "db_contest_problems d = db_contest_problems d'"
    and "db_users d = db_users d'" and "list_all2 same_row (db_participations d) (db_participations d')"
    and "get_frozen_ranking env now d c = Inr es"
  shows "\<exists>es'. get_frozen_ranking env now d' c = Inr es' \<and> map shown_entry es' = map shown_entry es
     \<and> mset (map unranked es') = mset (map unranked es)
     \<and> (distinct (map pa_user (eligible_participations d c)) \<longrightarrow> es' = es)"
  using assms by (rule frozen_ranking_cong)

theorem frozen_scoreboard_no_leak_witness:
  "get_frozen_ranking sample_env (seconds 700) sample_scoreboard_late sample_contest
     = Inr [\<lparr>en_participation = 3, en_user = 7, en_username = ''user7'', en_score = 40, en_tiebreaker = 0,
             en_cumulative_time = 0, en_format_data = JObj [(''frozen'', JBool True)], en_rank = 1\<rparr>]"
proof -
  let ?es = "[\<lparr>en_participation = 3, en_user = 7, en_username = ''user7'', en_score = 40, en_tiebreaker = 0,
             en_cumulative_time = 0, en_format_data = JObj [(''frozen'', JBool True)], en_rank = 1\<rparr>]"
  have until: "submissions_until (seconds 500) sample_scoreboard = submissions_until (seconds 500) sample_scoreboard_late"
    by code_simp
  have tables: "db_contest_problems sample_scoreboard = db_contest_problems sample_scoreboard_late"
    "db_users sample_scoreboard = db_users sample_scoreboard_late"
    by (simp_all add: sample_scoreboard_late_def)
  have "sample_entrant\<lparr>pa_score := 100, pa_tiebreaker := 600\<rparr> =
      store_calculation \<lparr>calc_score = 100, calc_tiebreaker = 600, calc_cumulative_time = 0,
        calc_format_data = JObj []\<rparr> sample_entrant"
    by (simp add: store_calculation_def sample_entrant_def new_participation_def)
  then have "list_all2 same_row (db_participations sample_scoreboard) (db_participations sample_scoreboard_late)"
    by (auto simp: sample_scoreboard_def sample_scoreboard_late_def same_row_def)
  from frozen_scoreboard_no_leak [OF sample_lookups(2,3) until tables this sample_frozen_ranking]
  obtain es' where "get_frozen_ranking sample_env (seconds 700) sample_scoreboard_late sample_contest = Inr es'"
    "distinct (map pa_user (eligible_participations sample_scoreboard sample_contest)) \<longrightarrow> es' = ?es" by blast
  moreover have "distinct (map pa_user (eligible_participations sample_scoreboard sample_contest))" by code_simp
  ultimately show ?thesis by simp
qed

text \<open>A ranking lists each participation of the contest that is not disqualified exactly once, by
  descending score, then tiebreaker, then user, with the ranks 1, 2, 3 and so on.\<close>

theorem ranking_sorted:
  "map en_rank (get_ranking f d c) = [1..<Suc (length (get_ranking f d c))]
   \<and> sorted (map rank_key (get_ranking f d c))
   \<and> mset (map en_participation (get_ranking f d c)) =
       mset (map pa_id (filter (\<lambda>p. pa_contest p = c_id c \<and> \<not> pa_is_disqualified p) (db_participations d)))"
  by (rule get_ranking_facts)

text \<open>C13: In ICPC mode a problem is solved when some submission is accepted; the penalty is the minute
  of the first accepted submission plus the penalty of each submission before it that is neither a
  compile error nor an internal error, one still waiting for its verdict included.\<close>

theorem icpc_penalty:
  "icpc_problem_result wp c p subs =
     (let wrong = int (length (counted_wrong subs))
      in case List.find (\<lambda>s. s_result s = Some AC) subs of
           None \<Rightarrow> \<lparr>ir_points = 0, ir_attempts = wrong, ir_wrong_attempts = wrong, ir_solved = False,
                    ir_solve_minutes = 0, ir_penalty_minutes = 0\<rparr>
         | Some s \<Rightarrow> \<lparr>ir_points = 1, ir_attempts = wrong + 1, ir_wrong_attempts = wrong, ir_solved = True,
                    ir_solve_minutes = submission_minutes c p s,
                    ir_penalty_minutes = submission_minutes c p s + wrong * wp\<rparr>)"
  by (auto simp: icpc_problem_result_def icpc_scan_spec Let_def split: option.splits)

text \<open>C12: After \<open>recalculate_contest\<close> every participation of the contest stores what its format
  computes from the submissions, no other participation has changed, and recalculating again changes
  nothing.\<close>

theorem recalculation_current:
  assumes "recalculate_contest env c d = Inr d'" and "distinct (map pa_id (db_participations d))"
  shows "(\<forall>q \<in> set (db_participations d').
            if pa_contest q = c_id c then up_to_date env d' c q else q \<in> set (db_participations d))
         \<and> recalculate_contest env c d' = Inr d'"
  using recalculate_contest_up_to_date [OF assms] recalculate_contest_again [OF assms] by blast

theorem recalculation_current_witness:
  "\<exists>d'. recalculate_contest sample_env sample_contest sample_scoreboard_late = Inr d'
        \<and> recalculate_contest sample_env sample_contest d' = Inr d'"
proof -
  obtain d' where d': "recalculate_contest sample_env sample_contest sample_scoreboard_late = Inr d'"
    using sample_recalculation by blast
  moreover have "distinct (map pa_id (db_participations sample_scoreboard_late))" by code_simp
  ultimately show ?thesis using recalculation_current by blast
qed

text \<open>In the default format a problem whose only accepted submission was made at the instant the
  participation starts, or before it, is reported as not solved, with full points.\<close>

theorem accepted_at_start_not_solved:
  "let s' = s\<lparr>s_result := Some AC, s_points := 100, s_created_at := participation_start c p\<rparr>;
       r = default_problem_result c p [s']
   in is_accepted s' \<and> dr_points r = 100 \<and> \<not> dr_solved r"
  by (simp add: default_problem_result_def Let_def submission_time_seconds_def total_seconds_def)

end
