(* ===== verification/Jobs.thy ===== *)
theory Jobs
  imports Scoring Formats
begin

text \<open>
  The judge queue: \<open>apps/judge/services/judge_gateway_service.py\<close> and
  \<open>judge_result_service.py\<close>, with the signal handler of \<open>apps/submissions/signals.py\<close> that every
  save of a submission runs. A service function is a function of the database and of the instant it
  reads from \<open>timezone.now()\<close>; \<open>Inl\<close> is a rolled back transaction. Rows are locked by the services
  (\<open>select_for_update\<close>), so one call is one atomic step.
\<close>

section \<open>Saving a submission (\<open>submissions/signals.py\<close>)\<close>

definition accepted_of :: "nat \<Rightarrow> submission list \<Rightarrow> submission list" where
  "accepted_of uid subs = filter (\<lambda>s. s_user s = uid \<and> s_mode s = Mode_SUBMIT
     \<and> s_status s = Sub_COMPLETED \<and> s_result s = Some AC) subs"

definition best_points :: "submission list \<Rightarrow> nat \<Rightarrow> rat" where
  "best_points subs prob =
     (case map s_points (filter (\<lambda>s. s_problem s = prob) subs) of [] \<Rightarrow> 0 | x # xs \<Rightarrow> foldr max xs x)"

text \<open>\<open>values("problem_id").annotate(best=Max("points")).aggregate(total=Sum("best"))\<close>\<close>

definition update_user_stats :: "nat \<Rightarrow> db \<Rightarrow> db" where
  "update_user_stats uid d =
     (let acc = accepted_of uid (db_submissions d); probs = remdups (map s_problem acc)
      in d\<lparr>db_users := rows_update (\<lambda>u. u_id u = uid)
             (\<lambda>u. u\<lparr>u_problem_count := length probs, u_points := sum_list (map (best_points acc) probs)\<rparr>)
             (db_users d)\<rparr>)"

text \<open>\<open>submission.save()\<close>: the row, then \<open>update_user_stats_on_completion\<close>.\<close>

definition save_submission :: "submission \<Rightarrow> db \<Rightarrow> db" where
  "save_submission s d =
     (let d' = d\<lparr>db_submissions := row_put s_id s (db_submissions d)\<rparr>
      in if s_status s \<noteq> Sub_COMPLETED then d' else update_user_stats (s_user s) d')"

text \<open>\<open>Submission.objects.filter(pk=i).update(...)\<close> runs no signal.\<close>

definition update_submission_row :: "nat \<Rightarrow> (submission \<Rightarrow> submission) \<Rightarrow> db \<Rightarrow> db" where
  "update_submission_row i f d = d\<lparr>db_submissions := rows_update (\<lambda>s. s_id s = i) f (db_submissions d)\<rparr>"

definition save_job :: "judge_job \<Rightarrow> db \<Rightarrow> db" where
  "save_job j d = d\<lparr>db_jobs := row_put jj_id j (db_jobs d)\<rparr>"

definition delete_test_cases :: "nat \<Rightarrow> db \<Rightarrow> db" where
  "delete_test_cases i d = d\<lparr>db_test_cases := rows_delete (\<lambda>t. t_submission t = i) (db_test_cases d)\<rparr>"

definition submission_group :: "nat \<Rightarrow> string" where
  "submission_group i = ''submission_'' @ show_nat i"

definition publish_submission :: "string \<Rightarrow> nat \<Rightarrow> (string, json) dict \<Rightarrow> db \<Rightarrow> db" where
  "publish_submission ty i payload d =
     publish \<lparr>ev_type = ty, ev_payload = (''submission_id'', JInt (int i)) # payload,
              ev_group = Some (submission_group i)\<rparr> d"

definition verdict_json :: "verdict option \<Rightarrow> json" where
  "verdict_json r = (case r of Some v \<Rightarrow> JStr (verdict_code v) | None \<Rightarrow> JNull)"

definition lease_seconds :: time where
  "lease_seconds = seconds 60"

section \<open>Leases and claims (\<open>judge_gateway_service.py\<close>)\<close>

definition active_job :: "judge_job \<Rightarrow> bool" where
  "active_job j \<longleftrightarrow> jj_status j \<in> {Job_CLAIMED, Job_RUNNING}"

definition stale_job :: "time \<Rightarrow> judge_job \<Rightarrow> bool" where
  "stale_job now j \<longleftrightarrow> active_job j \<and> (case jj_lease_expires_at j of None \<Rightarrow> False | Some t \<Rightarrow> t < now)"

text \<open>A submission reset to the state \<open>st\<close> with no trace of judging.\<close>

definition reset_submission ::
    "sub_status \<Rightarrow> verdict option \<Rightarrow> string \<Rightarrow> time option \<Rightarrow> submission \<Rightarrow> submission" where
  "reset_submission st res msg judged_at s = s\<lparr>s_status := st, s_result := res, s_points := 0, s_time_used := 0,
     s_memory_used := 0, s_case_total := 0, s_case_passed := 0, s_current_testcase := 0,
     s_subtask_scores := [], s_error_message := msg, s_judged_at := judged_at, s_judged_on := None\<rparr>"

definition lease_failed_message :: string where
  "lease_failed_message = ''Judge lease expired after maximum attempts.''"

text \<open>The two branches for one stale job.\<close>

definition expire_failed :: "time \<Rightarrow> judge_job \<Rightarrow> db \<Rightarrow> db" where
  "expire_failed now j d =
     publish_submission ''submission.finished'' (jj_submission j)
       [(''status'', JStr (status_code Sub_ERROR)), (''result'', JStr (verdict_code IE)),
        (''points'', JFloat 0), (''error_message'', JStr lease_failed_message)]
       (update_submission_row (jj_submission j)
          (reset_submission Sub_ERROR (Some IE) lease_failed_message (Some now))
          (save_job (j\<lparr>jj_status := Job_FAILED, jj_finished_at := Some now, jj_lease_expires_at := None,
                        jj_last_error := ''Lease expired after maximum attempts.''\<rparr>) d))"

definition expire_requeued :: "judge_job \<Rightarrow> db \<Rightarrow> db" where
  "expire_requeued j d =
     publish_submission ''submission.status'' (jj_submission j)
       [(''status'', JStr (status_code Sub_QUEUED)), (''current_testcase'', JInt 0)]
       (update_submission_row (jj_submission j) (reset_submission Sub_QUEUED None [] None)
          (save_job (j\<lparr>jj_status := Job_QUEUED, jj_claimed_by := None, jj_claimed_at := None, jj_started_at := None,
                        jj_finished_at := None, jj_lease_expires_at := None,
                        jj_last_error := ''Lease expired; job requeued.''\<rparr>) d))"

definition expire_job :: "time \<Rightarrow> judge_job \<Rightarrow> db \<Rightarrow> db" where
  "expire_job now j d =
     (let d' = delete_test_cases (jj_submission j) d
      in if jj_attempts j \<ge> jj_max_attempts j then expire_failed now j d' else expire_requeued j d')"

text \<open>The queryset order of the model's \<open>Meta.ordering\<close>, which is the order of the queue.\<close>

definition queue_key :: "judge_job \<Rightarrow> int \<times> time" where
  "queue_key j = (- jj_priority j, jj_created_at j)"

definition stale_jobs :: "time \<Rightarrow> db \<Rightarrow> judge_job list" where
  "stale_jobs now d = sort_key queue_key (filter (stale_job now) (db_jobs d))"

definition expire_stale_jobs :: "time \<Rightarrow> db \<Rightarrow> nat \<times> db" where
  "expire_stale_jobs now d =
     (let js = stale_jobs now d in (length js, fold (expire_job now) js d))"

definition language_key :: "db \<Rightarrow> nat \<Rightarrow> string option" where
  "language_key d i = map_option l_key (row_get l_id i (db_languages d))"

definition claimable :: "db \<Rightarrow> string list \<Rightarrow> judge_job \<Rightarrow> bool" where
  "claimable d languages j \<longleftrightarrow> jj_status j = Job_QUEUED
     \<and> (case language_key d (jj_language j) of None \<Rightarrow> False | Some k \<Rightarrow> k \<in> set languages)"

definition claimed_job :: "time \<Rightarrow> nat \<Rightarrow> judge_job \<Rightarrow> judge_job" where
  "claimed_job now judge_id j = j\<lparr>jj_status := Job_CLAIMED, jj_claimed_by := Some judge_id, jj_claimed_at := Some now,
     jj_attempts := jj_attempts j + 1, jj_lease_expires_at := Some (now + lease_seconds)\<rparr>"

text \<open>\<open>claim_job\<close>, for the worker's judge row and its languages; \<open>max_jobs\<close> is not used. The collection of
  expired leases and the claim, one request, are one step; rows that another transaction has locked,
  which \<open>skip_locked\<close> passes over, are claimed by that transaction in the order of the steps.\<close>

definition claim_job :: "time \<Rightarrow> nat \<Rightarrow> string list \<Rightarrow> db \<Rightarrow> judge_job option \<times> db" where
  "claim_job now judge_id languages d =
     (let d' = snd (expire_stale_jobs now d)
      in case first (sort_key queue_key (filter (claimable d' languages) (db_jobs d'))) of
           None \<Rightarrow> (None, d')
         | Some j \<Rightarrow> (Some (claimed_job now judge_id j), save_job (claimed_job now judge_id j) d'))"

record package_payload =
  pp_problem_id :: nat
  pp_sha256 :: string
  pp_url :: string

record claim_payload =
  cl_job_id :: nat
  cl_submission_id :: nat
  cl_language :: string
  cl_source :: string
  cl_time_limit :: "rat option"
  cl_memory_limit :: "int option"
  cl_short_circuit :: bool
  cl_partial_score :: bool
  cl_contest_points :: "rat option"
  cl_mode :: sub_mode
  cl_custom_input :: string
  cl_expected_output :: string
  cl_package :: "package_payload option"
  cl_checker :: json
  cl_cases :: "mcase list"
  cl_groups :: "mgroup list"
  cl_lease_seconds :: nat

text \<open>\<open>d.get(key, default)\<close>\<close>

definition get_or :: "'a option \<Rightarrow> 'a \<Rightarrow> 'a" where
  "get_or x dflt = (case x of Some v \<Rightarrow> v | None \<Rightarrow> dflt)"

text \<open>\<open>job.package\<close> and its manifest, \<open>(job.package.manifest if job.package is not None else {}) or {}\<close>.\<close>

definition package_of :: "db \<Rightarrow> nat option \<Rightarrow> package option" where
  "package_of d pk = (case pk of None \<Rightarrow> None | Some i \<Rightarrow> get_package i d)"

definition manifest_of :: "db \<Rightarrow> nat option \<Rightarrow> manifest" where
  "manifest_of d pk = (case package_of d pk of None \<Rightarrow> empty_manifest | Some p \<Rightarrow> pk_manifest p)"

definition package_payload_of :: "package \<Rightarrow> package_payload" where
  "package_payload_of p = \<lparr>pp_problem_id = pk_problem p, pp_sha256 = pk_sha256 p,
     pp_url = ''/api/v1/judge/packages/'' @ show_nat (pk_problem p) @ ''?sha256='' @ pk_sha256 p\<rparr>"

definition source_of :: "db \<Rightarrow> nat \<Rightarrow> string" where
  "source_of d i = (case List.find (\<lambda>s. src_submission s = i) (db_sources d) of Some s \<Rightarrow> src_code s | None \<Rightarrow> [])"

definition exact_checker :: json where
  "exact_checker = JObj [(''type'', JStr ''exact'')]"

text \<open>The falsy JSON values, for \<open>manifest.get("checker") or {...}\<close>.\<close>

fun truthy :: "json \<Rightarrow> bool" where
  "truthy JNull = False"
| "truthy (JBool b) = b"
| "truthy (JInt n) = (n \<noteq> 0)"
| "truthy (JFloat x) = (x \<noteq> 0)"
| "truthy (JStr s) = (s \<noteq> [])"
| "truthy (JArr xs) = (xs \<noteq> [])"
| "truthy (JObj xs) = (xs \<noteq> [])"

definition checker_of :: "manifest \<Rightarrow> json" where
  "checker_of m = (case m_checker m of Some c \<Rightarrow> if truthy c then c else exact_checker | None \<Rightarrow> exact_checker)"

text \<open>\<open>config.get(key, manifest.get(key))\<close>\<close>

definition or_else :: "'a option \<Rightarrow> 'a option \<Rightarrow> 'a option" where
  "or_else x y = (case x of Some v \<Rightarrow> Some v | None \<Rightarrow> y)"

definition job_payload :: "db \<Rightarrow> judge_job \<Rightarrow> claim_payload" where
  "job_payload d j =
     (let m = manifest_of d (jj_package j); cf = jj_config j
      in \<lparr>cl_job_id = jj_id j, cl_submission_id = jj_submission j,
          cl_language = get_or (language_key d (jj_language j)) [],
          cl_source = source_of d (jj_submission j),
          cl_time_limit = or_else (cf_time_limit cf) (m_time_limit m),
          cl_memory_limit = or_else (cf_memory_limit cf) (m_memory_limit m),
          cl_short_circuit = get_or (cf_short_circuit cf) False,
          cl_partial_score = get_or (cf_partial_score cf) False,
          cl_contest_points = cf_contest_points cf,
          cl_mode = get_or (cf_mode cf) Mode_SUBMIT,
          cl_custom_input = get_or (cf_custom_input cf) [],
          cl_expected_output = get_or (cf_expected_output cf) [],
          cl_package = map_option package_payload_of (package_of d (jj_package j)),
          cl_checker = checker_of m, cl_cases = m_cases m, cl_groups = m_groups m,
          cl_lease_seconds = 60\<rparr>)"

section \<open>Progress and results (\<open>judge_result_service.py\<close>)\<close>

text \<open>\<open>_lock_job\<close>: \<open>JudgeJob.objects.select_for_update().get(pk=job.pk)\<close>; \<open>get\<close> on a missing row raises
  \<open>DoesNotExist\<close>.\<close>

definition lock_job :: "nat \<Rightarrow> db \<Rightarrow> judge_job result" where
  "lock_job i d = (case get_job i d of Some j \<Rightarrow> Inr j | None \<Rightarrow> Inl (ValueError ''JudgeJob matching query does not exist.''))"

definition assert_owned :: "time \<Rightarrow> nat \<Rightarrow> judge_job \<Rightarrow> unit result" where
  "assert_owned now judge_id j =
     (if jj_claimed_by j \<noteq> Some judge_id then Inl (PermissionDeniedError ''This job is claimed by another judge.'')
      else if (case jj_lease_expires_at j of None \<Rightarrow> True | Some t \<Rightarrow> t \<le> now)
      then Inl (JudgeJobConflictError ''The judge job lease has expired.'')
      else if jj_status j \<notin> {Job_CLAIMED, Job_RUNNING} then Inl (JudgeJobConflictError ''The judge job is not active.'')
      else Inr ())"

definition extend_lease :: "time \<Rightarrow> judge_job \<Rightarrow> judge_job" where
  "extend_lease now j = j\<lparr>jj_lease_expires_at := Some (now + lease_seconds)\<rparr>"

text \<open>\<open>_manifest_case\<close> and the group it is in.\<close>

definition manifest_group :: "manifest \<Rightarrow> int \<Rightarrow> string" where
  "manifest_group m n =
     (let index = n - 1
      in if index < 0 \<or> index \<ge> int (length (m_cases m)) then ''default''
         else get_or (mc_group (m_cases m ! nat index)) ''default'')"

text \<open>\<open>_refresh_contest_score\<close>: an exception is logged and swallowed; the nested transaction has been
  rolled back.\<close>

definition refresh_contest_score :: "env \<Rightarrow> submission \<Rightarrow> db \<Rightarrow> db" where
  "refresh_contest_score env s d =
     (case s_contest_participation s of
        None \<Rightarrow> d
      | Some pid \<Rightarrow>
          (case get_participation pid d of
             None \<Rightarrow> d
           | Some p \<Rightarrow>
               (case get_contest (pa_contest p) d of
                  None \<Rightarrow> d
                | Some c \<Rightarrow> (case recalculate_participation env c p d of Inl e \<Rightarrow> d | Inr d' \<Rightarrow> d'))))"

text \<open>\<open>locked.submission\<close>; the foreign key always has its row.\<close>

definition submission_of :: "judge_job \<Rightarrow> db \<Rightarrow> submission result" where
  "submission_of j d = (case get_submission_row (jj_submission j) d of Some s \<Rightarrow> Inr s
     | None \<Rightarrow> Inl (ValueError ''Submission matching query does not exist.''))"

definition start :: "time \<Rightarrow> nat \<Rightarrow> nat \<Rightarrow> db \<Rightarrow> db result" where
  "start now job_id judge_id d =
     andThen (lock_job job_id d) (\<lambda>j.
       if jj_status j = Job_RUNNING
       then raise_if (jj_claimed_by j \<noteq> Some judge_id) (PermissionDeniedError ''This job is claimed by another judge.'')
              (Inr (save_job (extend_lease now j) d))
       else andThen (assert_owned now judge_id j) (\<lambda>_.
         raise_if (jj_status j \<noteq> Job_CLAIMED) (JudgeJobConflictError ''The judge job cannot be started.'')
           (Inr (publish_submission ''submission.status'' (jj_submission j)
              [(''status'', JStr (status_code Sub_JUDGING)), (''current_testcase'', JInt 0)]
              (update_submission_row (jj_submission j) (\<lambda>s. s\<lparr>s_status := Sub_JUDGING\<rparr>)
                 (save_job (extend_lease now (j\<lparr>jj_status := Job_RUNNING, jj_started_at := Some now\<rparr>)) d))))))"

text \<open>\<open>SubmissionTestCase.objects.update_or_create(submission, case_number, defaults)\<close>\<close>

definition upsert_test_case :: "test_case \<Rightarrow> test_case list \<Rightarrow> test_case list" where
  "upsert_test_case t ts =
     (let same = (\<lambda>x. t_submission x = t_submission t \<and> t_case_number x = t_case_number t)
      in if list_ex same ts then rows_update same (\<lambda>_. t) ts else ts @ [t])"

definition test_case_of :: "manifest \<Rightarrow> nat \<Rightarrow> case_in \<Rightarrow> test_case" where
  "test_case_of m sub c = \<lparr>t_submission = sub, t_case_number = ci_case_number c,
     t_status = normalise_verdict (ci_status c), t_time_used = ci_time_used c, t_memory_used = ci_memory_used c,
     t_points = ci_points c, t_total_points = ci_total_points c,
     t_group = manifest_group m (ci_case_number c), t_feedback = ci_feedback c, t_output = ci_output c\<rparr>"

text \<open>One iteration of the loop over the batch: the test case table and \<open>max_case\<close>.\<close>

definition record_case ::
    "manifest \<Rightarrow> nat \<Rightarrow> case_in \<Rightarrow> test_case list \<times> int \<Rightarrow> (test_case list \<times> int) result" where
  "record_case m sub c st =
     (if m_cases m \<noteq> [] \<and> \<not> (1 \<le> ci_case_number c \<and> ci_case_number c \<le> int (length (m_cases m)))
      then Inl (ValidationError (''Case number '' @ show_int (ci_case_number c) @ '' is outside the active package.''))
      else if ci_case_number c \<le> 0 then Inr st
      else Inr (upsert_test_case (test_case_of m sub c) (fst st), max (snd st) (ci_case_number c)))"

definition record_batch ::
    "manifest \<Rightarrow> nat \<Rightarrow> case_in list \<Rightarrow> test_case list \<times> int \<Rightarrow> (test_case list \<times> int) result" where
  "record_batch m sub cases st = fold (\<lambda>c r. andThen r (record_case m sub c)) cases (Inr st)"

definition cases_of :: "nat \<Rightarrow> test_case list \<Rightarrow> test_case list" where
  "cases_of sub ts = filter (\<lambda>t. t_submission t = sub) ts"

definition case_in_json :: "case_in \<Rightarrow> json" where
  "case_in_json c = JObj [(''case_number'', JInt (ci_case_number c)), (''status'', JStr (ci_status c)),
     (''time_used'', JFloat (ci_time_used c)), (''memory_used'', JInt (ci_memory_used c)),
     (''points'', JFloat (ci_points c)), (''total_points'', JFloat (ci_total_points c)),
     (''feedback'', JStr (ci_feedback c)), (''output'', JStr (ci_output c))]"

definition record_cases :: "time \<Rightarrow> nat \<Rightarrow> nat \<Rightarrow> case_in list \<Rightarrow> db \<Rightarrow> db result" where
  "record_cases now job_id judge_id cases d =
     andThen (lock_job job_id d) (\<lambda>j.
     andThen (assert_owned now judge_id j) (\<lambda>_.
     andThen (submission_of j d) (\<lambda>s.
       let j' = (if jj_status j = Job_CLAIMED
                 then j\<lparr>jj_status := Job_RUNNING,
                        jj_started_at := (case jj_started_at j of Some t \<Rightarrow> Some t | None \<Rightarrow> Some now)\<rparr>
                 else j);
           m = manifest_of d (jj_package j); sub = s_id s
       in andThen (record_batch m sub cases (db_test_cases d, s_current_testcase s)) (\<lambda>(ts, max_case).
            let case_total = (if m_cases m \<noteq> [] then int (length (m_cases m)) else int (length (cases_of sub ts)));
                case_passed = int (length (filter (\<lambda>t. t_status t = AC \<and> t_case_number t \<le> case_total) (cases_of sub ts)));
                s' = s\<lparr>s_status := Sub_JUDGING, s_case_total := case_total, s_case_passed := case_passed,
                       s_current_testcase := min max_case case_total\<rparr>
            in Inr (publish_submission ''submission.case'' sub
                 [(''cases'', JArr (map case_in_json cases)), (''case_total'', JInt case_total),
                  (''case_passed'', JInt case_passed), (''current_testcase'', JInt max_case)]
                 (save_job (extend_lease now j')
                    (save_submission s' (d\<lparr>db_test_cases := ts\<rparr>))))))))"

record finish_in =
  fi_package_sha256 :: "string option"
  fi_status :: string
  fi_result :: "string option"
  fi_points :: rat
  fi_time_used :: rat
  fi_memory_used :: int
  fi_case_total :: int
  fi_case_passed :: int
  fi_error_message :: string

record fail_in =
  fa_package_sha256 :: "string option"
  fa_status :: string
  fa_result :: string
  fa_error_message :: string

text \<open>The rows in \<open>case_number\<close> order, and what the scoring service is given of each.\<close>

definition sorted_cases :: "nat \<Rightarrow> test_case list \<Rightarrow> test_case list" where
  "sorted_cases sub ts = sort_key t_case_number (cases_of sub ts)"

definition report_of :: "test_case \<Rightarrow> case_report" where
  "report_of t = \<lparr>cr_case_number = t_case_number t, cr_status = verdict_code (t_status t),
     cr_time_used = Some (t_time_used t), cr_memory_used = Some (t_memory_used t),
     cr_points = Some (t_points t), cr_total_points = Some (t_total_points t)\<rparr>"

definition last_row :: "test_case list \<Rightarrow> test_case option" where
  "last_row rows = (if rows = [] then None else Some (last rows))"

text \<open>The result of a custom run: the verdict of its last case, and no points.\<close>

definition apply_run_result :: "test_case option \<Rightarrow> submission \<Rightarrow> submission" where
  "apply_run_result c s =
     s\<lparr>s_status := (if c \<noteq> None then Sub_COMPLETED else Sub_ERROR),
       s_result := Some (case c of Some t \<Rightarrow> t_status t | None \<Rightarrow> IE),
       s_points := 0,
       s_time_used := (case c of Some t \<Rightarrow> t_time_used t | None \<Rightarrow> 0),
       s_memory_used := (case c of Some t \<Rightarrow> t_memory_used t | None \<Rightarrow> 0),
       s_case_total := (if c \<noteq> None then 1 else 0),
       s_case_passed := (case c of Some t \<Rightarrow> if t_status t = AC then 1 else 0 | None \<Rightarrow> 0),
       s_current_testcase := (if c \<noteq> None then 1 else 0),
       s_subtask_scores := []\<rparr>"

definition apply_summary :: "score_summary \<Rightarrow> test_case list \<Rightarrow> submission \<Rightarrow> submission" where
  "apply_summary r rows s =
     s\<lparr>s_status := sum_status r, s_result := Some (sum_result r), s_points := sum_points r,
       s_time_used := sum_time_used r, s_memory_used := sum_memory_used r,
       s_case_total := sum_case_total r, s_case_passed := sum_case_passed r,
       s_current_testcase := (case rows of [] \<Rightarrow> 0 | t # ts \<Rightarrow> foldr max (map t_case_number ts) (t_case_number t)),
       s_subtask_scores := sum_subtask_scores r\<rparr>"

text \<open>A missing package makes \<open>package.manifest\<close> fail in the scoring service.\<close>

definition judged_submission :: "db \<Rightarrow> judge_job \<Rightarrow> submission \<Rightarrow> submission result" where
  "judged_submission d j s =
     (let rows = sorted_cases (s_id s) (db_test_cases d)
      in if s_mode s = Mode_RUN then Inr (apply_run_result (last_row rows) s)
         else case package_of d (jj_package j) of
                None \<Rightarrow> Inl (AttributeError ''manifest'')
              | Some p \<Rightarrow> Inr (apply_summary (score (pk_manifest p) (map report_of rows)) rows s))"

definition finish :: "env \<Rightarrow> time \<Rightarrow> nat \<Rightarrow> nat \<Rightarrow> finish_in \<Rightarrow> db \<Rightarrow> (submission \<times> db) result" where
  "finish env now job_id judge_id payload d =
     andThen (lock_job job_id d) (\<lambda>j.
     andThen (submission_of j d) (\<lambda>s.
       if jj_status j = Job_SUCCEEDED
       then raise_if (jj_claimed_by j \<noteq> Some judge_id) (PermissionDeniedError ''This job is claimed by another judge.'')
              (Inr (s, d))
       else andThen (assert_owned now judge_id j) (\<lambda>_.
         raise_if (jj_status j \<notin> {Job_CLAIMED, Job_RUNNING}) (JudgeJobConflictError ''The judge job cannot be finished.'')
         (andThen (judged_submission d j s) (\<lambda>s0.
           let s' = s0\<lparr>s_judged_at := Some now, s_judged_on := Some judge_id, s_error_message := fi_error_message payload\<rparr>;
               d1 = refresh_contest_score env s' (save_submission s' d);
               j' = j\<lparr>jj_status := Job_SUCCEEDED, jj_finished_at := Some now, jj_lease_expires_at := None, jj_last_error := []\<rparr>
           in Inr (s', publish_submission ''submission.finished'' (s_id s')
                [(''status'', JStr (status_code (s_status s'))), (''result'', verdict_json (s_result s')),
                 (''points'', JFloat (s_points s')), (''time_used'', JFloat (s_time_used s')),
                 (''memory_used'', JInt (s_memory_used s')), (''case_total'', JInt (s_case_total s')),
                 (''case_passed'', JInt (s_case_passed s'))]
                (save_job j' d1)))))))"

definition fail_verdict :: "string \<Rightarrow> verdict" where
  "fail_verdict r = (if r = verdict_code CE then CE else IE)"

definition fail :: "env \<Rightarrow> time \<Rightarrow> nat \<Rightarrow> nat \<Rightarrow> fail_in \<Rightarrow> db \<Rightarrow> (submission \<times> db) result" where
  "fail env now job_id judge_id payload d =
     andThen (lock_job job_id d) (\<lambda>j.
     andThen (submission_of j d) (\<lambda>s.
       if jj_status j = Job_FAILED
       then raise_if (jj_claimed_by j \<noteq> Some judge_id) (PermissionDeniedError ''This job is claimed by another judge.'')
              (Inr (s, d))
       else andThen (assert_owned now judge_id j) (\<lambda>_.
         raise_if (jj_status j \<notin> {Job_CLAIMED, Job_RUNNING}) (JudgeJobConflictError ''The judge job cannot be failed.'')
         (let s' = (reset_submission Sub_ERROR (Some (fail_verdict (fa_result payload))) (fa_error_message payload) (Some now) s)
                     \<lparr>s_judged_on := Some judge_id\<rparr>;
              d1 = refresh_contest_score env s' (save_submission s' d);
              j' = j\<lparr>jj_status := Job_FAILED, jj_finished_at := Some now, jj_lease_expires_at := None,
                     jj_last_error := s_error_message s'\<rparr>
          in Inr (s', publish_submission ''submission.finished'' (s_id s')
                [(''status'', JStr (status_code (s_status s'))), (''result'', verdict_json (s_result s')),
                 (''error_message'', JStr (s_error_message s'))]
                (save_job j' d1))))))"

section \<open>The worker API (\<open>judge/auth.py\<close>, \<open>judge/api/gateway.py\<close>)\<close>

definition save_judge :: "judge \<Rightarrow> db \<Rightarrow> db" where
  "save_judge g d = d\<lparr>db_judges := row_put j_id g (db_judges d)\<rparr>"

text \<open>\<open>JudgeTokenAuth.authenticate\<close>, on the rows of the judge table.\<close>

definition authenticate_judge :: "env \<Rightarrow> string \<Rightarrow> db \<Rightarrow> judge option result" where
  "authenticate_judge env token d =
     (case first (filter (\<lambda>g. j_token_hash g = Some (e_sha256_hex env token)) (db_judges d)) of
        None \<Rightarrow> Inr None
      | Some g \<Rightarrow> raise_if (j_is_blocked g) (HttpError 403 ''Judge is blocked.'') (Inr (Some g)))"

text \<open>The framework answers 401 when authentication yields nothing; \<open>_request_judge\<close> repeats the check.\<close>

definition request_judge :: "env \<Rightarrow> string \<Rightarrow> db \<Rightarrow> judge result" where
  "request_judge env token d =
     andThen (authenticate_judge env token d) (\<lambda>g.
       case g of None \<Rightarrow> Inl (HttpError 401 ''Judge authentication required.'') | Some g \<Rightarrow> Inr g)"

definition gateway_get_job :: "nat \<Rightarrow> db \<Rightarrow> judge_job result" where
  "gateway_get_job i d = (case get_job i d of None \<Rightarrow> Inl (HttpError 404 ''Judge job not found.'') | Some j \<Rightarrow> Inr j)"

definition verify_package :: "db \<Rightarrow> nat option \<Rightarrow> string option \<Rightarrow> unit result" where
  "verify_package d pk sha =
     (case sha of
        None \<Rightarrow> Inr ()
      | Some h \<Rightarrow> if h = [] then Inr ()
                  else (case package_of d pk of
                          None \<Rightarrow> Inl (JudgeJobConflictError ''The worker reported a stale package hash.'')
                        | Some p \<Rightarrow> raise_if (h \<noteq> pk_sha256 p)
                            (JudgeJobConflictError ''The worker reported a stale package hash.'') (Inr ())))"

definition register :: "env \<Rightarrow> time \<Rightarrow> string \<Rightarrow> int \<Rightarrow> json \<Rightarrow> db \<Rightarrow> (nat \<times> db) result" where
  "register env now token version capabilities d =
     andThen (request_judge env token d) (\<lambda>g.
       Inr (j_id g, save_judge (g\<lparr>j_protocol_version := version, j_capabilities := capabilities, j_online := True,
         j_last_seen := Some now,
         j_start_time := (case j_start_time g of None \<Rightarrow> Some now | Some t \<Rightarrow> Some t), j_updated_at := now\<rparr>) d))"

definition heartbeat :: "env \<Rightarrow> time \<Rightarrow> string \<Rightarrow> rat \<Rightarrow> db \<Rightarrow> db result" where
  "heartbeat env now token ld d =
     andThen (request_judge env token d) (\<lambda>g.
       let d1 = save_judge (g\<lparr>j_online := True, j_last_seen := Some now, j_current_load := ld, j_load := Some ld,
                  j_updated_at := now\<rparr>) d
       in Inr (d1\<lparr>db_jobs := rows_update (\<lambda>j. jj_claimed_by j = Some (j_id g) \<and> active_job j)
                   (extend_lease now) (db_jobs d1)\<rparr>))"

text \<open>\<open>None\<close> is the 204 response.\<close>

definition api_claim :: "env \<Rightarrow> time \<Rightarrow> string \<Rightarrow> string list \<Rightarrow> db \<Rightarrow> (claim_payload option \<times> db) result" where
  "api_claim env now token languages d =
     andThen (request_judge env token d) (\<lambda>g.
       case claim_job now (j_id g) languages d of
         (None, d') \<Rightarrow> Inr (None, d')
       | (Some j, d') \<Rightarrow> Inr (Some (job_payload d' j), d'))"

definition api_start :: "env \<Rightarrow> time \<Rightarrow> string \<Rightarrow> nat \<Rightarrow> db \<Rightarrow> db result" where
  "api_start env now token job_id d =
     andThen (request_judge env token d) (\<lambda>g.
     andThen (gateway_get_job job_id d) (\<lambda>j. start now (jj_id j) (j_id g) d))"

definition api_cases ::
    "env \<Rightarrow> time \<Rightarrow> string \<Rightarrow> nat \<Rightarrow> string option \<Rightarrow> case_in list \<Rightarrow> db \<Rightarrow> (nat \<times> db) result" where
  "api_cases env now token job_id sha cases d =
     andThen (request_judge env token d) (\<lambda>g.
     andThen (gateway_get_job job_id d) (\<lambda>j.
     andThen (verify_package d (jj_package j) sha) (\<lambda>_.
     andThen (record_cases now (jj_id j) (j_id g) cases d) (\<lambda>d'. Inr (length cases, d')))))"

definition api_finish :: "env \<Rightarrow> time \<Rightarrow> string \<Rightarrow> nat \<Rightarrow> finish_in \<Rightarrow> db \<Rightarrow> (submission \<times> db) result" where
  "api_finish env now token job_id payload d =
     andThen (request_judge env token d) (\<lambda>g.
     andThen (gateway_get_job job_id d) (\<lambda>j.
     andThen (verify_package d (jj_package j) (fi_package_sha256 payload)) (\<lambda>_.
       finish env now (jj_id j) (j_id g) payload d)))"

definition api_fail :: "env \<Rightarrow> time \<Rightarrow> string \<Rightarrow> nat \<Rightarrow> fail_in \<Rightarrow> db \<Rightarrow> (submission \<times> db) result" where
  "api_fail env now token job_id payload d =
     andThen (request_judge env token d) (\<lambda>g.
     andThen (gateway_get_job job_id d) (\<lambda>j.
     andThen (verify_package d (jj_package j) (fa_package_sha256 payload)) (\<lambda>_.
       fail env now (jj_id j) (j_id g) payload d)))"

text \<open>\<open>download_package\<close>, up to the archive file itself.\<close>

definition download_package :: "env \<Rightarrow> string \<Rightarrow> nat \<Rightarrow> string \<Rightarrow> db \<Rightarrow> package result" where
  "download_package env token prob sha d =
     andThen (request_judge env token d) (\<lambda>_.
       case first (filter (\<lambda>p. pk_problem p = prob \<and> pk_sha256 p = sha) (db_packages d)) of
         None \<Rightarrow> Inl (HttpError 404 ''Problem package not found.'') | Some p \<Rightarrow> Inr p)"

end
