(* ===== verification/Access.thy ===== *)
theory Access
  imports Formats
begin

text \<open>
  Who may see and change what: \<open>Problem.is_accessible_by\<close> and the query and permission functions
  of \<open>problem_service.py\<close>, the predicates of \<open>contest_service.py\<close> with the time properties of the
  \<open>Contest\<close> and \<open>ContestParticipation\<close> models, the visibility predicates of
  \<open>submission_service.py\<close> and the request predicates of \<open>core/permissions.py\<close>. A viewer is \<open>None\<close>
  for an anonymous request; a user row is authenticated. Two locales state what every such policy
  keeps, and the three families of predicates are instances of them.
\<close>

type_synonym viewer = "user option"

section \<open>Requests (\<open>core/permissions.py\<close>)\<close>

definition is_authenticated :: "viewer \<Rightarrow> bool" where
  "is_authenticated v = (case v of None \<Rightarrow> False | Some u \<Rightarrow> u_is_active u)"

definition is_staff :: "viewer \<Rightarrow> bool" where
  "is_staff v = (is_authenticated v \<and> (case v of None \<Rightarrow> False | Some u \<Rightarrow> u_is_staff u))"

definition is_superuser :: "viewer \<Rightarrow> bool" where
  "is_superuser v = (is_authenticated v \<and> (case v of None \<Rightarrow> False | Some u \<Rightarrow> u_is_superuser u))"

definition is_object_owner :: "viewer \<Rightarrow> nat option \<Rightarrow> bool" where
  "is_object_owner v owner =
     (is_authenticated v \<and> (case v of None \<Rightarrow> False | Some u \<Rightarrow> owner = Some (u_id u)))"

definition staff_user :: "user \<Rightarrow> bool" where
  "staff_user u = (u_is_staff u \<or> u_is_superuser u)"

section \<open>Problems\<close>

definition is_public :: "problem \<Rightarrow> bool" where
  "is_public p = (p_visibility p = Prob_PUBLIC)"

definition is_maintainer_or_tester :: "nat \<Rightarrow> problem \<Rightarrow> bool" where
  "is_maintainer_or_tester uid p = (uid \<in> set (p_authors p) \<or> uid \<in> set (p_curators p) \<or> uid \<in> set (p_testers p))"

text \<open>\<open>self.organizations.filter(members__pk=user_id).exists()\<close>\<close>

definition shares_organization :: "user \<Rightarrow> nat list \<Rightarrow> bool" where
  "shares_organization u orgs = list_ex (\<lambda>g. g \<in> set (u_organizations u)) orgs"

definition is_accessible_by :: "viewer \<Rightarrow> problem \<Rightarrow> bool" where
  "is_accessible_by v p =
     (if is_public p \<or> p_visibility p = Prob_UNLISTED then
        (if \<not> p_is_organization_private p then True
         else case v of
           None \<Rightarrow> False
         | Some u \<Rightarrow> if staff_user u then True
                     else if is_maintainer_or_tester (u_id u) p then True
                     else shares_organization u (p_organizations p))
      else case v of
        None \<Rightarrow> False
      | Some u \<Rightarrow> if staff_user u then True else is_maintainer_or_tester (u_id u) p)"

definition visibility_filter :: "problem \<Rightarrow> bool" where
  "visibility_filter p = (p_visibility p = Prob_PUBLIC \<or> p_visibility p = Prob_UNLISTED)"

definition get_visible_problems :: "viewer \<Rightarrow> db \<Rightarrow> problem list" where
  "get_visible_problems v d =
     (case v of
        None \<Rightarrow> filter (\<lambda>p. visibility_filter p \<and> \<not> p_is_organization_private p) (db_problems d)
      | Some u \<Rightarrow>
          if staff_user u then db_problems d
          else filter (\<lambda>p. visibility_filter p
                     \<and> (\<not> p_is_organization_private p
                        \<or> p_is_organization_private p \<and> shares_organization u (p_organizations p))
                   \<or> is_maintainer_or_tester (u_id u) p) (db_problems d))"

definition get_problem_by_code :: "string \<Rightarrow> db \<Rightarrow> problem result" where
  "get_problem_by_code code d =
     (case first (filter (\<lambda>p. p_code p = code) (db_problems d)) of
        None \<Rightarrow> Inl (NotFoundError (''Problem '' @ [CHR 0x27] @ code @ [CHR 0x27] @ '' does not exist.'')) | Some p \<Rightarrow> Inr p)"

definition can_see_problem :: "viewer \<Rightarrow> problem \<Rightarrow> bool" where
  "can_see_problem v p = is_accessible_by v p"

definition can_edit_problem :: "viewer \<Rightarrow> problem \<Rightarrow> bool" where
  "can_edit_problem v p =
     (case v of None \<Rightarrow> False
      | Some u \<Rightarrow> if staff_user u then True else u_id u \<in> set (p_authors p) \<or> u_id u \<in> set (p_curators p))"

record problem_statistics =
  ps_code :: string
  ps_total_submissions :: nat
  ps_total_accepted :: nat
  ps_total_partial :: nat
  ps_total_wrong :: nat
  ps_accepted_rate :: rat

text \<open>\<open>get_problem_statistics\<close>, without the count of the published solutions.\<close>

definition get_problem_statistics :: "problem \<Rightarrow> db \<Rightarrow> problem_statistics" where
  "get_problem_statistics p d =
     (let qs = filter (\<lambda>s. s_problem s = p_id p \<and> s_mode s = Mode_SUBMIT) (db_submissions d);
          tot = length qs;
          correct = length (filter (\<lambda>s. s_result s = Some AC) qs);
          partial = length (filter (\<lambda>s. s_result s = Some PARTIAL) qs);
          wrong = length (filter (\<lambda>s. s_result s \<in> {Some WA, Some TLE, Some MLE, Some RTE, Some OLE, Some IR}) qs)
      in \<lparr>ps_code = p_code p, ps_total_submissions = tot, ps_total_accepted = correct,
          ps_total_partial = partial, ps_total_wrong = wrong,
          ps_accepted_rate = round_to 2 (if tot \<noteq> 0 then of_nat correct / of_nat tot * 100 else 0)\<rparr>)"

section \<open>Contests\<close>

definition is_active :: "time \<Rightarrow> contest \<Rightarrow> bool" where
  "is_active now c = (c_start_time c \<le> now \<and> now < c_end_time c)"

definition is_finished :: "time \<Rightarrow> contest \<Rightarrow> bool" where
  "is_finished now c = (now \<ge> c_end_time c)"

definition is_upcoming :: "time \<Rightarrow> contest \<Rightarrow> bool" where
  "is_upcoming now c = (now < c_start_time c)"

definition contest_duration :: "contest \<Rightarrow> time" where
  "contest_duration c = c_end_time c - c_start_time c"

definition contest_time_remaining :: "time \<Rightarrow> contest \<Rightarrow> time" where
  "contest_time_remaining now c = (if \<not> is_active now c then 0 else max (c_end_time c - now) 0)"

definition participation_live :: "participation \<Rightarrow> bool" where
  "participation_live p = (pa_status p = Part_LIVE)"

text \<open>A contest's \<open>time_limit\<close> of \<open>None\<close> or zero is falsy.\<close>

definition effective_time_limit :: "contest \<Rightarrow> time option" where
  "effective_time_limit c = (case c_time_limit c of None \<Rightarrow> None | Some t \<Rightarrow> if t = 0 then None else Some t)"

definition participation_ended :: "time \<Rightarrow> contest \<Rightarrow> participation \<Rightarrow> bool" where
  "participation_ended now c p =
     (if pa_status p \<noteq> Part_VIRTUAL then is_finished now c
      else case pa_virtual_start p of
        None \<Rightarrow> False
      | Some vs \<Rightarrow> (case effective_time_limit c of None \<Rightarrow> is_finished now c | Some l \<Rightarrow> now \<ge> vs + l))"

definition participation_time_remaining :: "time \<Rightarrow> contest \<Rightarrow> participation \<Rightarrow> time" where
  "participation_time_remaining now c p =
     (case pa_virtual_start p of
        None \<Rightarrow> 0
      | Some vs \<Rightarrow>
          if pa_status p \<noteq> Part_VIRTUAL then 0
          else (case effective_time_limit c of
                  None \<Rightarrow> contest_time_remaining now c
                | Some l \<Rightarrow> max (vs + l - now) 0))"

definition is_contest_staff :: "viewer \<Rightarrow> contest \<Rightarrow> bool" where
  "is_contest_staff v c =
     (case v of None \<Rightarrow> False
      | Some u \<Rightarrow> if staff_user u then True else u_id u \<in> set (c_organizers c) \<or> u_id u \<in> set (c_curators c))"

definition can_see_contest :: "viewer \<Rightarrow> db \<Rightarrow> contest \<Rightarrow> bool" where
  "can_see_contest v d c =
     (if \<not> c_is_visible c then is_contest_staff v c
      else if c_visibility c = Con_PUBLIC then True
      else case v of
        None \<Rightarrow> False
      | Some u \<Rightarrow>
          if is_contest_staff v c then True
          else (case c_visibility c of
                  Con_PRIVATE \<Rightarrow> list_ex (\<lambda>p. pa_contest p = c_id c \<and> pa_user p = u_id u) (db_participations d)
                | Con_ORGANIZATION \<Rightarrow> shares_organization u (c_organizations c)
                | _ \<Rightarrow> False))"

text \<open>\<open>contest.access_code and access_code and compare_digest(...)\<close>\<close>

definition access_code_matches :: "contest \<Rightarrow> string option \<Rightarrow> bool" where
  "access_code_matches c code =
     (case (c_access_code c, code) of (Some a, Some b) \<Rightarrow> a \<noteq> [] \<and> b \<noteq> [] \<and> a = b | _ \<Rightarrow> False)"

definition can_join_contest :: "time \<Rightarrow> viewer \<Rightarrow> db \<Rightarrow> contest \<Rightarrow> string option \<Rightarrow> bool \<Rightarrow> bool" where
  "can_join_contest now v d c code allow_finished =
     (case v of
        None \<Rightarrow> False
      | Some u \<Rightarrow>
          if u_id u \<in> set (c_banned_users c) then False
          else if is_upcoming now c then False
          else if is_finished now c \<and> \<not> allow_finished then False
          else if is_contest_staff v c then True
          else if access_code_matches c code then True
          else if \<not> c_is_visible c then False
          else if c_visibility c = Con_PUBLIC then True
          else can_see_contest v d c)"

definition get_visible_contests :: "viewer \<Rightarrow> db \<Rightarrow> contest list" where
  "get_visible_contests v d =
     (let base = filter c_is_visible (db_contests d)
      in case v of
           None \<Rightarrow> filter (\<lambda>c. c_visibility c = Con_PUBLIC) base
         | Some u \<Rightarrow>
             if staff_user u then base
             else filter (\<lambda>c. c_visibility c = Con_PUBLIC \<or> u_id u \<in> set (c_organizers c)
                    \<or> u_id u \<in> set (c_curators c) \<or> u_id u \<in> set (c_testers c)
                    \<or> c_visibility c = Con_ORGANIZATION \<and> shares_organization u (c_organizations c)) base)"

section \<open>Submissions\<close>

text \<open>\<open>submission.problem\<close>; the foreign key always has its row.\<close>

definition is_problem_maintainer :: "viewer \<Rightarrow> db \<Rightarrow> submission \<Rightarrow> bool" where
  "is_problem_maintainer v d s =
     (case v of None \<Rightarrow> False
      | Some u \<Rightarrow> (case row_get p_id (s_problem s) (db_problems d) of None \<Rightarrow> False
                   | Some p \<Rightarrow> u_id u \<in> set (p_authors p) \<or> u_id u \<in> set (p_curators p)))"

definition can_view_submission :: "viewer \<Rightarrow> db \<Rightarrow> submission \<Rightarrow> bool" where
  "can_view_submission v d s =
     (if s_is_public s then True
      else case v of None \<Rightarrow> False
        | Some u \<Rightarrow> if u_is_staff u \<or> s_user s = u_id u then True else is_problem_maintainer v d s)"

definition can_view_submission_private :: "viewer \<Rightarrow> db \<Rightarrow> submission \<Rightarrow> bool" where
  "can_view_submission_private v d s =
     (case v of None \<Rightarrow> False
      | Some u \<Rightarrow> if u_is_staff u \<or> s_user s = u_id u then True else is_problem_maintainer v d s)"

definition can_edit_submission :: "viewer \<Rightarrow> submission \<Rightarrow> bool" where
  "can_edit_submission v s = (case v of None \<Rightarrow> False | Some u \<Rightarrow> u_is_staff u \<or> s_user s = u_id u)"

section \<open>What a policy keeps\<close>

text \<open>A policy decides who sees and who changes an object. No anonymous viewer changes anything, and
  whoever may change an object sees it.\<close>

locale policy =
  fixes sees :: "viewer \<Rightarrow> 's \<Rightarrow> 'x \<Rightarrow> bool"
    and edits :: "viewer \<Rightarrow> 's \<Rightarrow> 'x \<Rightarrow> bool"
  assumes no_anonymous_edit: "\<not> edits None d x"
    and edits_sees: "edits v d x \<Longrightarrow> sees v d x"
    and staff_edits: "u_is_staff u \<Longrightarrow> edits (Some u) d x"
begin

lemma editor: "edits v d x \<Longrightarrow> \<exists>u. v = Some u"
  using no_anonymous_edit by (cases v) auto

lemma staff_sees: "u_is_staff u \<Longrightarrow> sees (Some u) d x"
  using staff_edits edits_sees by blast

lemma blind_cannot_edit: "\<not> sees v d x \<Longrightarrow> \<not> edits v d x"
  using edits_sees by blast

end

text \<open>A policy whose listing is the objects the viewer sees.\<close>

locale listed_policy = policy +
  fixes listing :: "viewer \<Rightarrow> 's \<Rightarrow> 'a list" and table :: "'s \<Rightarrow> 'a list"
  assumes listing_sees: "set (listing v d) = {x \<in> set (table d). sees v d x}"
begin

lemma listed_iff: "x \<in> set (listing v d) \<longleftrightarrow> x \<in> set (table d) \<and> sees v d x"
  by (simp add: listing_sees)

lemma staff_lists_all: "u_is_staff u \<Longrightarrow> set (listing (Some u) d) = set (table d)"
  using staff_sees by (auto simp: listing_sees)

lemma editable_listed: "x \<in> set (table d) \<Longrightarrow> edits v d x \<Longrightarrow> x \<in> set (listing v d)"
  using edits_sees by (auto simp: listing_sees)

end

lemmas access_defs = is_accessible_by_def can_see_problem_def can_edit_problem_def is_public_def
  visibility_filter_def is_maintainer_or_tester_def staff_user_def

interpretation problem_policy: listed_policy "\<lambda>v d p. can_see_problem v p" "\<lambda>v d p. can_edit_problem v p"
    get_visible_problems db_problems
proof (unfold_locales, goal_cases)
  case (4 v d)
  show ?case by (auto simp: get_visible_problems_def access_defs split: option.splits if_splits)
qed (auto simp: access_defs split: option.splits if_splits)

interpretation contest_policy: policy can_see_contest "\<lambda>v d c. is_contest_staff v c"
  by unfold_locales (auto simp: can_see_contest_def is_contest_staff_def staff_user_def
      split: option.splits contest_visibility.splits)

interpretation submission_policy: policy can_view_submission_private "\<lambda>v d s. can_edit_submission v s"
  by unfold_locales (auto simp: can_view_submission_private_def can_edit_submission_def split: option.splits)

section \<open>Properties\<close>

text \<open>C7: The problem list and the problem page agree: a problem is listed for a viewer exactly when
  the viewer may open it, for anonymous viewers, members of organizations, maintainers, testers and
  staff alike.\<close>

theorem problem_list_is_access:
  "p \<in> set (get_visible_problems v d) \<longleftrightarrow> p \<in> set (db_problems d) \<and> is_accessible_by v p"
  using problem_policy.listed_iff [of p v d] by (simp add: can_see_problem_def)

text \<open>Whoever may join a contest is logged in and not banned, joins between its start and its end
  (or after the end where that is allowed), and is contest staff, holds the access code, or may see
  the contest.\<close>

theorem join_is_guarded:
  assumes "can_join_contest now v d c code allow_finished"
  shows "(\<exists>u. v = Some u \<and> u_id u \<notin> set (c_banned_users c)) \<and> c_start_time c \<le> now
         \<and> (now < c_end_time c \<or> allow_finished)
         \<and> (access_code_matches c code \<or> can_see_contest v d c)"
  using assms contest_policy.edits_sees [of v c d]
  by (auto simp: can_join_contest_def is_upcoming_def is_finished_def can_see_contest_def split: option.splits if_splits)

theorem join_is_guarded_witness:
  "access_code_matches ((new_contest 1 ''c'' 0 10)\<lparr>c_is_visible := False, c_access_code := Some ''k''\<rparr>) (Some ''k'')
   \<or> can_see_contest (Some (new_user 7)) empty_db ((new_contest 1 ''c'' 0 10)\<lparr>c_is_visible := False, c_access_code := Some ''k''\<rparr>)"
  by (rule join_is_guarded [where now = 5 and allow_finished = False, THEN conjunct2, THEN conjunct2, THEN conjunct2])
    code_simp

text \<open>The contest list and the contest page disagree: a tester of a visible private contest finds
  it in the list and may not open it, and a participant may open it and does not find it.\<close>

theorem contest_list_is_not_access:
  "let c = (new_contest 1 ''c'' 0 10)\<lparr>c_testers := [7]\<rparr>;
       d = empty_db\<lparr>db_contests := [c], db_participations := [new_participation 1 1 8]\<rparr>
   in c \<in> set (get_visible_contests (Some (new_user 7)) d) \<and> \<not> can_see_contest (Some (new_user 7)) d c
    \<and> c \<notin> set (get_visible_contests (Some (new_user 8)) d) \<and> can_see_contest (Some (new_user 8)) d c"
  by (simp add: Let_def get_visible_contests_def can_see_contest_def is_contest_staff_def staff_user_def
      new_contest_def new_user_def new_participation_def empty_db_def)

end
