(* ===== verification/Submissions.thy ===== *)
theory Submissions
  imports Jobs Access
begin

text \<open>
  \<open>apps/submissions/services/submission_service.py\<close> and the guards of
  \<open>apps/submissions/api/router.py\<close>: creating submissions and runs, rejudging, sharing, the legacy
  result callbacks of the TCP bridge, and what each endpoint lets a viewer read or change. The
  random share token is an argument; a source text is its list of ASCII characters, so its UTF-8
  length is its length.
\<close>

section \<open>Validation\<close>

definition max_run_input_bytes :: nat where
  "max_run_input_bytes = 64 * 1024"

text \<open>\<open>core/validators.py\<close>: raises Django's \<open>ValidationError\<close>, not the one of \<open>core.exceptions\<close>.\<close>

definition validate_source_code_size :: "env \<Rightarrow> string \<Rightarrow> unit result" where
  "validate_source_code_size env code =
     raise_if (length code > e_max_submission_size env)
       (DjangoValidationError (''Source code size ('' @ show_nat (length code) @ '' bytes) exceeds the maximum allowed size (''
          @ show_nat (e_max_submission_size env) @ '' bytes).'')) (Inr ())"

text \<open>The first relation of \<open>allowed_relations\<close>, \<open>languages_allowed\<close>, exists on every problem, so the
  loop returns after it.\<close>

definition validate_language :: "problem \<Rightarrow> language \<Rightarrow> unit result" where
  "validate_language p l =
     raise_if (\<not> l_is_enabled l) (SubmissionError ''Selected language is disabled.'')
       (raise_if (p_languages_allowed p \<noteq> [] \<and> l_id l \<notin> set (p_languages_allowed p))
          (SubmissionError ''Selected language is not allowed for this problem.'') (Inr ()))"

definition has_active_contest :: "time \<Rightarrow> user \<Rightarrow> problem \<Rightarrow> db \<Rightarrow> bool" where
  "has_active_contest now u p d =
     list_ex (\<lambda>pa. pa_user pa = u_id u \<and> pa_status pa = Part_LIVE
       \<and> (case get_contest (pa_contest pa) d of
            None \<Rightarrow> False
          | Some c \<Rightarrow> c_is_visible c \<and> c_start_time c \<le> now \<and> c_end_time c > now
              \<and> list_ex (\<lambda>cp. cp_contest cp = c_id c \<and> cp_problem cp = p_id p) (db_contest_problems d)))
       (db_participations d)"

definition validate_problem_access :: "time \<Rightarrow> user \<Rightarrow> problem \<Rightarrow> db \<Rightarrow> unit result" where
  "validate_problem_access now u p d =
     (if is_accessible_by (Some u) p then Inr ()
      else raise_if (\<not> has_active_contest now u p d) (SubmissionError ''You do not have access to this problem.'') (Inr ()))"

definition recent_count :: "time \<Rightarrow> user \<Rightarrow> sub_mode \<Rightarrow> db \<Rightarrow> nat" where
  "recent_count now u mode d = length (filter (\<lambda>s. s_user s = u_id u \<and> s_mode s = mode
     \<and> s_created_at s \<ge> now - minutes 1) (db_submissions d))"

definition check_run_rate_limit :: "env \<Rightarrow> time \<Rightarrow> user \<Rightarrow> db \<Rightarrow> unit result" where
  "check_run_rate_limit env now u d =
     (if u_is_staff u then Inr ()
      else raise_if (recent_count now u Mode_RUN d \<ge> e_run_rate_limit env)
             (SubmissionError ''Run rate limit exceeded. Try again shortly.'') (Inr ()))"

definition check_rate_limit :: "env \<Rightarrow> time \<Rightarrow> user \<Rightarrow> db \<Rightarrow> unit result" where
  "check_rate_limit env now u d =
     (if u_is_staff u then Inr ()
      else raise_if (recent_count now u Mode_SUBMIT d \<ge> e_submission_rate_limit env)
             (SubmissionError ''Submission rate limit exceeded. Try again shortly.'') (Inr ()))"

section \<open>Creating a submission\<close>

text \<open>\<open>problem.packages.filter(is_active=True).first()\<close>, ordered by descending version.\<close>

definition active_package :: "nat \<Rightarrow> db \<Rightarrow> package option" where
  "active_package prob d =
     first (sort_key (\<lambda>p. - int (pk_version p)) (filter (\<lambda>p. pk_problem p = prob \<and> pk_is_active p) (db_packages d)))"

definition build_job_config ::
    "problem \<Rightarrow> language \<Rightarrow> package option \<Rightarrow> participation option \<Rightarrow> sub_mode \<Rightarrow> string \<Rightarrow> string \<Rightarrow> db \<Rightarrow> job_config" where
  "build_job_config p l pkg pa mode custom_input expected_output d =
     (let m = (case pkg of None \<Rightarrow> empty_manifest | Some k \<Rightarrow> pk_manifest k);
          cf = \<lparr>cf_time_limit = Some (p_time_limit p), cf_memory_limit = Some (p_memory_limit p),
                cf_short_circuit = Some (get_or (m_short_circuit m) (p_short_circuit p)),
                cf_partial_score = Some (get_or (m_partial_score m) (p_partial_score p)),
                cf_mode = Some mode, cf_custom_input = Some custom_input,
                cf_expected_output = Some expected_output, cf_contest_points = None\<rparr>;
          cf1 = (case first (filter (\<lambda>ll. ll_problem ll = p_id p \<and> ll_language ll = l_id l) (db_language_limits d)) of
                   None \<Rightarrow> cf
                 | Some ll \<Rightarrow> cf\<lparr>cf_time_limit := Some (ll_time_limit ll), cf_memory_limit := Some (ll_memory_limit ll)\<rparr>)
      in case pa of
           None \<Rightarrow> cf1
         | Some a \<Rightarrow>
             (case first (sort_key cp_order (filter (\<lambda>cp. cp_contest cp = pa_contest a \<and> cp_problem cp = p_id p)
                            (db_contest_problems d))) of
                None \<Rightarrow> cf1 | Some cp \<Rightarrow> cf1\<lparr>cf_contest_points := Some (cp_points cp)\<rparr>))"

definition no_package_error :: error where
  "no_package_error = SubmissionError ''No active test data package is available for this problem.''"

text \<open>The checks of \<open>create_submission\<close>, in their order; the result is the active package.\<close>

definition validate_submission ::
    "env \<Rightarrow> time \<Rightarrow> user \<Rightarrow> problem \<Rightarrow> language \<Rightarrow> string \<Rightarrow> sub_mode \<Rightarrow> string \<Rightarrow> string \<Rightarrow> db \<Rightarrow> package option result" where
  "validate_submission env now u p l code mode custom_input expected_output d =
     andThen (validate_source_code_size env code) (\<lambda>_.
     andThen (if mode = Mode_RUN
              then raise_if (length custom_input > max_run_input_bytes)
                     (SubmissionError ''Custom input exceeds the maximum allowed size.'')
                   (raise_if (length expected_output > max_run_input_bytes)
                     (SubmissionError ''Expected output exceeds the maximum allowed size.'') (Inr ()))
              else raise_if (custom_input \<noteq> [] \<or> expected_output \<noteq> [])
                     (SubmissionError ''Custom input and expected output are only valid for runs.'') (Inr ())) (\<lambda>_.
     andThen (validate_problem_access now u p d) (\<lambda>_.
     andThen (validate_language p l) (\<lambda>_.
     andThen (if mode = Mode_RUN then check_run_rate_limit env now u d else check_rate_limit env now u d) (\<lambda>_.
       raise_if (active_package (p_id p) d = None \<and> mode \<noteq> Mode_RUN) no_package_error
         (Inr (active_package (p_id p) d)))))))"

text \<open>The three rows one transaction creates.\<close>

definition insert_submission ::
    "time \<Rightarrow> user \<Rightarrow> problem \<Rightarrow> language \<Rightarrow> string \<Rightarrow> participation option \<Rightarrow> sub_mode \<Rightarrow> string \<Rightarrow> string
     \<Rightarrow> package option \<Rightarrow> job_config \<Rightarrow> db \<Rightarrow> submission \<times> db" where
  "insert_submission now u p l code pa mode custom_input expected_output pkg cf d =
     (let s = (new_submission (fresh_key s_id (db_submissions d)) (u_id u) (p_id p) (l_id l) now)
                \<lparr>s_contest_participation := map_option pa_id pa, s_mode := mode, s_custom_input := custom_input,
                 s_custom_expected_output := expected_output\<rparr>;
          j = (new_job (fresh_key jj_id (db_jobs d)) (s_id s) (map_option pk_id pkg) (l_id l) now)\<lparr>jj_config := cf\<rparr>
      in (s, d\<lparr>db_submissions := db_submissions d @ [s],
               db_sources := db_sources d @ [\<lparr>src_submission = s_id s, src_code = code\<rparr>],
               db_jobs := db_jobs d @ [j]\<rparr>))"

definition create_submission ::
    "env \<Rightarrow> time \<Rightarrow> user \<Rightarrow> problem \<Rightarrow> language \<Rightarrow> string \<Rightarrow> participation option \<Rightarrow> sub_mode \<Rightarrow> string \<Rightarrow> string
     \<Rightarrow> db \<Rightarrow> (submission \<times> db) result" where
  "create_submission env now u p l code pa mode custom_input expected_output d =
     andThen (validate_submission env now u p l code mode custom_input expected_output d) (\<lambda>pkg.
       let cf = build_job_config p l pkg pa mode custom_input expected_output d
       in case insert_submission now u p l code pa mode custom_input expected_output pkg cf d of
            (s, d') \<Rightarrow> Inr (s, publish_submission ''submission.status'' (s_id s)
                                [(''status'', JStr (status_code (s_status s)))] d'))"

section \<open>Reading and sharing\<close>

definition get_submission :: "nat \<Rightarrow> db \<Rightarrow> submission result" where
  "get_submission i d = (case get_submission_row i d of
     None \<Rightarrow> Inl (NotFoundError (''Submission '' @ show_nat i @ '' was not found.'')) | Some s \<Rightarrow> Inr s)"

text \<open>\<open>token\<close> is what \<open>uuid.UUID\<close> parsed, \<open>None\<close> where it raised.\<close>

definition get_submission_by_share_token :: "nat option \<Rightarrow> db \<Rightarrow> submission option" where
  "get_submission_by_share_token token d =
     (case token of None \<Rightarrow> None
      | Some t \<Rightarrow> first (filter (\<lambda>s. s_share_token s = Some t) (db_submissions d)))"

definition get_user_submissions :: "user \<Rightarrow> problem option \<Rightarrow> db \<Rightarrow> submission list" where
  "get_user_submissions u p d =
     sort_key (\<lambda>s. - s_created_at s) (filter (\<lambda>s. s_mode s = Mode_SUBMIT
       \<and> (u_is_staff u \<or> s_user s = u_id u)
       \<and> (case p of None \<Rightarrow> True | Some q \<Rightarrow> s_problem s = p_id q)) (db_submissions d))"

definition set_submission_public :: "submission \<Rightarrow> bool \<Rightarrow> db \<Rightarrow> submission \<times> db" where
  "set_submission_public s b d = (let s' = s\<lparr>s_is_public := b\<rparr> in (s', save_submission s' d))"

definition create_share_token :: "nat \<Rightarrow> submission \<Rightarrow> db \<Rightarrow> submission \<times> db" where
  "create_share_token token s d = (let s' = s\<lparr>s_share_token := Some token\<rparr> in (s', save_submission s' d))"

definition revoke_share_token :: "submission \<Rightarrow> db \<Rightarrow> submission \<times> db" where
  "revoke_share_token s d = (let s' = s\<lparr>s_share_token := None\<rparr> in (s', save_submission s' d))"

section \<open>Rejudging\<close>

definition requeued_job :: "job_config \<Rightarrow> judge_job \<Rightarrow> judge_job" where
  "requeued_job cf j = j\<lparr>jj_status := Job_QUEUED, jj_attempts := 0, jj_claimed_by := None,
     jj_lease_expires_at := None, jj_claimed_at := None, jj_started_at := None, jj_finished_at := None,
     jj_last_error := [], jj_config := cf\<rparr>"

definition job_of_submission :: "nat \<Rightarrow> db \<Rightarrow> judge_job option" where
  "job_of_submission i d = first (sort_key queue_key (filter (\<lambda>j. jj_submission j = i) (db_jobs d)))"

definition participation_of :: "submission \<Rightarrow> db \<Rightarrow> participation option" where
  "participation_of s d = (case s_contest_participation s of None \<Rightarrow> None | Some i \<Rightarrow> get_participation i d)"

definition rejudge_submission :: "time \<Rightarrow> nat \<Rightarrow> db \<Rightarrow> db result" where
  "rejudge_submission now i d =
     (case get_submission_row i d of
        None \<Rightarrow> Inl (ValueError ''Submission matching query does not exist.'')
      | Some s \<Rightarrow>
          (case (row_get p_id (s_problem s) (db_problems d), row_get l_id (s_language s) (db_languages d)) of
             (Some p, Some l) \<Rightarrow>
               (let job = job_of_submission i d;
                    pkg = (case job of Some j \<Rightarrow> package_of d (jj_package j) | None \<Rightarrow> active_package (s_problem s) d);
                    cf = build_job_config p l pkg (participation_of s d) (s_mode s) (s_custom_input s)
                           (s_custom_expected_output s) d
                in raise_if (pkg = None \<and> s_mode s \<noteq> Mode_RUN) no_package_error
                   (let s' = reset_submission Sub_QUEUED None [] None s;
                        d1 = delete_test_cases i (save_submission s' d);
                        d2 = (case job of
                                Some j \<Rightarrow> save_job (requeued_job cf j) d1
                              | None \<Rightarrow> d1\<lparr>db_jobs := db_jobs d1
                                  @ [requeued_job cf (new_job (fresh_key jj_id (db_jobs d1)) i (map_option pk_id pkg) (l_id l) now)]\<rparr>)
                    in Inr (publish_submission ''submission.status'' i [(''status'', JStr (status_code Sub_QUEUED))] d2)))
           | _ \<Rightarrow> Inl (ValueError ''matching query does not exist.'')))"

text \<open>The first exception stops the loop; the submissions rejudged before it stay rejudged, which is
  the second component.\<close>

fun rejudge_all :: "time \<Rightarrow> nat list \<Rightarrow> db \<Rightarrow> error option \<times> db" where
  "rejudge_all now [] d = (None, d)"
| "rejudge_all now (i # is) d =
     (case rejudge_submission now i d of Inl e \<Rightarrow> (Some e, d) | Inr d' \<Rightarrow> rejudge_all now is d')"

definition rejudge_problem :: "time \<Rightarrow> problem \<Rightarrow> db \<Rightarrow> nat result \<times> db" where
  "rejudge_problem now p d =
     (let is = map s_id (sort_key (\<lambda>s. - s_created_at s) (filter (\<lambda>s. s_problem s = p_id p) (db_submissions d)))
      in case rejudge_all now is d of
           (None, d') \<Rightarrow> (Inr (length is), d') | (Some e, d') \<Rightarrow> (Inl e, d'))"

section \<open>The endpoints (\<open>submissions/api/router.py\<close>)\<close>

text \<open>\<open>_request_user\<close> is the viewer; an endpoint raises before it reads anything else.\<close>

definition require_authenticated :: "viewer \<Rightarrow> user result" where
  "require_authenticated v = (case v of None \<Rightarrow> Inl (HttpError 401 ''Authentication required.'') | Some u \<Rightarrow> Inr u)"

record submission_detail =
  sd_id :: nat
  sd_user_id :: nat
  sd_problem_code :: string
  sd_language :: string
  sd_status :: sub_status
  sd_result :: "verdict option"
  sd_points :: rat
  sd_time_used :: rat
  sd_memory_used :: int
  sd_case_total :: int
  sd_case_passed :: int
  sd_current_testcase :: int
  sd_mode :: sub_mode
  sd_is_public :: bool
  sd_error_message :: string
  sd_judged_at :: "time option"
  sd_created_at :: time

text \<open>A foreign key always has its row.\<close>

definition code_of_problem :: "submission \<Rightarrow> db \<Rightarrow> string" where
  "code_of_problem s d = (case row_get p_id (s_problem s) (db_problems d) of None \<Rightarrow> [] | Some p \<Rightarrow> p_code p)"

definition name_of_language :: "submission \<Rightarrow> db \<Rightarrow> string" where
  "name_of_language s d = (case row_get l_id (s_language s) (db_languages d) of None \<Rightarrow> [] | Some l \<Rightarrow> l_name l)"

definition submission_detail_out :: "db \<Rightarrow> submission \<Rightarrow> bool \<Rightarrow> submission_detail" where
  "submission_detail_out d s include_private =
     \<lparr>sd_id = s_id s, sd_user_id = s_user s, sd_problem_code = code_of_problem s d, sd_language = name_of_language s d,
      sd_status = s_status s, sd_result = s_result s, sd_points = s_points s, sd_time_used = s_time_used s,
      sd_memory_used = s_memory_used s, sd_case_total = s_case_total s, sd_case_passed = s_case_passed s,
      sd_current_testcase = s_current_testcase s, sd_mode = s_mode s, sd_is_public = s_is_public s,
      sd_error_message = (if include_private then s_error_message s else []),
      sd_judged_at = s_judged_at s, sd_created_at = s_created_at s\<rparr>"

text \<open>The queryset of \<open>list_submissions\<close>, before it is paginated.\<close>

definition list_submissions ::
    "viewer \<Rightarrow> nat option \<Rightarrow> string \<Rightarrow> nat option \<Rightarrow> string \<Rightarrow> bool \<Rightarrow> db \<Rightarrow> submission list result" where
  "list_submissions v user_id code lang res public d =
     andThen (require_authenticated v) (\<lambda>u.
       Inr (sort_key (\<lambda>s. - s_created_at s) (filter (\<lambda>s.
           s_mode s = Mode_SUBMIT
         \<and> (if \<not> u_is_staff u then (if public then s_is_public s else s_user s = u_id u)
            else (case user_id of None \<Rightarrow> True | Some i \<Rightarrow> s_user s = i))
         \<and> (code = [] \<or> (case row_get p_id (s_problem s) (db_problems d) of None \<Rightarrow> False | Some p \<Rightarrow> p_code p = code))
         \<and> (case lang of None \<Rightarrow> True | Some l \<Rightarrow> s_language s = l)
         \<and> (res = [] \<or> (case s_result s of None \<Rightarrow> False | Some r \<Rightarrow> verdict_code r = res)))
         (db_submissions d))))"

text \<open>Django's \<open>Paginator(xs, size).get_page(page)\<close> for a size that is not negative: a page below the
  first or above the last is the last page, and an empty list has one empty page.\<close>

definition num_pages :: "nat \<Rightarrow> nat \<Rightarrow> int" where
  "num_pages n sz = int ((max 1 n + sz - 1) div sz)"

definition get_page :: "'a list \<Rightarrow> nat \<Rightarrow> int \<Rightarrow> (int \<times> 'a list) result" where
  "get_page xs sz page =
     raise_if (sz = 0) (ZeroDivisionError ''division by zero'')
       (let n = num_pages (length xs) sz; number = (if page < 1 \<or> page > n then n else page)
        in Inr (number, take sz (drop (nat (number - 1) * sz) xs)))"

record submission_list_out =
  so_id :: nat
  so_problem_code :: string
  so_language :: string
  so_status :: sub_status
  so_result :: "verdict option"
  so_points :: rat
  so_is_public :: bool
  so_created_at :: time

definition submission_list_out_of :: "db \<Rightarrow> submission \<Rightarrow> submission_list_out" where
  "submission_list_out_of d s = \<lparr>so_id = s_id s, so_problem_code = code_of_problem s d, so_language = name_of_language s d,
     so_status = s_status s, so_result = s_result s, so_points = s_points s, so_is_public = s_is_public s,
     so_created_at = s_created_at s\<rparr>"

record submission_page =
  sp_page :: int
  sp_page_size :: nat
  sp_total :: nat
  sp_items :: "submission_list_out list"

definition api_list_submissions ::
    "viewer \<Rightarrow> nat option \<Rightarrow> string \<Rightarrow> nat option \<Rightarrow> string \<Rightarrow> bool \<Rightarrow> int \<Rightarrow> nat \<Rightarrow> db \<Rightarrow> submission_page result" where
  "api_list_submissions v user_id code lang res public page page_size d =
     andThen (list_submissions v user_id code lang res public d) (\<lambda>subs.
     andThen (get_page subs page_size page) (\<lambda>(number, items).
       Inr \<lparr>sp_page = number, sp_page_size = page_size, sp_total = length subs,
            sp_items = map (submission_list_out_of d) items\<rparr>))"

definition find_problem :: "string \<Rightarrow> db \<Rightarrow> problem result" where
  "find_problem code d = (case first (filter (\<lambda>p. p_code p = code) (db_problems d)) of
     None \<Rightarrow> Inl (HttpError 404 ''Problem not found.'') | Some p \<Rightarrow> Inr p)"

definition find_language :: "nat \<Rightarrow> db \<Rightarrow> language result" where
  "find_language i d = (case row_get l_id i (db_languages d) of
     None \<Rightarrow> Inl (HttpError 404 ''Language not found.'') | Some l \<Rightarrow> Inr l)"

definition api_create_submission ::
    "env \<Rightarrow> time \<Rightarrow> viewer \<Rightarrow> string \<Rightarrow> nat \<Rightarrow> string \<Rightarrow> db \<Rightarrow> (submission_detail \<times> db) result" where
  "api_create_submission env now v problem_code language_id code d =
     andThen (require_authenticated v) (\<lambda>u.
     andThen (find_problem problem_code d) (\<lambda>p.
     andThen (find_language language_id d) (\<lambda>l.
     andThen (create_submission env now u p l code None Mode_SUBMIT [] [] d) (\<lambda>(s, d').
       Inr (submission_detail_out d' s True, d')))))"

definition api_run_submission ::
    "env \<Rightarrow> time \<Rightarrow> viewer \<Rightarrow> string \<Rightarrow> nat \<Rightarrow> string \<Rightarrow> string \<Rightarrow> string \<Rightarrow> db \<Rightarrow> (submission_detail \<times> db) result" where
  "api_run_submission env now v problem_code language_id code stdin expected d =
     andThen (require_authenticated v) (\<lambda>u.
     andThen (find_problem problem_code d) (\<lambda>p.
     andThen (find_language language_id d) (\<lambda>l.
     andThen (create_submission env now u p l code None Mode_RUN stdin expected d) (\<lambda>(s, d').
       Inr (submission_detail_out d' s True, d')))))"

definition api_shared_submission :: "nat option \<Rightarrow> db \<Rightarrow> submission_detail result" where
  "api_shared_submission token d =
     (case get_submission_by_share_token token d of
        None \<Rightarrow> Inl (HttpError 404 ''Shared submission not found.'')
      | Some s \<Rightarrow> Inr (submission_detail_out d s False))"

definition api_set_visibility :: "viewer \<Rightarrow> nat \<Rightarrow> bool \<Rightarrow> db \<Rightarrow> (submission_detail \<times> db) result" where
  "api_set_visibility v i b d =
     andThen (require_authenticated v) (\<lambda>_.
     andThen (get_submission i d) (\<lambda>s.
     raise_if (\<not> can_edit_submission v s) (HttpError 403 ''You are not allowed to change this submission.'')
       (case set_submission_public s b d of (s', d') \<Rightarrow> Inr (submission_detail_out d' s' True, d'))))"

definition api_create_share :: "viewer \<Rightarrow> nat \<Rightarrow> nat \<Rightarrow> db \<Rightarrow> (nat \<times> db) result" where
  "api_create_share v token i d =
     andThen (require_authenticated v) (\<lambda>_.
     andThen (get_submission i d) (\<lambda>s.
     raise_if (\<not> can_edit_submission v s) (HttpError 403 ''You are not allowed to share this submission.'')
       (Inr (token, snd (create_share_token token s d)))))"

definition api_revoke_share :: "viewer \<Rightarrow> nat \<Rightarrow> db \<Rightarrow> db result" where
  "api_revoke_share v i d =
     andThen (require_authenticated v) (\<lambda>_.
     andThen (get_submission i d) (\<lambda>s.
     raise_if (\<not> can_edit_submission v s) (HttpError 403 ''You are not allowed to share this submission.'')
       (Inr (snd (revoke_share_token s d)))))"

definition api_submission_detail :: "viewer \<Rightarrow> nat \<Rightarrow> db \<Rightarrow> submission_detail result" where
  "api_submission_detail v i d =
     andThen (get_submission i d) (\<lambda>s.
     raise_if (\<not> can_view_submission v d s) (HttpError 403 ''You are not allowed to view this submission.'')
       (Inr (submission_detail_out d s (can_view_submission_private v d s))))"

definition api_submission_source :: "viewer \<Rightarrow> nat \<Rightarrow> db \<Rightarrow> string result" where
  "api_submission_source v i d =
     andThen (require_authenticated v) (\<lambda>_.
     andThen (get_submission i d) (\<lambda>s.
     raise_if (\<not> can_view_submission_private v d s) (HttpError 403 ''You are not allowed to view this source code.'')
       (case List.find (\<lambda>x. src_submission x = i) (db_sources d) of
          None \<Rightarrow> Inl (AttributeError ''source'') | Some x \<Rightarrow> Inr (src_code x))))"

definition api_test_cases :: "viewer \<Rightarrow> nat \<Rightarrow> db \<Rightarrow> test_case list result" where
  "api_test_cases v i d =
     andThen (require_authenticated v) (\<lambda>_.
     andThen (get_submission i d) (\<lambda>s.
     raise_if (\<not> can_view_submission_private v d s) (HttpError 403 ''You are not allowed to view test case data.'')
       (Inr (sorted_cases i (db_test_cases d)))))"

text \<open>The response is built from the row fetched before the rejudge, which re-fetches its own.\<close>

definition api_rejudge :: "time \<Rightarrow> viewer \<Rightarrow> nat \<Rightarrow> db \<Rightarrow> ((nat \<times> sub_status) \<times> db) result" where
  "api_rejudge now v i d =
     andThen (require_authenticated v) (\<lambda>u.
     raise_if (\<not> u_is_staff u) (HttpError 403 ''Staff access required.'')
       (andThen (get_submission i d) (\<lambda>s.
        andThen (rejudge_submission now (s_id s) d) (\<lambda>d'. Inr ((s_id s, s_status s), d')))))"

section \<open>Properties\<close>

text \<open>C14: What a viewer outside the maintainers of a problem can learn of a submission: through the detail
  page and a share link never the error message, and neither the source nor the test cases.\<close>

theorem private_data_guarded:
  assumes "get_submission_row i d = Some s" and "\<not> can_view_submission_private v d s"
  shows "(case api_submission_detail v i d of Inr o1 \<Rightarrow> sd_error_message o1 = [] \<and> s_is_public s | Inl e \<Rightarrow> True)
         \<and> isl (api_submission_source v i d) \<and> isl (api_test_cases v i d)
         \<and> (case api_shared_submission token d of Inr o2 \<Rightarrow> sd_error_message o2 = [] | Inl e \<Rightarrow> True)"
  using assms
  by (auto simp: api_submission_detail_def api_submission_source_def api_test_cases_def api_shared_submission_def
      get_submission_def require_authenticated_def submission_detail_out_def raise_if_def can_view_submission_def
      can_view_submission_private_def split: option.splits)

theorem private_data_guarded_witness:
  "isl (api_submission_source (Some (new_user 8)) 1 (empty_db\<lparr>db_submissions := [new_submission 1 7 5 1 0]\<rparr>))"
proof -
  let ?d = "empty_db\<lparr>db_submissions := [new_submission 1 7 5 1 0]\<rparr>"
  have "get_submission_row 1 ?d = Some (new_submission 1 7 5 1 0)" by (simp add: row_get_def new_submission_def)
  moreover have "\<not> can_view_submission_private (Some (new_user 8)) ?d (new_submission 1 7 5 1 0)"
    by (simp add: row_get_def new_submission_def can_view_submission_private_def new_user_def is_problem_maintainer_def empty_db_def)
  ultimately show ?thesis using private_data_guarded by blast
qed

end
