(* ===== verification/EloMmr.thy ===== *)
theory EloMmr
  imports Prelude
begin

text \<open>
  \<open>apps/ratings/services/elo_mmr.py\<close>: the Elo-MMR update. A Python float is a real number here, as
  the code uses square roots and hyperbolic tangents. The bisection of \<open>_solve\<close> is a recursion that
  ends because the interval halves; \<open>fill\<close> ends because its two halves are shorter.
\<close>

section \<open>Constants and the variance cache\<close>

definition beta2 :: real where
  "beta2 = 328.33\<^sup>2"

definition mean_init :: real where
  "mean_init = 1500"

definition rating_init :: int where
  "rating_init = 1200"

definition var_init :: real where
  "var_init = 350\<^sup>2 * (beta2 / 212\<^sup>2)"

definition sd_init :: real where
  "sd_init = sqrt var_init"

definition valid_range :: "real \<times> real" where
  "valid_range = (mean_init - 20 * sd_init, mean_init + 20 * sd_init)"

definition var_per_contest :: real where
  "var_per_contest = 1219.047619 * (beta2 / 212\<^sup>2)"

definition var_lim :: real where
  "var_lim = (sqrt (var_per_contest\<^sup>2 + 4 * beta2 * var_per_contest) - var_per_contest) / 2"

definition sd_lim :: real where
  "sd_lim = sqrt var_lim"

definition tanh_c :: real where
  "tanh_c = sqrt 3 / pi"

definition next_variance :: "real \<Rightarrow> real" where
  "next_variance previous = 1 / (1 / (previous + var_per_contest) + 1 / beta2)"

text \<open>\<open>_VAR_CACHE\<close> is module state: a call extends it until the index exists.\<close>

function extend_cache :: "nat \<Rightarrow> real list \<Rightarrow> real list" where
  "extend_cache n cache = (if length cache \<le> n then extend_cache n (cache @ [next_variance (last cache)]) else cache)"
  by pat_completeness auto

termination by (relation "measure (\<lambda>(n, cache). Suc n - length cache)") auto

declare extend_cache.simps [simp del]

definition variance_call :: "nat \<Rightarrow> real list \<Rightarrow> real \<times> real list" where
  "variance_call n cache = (let cache' = extend_cache n cache in (cache' ! n, cache'))"

text \<open>The value a call returns, whatever calls were made before it (\<open>variance_call_value\<close> below).\<close>

definition variance_for :: "nat \<Rightarrow> real" where
  "variance_for n = fst (variance_call n [var_init])"

section \<open>Solving for a performance\<close>

type_synonym term3 = "real \<times> real \<times> real"

definition eval_tanhs :: "term3 list \<Rightarrow> real \<Rightarrow> real" where
  "eval_tanhs terms x = sum_list (map (\<lambda>(mean, sd, weight). weight / sd * tanh ((x - mean) / (2 * sd))) terms)"

text \<open>The \<open>while\<close> loop: \<open>Inl\<close> is the early return of the midpoint, \<open>Inr\<close> the interval with the values
  computed at its ends, if any.\<close>

function solve_loop ::
    "(real \<Rightarrow> real) \<Rightarrow> real \<Rightarrow> real \<Rightarrow> real \<Rightarrow> real option \<Rightarrow> real option
     \<Rightarrow> real + real \<times> real \<times> real option \<times> real option" where
  "solve_loop f target left right left_y right_y =
     (if right - left > 2 then
        (let middle = (left + right) / 2; value = f middle
         in if value > target then solve_loop f target left middle left_y (Some value)
            else if value < target then solve_loop f target middle right (Some value) right_y
            else Inl middle)
      else Inr (left, right, left_y, right_y))"
  by pat_completeness auto

termination
  by (relation "measure (\<lambda>(f, target, left, right, left_y, right_y). nat \<lceil>right - left\<rceil>)")
    (auto simp: nat_less_eq_zless, linarith+)

declare solve_loop.simps [simp del]

definition solve_end :: "(real \<Rightarrow> real) \<Rightarrow> real \<Rightarrow> real \<Rightarrow> real \<Rightarrow> real option \<Rightarrow> real option \<Rightarrow> real" where
  "solve_end f target left right left_y right_y =
     (let ly = (case left_y of Some y \<Rightarrow> y | None \<Rightarrow> f left)
      in if target \<le> ly then left
         else let ry = (case right_y of Some y \<Rightarrow> y | None \<Rightarrow> f right)
              in if target \<ge> ry then right
                 else let ratio = (target - ly) / (ry - ly) in left * (1 - ratio) + right * ratio)"

definition solve_from ::
    "(real \<Rightarrow> real) \<Rightarrow> real \<Rightarrow> real \<Rightarrow> real \<Rightarrow> real option \<Rightarrow> real option \<Rightarrow> real" where
  "solve_from f target left right left_y right_y =
     (case solve_loop f target left right left_y right_y of
        Inl middle \<Rightarrow> middle
      | Inr (l, r, ly, ry) \<Rightarrow> solve_end f target l r ly ry)"

definition solve :: "term3 list \<Rightarrow> real \<Rightarrow> real \<Rightarrow> real \<times> real \<Rightarrow> real" where
  "solve terms target linear_factor bnds =
     solve_from (\<lambda>x. linear_factor * x + eval_tanhs terms x) target (fst bnds) (snd bnds) None None"

section \<open>One rated contest\<close>

definition width_of :: "nat \<Rightarrow> real" where
  "width_of played = tanh_c * sqrt (variance_for played + var_per_contest + beta2)"

text \<open>The pull of the opponents on a contestant: those ranked below push up, those above pull down.\<close>

definition rank_target :: "rat list \<Rightarrow> real list \<Rightarrow> nat \<Rightarrow> real" where
  "rank_target ranks delta index =
     foldl (\<lambda>target (opponent_rank, width).
        if opponent_rank > ranks ! index then target + 1 / width
        else if opponent_rank < ranks ! index then target - 1 / width else target)
       0 (zip ranks delta)"

definition solve_index ::
    "rat list \<Rightarrow> real list \<Rightarrow> term3 list \<Rightarrow> nat \<Rightarrow> real \<times> real \<Rightarrow> real list \<Rightarrow> real list" where
  "solve_index ranks delta priors index search_bounds perf =
     perf[index := solve priors (rank_target ranks delta index) 0 search_bounds]"

function fill ::
    "rat list \<Rightarrow> real list \<Rightarrow> term3 list \<Rightarrow> nat \<Rightarrow> nat \<Rightarrow> real list \<Rightarrow> real list" where
  "fill ranks delta priors left right perf =
     (if right - left > 1 then
        (let middle = (left + right) div 2;
             perf1 = solve_index ranks delta priors middle (perf ! right, perf ! left) perf
         in fill ranks delta priors middle right (fill ranks delta priors left middle perf1))
      else perf)"
  by pat_completeness auto

termination
  by (relation "measure (\<lambda>(ranks, delta, priors, left, right, perf). right - left)") auto

declare fill.simps [simp del]

definition update_bounds :: "real option \<Rightarrow> real \<times> real" where
  "update_bounds perf_ceiling = (fst valid_range,
     (case perf_ceiling of None \<Rightarrow> snd valid_range | Some c \<Rightarrow> min (snd valid_range) c))"

definition all_performances ::
    "rat list \<Rightarrow> real list \<Rightarrow> real list \<Rightarrow> real \<times> real \<Rightarrow> real list" where
  "all_performances ranks old_mean delta bnds =
     (let priors = map (\<lambda>(mean, width). (mean, width, 1)) (zip old_mean delta);
          n = length ranks;
          perf = replicate n 0;
          perf1 = solve_index ranks delta priors 0 bnds perf;
          perf2 = solve_index ranks delta priors (n - 1) bnds perf1
      in fill ranks delta priors 0 (n - 1) perf2)"

text \<open>The loop over the history of one contestant. The history has one entry per earlier contest, so
  the index \<open>played + 1 - history_index\<close> of the variance is never negative.\<close>

definition history_step ::
    "nat \<Rightarrow> term3 list \<times> real \<times> real \<Rightarrow> nat \<times> real \<Rightarrow> term3 list \<times> real \<times> real" where
  "history_step played st hp =
     (case (st, hp) of ((terms, previous_weight, weight_sum), (history_index, performance)) \<Rightarrow>
        (let gamma2 = (if history_index > 0 then var_per_contest else 0);
             history_variance = variance_for (played + 1 - history_index);
             factor = history_variance / (history_variance + gamma2);
             weight = previous_weight * factor\<^sup>2
         in (terms @ [(performance, sqrt beta2 * tanh_c, weight)], weight, weight_sum + weight / beta2)))"

definition history_terms :: "nat \<Rightarrow> real list \<Rightarrow> term3 list \<times> real" where
  "history_terms played history =
     (case foldl (history_step played) ([], 1, 0) (zip [0..<length history] history) of
        (terms, _, weight_sum) \<Rightarrow> (terms, weight_sum))"

definition updated_mean :: "nat \<Rightarrow> real \<Rightarrow> real \<Rightarrow> real list \<Rightarrow> real \<times> real \<Rightarrow> real" where
  "updated_mean played old_mean performance historical bnds =
     (case history_terms played (performance # historical) of (terms, weight_sum) \<Rightarrow>
        (let initial_weight = 1 / variance_for (played + 1) - weight_sum;
             initial_performance = eval_tanhs (tl terms) old_mean / initial_weight + old_mean
         in solve terms (initial_weight * initial_performance) initial_weight bnds))"

text \<open>Python's \<open>round\<close> on the reals of this theory, ties to even.\<close>

definition round_real :: "real \<Rightarrow> int" where
  "round_real x =
     (let f = \<lfloor>x\<rfloor>; d = x - of_int f
      in if d < 1/2 then f else if d > 1/2 then f + 1 else if even f then f else f + 1)"

definition displayed_rating :: "real \<Rightarrow> nat \<Rightarrow> int" where
  "displayed_rating mean played = max 1 (round_real (mean - (sqrt (variance_for (played + 1)) - sd_lim)))"

record elo_result =
  el_displayed :: "int list"
  el_means :: "real list"
  el_performances :: "real list"

definition recalculate ::
    "rat list \<Rightarrow> real list \<Rightarrow> nat list \<Rightarrow> real list list \<Rightarrow> real option \<Rightarrow> elo_result" where
  "recalculate ranks old_mean times_ranked historical perf_ceiling =
     (let bnds = update_bounds perf_ceiling;
          delta = map width_of times_ranked;
          perf = (if length ranks < 2 then old_mean else all_performances ranks old_mean delta bnds);
          means = (if length ranks < 2 then old_mean
                   else map (\<lambda>i. updated_mean (times_ranked ! i) (old_mean ! i) (perf ! i) (historical ! i) bnds)
                          [0..<length ranks])
      in if ranks = [] then \<lparr>el_displayed = [], el_means = [], el_performances = []\<rparr>
         else \<lparr>el_displayed = map2 displayed_rating means times_ranked, el_means = means, el_performances = perf\<rparr>)"

section \<open>The variance of a contestant\<close>

lemma beta2_pos [simp]: "0 < beta2"
  by (simp add: beta2_def)

lemma var_per_contest_pos [simp]: "0 < var_per_contest"
  by (simp add: var_per_contest_def)

lemma elo_nonzero [simp]: "beta2 \<noteq> 0" "var_per_contest \<noteq> 0"
  using beta2_pos var_per_contest_pos by (metis less_irrefl)+

lemma var_init_pos [simp]: "0 < var_init"
  by (simp add: var_init_def)

definition cache_ok :: "real list \<Rightarrow> bool" where
  "cache_ok cache \<longleftrightarrow> cache \<noteq> [] \<and> (\<forall>i < length cache. cache ! i = (next_variance ^^ i) var_init)"

lemma extend_cache_ok: "cache_ok cache \<Longrightarrow> cache_ok (extend_cache n cache) \<and> n < length (extend_cache n cache)"
proof (induction n cache rule: extend_cache.induct)
  case (1 n cache)
  show ?case
  proof (cases "length cache \<le> n")
    case True
    have "last cache = (next_variance ^^ (length cache - 1)) var_init"
      using 1(2) by (simp add: cache_ok_def last_conv_nth)
    moreover have "length cache = Suc (length cache - 1)" using 1(2) by (simp add: cache_ok_def)
    ultimately have "next_variance (last cache) = (next_variance ^^ length cache) var_init"
      by (metis comp_apply funpow.simps(2))
    then have "cache_ok (cache @ [next_variance (last cache)])"
      using 1(2) by (auto simp: cache_ok_def nth_append less_Suc_eq)
    then show ?thesis using 1(1) [OF True] by (simp add: extend_cache.simps [of n cache] True)
  next
    case False
    then show ?thesis using 1(2) by (simp add: extend_cache.simps [of n cache])
  qed
qed

lemma variance_call_ok:
  assumes "cache_ok cache"
  shows "fst (variance_call n cache) = (next_variance ^^ n) var_init" and "cache_ok (snd (variance_call n cache))"
  using extend_cache_ok [OF assms, of n] by (auto simp: variance_call_def Let_def cache_ok_def)

lemma variance_for_iter: "variance_for n = (next_variance ^^ n) var_init"
  unfolding variance_for_def by (rule variance_call_ok) (simp add: cache_ok_def)

lemma variance_for_simps [simp]:
  "variance_for 0 = var_init" "variance_for (Suc n) = next_variance (variance_for n)"
  by (simp_all add: variance_for_iter)

text \<open>The limit is the positive solution of \<open>v\<^sup>2 + v p = b p\<close>, so it is the fixed point of the recurrence.\<close>

lemma var_lim_quadratic: "var_lim * var_lim + var_lim * var_per_contest = beta2 * var_per_contest"
proof -
  let ?D = "var_per_contest\<^sup>2 + 4 * beta2 * var_per_contest"
  have "0 < ?D" by (intro add_pos_pos mult_pos_pos) simp_all
  then have s: "sqrt ?D * sqrt ?D = ?D" by simp
  have half: "4 * (l * l + l * p) = s * s - p\<^sup>2" if "l = (s - p) / 2" for l s p :: real
  proof -
    have "s = 2 * l + p" using that by simp
    then show ?thesis by (simp add: algebra_simps power2_eq_square)
  qed
  have "4 * (var_lim * var_lim + var_lim * var_per_contest) = sqrt ?D * sqrt ?D - var_per_contest\<^sup>2"
    by (rule half [OF var_lim_def])
  also have "\<dots> = 4 * (beta2 * var_per_contest)" by (simp only: s)
  finally show ?thesis by simp
qed

lemma var_lim_pos [simp]: "0 < var_lim"
proof -
  have "sqrt (var_per_contest\<^sup>2) < sqrt (var_per_contest\<^sup>2 + 4 * beta2 * var_per_contest)"
    by (subst real_sqrt_less_iff) simp
  then show ?thesis by (simp add: var_lim_def)
qed

lemma above_limit_iff:
  assumes "0 < v"
  shows "var_lim < v \<longleftrightarrow> beta2 * var_per_contest < v * v + v * var_per_contest"
proof -
  have "v * v + v * var_per_contest - beta2 * var_per_contest = (v - var_lim) * (v + var_lim + var_per_contest)"
    using var_lim_quadratic by (simp add: algebra_simps)
  moreover have "0 < v + var_lim + var_per_contest" using assms by (simp add: add_pos_pos)
  ultimately show ?thesis by (metis diff_gt_0_iff_gt zero_less_mult_pos2 mult_pos_pos)
qed

lemma next_variance_eq:
  assumes "0 < v"
  shows "next_variance v = beta2 * (v + var_per_contest) / (v + var_per_contest + beta2)"
proof -
  have "v + var_per_contest \<noteq> 0" using add_pos_pos [OF assms var_per_contest_pos] by simp
  then have "1 / (v + var_per_contest) + 1 / beta2 = (v + var_per_contest + beta2) / (beta2 * (v + var_per_contest))"
    by (simp add: add_frac_eq ac_simps)
  then show ?thesis by (simp add: next_variance_def)
qed

lemma next_variance_pos: "0 < v \<Longrightarrow> 0 < next_variance v"
  by (simp add: next_variance_eq add_pos_pos)

lemma next_variance_less:
  assumes "0 < v" and "var_lim < v"
  shows "next_variance v < v"
proof -
  have p: "0 < v + var_per_contest + beta2" using assms(1) by (simp add: add_pos_pos)
  have "beta2 * (v + var_per_contest) < v * (v + var_per_contest + beta2)"
    using above_limit_iff [OF assms(1)] assms(2) by (simp add: algebra_simps)
  then show ?thesis using p by (simp add: next_variance_eq assms(1) divide_less_eq)
qed

lemma next_variance_above:
  assumes "0 < v" and "var_lim < v"
  shows "var_lim < next_variance v"
proof -
  have p: "0 < v + var_per_contest + beta2" using assms(1) by (simp add: add_pos_pos)
  have "var_lim * (v + var_per_contest + beta2) < beta2 * (v + var_per_contest)"
  proof -
    have "beta2 * (v + var_per_contest) - var_lim * (v + var_per_contest + beta2)
        = (v - var_lim) * (beta2 - var_lim)"
      using var_lim_quadratic by (simp add: algebra_simps)
    moreover have "var_lim < beta2"
    proof (rule ccontr)
      assume "\<not> var_lim < beta2"
      then have "beta2 * var_per_contest \<le> var_lim * var_per_contest" by (simp add: mult_right_mono)
      moreover have "0 < var_lim * var_lim" by simp
      ultimately show False using var_lim_quadratic by linarith
    qed
    ultimately show ?thesis using assms(2) by (smt (verit) mult_pos_pos)
  qed
  then show ?thesis using p by (simp add: next_variance_eq assms(1) less_divide_eq)
qed

lemma var_init_above: "var_lim < var_init"
  by (subst above_limit_iff) (simp_all add: var_init_def var_per_contest_def beta2_def field_simps power2_eq_square)

lemma variance_for_above: "var_lim < variance_for n \<and> 0 < variance_for n"
  by (induction n) (auto simp: var_init_above next_variance_above next_variance_pos)

lemma variance_for_decreasing: "variance_for (Suc n) < variance_for n"
  using variance_for_above [of n] next_variance_less by simp

section \<open>The bisection\<close>

definition known :: "(real \<Rightarrow> real) \<Rightarrow> real \<Rightarrow> real option \<Rightarrow> bool" where
  "known f x y \<longleftrightarrow> y = None \<or> y = Some (f x)"

lemma known_simps [simp]: "known f x None" "known f x (Some (f x))"
  by (simp_all add: known_def)

definition interpolate :: "(real \<Rightarrow> real) \<Rightarrow> real \<Rightarrow> real \<Rightarrow> real \<Rightarrow> real" where
  "interpolate f target l r =
     (if target \<le> f l then l else if f r \<le> target then r
      else l + (r - l) * ((target - f l) / (f r - f l)))"

lemma solve_end_known:
  "known f l ly \<Longrightarrow> known f r ry \<Longrightarrow> solve_end f target l r ly ry = interpolate f target l r"
proof -
  have "l * (1 - q) + r * q = l + (r - l) * q" for q :: real by (simp add: algebra_simps)
  moreover assume "known f l ly" "known f r ry"
  ultimately show ?thesis by (auto simp: solve_end_def interpolate_def known_def Let_def)
qed

lemma midpoint: fixes l r :: real shows "2 < r - l \<Longrightarrow> l \<le> (l + r) / 2 \<and> (l + r) / 2 \<le> r"
  by simp

lemma solve_from_simps:
  assumes "known f l ly" and "known f r ry"
  shows "solve_from f target l r ly ry =
     (if r - l > 2 then
        (let m = (l + r) / 2
         in if f m > target then solve_from f target l m ly (Some (f m))
            else if f m < target then solve_from f target m r (Some (f m)) ry else m)
      else interpolate f target l r)"
  using assms by (simp add: solve_from_def solve_loop.simps [of f target l r] Let_def solve_end_known)

lemma interpolate_within:
  assumes "l \<le> r"
  shows "l \<le> interpolate f target l r" and "interpolate f target l r \<le> r"
proof -
  let ?q = "(target - f l) / (f r - f l)"
  have "0 \<le> ?q \<and> ?q \<le> 1" if "f l < target" "target < f r"
    using that by simp
  then have "0 \<le> (r - l) * ?q \<and> (r - l) * ?q \<le> (r - l) * 1" if "f l < target" "target < f r"
    using that assms by (intro conjI mult_nonneg_nonneg mult_left_mono) auto
  then show "l \<le> interpolate f target l r" "interpolate f target l r \<le> r"
    using assms by (auto simp: interpolate_def not_le)
qed

lemma interpolate_mono:
  assumes "l \<le> r" and "s \<le> t"
  shows "interpolate f s l r \<le> interpolate f t l r"
proof (cases "s \<le> f l \<or> f r \<le> t")
  case True
  then show ?thesis
  proof
    assume "s \<le> f l"
    then show ?thesis using interpolate_within(1) [OF assms(1), of f t] by (simp add: interpolate_def [of f s])
  next
    assume "f r \<le> t"
    show ?thesis
    proof (cases "t \<le> f l")
      case True
      then show ?thesis using assms(2) by (simp add: interpolate_def)
    next
      case False
      then have "interpolate f t l r = r" using \<open>f r \<le> t\<close> by (simp add: interpolate_def)
      then show ?thesis using interpolate_within(2) [OF assms(1), of f s] by simp
    qed
  qed
next
  case False
  then have "(s - f l) / (f r - f l) \<le> (t - f l) / (f r - f l)"
    using assms by (intro divide_right_mono) auto
  then have "(r - l) * ((s - f l) / (f r - f l)) \<le> (r - l) * ((t - f l) / (f r - f l))"
    using assms(1) by (intro mult_left_mono) auto
  then show ?thesis using False assms(2) by (simp add: interpolate_def)
qed

lemma solve_from_within:
  assumes "l \<le> r" and "known f l ly" and "known f r ry"
  shows "l \<le> solve_from f target l r ly ry \<and> solve_from f target l r ly ry \<le> r"
  using assms
proof (induction f target l r ly ry rule: solve_loop.induct)
  case (1 f target l r ly ry)
  let ?m = "(l + r) / 2"
  show ?case
  proof (cases "2 < r - l")
    case True
    then have m: "l \<le> ?m" "?m \<le> r" using midpoint [of r l] by blast+
    have "target < f ?m \<Longrightarrow> l \<le> solve_from f target l ?m ly (Some (f ?m)) \<and> solve_from f target l ?m ly (Some (f ?m)) \<le> ?m"
      using "1.IH"(1) [OF True refl refl] m "1.prems" by simp
    moreover have "f ?m < target \<Longrightarrow> ?m \<le> solve_from f target ?m r (Some (f ?m)) ry \<and> solve_from f target ?m r (Some (f ?m)) ry \<le> r"
      using "1.IH"(2) [OF True refl refl] m "1.prems" by simp
    ultimately show ?thesis
      unfolding solve_from_simps [OF "1.prems"(2,3)] Let_def using True m by (auto intro: order_trans)
  next
    case False
    then show ?thesis
      unfolding solve_from_simps [OF "1.prems"(2,3)] using interpolate_within [OF "1.prems"(1), of f target] by simp
  qed
qed

lemma solve_from_mono:
  assumes "l \<le> r" and "s \<le> t" and "known f l ly" and "known f r ry"
  shows "solve_from f s l r ly ry \<le> solve_from f t l r ly ry"
  using assms
proof (induction f t l r ly ry rule: solve_loop.induct)
  case (1 f t l r ly ry)
  let ?m = "(l + r) / 2"
  show ?case
  proof (cases "2 < r - l")
    case True
    then have m: "l \<le> ?m" "?m \<le> r" using midpoint [of r l] by blast+
    consider "t < f ?m" | "s \<le> f ?m \<and> f ?m \<le> t" | "f ?m < s" by linarith
    then show ?thesis
    proof cases
      case 1
      then show ?thesis
        using "1.IH"(1) [OF True refl refl] m "1.prems" True by (subst (1 2) solve_from_simps) (simp_all add: Let_def)
    next
      case 2
      have "solve_from f s l r ly ry \<le> ?m"
        using 2 True m "1.prems" solve_from_within [OF m(1), of f ly "Some (f ?m)" s]
        by (subst solve_from_simps) (auto simp: Let_def)
      moreover have "?m \<le> solve_from f t l r ly ry"
        using 2 True m "1.prems" solve_from_within [OF m(2), of f "Some (f ?m)" ry t]
        by (subst solve_from_simps) (auto simp: Let_def)
      ultimately show ?thesis by linarith
    next
      case 3
      then show ?thesis
        using "1.IH"(2) [OF True refl refl] m "1.prems" True by (subst (1 2) solve_from_simps) (simp_all add: Let_def)
    qed
  next
    case False
    then show ?thesis using "1.prems" interpolate_mono [of l r s t f] by (subst (1 2) solve_from_simps) simp_all
  qed
qed

lemma solve_from_near_root:
  assumes "l \<le> r" and "known f l ly" and "known f r ry" and "continuous_on UNIV f"
    and "f l \<le> target" and "target \<le> f r"
  shows "\<exists>x. f x = target \<and> \<bar>solve_from f target l r ly ry - x\<bar> \<le> 2"
  using assms
proof (induction f target l r ly ry rule: solve_loop.induct)
  case (1 f target l r ly ry)
  let ?m = "(l + r) / 2"
  show ?case
  proof (cases "2 < r - l")
    case True
    then have m: "l \<le> ?m" "?m \<le> r" using midpoint [of r l] by blast+
    consider "target < f ?m" | "f ?m = target" | "f ?m < target" by linarith
    then show ?thesis
    proof cases
      case 1
      then show ?thesis
        using "1.IH"(1) [OF True refl refl] m "1.prems" True by (subst solve_from_simps) (simp_all add: Let_def)
    next
      case 2
      then show ?thesis using True "1.prems" by (subst solve_from_simps) (auto simp: Let_def intro!: exI [of _ ?m])
    next
      case 3
      then show ?thesis
        using "1.IH"(2) [OF True refl refl] m "1.prems" True by (subst solve_from_simps) (simp_all add: Let_def)
    qed
  next
    case False
    obtain x where x: "l \<le> x" "x \<le> r" "f x = target"
      using IVT' [of f l target r] "1.prems" continuous_on_subset by (metis subset_UNIV)
    then have "\<bar>interpolate f target l r - x\<bar> \<le> 2"
      using interpolate_within [OF "1.prems"(1), of f target] False by linarith
    then show ?thesis using x False "1.prems" by (subst solve_from_simps) auto
  qed
qed

section \<open>Performances follow the ranks\<close>

definition pull :: "rat \<Rightarrow> rat \<times> real \<Rightarrow> real" where
  "pull rank ow = (if fst ow > rank then 1 / snd ow else if fst ow < rank then - (1 / snd ow) else 0)"

lemma rank_target_sum: "rank_target ranks delta i = sum_list (map (pull (ranks ! i)) (zip ranks delta))"
proof -
  have "foldl (\<lambda>target (orank, width).
        if orank > q then target + 1 / width else if orank < q then target - 1 / width else target) a ows
      = a + sum_list (map (pull q) ows)" for a q ows
    by (induction ows arbitrary: a) (auto simp: pull_def)
  then show ?thesis by (simp add: rank_target_def)
qed

lemma rank_target_antimono:
  assumes "ranks ! i \<le> ranks ! j" and "\<forall>w \<in> set delta. 0 < w"
  shows "rank_target ranks delta j \<le> rank_target ranks delta i"
proof -
  have "pull (ranks ! j) ow \<le> pull (ranks ! i) ow" if "0 < snd ow" for ow
    using assms(1) that by (auto simp: pull_def intro: order_trans [of _ 0])
  then show ?thesis
    unfolding rank_target_sum using assms(2) by (intro sum_list_mono) (auto dest: set_zip_rightD)
qed

definition falling :: "real list \<Rightarrow> nat \<Rightarrow> nat \<Rightarrow> bool" where
  "falling perf l r \<longleftrightarrow> (\<forall>i j. l \<le> i \<and> i \<le> j \<and> j \<le> r \<longrightarrow> perf ! j \<le> perf ! i)"

lemma falling_join:
  assumes "falling perf l m" and "falling perf m r"
  shows "falling perf l r"
  unfolding falling_def
proof (intro allI impI)
  fix i j
  assume ij: "l \<le> i \<and> i \<le> j \<and> j \<le> r"
  then consider "j \<le> m" | "m \<le> i" | "i \<le> m" "m \<le> j" by linarith
  then show "perf ! j \<le> perf ! i"
  proof cases
    case 3
    then have "perf ! j \<le> perf ! m" "perf ! m \<le> perf ! i" using assms ij by (auto simp: falling_def)
    then show ?thesis by linarith
  qed (use assms ij in \<open>auto simp: falling_def\<close>)
qed

text \<open>\<open>fill\<close> writes only strictly between its two ends, and what it leaves is ordered.\<close>

lemma fill_falling:
  assumes "l < r" and "r < length perf" and "perf ! r \<le> perf ! l"
  shows "length (fill ranks delta priors l r perf) = length perf
     \<and> (\<forall>k. k \<le> l \<or> r \<le> k \<longrightarrow> fill ranks delta priors l r perf ! k = perf ! k)
     \<and> falling (fill ranks delta priors l r perf) l r"
  using assms
proof (induction ranks delta priors l r perf rule: fill.induct)
  case (1 ranks delta priors l r perf)
  show ?case
  proof (cases "r - l > 1")
    case False
    then have r: "r = Suc l" using "1.prems"(1) by simp
    have "fill ranks delta priors l r perf = perf"
      using False by (simp add: fill.simps [of ranks delta priors l r])
    moreover have "falling perf l r"
      unfolding falling_def
    proof (intro allI impI)
      fix i j
      assume "l \<le> i \<and> i \<le> j \<and> j \<le> r"
      then have "i = j \<or> i = l \<and> j = r" using r by linarith
      then show "perf ! j \<le> perf ! i" using "1.prems"(3) by auto
    qed
    ultimately show ?thesis by simp
  next
    case True
    define m where "m = (l + r) div 2"
    define v where "v = solve priors (rank_target ranks delta m) 0 (perf ! r, perf ! l)"
    define p1 where "p1 = perf[m := v]"
    define p2 where "p2 = fill ranks delta priors l m p1"
    define p3 where "p3 = fill ranks delta priors m r p2"
    have m: "l < m" "m < r" using True by (auto simp: m_def)
    have v: "perf ! r \<le> v" "v \<le> perf ! l"
      using solve_from_within [of "perf ! r" "perf ! l"] "1.prems"(3) by (simp_all add: v_def solve_def)
    have p1: "length p1 = length perf" "p1 ! m = v" "k \<noteq> m \<Longrightarrow> p1 ! k = perf ! k" for k
      using m "1.prems"(2) by (auto simp: p1_def)
    have full: "fill ranks delta priors l r perf = p3"
      using True by (simp add: fill.simps [of ranks delta priors l r] p3_def p2_def p1_def v_def m_def solve_index_def Let_def)
    have p1_eq: "solve_index ranks delta priors m (perf ! r, perf ! l) perf = p1"
      by (simp add: p1_def v_def solve_index_def)
    note ih = "1.IH" [OF True refl refl, folded m_def, unfolded p1_eq, folded p2_def]
    have r2: "length p2 = length p1 \<and> (\<forall>k. k \<le> l \<or> m \<le> k \<longrightarrow> p2 ! k = p1 ! k) \<and> falling p2 l m"
      by (rule ih(1)) (use m v p1 "1.prems" in simp_all)
    have r3: "length p3 = length p2 \<and> (\<forall>k. k \<le> m \<or> r \<le> k \<longrightarrow> p3 ! k = p2 ! k) \<and> falling p3 m r"
      unfolding p3_def by (rule ih(2)) (use m v p1 r2 "1.prems" in simp_all)
    have "falling p3 l m" using r2 r3 by (simp add: falling_def)
    then have "falling p3 l r" using r3 falling_join by blast
    then show ?thesis unfolding full using r2 r3 p1 m by auto
  qed
qed

lemma width_of_pos: "0 < width_of n"
  using variance_for_above [of n] by (simp add: width_of_def tanh_c_def add_pos_pos)

lemma all_performances_falling:
  assumes "sorted ranks" and "2 \<le> length ranks" and "fst bnds \<le> snd bnds"
  shows "length (all_performances ranks mean (map width_of played) bnds) = length ranks"
    and "falling (all_performances ranks mean (map width_of played) bnds) 0 (length ranks - 1)"
    and "fst bnds \<le> all_performances ranks mean (map width_of played) bnds ! (length ranks - 1)"
    and "all_performances ranks mean (map width_of played) bnds ! 0 \<le> snd bnds"
proof -
  define delta where "delta = map width_of played"
  define priors where "priors = map (\<lambda>(mean, width). (mean, width, 1::real)) (zip mean delta)"
  define n where "n = length ranks"
  define s where "s i = solve priors (rank_target ranks delta i) 0 bnds" for i
  define perf where "perf = (replicate n 0)[0 := s 0, n - 1 := s (n - 1)]"
  have n: "2 \<le> n" using assms(2) by (simp add: n_def)
  have "rank_target ranks delta (n - 1) \<le> rank_target ranks delta 0"
    using n assms(1) by (intro rank_target_antimono) (auto simp: n_def delta_def width_of_pos sorted_nth_mono)
  then have ends: "s (n - 1) \<le> s 0"
    unfolding s_def solve_def using assms(3) by (intro solve_from_mono) simp_all
  have p: "length perf = n" "perf ! 0 = s 0" "perf ! (n - 1) = s (n - 1)"
    using n by (simp_all add: perf_def nth_list_update)
  have eq: "all_performances ranks mean (map width_of played) bnds = fill ranks delta priors 0 (n - 1) perf"
    by (simp add: all_performances_def Let_def delta_def priors_def n_def perf_def s_def solve_index_def)
  have f: "length (fill ranks delta priors 0 (n - 1) perf) = length perf
     \<and> (\<forall>k. k \<le> 0 \<or> n - 1 \<le> k \<longrightarrow> fill ranks delta priors 0 (n - 1) perf ! k = perf ! k)
     \<and> falling (fill ranks delta priors 0 (n - 1) perf) 0 (n - 1)"
    by (rule fill_falling) (use n p ends in simp_all)
  have "fst bnds \<le> s (n - 1)" "s 0 \<le> snd bnds"
    using solve_from_within [OF assms(3)] by (simp_all add: s_def solve_def)
  then show "length (all_performances ranks mean (map width_of played) bnds) = length ranks"
    "falling (all_performances ranks mean (map width_of played) bnds) 0 (length ranks - 1)"
    "fst bnds \<le> all_performances ranks mean (map width_of played) bnds ! (length ranks - 1)"
    "all_performances ranks mean (map width_of played) bnds ! 0 \<le> snd bnds"
    unfolding eq using f p by (simp_all add: n_def)
qed

lemma valid_range_ordered: "fst valid_range \<le> snd valid_range"
  using var_init_pos by (simp add: valid_range_def sd_init_def less_imp_le)

section \<open>The weight left for the prior\<close>

text \<open>After the entries \<open>0..h\<close> of a history the weights used, and the share the next variance still
  leaves, fit into the reciprocal of the new variance.\<close>

definition weights_fit :: "nat \<Rightarrow> nat \<Rightarrow> term3 list \<times> real \<times> real \<Rightarrow> bool" where
  "weights_fit n h st = (case st of (terms, w, s) \<Rightarrow>
     0 < w \<and> s + w / (variance_for (n - h) + var_per_contest) \<le> 1 / variance_for (n + 1))"

lemma weights_fit_step:
  assumes "weights_fit n h st" and "Suc h \<le> n"
  shows "weights_fit n (Suc h) (history_step n st (Suc h, p))"
proof -
  obtain terms w s where st: "st = (terms, w, s)" by (cases st) auto
  define v where "v = variance_for (n - h)"
  define u where "u = variance_for (n - Suc h) + var_per_contest"
  define f where "f = v / (v + var_per_contest)"
  have pos: "0 < v" "0 < u" using variance_for_above by (auto simp: v_def u_def add_pos_pos)
  have f: "0 < f" "f \<le> 1" using pos var_per_contest_pos by (simp_all add: f_def add_pos_pos less_imp_le)
  have w: "0 < w" "s + w / (v + var_per_contest) \<le> 1 / variance_for (n + 1)"
    using assms(1) by (simp_all add: st weights_fit_def v_def)
  have "n - h = Suc (n - Suc h)" using assms(2) by simp
  then have rec: "1 / v = 1 / u + 1 / beta2" by (simp add: v_def u_def next_variance_def)
  have "w * f\<^sup>2 / beta2 + w * f\<^sup>2 / u = w * f\<^sup>2 * (1 / v)" by (simp add: rec distrib_left)
  also have "\<dots> \<le> w * f * (1 / v)"
    using w(1) f pos by (intro mult_right_mono mult_left_mono) (simp_all add: power2_eq_square mult_left_le)
  also have "\<dots> = w / (v + var_per_contest)" using pos by (simp add: f_def)
  finally have "s + w * f\<^sup>2 / beta2 + w * f\<^sup>2 / u \<le> 1 / variance_for (n + 1)" using w(2) by linarith
  moreover have "n + 1 - Suc h = n - h" by simp
  ultimately show ?thesis
    using w(1) f(1) by (simp add: st weights_fit_def history_step_def Let_def v_def [symmetric] f_def [symmetric]
        u_def [symmetric] del: variance_for_simps)
qed

lemma weights_fit_fold:
  assumes "weights_fit n h st" and "h + length ps \<le> n"
  shows "weights_fit n (h + length ps) (foldl (history_step n) st (zip [Suc h..<Suc h + length ps] ps))"
  using assms
proof (induction ps arbitrary: h st)
  case (Cons p ps)
  have "[Suc h..<Suc h + length (p # ps)] = Suc h # [Suc (Suc h)..<Suc (Suc h) + length ps]"
    by (subst upt_rec) simp
  moreover have "weights_fit n (Suc h) (history_step n st (Suc h, p))"
    using Cons.prems by (intro weights_fit_step) auto
  ultimately show ?case using Cons.IH [of "Suc h"] Cons.prems by simp
qed simp

section \<open>Properties\<close>

text \<open>The prior variance of a contestant does not depend on which calls filled the cache before: any
  cache the module can hold gives the same value, stays valid, and the value falls strictly with
  each contest while staying above the limit the displayed rating subtracts.\<close>

theorem variance_shrinks:
  assumes "cache_ok cache"
  shows "fst (variance_call n cache) = variance_for n \<and> cache_ok (snd (variance_call n cache))
     \<and> var_lim < variance_for (Suc n) \<and> variance_for (Suc n) < variance_for n"
  using variance_call_ok [OF assms, of n] variance_for_iter [of n] variance_for_above [of "Suc n"]
    variance_for_decreasing [of n] by (simp del: variance_for_simps)

theorem variance_shrinks_witness: "fst (variance_call 3 [var_init]) = variance_for 3"
  by (rule variance_shrinks [THEN conjunct1]) (simp add: cache_ok_def)

text \<open>\<open>_solve\<close> always returns, and its result lies within 2 of an exact solution whenever the target
  lies between the values at the ends of the interval.\<close>

theorem solve_near_root:
  assumes "fst bnds \<le> snd bnds"
    and "lf * fst bnds + eval_tanhs terms (fst bnds) \<le> target"
    and "target \<le> lf * snd bnds + eval_tanhs terms (snd bnds)"
  shows "\<exists>x. lf * x + eval_tanhs terms x = target \<and> \<bar>solve terms target lf bnds - x\<bar> \<le> 2"
proof -
  have "continuous_on UNIV (\<lambda>x. lf * x + eval_tanhs terms x)"
  proof (induction terms)
    case Nil
    then show ?case by (simp add: eval_tanhs_def continuous_on_mult_left)
  next
    case (Cons t ts)
    obtain mean sd weight where "t = (mean, sd, weight)" by (cases t)
    then have "(\<lambda>x. lf * x + eval_tanhs (t # ts) x) =
        (\<lambda>x. (lf * x + eval_tanhs ts x) + weight / sd * tanh ((x - mean) * (1 / (2 * sd))))"
      by (auto simp: eval_tanhs_def)
    moreover have "continuous_on UNIV (\<lambda>x. weight / sd * tanh ((x - mean) * (1 / (2 * sd))))"
      by (intro continuous_intros) (simp_all add: cosh_real_nonzero)
    ultimately show ?case using Cons by (simp only: continuous_on_add)
  qed
  then show ?thesis unfolding solve_def using assms by (intro solve_from_near_root) simp_all
qed

theorem solve_near_root_witness: "\<exists>x. 1 * x + eval_tanhs [] x = 10 \<and> \<bar>solve [] 10 1 (0, 30) - x\<bar> \<le> 2"
  by (rule solve_near_root) (simp_all add: eval_tanhs_def)

text \<open>C18: The performances of a rated contest respect the ranks: a contestant ranked higher never gets
  a lower performance, and every performance lies in the valid range.\<close>

theorem performances_follow_ranks:
  assumes "sorted ranks" and "2 \<le> length ranks" and "i \<le> j" and "j < length ranks"
  shows "el_performances (recalculate ranks mean played history None) ! j \<le> el_performances (recalculate ranks mean played history None) ! i
    \<and> fst valid_range \<le> el_performances (recalculate ranks mean played history None) ! i
    \<and> el_performances (recalculate ranks mean played history None) ! i \<le> snd valid_range"
proof -
  let ?p = "all_performances ranks mean (map width_of played) valid_range"
  have eq: "el_performances (recalculate ranks mean played history None) = ?p"
    using assms(2) by (auto simp: recalculate_def Let_def update_bounds_def)
  note facts = all_performances_falling [OF assms(1,2) valid_range_ordered, of mean played]
  have "?p ! j \<le> ?p ! i" using facts(2) assms(3,4) by (auto simp: falling_def)
  moreover have "?p ! (length ranks - 1) \<le> ?p ! i" "?p ! i \<le> ?p ! 0"
    using facts(2) assms(3,4) by (auto simp: falling_def)
  ultimately show ?thesis unfolding eq using facts(3,4) by linarith
qed

theorem performances_follow_ranks_witness:
  "el_performances (recalculate [0, 1] [1500, 1500] [0, 0] [[], []] None) ! 1
     \<le> el_performances (recalculate [0, 1] [1500, 1500] [0, 0] [[], []] None) ! 0"
  by (rule performances_follow_ranks [THEN conjunct1]) simp_all

text \<open>The update of a mean never divides by zero: with one history entry per rated contest the weight
  left for the prior is positive, whatever the performances.\<close>

theorem prior_weight_positive:
  assumes "length historical = n"
  shows "snd (history_terms n (performance # historical)) < 1 / variance_for (n + 1)"
proof -
  define first_step where "first_step = history_step n ([], 1, 0) (0, performance)"
  have "weights_fit n 0 first_step"
    using variance_for_above [of "n + 1"]
    by (simp add: first_step_def weights_fit_def history_step_def next_variance_def)
  then have "weights_fit n n (foldl (history_step n) first_step (zip [Suc 0..<Suc n] historical))"
    using weights_fit_fold [of n 0 first_step historical] assms by simp
  moreover have "history_terms n (performance # historical) =
      (case foldl (history_step n) first_step (zip [Suc 0..<Suc n] historical) of (terms, _, s) \<Rightarrow> (terms, s))"
    using assms by (simp add: history_terms_def first_step_def upt_conv_Cons del: upt_Suc)
  moreover have "0 < var_init + var_per_contest" by (simp add: add_pos_pos)
  ultimately show ?thesis
    by (auto simp: weights_fit_def split: prod.splits intro: less_le_trans [rotated] simp del: variance_for_simps(2))
qed

theorem prior_weight_positive_witness: "snd (history_terms 2 [1600, 1500, 1400]) < 1 / variance_for (2 + 1)"
  by (rule prior_weight_positive) simp

end
