(* ===== verification/Ratings.thy ===== *)
theory Ratings
  imports EloMmr Access
begin

text \<open>
  \<open>apps/ratings\<close>: \<open>rating_service.py\<close>, which selects the rated participations of a contest, runs the
  Elo-MMR update and stores one row per user, the handler of \<open>ratings/signals.py\<close> that copies a
  saved row to its user, and the endpoints of \<open>ratings/api/router.py\<close>.
\<close>

section \<open>Ranks of ties\<close>

text \<open>The two nested \<open>while\<close> loops: a run of equal keys that starts at \<open>index\<close> shares its mean position.\<close>

function tie_ranks_from :: "nat \<Rightarrow> (rat \<times> rat) list \<Rightarrow> rat list" where
  "tie_ranks_from index [] = []"
| "tie_ranks_from index (k # ks) =
     (let run = takeWhile (\<lambda>k'. k' = k) ks; size = Suc (length run);
          average_rank = of_nat index + of_nat (size - 1) / 2
      in replicate size average_rank @ tie_ranks_from (index + size) (drop (length run) ks))"
  by pat_completeness auto

termination by (relation "measure (\<lambda>(index, ks). length ks)") auto

definition tie_ranks :: "(rat \<times> rat) list \<Rightarrow> rat list" where
  "tie_ranks ks = tie_ranks_from 0 ks"

section \<open>Selecting the rated participations\<close>

record selected =
  sel_user :: user
  sel_participation :: nat
  sel_rank_key :: "rat \<times> rat"
  sel_rating_before :: int
  sel_mean_before :: real
  sel_historical :: "real list"
  sel_times_ranked :: nat

definition contest_end :: "db \<Rightarrow> nat \<Rightarrow> time" where
  "contest_end d i = (case get_contest i d of Some c \<Rightarrow> c_end_time c | None \<Rightarrow> 0)"

text \<open>\<open>order_by("-contest__end_time", "-id")\<close>\<close>

definition rating_history_of :: "db \<Rightarrow> nat \<Rightarrow> nat \<Rightarrow> rating list" where
  "rating_history_of d uid cid =
     sort_key (\<lambda>r. (- contest_end d (rt_contest r), - int (rt_id r)))
       (filter (\<lambda>r. rt_user r = uid \<and> rt_contest r \<noteq> cid) (db_ratings d))"

definition outside :: "int option \<Rightarrow> int option \<Rightarrow> int \<Rightarrow> bool" where
  "outside lo hi x = ((case lo of Some l \<Rightarrow> x < l | None \<Rightarrow> False) \<or> (case hi of Some h \<Rightarrow> x > h | None \<Rightarrow> False))"

text \<open>One pass of the selection loop; \<open>None\<close> is a \<open>continue\<close>.\<close>

definition select_entry :: "db \<Rightarrow> contest \<Rightarrow> ranking_entry \<Rightarrow> selected option" where
  "select_entry d c e =
     (case List.find (\<lambda>p. pa_id p = en_participation e \<and> pa_contest p = c_id c \<and> \<not> pa_is_disqualified p
                          \<and> pa_status p = Part_LIVE) (db_participations d) of
        None \<Rightarrow> None
      | Some p \<Rightarrow>
          (case row_get u_id (pa_user p) (db_users d) of
             None \<Rightarrow> None
           | Some u \<Rightarrow>
               if pa_user p \<in> set (c_rate_exclude c) then None
               else if \<not> c_rate_all c \<and> \<not> list_ex (\<lambda>s. s_contest_participation s = Some (pa_id p)) (db_submissions d) then None
               else (let history = rating_history_of d (pa_user p) (c_id c);
                         last_rating = (case first history of Some r \<Rightarrow> rt_rating_after r | None \<Rightarrow> rating_init)
                     in if outside (c_rating_floor c) (c_rating_ceiling c) last_rating then None
                        else Some \<lparr>sel_user = u, sel_participation = pa_id p,
                               sel_rank_key = (en_score e, en_tiebreaker e), sel_rating_before = last_rating,
                               sel_mean_before = (case first history of Some r \<Rightarrow> rt_mean r | None \<Rightarrow> mean_init),
                               sel_historical = map rt_performance history,
                               sel_times_ranked = length history\<rparr>)))"

section \<open>Storing the results\<close>

text \<open>\<open>sync_user_rating_on_save\<close>, after a rating row was saved.\<close>

definition sync_user_rating :: "rating \<Rightarrow> db \<Rightarrow> db" where
  "sync_user_rating r d = d\<lparr>db_users := rows_update (\<lambda>u. u_id u = rt_user r)
     (\<lambda>u. u\<lparr>u_rating := rt_rating_after r,
            u_max_rating := (if rt_rating_after r > u_max_rating u then rt_rating_after r else u_max_rating u)\<rparr>)
     (db_users d)\<rparr>"

definition clamp_rating :: "env \<Rightarrow> int \<Rightarrow> int" where
  "clamp_rating env x = min (e_rating_ceiling env) (max (e_rating_floor env) x)"

definition rating_row ::
    "env \<Rightarrow> time \<Rightarrow> contest \<Rightarrow> selected \<Rightarrow> rat \<Rightarrow> int \<Rightarrow> real \<Rightarrow> real \<Rightarrow> nat \<Rightarrow> rating" where
  "rating_row env now c item rank displayed mean performance i =
     \<lparr>rt_id = i, rt_user = u_id (sel_user item), rt_contest = c_id c, rt_participation = sel_participation item,
      rt_rank = max 1 (py_round (rank + 1)), rt_rating_before = sel_rating_before item,
      rt_rating_after = clamp_rating env displayed, rt_mean = mean,
      rt_volatility_before = round_real (sqrt (variance_for (sel_times_ranked item))),
      rt_volatility_after = round_real (sqrt (variance_for (sel_times_ranked item + 1))),
      rt_performance = performance, rt_created_at = now\<rparr>"

text \<open>\<open>update_or_create(user=..., contest=..., defaults=...)\<close>: an existing row keeps its key and its
  creation time.\<close>

definition upsert_rating :: "rating \<Rightarrow> db \<Rightarrow> rating \<times> db" where
  "upsert_rating r d =
     (case List.find (\<lambda>x. rt_user x = rt_user r \<and> rt_contest x = rt_contest r) (db_ratings d) of
        Some x \<Rightarrow> (let r' = r\<lparr>rt_id := rt_id x, rt_created_at := rt_created_at x\<rparr>
                   in (r', d\<lparr>db_ratings := row_put rt_id r' (db_ratings d)\<rparr>))
      | None \<Rightarrow> (let r' = r\<lparr>rt_id := fresh_key rt_id (db_ratings d)\<rparr>
                 in (r', d\<lparr>db_ratings := db_ratings d @ [r']\<rparr>)))"

definition rating_changed_event :: "contest \<Rightarrow> selected \<Rightarrow> int \<Rightarrow> event" where
  "rating_changed_event c item after =
     \<lparr>ev_type = ''user.rating_changed'',
      ev_payload = [(''user_id'', JInt (int (u_id (sel_user item)))), (''contest_id'', JInt (int (c_id c))),
        (''rating_before'', JInt (sel_rating_before item)), (''rating_after'', JInt after),
        (''delta'', JInt (after - sel_rating_before item))],
      ev_group = None\<rparr>"

text \<open>One pass of the storing loop: the row, its signal, then \<open>user.save(update_fields=...)\<close> on the user
  object that was fetched with the participation.\<close>

definition store_rating ::
    "env \<Rightarrow> time \<Rightarrow> contest \<Rightarrow> selected \<times> rat \<times> int \<times> real \<times> real \<Rightarrow> rating list \<times> db \<Rightarrow> rating list \<times> db" where
  "store_rating env now c x st =
     (case (x, st) of ((item, rank, displayed, mean, performance), (rows, d)) \<Rightarrow>
        (case upsert_rating (rating_row env now c item rank displayed mean performance 0) d of
           (r, d1) \<Rightarrow>
             (let u = sel_user item; after = rt_rating_after r; d2 = sync_user_rating r d1;
                  d3 = d2\<lparr>db_users := rows_update (\<lambda>v. u_id v = u_id u)
                        (\<lambda>v. v\<lparr>u_rating := after, u_max_rating := max (u_max_rating u) after\<rparr>) (db_users d2)\<rparr>
              in (rows @ [r], publish (rating_changed_event c item after) d3))))"

definition contest_ratings :: "db \<Rightarrow> contest \<Rightarrow> rating list" where
  "contest_ratings d c = sort_key (\<lambda>r. (rt_rank r, rt_user r)) (filter (\<lambda>r. rt_contest r = c_id c) (db_ratings d))"

definition delete_contest_ratings :: "contest \<Rightarrow> db \<Rightarrow> db" where
  "delete_contest_ratings c d = d\<lparr>db_ratings := rows_delete (\<lambda>r. rt_contest r = c_id c) (db_ratings d)\<rparr>"

definition calculate_ratings :: "env \<Rightarrow> time \<Rightarrow> contest \<Rightarrow> bool \<Rightarrow> db \<Rightarrow> (rating list \<times> db) result" where
  "calculate_ratings env now c force d =
     (if \<not> c_is_rated c then Inr ([], d)
      else if contest_ratings d c \<noteq> [] \<and> \<not> force then Inr (contest_ratings d c, d)
      else andThen (get_contest_ranking d c) (\<lambda>entries.
        let sel = List.map_filter (select_entry d c) entries
        in if sel = [] then Inr ([], delete_contest_ratings c d)
           else (let ranks = tie_ranks (map sel_rank_key sel);
                     elo = recalculate ranks (map sel_mean_before sel) (map sel_times_ranked sel)
                             (map sel_historical sel) None;
                     d1 = (if force then delete_contest_ratings c d else d)
                 in Inr (fold (store_rating env now c)
                      (zip sel (zip ranks (zip (el_displayed elo) (zip (el_means elo) (el_performances elo)))))
                      ([], d1)))))"

section \<open>Histories and the full recalculation\<close>

record rating_change =
  rc_user :: nat
  rc_contest :: nat
  rc_rank :: int
  rc_rating_before :: int
  rc_rating_after :: int
  rc_delta :: int
  rc_performance :: real

definition rating_change_of :: "rating \<Rightarrow> rating_change" where
  "rating_change_of r = \<lparr>rc_user = rt_user r, rc_contest = rt_contest r, rc_rank = rt_rank r,
     rc_rating_before = rt_rating_before r, rc_rating_after = rt_rating_after r,
     rc_delta = rt_rating_after r - rt_rating_before r, rc_performance = rt_performance r\<rparr>"

definition get_rating_history :: "nat \<Rightarrow> db \<Rightarrow> rating_change list" where
  "get_rating_history uid d =
     map rating_change_of (sort_key rt_created_at (filter (\<lambda>r. rt_user r = uid) (db_ratings d)))"

definition get_contest_rating_changes :: "contest \<Rightarrow> db \<Rightarrow> rating_change list" where
  "get_contest_rating_changes c d = map rating_change_of (contest_ratings d c)"

definition recalculate_all_ratings :: "env \<Rightarrow> time \<Rightarrow> db \<Rightarrow> db result" where
  "recalculate_all_ratings env now d =
     (let rated = (\<lambda>u. list_ex (\<lambda>r. rt_user r = u_id u) (db_ratings d));
          d1 = d\<lparr>db_users := rows_update rated (\<lambda>u. u\<lparr>u_rating := rating_init, u_max_rating := rating_init\<rparr>) (db_users d),
                 db_ratings := []\<rparr>;
          cs = sort_key (\<lambda>c. (c_end_time c, c_id c)) (filter c_is_rated (db_contests d))
      in andThen (fold (\<lambda>c r. andThen r (\<lambda>x. andThen (calculate_ratings env now c False x) (\<lambda>(_, x'). Inr x'))) cs (Inr d1))
           (\<lambda>d2. Inr (d2\<lparr>db_users := rows_update (\<lambda>u. u_rating u < e_rating_floor env)
                          (\<lambda>u. u\<lparr>u_rating := e_rating_floor env\<rparr>) (db_users d2)\<rparr>)))"

section \<open>The endpoints\<close>

definition contest_by_key :: "string \<Rightarrow> db \<Rightarrow> contest result" where
  "contest_by_key key d = (case List.find (\<lambda>c. c_key c = key) (db_contests d) of
     None \<Rightarrow> Inl not_found | Some c \<Rightarrow> Inr c)"

definition api_rating_history :: "nat \<Rightarrow> db \<Rightarrow> rating_change list result" where
  "api_rating_history uid d = (case row_get u_id uid (db_users d) of
     None \<Rightarrow> Inl not_found | Some u \<Rightarrow> Inr (get_rating_history uid d))"

definition api_contest_rating_changes :: "viewer \<Rightarrow> string \<Rightarrow> db \<Rightarrow> rating_change list result" where
  "api_contest_rating_changes v key d =
     andThen (contest_by_key key d) (\<lambda>c.
     raise_if (\<not> can_see_contest v d c) (ContestAccessDeniedError ''You do not have access to this contest.'')
       (Inr (get_contest_rating_changes c d)))"

definition api_calculate_ratings ::
    "env \<Rightarrow> time \<Rightarrow> viewer \<Rightarrow> string \<Rightarrow> bool \<Rightarrow> db \<Rightarrow> (rating_change list \<times> db) result" where
  "api_calculate_ratings env now v key force d =
     raise_if (\<not> is_superuser v) (ContestAccessDeniedError ''Only superusers can calculate ratings.'')
       (andThen (contest_by_key key d) (\<lambda>c.
        andThen (calculate_ratings env now c force d) (\<lambda>(rows, d'). Inr (map rating_change_of rows, d'))))"

section \<open>What the ranks of ties satisfy\<close>

lemma run_split:
  obtains rest where "ks = replicate (length (takeWhile (\<lambda>k'. k' = k) ks)) k @ rest"
    and "drop (length (takeWhile (\<lambda>k'. k' = k) ks)) ks = rest" and "rest = [] \<or> hd rest \<noteq> k"
proof
  have "takeWhile (\<lambda>k'. k' = k) ks = replicate (length (takeWhile (\<lambda>k'. k' = k) ks)) k"
    by (rule replicate_eqI) (auto dest: set_takeWhileD)
  then show "ks = replicate (length (takeWhile (\<lambda>k'. k' = k) ks)) k @ dropWhile (\<lambda>k'. k' = k) ks"
    by (metis takeWhile_dropWhile_id)
  show "drop (length (takeWhile (\<lambda>k'. k' = k) ks)) ks = dropWhile (\<lambda>k'. k' = k) ks"
    by (simp add: dropWhile_eq_drop)
  show "dropWhile (\<lambda>k'. k' = k) ks = [] \<or> hd (dropWhile (\<lambda>k'. k' = k) ks) \<noteq> k"
    using hd_dropWhile [of "\<lambda>k'. k' = k" ks] by blast
qed

definition same_steps :: "'a list \<Rightarrow> 'b list \<Rightarrow> bool" where
  "same_steps ks rs \<longleftrightarrow> (\<forall>i. Suc i < length ks \<longrightarrow> (rs ! i = rs ! Suc i) = (ks ! i = ks ! Suc i))"

lemma same_steps_run:
  assumes "same_steps ks rs" and "length rs = length ks" and "ks = [] \<or> hd ks \<noteq> k" and "rs = [] \<or> hd rs \<noteq> a"
  shows "same_steps (replicate n k @ ks) (replicate n a @ rs)"
proof (cases n)
  case 0
  then show ?thesis using assms(1) by simp
next
  case (Suc m)
  show ?thesis
    unfolding same_steps_def
  proof (intro allI impI)
    fix i
    assume i: "Suc i < length (replicate n k @ ks)"
    consider "Suc i < n" | "Suc i = n" | "n \<le> i" by linarith
    then show "((replicate n a @ rs) ! i = (replicate n a @ rs) ! Suc i) =
        ((replicate n k @ ks) ! i = (replicate n k @ ks) ! Suc i)"
    proof cases
      case 2
      then have "ks \<noteq> []" "rs \<noteq> []" using i assms(2) by auto
      then obtain k' ks' r' rs' where "ks = k' # ks'" "rs = r' # rs'" by (meson neq_Nil_conv)
      then have "k' \<noteq> k" "r' \<noteq> a" "(replicate n a @ rs) ! Suc i = r'" "(replicate n k @ ks) ! Suc i = k'"
        "(replicate n a @ rs) ! i = a" "(replicate n k @ ks) ! i = k"
        using assms(3,4) 2 by (simp_all add: nth_append)
      then show ?thesis by simp
    next
      case 3
      then have "Suc i - n = Suc (i - n)" by simp
      then show ?thesis using 3 i assms(1) by (simp add: nth_append same_steps_def)
    qed (simp add: nth_append)
  qed
qed

lemma tie_ranks_from_facts:
  "length (tie_ranks_from i ks) = length ks
   \<and> sum_list (tie_ranks_from i ks) = of_nat (length ks) * of_nat i + of_nat (length ks) * (of_nat (length ks) - 1) / 2
   \<and> sorted (tie_ranks_from i ks) \<and> (\<forall>r \<in> set (tie_ranks_from i ks). of_nat i \<le> r)
   \<and> same_steps ks (tie_ranks_from i ks)"
proof (induction i ks rule: tie_ranks_from.induct)
  case (1 i)
  then show ?case by (simp add: same_steps_def)
next
  case (2 i k ks)
  define run where "run = takeWhile (\<lambda>k'. k' = k) ks"
  define n where "n = Suc (length run)"
  define avg where "avg = (of_nat i + of_nat (n - 1) / 2 :: rat)"
  obtain rest where rest: "ks = replicate (length run) k @ rest" "drop (length run) ks = rest" "rest = [] \<or> hd rest \<noteq> k"
    unfolding run_def by (rule run_split)
  define rs where "rs = tie_ranks_from (i + n) rest"
  have ih: "length rs = length rest
     \<and> sum_list rs = of_nat (length rest) * of_nat (i + n) + of_nat (length rest) * (of_nat (length rest) - 1) / 2
     \<and> sorted rs \<and> (\<forall>r \<in> set rs. of_nat (i + n) \<le> r) \<and> same_steps rest rs"
    using "2.IH" [OF refl refl refl] rest(2) unfolding rs_def n_def run_def by simp
  have eq: "tie_ranks_from i (k # ks) = replicate n avg @ rs"
    using rest(2) by (simp add: Let_def run_def n_def avg_def rs_def)
  have kks: "k # ks = replicate n k @ rest" using rest(1) by (simp add: n_def)
  have avg: "of_nat i \<le> avg" "avg < of_nat (i + n)" by (simp_all add: avg_def n_def field_simps)
  have total: "of_nat n * avg = of_nat n * of_nat i + of_nat n * (of_nat n - 1) / 2"
    by (simp add: avg_def n_def field_simps)
  have "of_nat n * avg + sum_list rs = of_nat (n + length rest) * of_nat i
      + of_nat (n + length rest) * (of_nat (n + length rest) - 1) / 2"
    using ih total by (simp add: field_simps)
  moreover have "sorted (replicate n avg @ rs)"
    using ih avg(2) by (auto simp: sorted_append intro: order_trans [OF less_imp_le])
  moreover have "\<forall>r \<in> set (replicate n avg @ rs). of_nat i \<le> r" using ih avg(1) by (auto intro: order_trans)
  moreover have "same_steps (replicate n k @ rest) (replicate n avg @ rs)"
    using ih rest(3) avg(2) by (intro same_steps_run) (auto dest!: hd_in_set)
  ultimately show ?case unfolding kks eq [unfolded kks] using ih by (simp add: sum_list_replicate)
qed

section \<open>What a calculation stores\<close>

lemma clamp_rating_range:
  "e_rating_floor env \<le> e_rating_ceiling env \<Longrightarrow> e_rating_floor env \<le> clamp_rating env x \<and> clamp_rating env x \<le> e_rating_ceiling env"
  by (simp add: clamp_rating_def)

lemma upsert_rating_fields:
  assumes "upsert_rating r d = (r', d')"
  shows "rt_user r' = rt_user r" and "rt_contest r' = rt_contest r" and "rt_rating_after r' = rt_rating_after r"
    and "db_users d' = db_users d" and "filter (\<lambda>x. rt_contest x = rt_contest r) (db_ratings d') \<noteq> []"
proof -
  consider x where "List.find (\<lambda>x. rt_user x = rt_user r \<and> rt_contest x = rt_contest r) (db_ratings d) = Some x"
    | "List.find (\<lambda>x. rt_user x = rt_user r \<and> rt_contest x = rt_contest r) (db_ratings d) = None"
    by (cases "List.find (\<lambda>x. rt_user x = rt_user r \<and> rt_contest x = rt_contest r) (db_ratings d)") auto
  then have "rt_user r' = rt_user r \<and> rt_contest r' = rt_contest r \<and> rt_rating_after r' = rt_rating_after r
    \<and> db_users d' = db_users d \<and> r' \<in> set (db_ratings d')"
  proof cases
    case (1 x)
    then have "x \<in> set (db_ratings d)" by (auto simp: find_Some_iff)
    moreover from 1 have "r' = r\<lparr>rt_id := rt_id x, rt_created_at := rt_created_at x\<rparr>"
      "d' = d\<lparr>db_ratings := row_put rt_id r' (db_ratings d)\<rparr>"
      using assms by (auto simp: upsert_rating_def Let_def)
    ultimately show ?thesis by (auto simp: set_row_put)
  next
    case 2
    then show ?thesis using assms by (auto simp: upsert_rating_def Let_def)
  qed
  then show "rt_user r' = rt_user r" "rt_contest r' = rt_contest r" "rt_rating_after r' = rt_rating_after r"
    "db_users d' = db_users d" "filter (\<lambda>x. rt_contest x = rt_contest r) (db_ratings d') \<noteq> []"
    by (auto simp: filter_empty_conv)
qed

text \<open>A stored row and the user it is about agree.\<close>

definition synced :: "rating \<Rightarrow> user \<Rightarrow> bool" where
  "synced r u \<longleftrightarrow> (u_id u = rt_user r \<longrightarrow> u_rating u = rt_rating_after r \<and> u_rating u \<le> u_max_rating u)"

definition rated_state :: "env \<Rightarrow> contest \<Rightarrow> nat set \<Rightarrow> rating list \<times> db \<Rightarrow> bool" where
  "rated_state env c todo st \<longleftrightarrow>
     (\<forall>r \<in> set (fst st). rt_contest r = c_id c \<and> rt_user r \<notin> todo
        \<and> (\<exists>x. rt_rating_after r = clamp_rating env x) \<and> (\<forall>u \<in> set (db_users (snd st)). synced r u))
     \<and> (fst st \<noteq> [] \<longrightarrow> filter (\<lambda>x. rt_contest x = c_id c) (db_ratings (snd st)) \<noteq> [])"

lemma store_rating_state:
  assumes "rated_state env c (insert (u_id (sel_user item)) todo) st" and "u_id (sel_user item) \<notin> todo"
  shows "rated_state env c todo (store_rating env now c (item, rank, disp, mean, perf) st)
     \<and> fst (store_rating env now c (item, rank, disp, mean, perf) st) \<noteq> []"
proof -
  obtain rows d where st: "st = (rows, d)" by (cases st)
  define row where "row = rating_row env now c item rank disp mean perf 0"
  obtain r d1 where up: "upsert_rating row d = (r, d1)" by (cases "upsert_rating row d")
  have row: "rt_user row = u_id (sel_user item)" "rt_contest row = c_id c" "rt_rating_after row = clamp_rating env disp"
    by (simp_all add: row_def rating_row_def)
  note f = upsert_rating_fields [OF up]
  have "rated_state env c todo (store_rating env now c (item, rank, disp, mean, perf) st)"
    using assms f row up unfolding st
    by (auto simp: rated_state_def store_rating_def row_def [symmetric] Let_def sync_user_rating_def publish_def
        rows_update_def synced_def)
  then show ?thesis using up unfolding st by (simp add: store_rating_def row_def [symmetric] Let_def)
qed

lemma store_all_state:
  assumes "rated_state env c (set (map (\<lambda>x. u_id (sel_user (fst x))) xs)) st"
    and "distinct (map (\<lambda>x. u_id (sel_user (fst x))) xs)"
  shows "rated_state env c {} (fold (store_rating env now c) xs st)"
  using assms
proof (induction xs arbitrary: st)
  case (Cons x xs)
  obtain item rank disp mean perf where x: "x = (item, rank, disp, mean, perf)" by (cases x) auto
  have "rated_state env c (set (map (\<lambda>x. u_id (sel_user (fst x))) xs)) (store_rating env now c x st)"
    unfolding x using Cons.prems by (intro store_rating_state [THEN conjunct1]) (auto simp: x)
  then show ?case using Cons by simp
qed simp

lemma find_member: "List.find P xs = Some x \<Longrightarrow> x \<in> set xs \<and> P x"
  by (auto simp: find_Some_iff)

lemma select_entryD:
  assumes "select_entry d c e = Some s"
  shows "\<exists>p. p \<in> set (db_participations d) \<and> pa_id p = en_participation e \<and> pa_contest p = c_id c
     \<and> \<not> pa_is_disqualified p \<and> pa_status p = Part_LIVE \<and> u_id (sel_user s) = pa_user p"
  using assms
  by (auto simp: select_entry_def Let_def dest!: row_get_SomeD find_member split: option.splits if_splits)

definition rated_candidates :: "db \<Rightarrow> contest \<Rightarrow> participation list" where
  "rated_candidates d c = filter (\<lambda>p. pa_contest p = c_id c \<and> \<not> pa_is_disqualified p \<and> pa_status p = Part_LIVE)
     (db_participations d)"

lemma map_filter_member: "s \<in> set (List.map_filter f es) \<longleftrightarrow> (\<exists>e \<in> set es. f e = Some s)"
  by (induction es) (auto simp: List.map_filter_simps split: option.splits)

lemma selected_distinct:
  assumes "distinct (map pa_user (rated_candidates d c))" and "distinct (map en_participation es)"
  shows "distinct (map (\<lambda>s. u_id (sel_user s)) (List.map_filter (select_entry d c) es))"
  using assms(2)
proof (induction es)
  case (Cons e es)
  have "u_id (sel_user s) \<noteq> u_id (sel_user s')"
    if sel: "select_entry d c e = Some s" "e' \<in> set es" "select_entry d c e' = Some s'" for s e' s'
  proof
    assume same: "u_id (sel_user s) = u_id (sel_user s')"
    obtain p where p: "p \<in> set (rated_candidates d c)" "pa_id p = en_participation e" "u_id (sel_user s) = pa_user p"
      using select_entryD [OF sel(1)] by (auto simp: rated_candidates_def)
    obtain q where q: "q \<in> set (rated_candidates d c)" "pa_id q = en_participation e'" "u_id (sel_user s') = pa_user q"
      using select_entryD [OF sel(3)] by (auto simp: rated_candidates_def)
    have "p = q" using assms(1) p(1,3) q(1,3) same by (simp add: distinct_map inj_on_def)
    moreover have "en_participation e' \<in> en_participation ` set es" using sel(2) by simp
    ultimately show False using p(2) q(2) Cons.prems by simp
  qed
  then show ?case using Cons
    by (auto simp: List.map_filter_simps map_filter_member split: option.splits)
qed (simp add: List.map_filter_simps)

lemma map_fst_zip_le: "length xs \<le> length ys \<Longrightarrow> map fst (zip xs ys) = xs"
  by (simp add: map_fst_zip_take)

lemma distinct_zip_users:
  "distinct (map f xs) \<Longrightarrow> distinct (map (\<lambda>x. f (fst x)) (zip xs ys))"
proof -
  assume "distinct (map f xs)"
  moreover have "map (\<lambda>x. f (fst x)) (zip xs ys) = take (min (length xs) (length ys)) (map f xs)"
    by (simp add: map_fst_zip_take take_map flip: map_map [of f fst, unfolded comp_def])
  ultimately show ?thesis by (simp add: distinct_take)
qed

lemma calculate_ratings_new:
  assumes "calculate_ratings env now c force d = Inr (rows, d')" and "force \<or> contest_ratings d c = []"
    and "distinct (map pa_user (rated_candidates d c))" and "distinct (map pa_id (db_participations d))"
  shows "rated_state env c {} (rows, d')"
proof (cases "c_is_rated c")
  case False
  then show ?thesis using assms(1) by (auto simp: calculate_ratings_def rated_state_def)
next
  case True
  then obtain es where es: "get_contest_ranking d c = Inr es"
    using assms(1,2) by (auto simp: calculate_ratings_def split: if_splits)
  define sel where "sel = List.map_filter (select_entry d c) es"
  have "\<exists>f. es = get_ranking f d c" using es by (auto simp: get_contest_ranking_def)
  then have "mset (map en_participation es) =
      mset (map pa_id (filter (\<lambda>p. pa_contest p = c_id c \<and> \<not> pa_is_disqualified p) (db_participations d)))"
    using get_ranking_facts by blast
  then have "distinct (map en_participation es)"
    using assms(4) by (metis distinct_map_filter mset_eq_imp_distinct_iff)
  then have dist: "distinct (map (\<lambda>s. u_id (sel_user s)) sel)"
    unfolding sel_def using assms(3) by (intro selected_distinct)
  show ?thesis
  proof (cases "sel = []")
    case True
    then show ?thesis using assms(1,2) es \<open>c_is_rated c\<close>
      by (auto simp: calculate_ratings_def sel_def rated_state_def split: if_splits)
  next
    case False
    obtain zs d1 where run: "fold (store_rating env now c) (zip sel zs) ([], d1) = (rows, d')"
      using assms(1,2) es \<open>c_is_rated c\<close> False
      by (auto simp: calculate_ratings_def sel_def [symmetric] Let_def split: if_splits)
    have "rated_state env c {} (fold (store_rating env now c) (zip sel zs) ([], d1))"
      by (rule store_all_state) (simp_all add: rated_state_def distinct_zip_users [OF dist])
    then show ?thesis by (simp add: run)
  qed
qed

lemma ratings_persist:
  assumes "filter (\<lambda>x. rt_contest x = c_id c) (db_ratings (snd st)) \<noteq> [] \<or> xs \<noteq> []"
  shows "filter (\<lambda>x. rt_contest x = c_id c) (db_ratings (snd (fold (store_rating env now c) xs st))) \<noteq> []"
  using assms
proof (induction xs arbitrary: st)
  case (Cons x xs)
  obtain item rank disp mean perf where x: "x = (item, rank, disp, mean, perf)" by (cases x) auto
  obtain rows d where st: "st = (rows, d)" by (cases st)
  obtain r d1 where up: "upsert_rating (rating_row env now c item rank disp mean perf 0) d = (r, d1)"
    by (cases "upsert_rating (rating_row env now c item rank disp mean perf 0) d")
  have "filter (\<lambda>x. rt_contest x = c_id c) (db_ratings (snd (store_rating env now c x st))) \<noteq> []"
    using upsert_rating_fields(5) [OF up] up unfolding x st
    by (simp add: store_rating_def Let_def sync_user_rating_def publish_def rating_row_def)
  then show ?case using Cons.IH by simp
qed simp

lemma sort_key_empty: "sort_key f xs = [] \<longleftrightarrow> xs = []"
proof -
  have "length (sort_key f xs) = length xs" by simp
  then show ?thesis by (metis length_0_conv)
qed

lemma contest_ratings_empty_iff: "contest_ratings d c = [] \<longleftrightarrow> filter (\<lambda>x. rt_contest x = c_id c) (db_ratings d) = []"
  by (simp add: contest_ratings_def sort_key_empty)

lemma no_ratings_delete: "contest_ratings d c = [] \<Longrightarrow> delete_contest_ratings c d = d"
proof -
  assume "contest_ratings d c = []"
  then have "\<forall>r \<in> set (db_ratings d). rt_contest r \<noteq> c_id c"
    by (simp add: contest_ratings_empty_iff filter_empty_conv)
  then have "filter (\<lambda>r. rt_contest r \<noteq> c_id c) (db_ratings d) = db_ratings d" by (simp add: filter_id_conv)
  then show ?thesis by (simp add: delete_contest_ratings_def rows_delete_def)
qed

section \<open>A rated contest to look at\<close>

definition sample_rated_contest :: contest where
  "sample_rated_contest = (new_contest 1 ''c'' 0 10)\<lparr>c_is_rated := True, c_rate_all := True\<rparr>"

definition sample_rated_site :: db where
  "sample_rated_site = empty_db\<lparr>db_users := [new_user 7], db_contests := [sample_rated_contest],
     db_participations := [new_participation 1 1 7]\<rparr>"

definition sample_selected :: selected where
  "sample_selected = \<lparr>sel_user = new_user 7, sel_participation = 1, sel_rank_key = (0, 0),
     sel_rating_before = 1200, sel_mean_before = 1500, sel_historical = [], sel_times_ranked = 0\<rparr>"

definition sample_entry :: ranking_entry where
  "sample_entry = \<lparr>en_participation = 1, en_user = 7, en_username = ''user7'', en_score = 0, en_tiebreaker = 0,
     en_cumulative_time = 0, en_format_data = JObj [], en_rank = 1\<rparr>"

lemma sample_rated_ranking:
  "get_contest_ranking sample_rated_site sample_rated_contest
     = Inr [sample_entry]"
  by code_simp

lemma sample_rated_selection:
  "select_entry sample_rated_site sample_rated_contest sample_entry = Some sample_selected"
  by (simp add: select_entry_def sample_entry_def sample_rated_site_def sample_rated_contest_def new_contest_def new_participation_def
      new_user_def row_get_def rating_history_of_def empty_db_def outside_def sample_selected_def rating_init_def mean_init_def)

lemma sample_rated_run:
  "calculate_ratings sample_env 20 sample_rated_contest False sample_rated_site =
     Inr (store_rating sample_env 20 sample_rated_contest
            (sample_selected, 0, displayed_rating 1500 0, 1500, 1500) ([], sample_rated_site))"
proof -
  have "contest_ratings sample_rated_site sample_rated_contest = []"
    by (simp add: contest_ratings_empty_iff sample_rated_site_def empty_db_def)
  moreover have "c_is_rated sample_rated_contest" by (simp add: sample_rated_contest_def)
  ultimately show ?thesis
    by (simp add: calculate_ratings_def sample_rated_ranking sample_rated_selection List.map_filter_simps Let_def
        tie_ranks_def recalculate_def) (simp add: sample_selected_def)
qed

section \<open>Properties\<close>

text \<open>The ranks given to tied contestants: they add up to the sum of the positions, never fall along
  the scoreboard, and two neighbours share a rank exactly when their score and tiebreaker agree.\<close>

theorem tie_ranks_share_positions:
  "length (tie_ranks ks) = length ks
   \<and> sum_list (tie_ranks ks) = of_nat (length ks) * (of_nat (length ks) - 1) / 2
   \<and> sorted (tie_ranks ks) \<and> same_steps ks (tie_ranks ks)"
  using tie_ranks_from_facts [of 0 ks] by (simp add: tie_ranks_def)

text \<open>C19: Rating a contest whose live participants are different users: every new rating lies between
  the configured floor and ceiling, and each rated user carries exactly that rating, with a maximum
  that is not below it.\<close>

theorem ratings_clamped_and_synced:
  assumes "calculate_ratings env now c force d = Inr (rows, d')" and "force \<or> contest_ratings d c = []"
    and "distinct (map pa_user (rated_candidates d c))" and "distinct (map pa_id (db_participations d))"
    and "e_rating_floor env \<le> e_rating_ceiling env" and "r \<in> set rows"
  shows "rt_contest r = c_id c \<and> e_rating_floor env \<le> rt_rating_after r \<and> rt_rating_after r \<le> e_rating_ceiling env
     \<and> (\<forall>u \<in> set (db_users d'). u_id u = rt_user r \<longrightarrow> u_rating u = rt_rating_after r \<and> u_rating u \<le> u_max_rating u)"
proof -
  have st: "rated_state env c {} (rows, d')" by (rule calculate_ratings_new [OF assms(1-4)])
  then obtain x where "rt_rating_after r = clamp_rating env x" using assms(6) by (auto simp: rated_state_def)
  then have "e_rating_floor env \<le> rt_rating_after r \<and> rt_rating_after r \<le> e_rating_ceiling env"
    using clamp_rating_range [OF assms(5), of x] by simp
  moreover have "rt_contest r = c_id c \<and> (\<forall>u \<in> set (db_users d'). synced r u)"
    using st assms(6) by (simp add: rated_state_def)
  ultimately show ?thesis unfolding synced_def by blast
qed

theorem ratings_clamped_and_synced_witness:
  "\<exists>rows d' r. calculate_ratings sample_env 20 sample_rated_contest False sample_rated_site = Inr (rows, d')
     \<and> r \<in> set rows \<and> 0 \<le> rt_rating_after r \<and> rt_rating_after r \<le> 4000"
proof -
  obtain rows d' where run: "store_rating sample_env 20 sample_rated_contest
      (sample_selected, 0, displayed_rating 1500 0, 1500, 1500) ([], sample_rated_site) = (rows, d')" by fastforce
  have calc: "calculate_ratings sample_env 20 sample_rated_contest False sample_rated_site = Inr (rows, d')"
    by (simp add: sample_rated_run run)
  have "fst (store_rating sample_env 20 sample_rated_contest
      (sample_selected, 0, displayed_rating 1500 0, 1500, 1500) ([], sample_rated_site)) \<noteq> []"
    by (rule store_rating_state [where todo = "{}", THEN conjunct2]) (simp_all add: rated_state_def)
  then have "rows \<noteq> []" by (simp add: run)
  then obtain r where r: "r \<in> set rows" using hd_in_set by blast
  have limits: "e_rating_floor sample_env = 0" "e_rating_ceiling sample_env = 4000" by (simp_all add: sample_env_def)
  have "e_rating_floor sample_env \<le> rt_rating_after r \<and> rt_rating_after r \<le> e_rating_ceiling sample_env"
    using ratings_clamped_and_synced [OF calc _ _ _ _ r] limits
    by (simp add: contest_ratings_empty_iff sample_rated_site_def empty_db_def rated_candidates_def)
  then show ?thesis using calc r limits by auto
qed

text \<open>Rating a contest again without \<open>force\<close>, at any later time, changes nothing at all.\<close>

theorem rating_is_idempotent:
  assumes "calculate_ratings env now c False d = Inr (rows, d')"
  shows "\<exists>rows'. calculate_ratings env later c False d' = Inr (rows', d')"
proof (cases "c_is_rated c \<and> contest_ratings d c = []")
  case False
  then show ?thesis using assms by (auto simp: calculate_ratings_def split: if_splits)
next
  case True
  then obtain es where es: "get_contest_ranking d c = Inr es"
    using assms by (auto simp: calculate_ratings_def)
  define sel where "sel = List.map_filter (select_entry d c) es"
  show ?thesis
  proof (cases "sel = []")
    assume empty: "sel = []"
    then have "d' = d" using assms True es no_ratings_delete by (auto simp: calculate_ratings_def sel_def)
    then show ?thesis using True es empty no_ratings_delete by (auto simp: calculate_ratings_def sel_def)
  next
    assume some: "sel \<noteq> []"
    define ranks where "ranks = tie_ranks (map sel_rank_key sel)"
    define elo where "elo = recalculate ranks (map sel_mean_before sel) (map sel_times_ranked sel) (map sel_historical sel) None"
    define xs where "xs = zip sel (zip ranks (zip (el_displayed elo) (zip (el_means elo) (el_performances elo))))"
    have calc: "calculate_ratings env t c False d = Inr (fold (store_rating env t c) xs ([], d))" for t
      using True es some by (simp add: calculate_ratings_def sel_def xs_def elo_def ranks_def Let_def)
    show ?thesis
    proof (cases "xs = []")
      assume none: "xs = []"
      then have "d' = d" using assms calc [of now] by simp
      then show ?thesis using calc [of later] none by simp
    next
      assume "xs \<noteq> []"
      moreover have "fold (store_rating env now c) xs ([], d) = (rows, d')" using assms calc [of now] by simp
      ultimately have "contest_ratings d' c \<noteq> []"
        using ratings_persist [of c "([], d)" xs env now] by (simp add: contest_ratings_empty_iff)
      then show ?thesis using True by (simp add: calculate_ratings_def)
    qed
  qed
qed

theorem rating_is_idempotent_witness:
  "\<exists>rows d' rows'. calculate_ratings sample_env 20 sample_rated_contest False sample_rated_site = Inr (rows, d')
     \<and> calculate_ratings sample_env 50 sample_rated_contest False d' = Inr (rows', d')"
proof -
  obtain rows d' where calc: "calculate_ratings sample_env 20 sample_rated_contest False sample_rated_site = Inr (rows, d')"
    unfolding sample_rated_run by (metis prod.exhaust_sel)
  then show ?thesis using rating_is_idempotent [OF calc, of 50] by blast
qed

end
