(* ===== verification/Core.thy ===== *)
theory Core
  imports Prelude
begin

text \<open>
  The shared utilities under \<open>core/\<close>: \<open>pagination.py\<close>, the rate limiter of \<open>middleware.py\<close>, the slugs
  of \<open>models.py\<close>, the keys of \<open>cache.py\<close> and the checks of \<open>validators.py\<close>. Django's \<open>slugify\<close>, its
  cache and the parser of IP addresses are arguments of the definitions that use them.
\<close>

section \<open>Pagination (\<open>pagination.py\<close>)\<close>

record 'a page =
  pg_count :: int
  pg_page :: int
  pg_page_size :: int
  pg_total_pages :: int
  pg_results :: "'a list"

definition paginate_queryset :: "'a list \<Rightarrow> int \<Rightarrow> int \<Rightarrow> 'a page" where
  "paginate_queryset qs page page_size =
     (let tot = int (length qs);
          total_pages = max 1 ((tot + page_size - 1) div page_size);
          p = min (max page 1) total_pages;
          offset = (p - 1) * page_size
      in \<lparr>pg_count = tot, pg_page = p, pg_page_size = page_size, pg_total_pages = total_pages,
          pg_results = take (nat page_size) (drop (nat offset) qs)\<rparr>)"

section \<open>Cache keys (\<open>cache.py\<close>)\<close>

definition make_key :: "string list \<Rightarrow> string" where
  "make_key parts = ''jl:'' @ join_with '':'' parts"

text \<open>\<open>cached_queryset\<close>: a stored \<open>None\<close> is a miss; \<open>get\<close> and \<open>put\<close> are the cache.\<close>

definition cached_queryset ::
    "('c \<Rightarrow> string \<Rightarrow> 'v option) \<Rightarrow> ('c \<Rightarrow> string \<Rightarrow> 'v \<Rightarrow> nat \<Rightarrow> 'c) \<Rightarrow> string \<Rightarrow> (unit \<Rightarrow> 'v) \<Rightarrow> nat \<Rightarrow> 'c \<Rightarrow> 'v \<times> 'c" where
  "cached_queryset get put key queryset_fn timeout c =
     (case get c key of Some v \<Rightarrow> (v, c) | None \<Rightarrow> (let v = queryset_fn () in (v, put c key v timeout)))"

section \<open>Slugs (\<open>models.py\<close>)\<close>

definition slug_candidate :: "string \<Rightarrow> nat \<Rightarrow> string" where
  "slug_candidate base_slug counter = base_slug @ ''-'' @ show_nat counter"

lemma show_nat_inject [simp]: "show_nat m = show_nat n \<longleftrightarrow> m = n"
  by (metis read_show_nat option.inject)

lemma slug_candidate_inject [simp]: "slug_candidate b m = slug_candidate b n \<longleftrightarrow> m = n"
  by (simp add: slug_candidate_def)

definition open_slugs :: "string \<Rightarrow> string list \<Rightarrow> nat \<Rightarrow> nat set" where
  "open_slugs base_slug taken counter = {n. counter \<le> n \<and> slug_candidate base_slug n \<in> set taken}"

lemma finite_open_slugs: "finite (open_slugs b taken c)"
proof -
  have "open_slugs b taken c \<subseteq> slug_candidate b -` set taken" by (auto simp: open_slugs_def)
  moreover have "finite (slug_candidate b -` set taken)"
    by (rule finite_vimageI) (simp_all add: inj_def)
  ultimately show ?thesis by (rule finite_subset)
qed

lemma open_slugs_step:
  "open_slugs b taken c = (if slug_candidate b c \<in> set taken then insert c (open_slugs b taken (Suc c))
     else open_slugs b taken (Suc c))"
  by (auto simp: open_slugs_def le_Suc_eq Suc_le_eq intro: le_neq_implies_less)

lemma card_open_slugs:
  "card (open_slugs b taken c) =
     (if slug_candidate b c \<in> set taken then Suc (card (open_slugs b taken (Suc c))) else card (open_slugs b taken (Suc c)))"
proof -
  have "c \<notin> open_slugs b taken (Suc c)" by (simp add: open_slugs_def)
  then show ?thesis by (subst open_slugs_step) (simp add: finite_open_slugs)
qed

text \<open>The \<open>while\<close> loop; \<open>taken\<close> is the column of the other rows.\<close>

function slug_loop :: "string \<Rightarrow> string list \<Rightarrow> nat \<Rightarrow> string \<Rightarrow> string" where
  "slug_loop base_slug taken counter slug =
     (if slug \<in> set taken then slug_loop base_slug taken (Suc counter) (slug_candidate base_slug counter) else slug)"
  by pat_completeness auto

termination
  by (relation "measure (\<lambda>(b, taken, counter, slug). card (open_slugs b taken counter) + (if slug \<in> set taken then 1 else 0))")
    (auto simp: card_open_slugs)

declare slug_loop.simps [simp del]

definition save_slug :: "(string \<Rightarrow> string) \<Rightarrow> string \<Rightarrow> string \<Rightarrow> string list \<Rightarrow> string" where
  "save_slug slugify slug source taken =
     (if slug \<noteq> [] then slug
      else let base_slug = take 120 (slugify source) in slug_loop base_slug taken 1 base_slug)"

section \<open>Validators (\<open>validators.py\<close>)\<close>

text \<open>The pattern \<open>^[a-z0-9](?:[a-z0-9-]*[a-z0-9])?$\<close> under \<open>match\<close>: \<open>$\<close> also matches before a final
  newline.\<close>

definition slug_char :: "char \<Rightarrow> bool" where
  "slug_char c = (let n = of_char c :: nat in 97 \<le> n \<and> n \<le> 122 \<or> 48 \<le> n \<and> n \<le> 57)"

definition slug_word :: "string \<Rightarrow> bool" where
  "slug_word s = (s \<noteq> [] \<and> slug_char (hd s) \<and> slug_char (last s) \<and> list_all (\<lambda>c. slug_char c \<or> c = CHR ''-'') s)"

definition newline :: char where
  "newline = CHR 0x0A"

definition slug_matches :: "string \<Rightarrow> bool" where
  "slug_matches s = (slug_word s \<or> s \<noteq> [] \<and> last s = newline \<and> slug_word (butlast s))"

definition validate_slug :: "string \<Rightarrow> unit result" where
  "validate_slug s =
     raise_if (s = []) (DjangoValidationError ''Slug cannot be empty.'')
       (raise_if (length s > 128) (DjangoValidationError ''Slug must be at most 128 characters.'')
          (raise_if (\<not> slug_matches s)
             (DjangoValidationError ''Slug must contain only lowercase letters, numbers, and hyphens, and must start and end with a letter or number.'')
             (Inr ())))"

definition validate_time_limit :: "rat \<Rightarrow> unit result" where
  "validate_time_limit v = raise_if (\<not> (1/10 \<le> v \<and> v \<le> 60)) (DjangoValidationError ''Time limit must be between 0.1 and 60 seconds.'') (Inr ())"

definition validate_memory_limit :: "int \<Rightarrow> unit result" where
  "validate_memory_limit v =
     raise_if (\<not> (1024 \<le> v \<and> v \<le> 1048576)) (DjangoValidationError ''Memory limit must be between 1024 KB and 1048576 KB.'') (Inr ())"

definition allowed_extensions :: "string list" where
  "allowed_extensions = [''.pdf'', ''.png'', ''.jpg'', ''.jpeg'', ''.gif'', ''.svg'', ''.zip'', ''.tar'', ''.gz'', ''.txt'', ''.md'']"

definition extension_of :: "string \<Rightarrow> string" where
  "extension_of filename =
     (if CHR ''.'' \<in> set filename then ''.'' @ lower (last (split_on (CHR ''.'') filename)) else [])"

definition validate_file_extension :: "string \<Rightarrow> string list option \<Rightarrow> unit result" where
  "validate_file_extension filename allowed =
     (let al = (case allowed of None \<Rightarrow> allowed_extensions | Some a \<Rightarrow> a)
      in raise_if (extension_of filename \<notin> set al)
           (DjangoValidationError (''File extension '' @ extension_of filename @ '' is not allowed.'')) (Inr ()))"

text \<open>\<open>isinstance(value, int) and value > 0\<close>; a Python bool is an int.\<close>

definition validate_positive_integer :: "json \<Rightarrow> unit result" where
  "validate_positive_integer v =
     raise_if (\<not> (case v of JInt n \<Rightarrow> n > 0 | JBool b \<Rightarrow> b | _ \<Rightarrow> False))
       (DjangoValidationError ''Expected a positive integer.'') (Inr ())"

section \<open>The rate limiter (\<open>middleware.py\<close>)\<close>

text \<open>\<open>int(s)\<close> on ASCII text: blanks around, a sign, digits with single underscores between them.\<close>

definition py_int :: "string \<Rightarrow> int option" where
  "py_int s =
     (let t = strip s;
          neg = (t \<noteq> [] \<and> hd t = CHR ''-'');
          body = (if t \<noteq> [] \<and> (hd t = CHR ''-'' \<or> hd t = CHR ''+'') then tl t else t);
          groups = split_on (CHR ''_'') body
      in if list_all (\<lambda>g. g \<noteq> []) groups
         then map_option (\<lambda>n. if neg then - int n else int n) (read_nat (concat groups)) else None)"

definition unit_map :: "(string, int) dict" where
  "unit_map = [(''s'', 1), (''sec'', 1), (''secs'', 1), (''second'', 1), (''seconds'', 1),
     (''m'', 60), (''min'', 60), (''mins'', 60), (''minute'', 60), (''minutes'', 60),
     (''h'', 3600), (''hr'', 3600), (''hrs'', 3600), (''hour'', 3600), (''hours'', 3600),
     (''d'', 86400), (''day'', 86400), (''days'', 86400)]"

definition parse_rate_limit_spec :: "string \<Rightarrow> (int \<times> int) result" where
  "parse_rate_limit_spec spec =
     (let raw = strip spec
      in if CHR ''/'' \<notin> set raw then Inl (ValueError (''Invalid rate limit spec: '' @ spec))
         else let count_raw = takeWhile (\<lambda>c. c \<noteq> CHR ''/'') raw;
                  unit_raw = tl (dropWhile (\<lambda>c. c \<noteq> CHR ''/'') raw)
              in case py_int (strip count_raw) of
                   None \<Rightarrow> Inl (ValueError ''invalid literal for int()'')
                 | Some limit \<Rightarrow>
                     (case map_of unit_map (lower (strip unit_raw)) of
                        None \<Rightarrow> Inl (ValueError (''Unsupported rate limit unit: '' @ lower (strip unit_raw)))
                      | Some window \<Rightarrow>
                          raise_if (limit \<le> 0 \<or> window \<le> 0) (ValueError (''Invalid rate limit values: '' @ spec))
                            (Inr (limit, window))))"

text \<open>\<open>canonical\<close> is \<open>str(ipaddress.ip_address(...))\<close>, \<open>None\<close> where it raises.\<close>

record client =
  cl_remote_addr :: string
  cl_forwarded_for :: "string option"

record proxy_settings =
  px_trust_forwarded :: bool
  px_trusted_proxies :: "string list"
  px_canonical :: "string \<Rightarrow> string option"

definition get_client_ip :: "proxy_settings \<Rightarrow> client \<Rightarrow> string" where
  "get_client_ip px r =
     (if \<not> px_trust_forwarded px then cl_remote_addr r
      else if px_trusted_proxies px = [] \<or> cl_remote_addr r \<notin> set (px_trusted_proxies px) then cl_remote_addr r
      else case cl_forwarded_for r of
             None \<Rightarrow> cl_remote_addr r
           | Some f \<Rightarrow>
               if strip f = [] then cl_remote_addr r
               else (case px_canonical px (strip (hd (split_on (CHR '','') f))) of
                       Some ip \<Rightarrow> ip | None \<Rightarrow> cl_remote_addr r))"

text \<open>The cache operations the limiter calls: \<open>add\<close> stores a value for an absent key, \<open>incr\<close> raises
  \<open>ValueError\<close> (\<open>None\<close>) for an absent key, \<open>set\<close> overwrites.\<close>

record 'c counter_cache =
  cc_add :: "string \<Rightarrow> nat \<Rightarrow> int \<Rightarrow> 'c \<Rightarrow> 'c"
  cc_incr :: "string \<Rightarrow> 'c \<Rightarrow> (nat \<times> 'c) option"
  cc_set :: "string \<Rightarrow> nat \<Rightarrow> int \<Rightarrow> 'c \<Rightarrow> 'c"

definition rate_window :: "int \<Rightarrow> time \<Rightarrow> int" where
  "rate_window window_seconds now = now div seconds window_seconds"

definition rate_key :: "string \<Rightarrow> int \<Rightarrow> string" where
  "rate_key ip window = ''ratelimit:'' @ ip @ '':'' @ show_int window"

text \<open>\<open>Inr\<close>: the request goes on; \<open>Inl n\<close>: answered 429 with \<open>Retry-After: n\<close>.\<close>

definition rate_limit ::
    "'c counter_cache \<Rightarrow> int \<Rightarrow> int \<Rightarrow> time \<Rightarrow> string \<Rightarrow> 'c \<Rightarrow> (int + unit) \<times> 'c" where
  "rate_limit cc limit window_seconds now ip c =
     (let window = rate_window window_seconds now; key = rate_key ip window;
          c1 = cc_add cc key 0 window_seconds c;
          (current, c2) = (case cc_incr cc key c1 of Some r \<Rightarrow> r | None \<Rightarrow> (1, cc_set cc key 1 window_seconds c1))
      in if int current \<le> limit then (Inr (), c2)
         else (Inl (max 0 ((seconds ((window + 1) * window_seconds) - now) div 1000000)), c2))"

definition is_api_path :: "string \<Rightarrow> bool" where
  "is_api_path path = (take 5 path = ''/api/'')"

definition rate_limit_middleware ::
    "'c counter_cache \<Rightarrow> proxy_settings \<Rightarrow> int \<Rightarrow> int \<Rightarrow> time \<Rightarrow> string \<Rightarrow> client \<Rightarrow> 'c \<Rightarrow> (int + unit) \<times> 'c" where
  "rate_limit_middleware cc px limit window_seconds now path r c =
     (if \<not> is_api_path path then (Inr (), c) else rate_limit cc limit window_seconds now (get_client_ip px r) c)"

section \<open>Text and numbers\<close>

lemma strip_no_space: "list_all (\<lambda>c. \<not> is_space c) s \<Longrightarrow> strip s = s"
proof -
  assume "list_all (\<lambda>c. \<not> is_space c) s"
  then have "\<forall>c \<in> set s. \<not> is_space c" by (simp add: list_all_iff)
  then have "dropWhile is_space s = s" "dropWhile is_space (rev s) = rev s"
    by (auto simp: dropWhile_eq_self_iff hd_rev)
  then show ?thesis by (simp add: strip_def rstrip_def)
qed

lemma strip_strip [simp]: "strip (strip s) = strip s"
proof (cases "strip s")
  case Nil
  then show ?thesis by (simp only:) (simp add: strip_def rstrip_def)
next
  case (Cons a w)
  have "\<not> is_space (last (strip s))"
  proof -
    define r where "r = dropWhile is_space (rev (dropWhile is_space s))"
    have r: "strip s = rev r" "r \<noteq> []" using Cons by (auto simp: strip_def rstrip_def r_def)
    have "\<not> is_space (hd r)"
      using r(2) hd_dropWhile [of is_space "rev (dropWhile is_space s)"] by (simp only: r_def) simp
    then show ?thesis using r by (simp add: last_rev)
  qed
  moreover have "\<not> is_space (hd (strip s))"
  proof -
    define t where "t = dropWhile is_space s"
    obtain z where z: "t = strip s @ z"
      unfolding strip_def rstrip_def t_def by (metis rev_append rev_rev_ident takeWhile_dropWhile_id)
    then have "t \<noteq> []" "hd t = hd (strip s)" using Cons by auto
    then show ?thesis using hd_dropWhile [of is_space s] by (auto simp: t_def)
  qed
  ultimately have "dropWhile is_space (strip s) = strip s" "dropWhile is_space (rev (strip s)) = rev (strip s)"
    using Cons by (simp_all add: dropWhile_eq_self_iff hd_rev del: rev.simps)
  then show ?thesis by (simp add: strip_def [of "strip s"] rstrip_def [of "strip s"])
qed

lemma digit_facts: "is_digit c \<Longrightarrow> \<not> is_space c \<and> c \<noteq> CHR ''-'' \<and> c \<noteq> CHR ''+'' \<and> c \<noteq> CHR ''_''"
  by (auto simp: is_digit_def is_space_def Let_def)

text \<open>Reading digits, with any number of zeros before them.\<close>

lemma py_int_digits:
  assumes "s \<noteq> []" and "\<forall>c \<in> set s. is_digit c"
  shows "py_int s = map_option int (read_nat s)"
proof -
  have "strip s = s" using assms(2) by (intro strip_no_space) (simp add: list_all_iff digit_facts)
  moreover have "is_digit (hd s)" using assms by simp
  moreover have "split_on (CHR ''_'') s = [s]" using assms(2) digit_facts by (intro split_on_no_sep) blast
  ultimately show ?thesis using assms(1) by (auto simp: py_int_def Let_def option.map_ident_strong dest!: digit_facts intro!: map_option_cong)
qed

lemma py_int_show_nat [simp]: "py_int (show_nat n) = Some (int n)"
  using py_int_digits [of "show_nat n"] show_nat_digits [of n] by (simp add: list_all_iff)

section \<open>Pages put together\<close>

lemma concat_pages:
  assumes "0 < k"
  shows "concat (map (\<lambda>p. take k (drop (p * k) qs)) [0..<n]) = take (n * k) qs"
proof (induction n)
  case (Suc n)
  have "take (Suc n * k) qs = take (n * k) qs @ take k (drop (n * k) qs)"
    by (metis add.commute mult_Suc take_add)
  then show ?case using Suc by simp
qed simp

lemma page_in_range:
  assumes "0 < sz" and "p < nat (max 1 ((int (length qs) + sz - 1) div sz))"
  shows "pg_results (paginate_queryset qs (int p + 1) sz) = take (nat sz) (drop (p * nat sz) qs)"
proof -
  let ?t = "max 1 ((int (length qs) + sz - 1) div sz)"
  have "int p + 1 \<le> ?t" using assms(2) by linarith
  then have "min (max (int p + 1) 1) ?t = int p + 1" by linarith
  moreover have "nat (int p * sz) = p * nat sz" using assms(1) by (simp add: nat_mult_distrib)
  ultimately show ?thesis by (simp add: paginate_queryset_def Let_def)
qed

lemma pages_reach_end:
  assumes "0 < sz"
  shows "length qs \<le> nat (max 1 ((int (length qs) + sz - 1) div sz)) * nat sz"
proof -
  let ?n = "int (length qs)"
  have "(?n + sz - 1) mod sz < sz" using assms by simp
  then have "?n \<le> (?n + sz - 1) div sz * sz"
    using div_mult_mod_eq [of "?n + sz - 1" sz] by linarith
  moreover define m where "m = max 1 ((?n + sz - 1) div sz)"
  moreover have "(?n + sz - 1) div sz * sz \<le> m * sz" unfolding m_def using assms by (intro mult_right_mono) auto
  ultimately have "?n \<le> m * sz" "0 \<le> m" by linarith+
  then have "?n \<le> int (nat m * nat sz)" using assms by simp
  then show ?thesis unfolding m_def by linarith
qed

section \<open>The slug loop finds a free slug\<close>

lemma slug_loop_cases:
  "slug_loop b taken c s \<notin> set taken
   \<and> (slug_loop b taken c s = s \<or> (\<exists>n \<ge> c. slug_loop b taken c s = slug_candidate b n
         \<and> s \<in> set taken \<and> (\<forall>m. c \<le> m \<and> m < n \<longrightarrow> slug_candidate b m \<in> set taken)))"
proof (induction b taken c s rule: slug_loop.induct)
  case (1 b taken c s)
  show ?case
  proof (cases "s \<in> set taken")
    case False
    then show ?thesis by (simp add: slug_loop.simps [of b taken c s])
  next
    case True
    let ?r = "slug_loop b taken (Suc c) (slug_candidate b c)"
    have eq: "slug_loop b taken c s = ?r" using True by (simp add: slug_loop.simps [of b taken c s])
    from 1 [OF True] consider "?r = slug_candidate b c" "?r \<notin> set taken"
      | n where "Suc c \<le> n" "?r = slug_candidate b n" "?r \<notin> set taken" "slug_candidate b c \<in> set taken"
          "\<forall>m. Suc c \<le> m \<and> m < n \<longrightarrow> slug_candidate b m \<in> set taken" by blast
    then show ?thesis
    proof cases
      case 1
      then show ?thesis using True eq by auto
    next
      case 2
      then have "\<forall>m. c \<le> m \<and> m < n \<longrightarrow> slug_candidate b m \<in> set taken"
        by (metis Suc_leI le_neq_implies_less)
      then show ?thesis using 2 True eq by (metis Suc_leD)
    qed
  qed
qed

lemma slug_counter_bound:
  assumes "\<forall>m. 1 \<le> m \<and> m < n \<longrightarrow> slug_candidate b m \<in> set taken" and "b \<in> set taken"
  shows "n \<le> length taken"
proof -
  have "b \<noteq> slug_candidate b m" for m by (simp add: slug_candidate_def)
  then have "b \<notin> slug_candidate b ` {1..<n}" by blast
  moreover have "inj_on (slug_candidate b) {1..<n}" by (simp add: inj_on_def)
  then have "card (slug_candidate b ` {1..<n}) = n - 1" by (simp add: card_image)
  moreover have "insert b (slug_candidate b ` {1..<n}) \<subseteq> set taken" using assms by auto
  then have "card (insert b (slug_candidate b ` {1..<n})) \<le> card (set taken)" by (intro card_mono) auto
  ultimately show ?thesis using card_length [of taken] by simp
qed

section \<open>Counting requests\<close>

text \<open>What the limiter relies on of the cache: \<open>val\<close> is the stored counter, if any; an entry created in
  a window stays for the rest of it (its timeout is the length of the window).\<close>

definition counter_laws :: "'c counter_cache \<Rightarrow> ('c \<Rightarrow> string \<Rightarrow> nat option) \<Rightarrow> bool" where
  "counter_laws cc val \<longleftrightarrow>
     (\<forall>k v t c. val (cc_add cc k v t c) k = (case val c k of None \<Rightarrow> Some v | Some n \<Rightarrow> Some n))
   \<and> (\<forall>k c. case val c k of None \<Rightarrow> cc_incr cc k c = None
            | Some n \<Rightarrow> (\<exists>c'. cc_incr cc k c = Some (Suc n, c') \<and> val c' k = Some (Suc n)))"

fun serve :: "'c counter_cache \<Rightarrow> int \<Rightarrow> int \<Rightarrow> string \<Rightarrow> time list \<Rightarrow> 'c \<Rightarrow> (int + unit) list" where
  "serve cc limit w ip [] c = []"
| "serve cc limit w ip (t # ts) c = (case rate_limit cc limit w t ip c of (r, c') \<Rightarrow> r # serve cc limit w ip ts c')"

definition passed :: "(int + unit) list \<Rightarrow> nat" where
  "passed rs = length (filter (\<lambda>r. \<not> isl r) rs)"

lemma rate_limit_counts:
  assumes "counter_laws cc val"
    and n_def: "n = (case val c (rate_key ip (rate_window w t)) of None \<Rightarrow> 0 | Some n \<Rightarrow> n)"
  shows "\<exists>r c'. rate_limit cc limit w t ip c = (r, c') \<and> (\<not> isl r \<longleftrightarrow> int (Suc n) \<le> limit)
     \<and> val c' (rate_key ip (rate_window w t)) = Some (Suc n)"
proof -
  let ?k = "rate_key ip (rate_window w t)"
  let ?c1 = "cc_add cc ?k 0 w c"
  have "val ?c1 ?k = (case val c ?k of None \<Rightarrow> Some 0 | Some m \<Rightarrow> Some m)"
    using assms(1) unfolding counter_laws_def by blast
  then have v: "val ?c1 ?k = Some n" by (auto simp: n_def split: option.splits)
  have "case val ?c1 ?k of None \<Rightarrow> cc_incr cc ?k ?c1 = None
     | Some m \<Rightarrow> (\<exists>c'. cc_incr cc ?k ?c1 = Some (Suc m, c') \<and> val c' ?k = Some (Suc m))"
    using assms(1) unfolding counter_laws_def by blast
  then obtain c' where "cc_incr cc ?k ?c1 = Some (Suc n, c')" "val c' ?k = Some (Suc n)" using v by auto
  then show ?thesis by (auto simp: rate_limit_def Let_def)
qed

lemma serve_counts:
  assumes "counter_laws cc val" and "\<forall>t \<in> set ts. rate_window w t = win" and "0 \<le> limit"
  shows "passed (serve cc limit w ip ts c) =
     min (length ts) (nat limit - (case val c (rate_key ip win) of None \<Rightarrow> 0 | Some n \<Rightarrow> n))"
  using assms(2)
proof (induction ts arbitrary: c)
  case (Cons t ts)
  define n where "n = (case val c (rate_key ip win) of None \<Rightarrow> 0 | Some n \<Rightarrow> n)"
  obtain r c' where r: "rate_limit cc limit w t ip c = (r, c')" "\<not> isl r \<longleftrightarrow> int (Suc n) \<le> limit"
    "val c' (rate_key ip win) = Some (Suc n)"
    using rate_limit_counts [OF assms(1), of n c ip w t limit] Cons.prems by (auto simp: n_def)
  have "passed (serve cc limit w ip ts c') = min (length ts) (nat limit - Suc n)"
    using Cons r(3) by simp
  moreover have "passed (serve cc limit w ip (t # ts) c) =
      (if int (Suc n) \<le> limit then 1 else 0) + passed (serve cc limit w ip ts c')"
    using r by (simp add: passed_def)
  moreover have "(if int (Suc n) \<le> limit then 1 else 0) + min (length ts) (nat limit - Suc n)
      = min (length (t # ts)) (nat limit - n)"
    by (auto simp: min_def)
  ultimately show ?case by (simp add: n_def)
qed (simp add: passed_def)

section \<open>Properties\<close>

text \<open>The pages of a list, one after the other, are the list: no item is lost and none appears twice,
  and the number of pages is the one every page reports.\<close>

theorem pages_cover:
  assumes "0 < sz"
  shows "concat (map (\<lambda>p. pg_results (paginate_queryset qs (int p + 1) sz))
           [0..<nat (pg_total_pages (paginate_queryset qs page sz))]) = qs"
proof -
  let ?n = "nat (max 1 ((int (length qs) + sz - 1) div sz))"
  have "map (\<lambda>p. pg_results (paginate_queryset qs (int p + 1) sz)) [0..<?n]
      = map (\<lambda>p. take (nat sz) (drop (p * nat sz) qs)) [0..<?n]"
    using page_in_range [OF assms, of _ qs] by (intro map_cong) auto
  moreover have "pg_total_pages (paginate_queryset qs page sz) = max 1 ((int (length qs) + sz - 1) div sz)"
    by (simp add: paginate_queryset_def Let_def)
  ultimately show ?thesis
    using assms pages_reach_end [OF assms, of qs] by (simp only: concat_pages) simp
qed

theorem pages_cover_witness:
  "concat (map (\<lambda>p. pg_results (paginate_queryset [1, 2, 3 :: nat] (int p + 1) 2))
     [0..<nat (pg_total_pages (paginate_queryset [1, 2, 3 :: nat] 7 2))]) = [1, 2, 3]"
  by (rule pages_cover) simp

text \<open>C17: Saving a row without a slug gives it the source text cut to 120 characters where no other row
  has that slug; otherwise that text with the first number from 1 on that makes it free, which is at
  most the number of the other rows. A row that has a slug keeps it.\<close>

theorem saved_slug_is_free:
  "save_slug slugify (c # cs) source taken = c # cs
   \<and> (let base_slug = take 120 (slugify source); r = save_slug slugify [] source taken
      in if base_slug \<notin> set taken then r = base_slug
         else \<exists>n. 1 \<le> n \<and> n \<le> length taken \<and> r = slug_candidate base_slug n \<and> r \<notin> set taken
               \<and> slug_candidate base_slug ` {1..<n} \<subseteq> set taken)"
proof -
  let ?b = "take 120 (slugify source)"
  have eq: "save_slug slugify [] source taken = slug_loop ?b taken 1 ?b" by (simp add: save_slug_def Let_def)
  have "slug_loop ?b taken 1 ?b = ?b" if "?b \<notin> set taken" using that by (simp add: slug_loop.simps)
  moreover have "\<exists>n. 1 \<le> n \<and> n \<le> length taken \<and> slug_loop ?b taken 1 ?b = slug_candidate ?b n
      \<and> slug_loop ?b taken 1 ?b \<notin> set taken \<and> slug_candidate ?b ` {1..<n} \<subseteq> set taken" if "?b \<in> set taken"
  proof -
    from slug_loop_cases [of ?b taken 1 ?b] that obtain n where n: "1 \<le> n" "slug_loop ?b taken 1 ?b = slug_candidate ?b n"
      "slug_loop ?b taken 1 ?b \<notin> set taken" "\<forall>m. 1 \<le> m \<and> m < n \<longrightarrow> slug_candidate ?b m \<in> set taken" by metis
    then show ?thesis using slug_counter_bound [OF n(4) that] by (intro exI [of _ n]) auto
  qed
  ultimately show ?thesis by (simp add: eq Let_def save_slug_def [of _ "_ # _"] del: One_nat_def)
qed

text \<open>Of any number of requests one address sends within one window of the rate limiter exactly the
  first \<open>limit\<close> pass, if the cache keeps its counter for the window.\<close>

theorem window_limit_exact:
  assumes "counter_laws cc val" and "\<forall>t \<in> set ts. rate_window w t = win" and "0 \<le> limit"
    and "val c (rate_key ip win) = None"
  shows "passed (serve cc limit w ip ts c) = min (length ts) (nat limit)"
  using serve_counts [OF assms(1,2,3), of ip c] assms(4) by simp

definition list_cache :: "(string \<times> nat) list counter_cache" where
  "list_cache = \<lparr>cc_add = (\<lambda>k v t c. case map_of c k of None \<Rightarrow> (k, v) # c | Some _ \<Rightarrow> c),
     cc_incr = (\<lambda>k c. map_option (\<lambda>n. (Suc n, (k, Suc n) # c)) (map_of c k)),
     cc_set = (\<lambda>k v t c. (k, v) # c)\<rparr>"

theorem window_limit_exact_witness:
  "passed (serve list_cache 2 60 ''10.0.0.1'' [seconds 1, seconds 2, seconds 59] []) = 2"
proof -
  have "passed (serve list_cache 2 60 ''10.0.0.1'' [seconds 1, seconds 2, seconds 59] []) = min (length [seconds 1, seconds 2, seconds 59]) (nat 2)"
    by (rule window_limit_exact [where val = map_of and win = 0])
      (auto simp: counter_laws_def list_cache_def rate_window_def seconds_def split: option.splits)
  then show ?thesis by simp
qed

text \<open>The slug check accepts a slug with a newline at its end.\<close>

theorem newline_slug_accepted: "validate_slug (''abc'' @ [newline]) = Inr ()"
  by code_simp

end
