(* ===== verification/Contests.thy ===== *)
theory Contests
  imports Submissions Ratings Core
begin

text \<open>
  The operations of \<open>apps/contests\<close>: \<open>contest_service.py\<close> (creating and changing contests, joining,
  virtual participation, submitting, disqualification), \<open>contest_lifecycle_service.py\<close> (start, end,
  the periodic tick) and the endpoints of \<open>contests/api/router.py\<close>. The slug of a contest and the
  lengths of its columns are left out. Cache invalidation, which is all that \<open>contests/signals.py\<close>
  does, has no effect on the tables.
\<close>

section \<open>Creating and changing contests\<close>

fun visibility_of_code :: "string \<Rightarrow> contest_visibility" where
  "visibility_of_code s =
     (if s = ''private'' then Con_PRIVATE else if s = ''organization'' then Con_ORGANIZATION
      else if s = ''public'' then Con_PUBLIC else Con_OTHER s)"

text \<open>\<open>ContestCreateIn\<close>, the fields \<open>create_contest\<close> gets.\<close>

record contest_in =
  cin_name :: string
  cin_key :: string
  cin_description :: string
  cin_start_time :: time
  cin_end_time :: time
  cin_visibility :: string
  cin_is_rated :: bool
  cin_time_limit :: "time option"
  cin_format_name :: string
  cin_format_config :: "(string, json) dict"

definition schedule_error :: error where
  "schedule_error = ContestError ''Contest end time must be after start time.''"

definition contest_row :: "contest_in \<Rightarrow> nat \<Rightarrow> nat \<Rightarrow> contest" where
  "contest_row x organizer i =
     (new_contest i (cin_key x) (cin_start_time x) (cin_end_time x))
       \<lparr>c_name := cin_name x, c_description := cin_description x,
        c_visibility := visibility_of_code (cin_visibility x), c_is_rated := cin_is_rated x,
        c_time_limit := cin_time_limit x, c_format_name := cin_format_name x,
        c_format_config := cin_format_config x, c_organizers := [organizer]\<rparr>"

definition create_contest :: "contest_in \<Rightarrow> nat \<Rightarrow> db \<Rightarrow> (contest \<times> db) result" where
  "create_contest x organizer d =
     raise_if (cin_end_time x \<le> cin_start_time x) schedule_error
       (raise_if (list_ex (\<lambda>c. c_key c = cin_key x) (db_contests d)) (IntegrityError ''contests_contest.key'')
          (let c = contest_row x organizer (fresh_key c_id (db_contests d))
           in Inr (c, d\<lparr>db_contests := db_contests d @ [c]\<rparr>)))"

text \<open>One item of the keyword arguments of \<open>update_contest\<close>.\<close>

datatype contest_field =
    Set_name string
  | Set_description string
  | Set_start_time time
  | Set_end_time time
  | Set_visibility string
  | Set_is_rated bool
  | Set_format_name string
  | Set_format_config "(string, json) dict"
  | Set_access_code string

fun set_field :: "contest_field \<Rightarrow> contest \<Rightarrow> contest" where
  "set_field (Set_name s) c = c\<lparr>c_name := s\<rparr>"
| "set_field (Set_description s) c = c\<lparr>c_description := s\<rparr>"
| "set_field (Set_start_time t) c = c\<lparr>c_start_time := t\<rparr>"
| "set_field (Set_end_time t) c = c\<lparr>c_end_time := t\<rparr>"
| "set_field (Set_visibility s) c = c\<lparr>c_visibility := visibility_of_code s\<rparr>"
| "set_field (Set_is_rated b) c = c\<lparr>c_is_rated := b\<rparr>"
| "set_field (Set_format_name s) c = c\<lparr>c_format_name := s\<rparr>"
| "set_field (Set_format_config f) c = c\<lparr>c_format_config := f\<rparr>"
| "set_field (Set_access_code s) c = c\<lparr>c_access_code := Some s\<rparr>"

text \<open>\<open>kwargs.get("start_time", contest.start_time)\<close> and the same for the end. The keyword arguments are
  the list of the items the caller gave; where a field is repeated the last one counts.\<close>

definition get_start :: "contest_field list \<Rightarrow> time \<Rightarrow> time" where
  "get_start fs t = fold (\<lambda>f acc. case f of Set_start_time s \<Rightarrow> s | _ \<Rightarrow> acc) fs t"

definition get_end :: "contest_field list \<Rightarrow> time \<Rightarrow> time" where
  "get_end fs t = fold (\<lambda>f acc. case f of Set_end_time s \<Rightarrow> s | _ \<Rightarrow> acc) fs t"

definition update_contest :: "contest \<Rightarrow> contest_field list \<Rightarrow> db \<Rightarrow> (contest \<times> db) result" where
  "update_contest c fs d =
     raise_if (get_end fs (c_end_time c) \<le> get_start fs (c_start_time c)) schedule_error
       (let c' = fold set_field fs c in Inr (c', d\<lparr>db_contests := row_put c_id c' (db_contests d)\<rparr>))"

text \<open>\<open>ContestProblemIn\<close>\<close>

record contest_problem_in =
  pin_problem_id :: nat
  pin_label :: string
  pin_points :: rat
  pin_order :: "int option"
  pin_partial_score :: bool
  pin_output_prefix_override :: "int option"
  pin_max_submissions :: "nat option"

definition contest_problem_count :: "contest \<Rightarrow> db \<Rightarrow> int" where
  "contest_problem_count c d = int (length (filter (\<lambda>cp. cp_contest cp = c_id c) (db_contest_problems d)))"

text \<open>\<open>objects.create\<close> under the two uniqueness constraints of the table.\<close>

definition add_problem ::
    "contest \<Rightarrow> problem \<Rightarrow> string \<Rightarrow> rat \<Rightarrow> int option \<Rightarrow> bool \<Rightarrow> int option \<Rightarrow> nat option \<Rightarrow> db \<Rightarrow> (contest_problem \<times> db) result" where
  "add_problem c p label points order partial prefix max_subs d =
     raise_if (list_ex (\<lambda>cp. cp_contest cp = c_id c \<and> (cp_problem cp = p_id p \<or> cp_label cp = label)) (db_contest_problems d))
       (IntegrityError ''contests_contest_problem'')
       (let cp = \<lparr>cp_id = fresh_key cp_id (db_contest_problems d), cp_contest = c_id c, cp_problem = p_id p,
                  cp_order = (case order of Some n \<Rightarrow> n | None \<Rightarrow> contest_problem_count c d + 1),
                  cp_label = label, cp_points = points, cp_partial_score = partial,
                  cp_output_prefix_override = prefix, cp_max_submissions = max_subs\<rparr>
        in Inr (cp, d\<lparr>db_contest_problems := db_contest_problems d @ [cp]\<rparr>))"

definition remove_problem :: "contest \<Rightarrow> problem \<Rightarrow> db \<Rightarrow> db" where
  "remove_problem c p d = d\<lparr>db_contest_problems :=
     rows_delete (\<lambda>cp. cp_contest cp = c_id c \<and> cp_problem cp = p_id p) (db_contest_problems d)\<rparr>"

fun set_orders :: "nat \<Rightarrow> int \<Rightarrow> string list \<Rightarrow> contest_problem list \<Rightarrow> contest_problem list" where
  "set_orders cid i [] rows = rows"
| "set_orders cid i (l # ls) rows =
     set_orders cid (i + 1) ls (rows_update (\<lambda>cp. cp_contest cp = cid \<and> cp_label cp = l) (\<lambda>cp. cp\<lparr>cp_order := i\<rparr>) rows)"

definition labels_of :: "contest \<Rightarrow> db \<Rightarrow> string list" where
  "labels_of c d = map cp_label (filter (\<lambda>cp. cp_contest cp = c_id c) (db_contest_problems d))"

definition reorder_problems :: "contest \<Rightarrow> string list \<Rightarrow> db \<Rightarrow> db result" where
  "reorder_problems c label_order d =
     raise_if (set (labels_of c d) \<noteq> set label_order) (ContestError ''Label set mismatch for reorder operation.'')
       (Inr (d\<lparr>db_contest_problems := set_orders (c_id c) 1 label_order (db_contest_problems d)\<rparr>))"

section \<open>Taking part\<close>

definition insert_participation :: "participation \<Rightarrow> db \<Rightarrow> participation \<times> db" where
  "insert_participation p d =
     (let p' = p\<lparr>pa_id := fresh_key pa_id (db_participations d)\<rparr>
      in (p', d\<lparr>db_participations := db_participations d @ [p']\<rparr>))"

definition joined_event :: "contest \<Rightarrow> user \<Rightarrow> participation \<Rightarrow> event" where
  "joined_event c u p = \<lparr>ev_type = ''contest.participation.joined'',
     ev_payload = [(''contest_id'', JInt (int (c_id c))), (''user_id'', JInt (int (u_id u))),
                   (''participation_id'', JInt (int (pa_id p)))],
     ev_group = None\<rparr>"

definition live_entries :: "contest \<Rightarrow> user \<Rightarrow> db \<Rightarrow> participation list" where
  "live_entries c u d = filter (\<lambda>p. pa_contest p = c_id c \<and> pa_user p = u_id u \<and> pa_status p = Part_LIVE
     \<and> pa_virtual_start p = None) (db_participations d)"

definition not_allowed_to_join :: error where
  "not_allowed_to_join = ContestAccessDeniedError ''You are not allowed to join this contest.''"

definition join_contest :: "time \<Rightarrow> contest \<Rightarrow> user \<Rightarrow> string option \<Rightarrow> db \<Rightarrow> (participation \<times> db) result" where
  "join_contest now c u code d =
     raise_if (\<not> can_join_contest now (Some u) d c code False) not_allowed_to_join
       (case live_entries c u d of
          [] \<Rightarrow> (case insert_participation (new_participation 0 (c_id c) (u_id u)) d of
                   (p, d') \<Rightarrow> Inr (p, publish (joined_event c u p) d'))
        | [p] \<Rightarrow> Inr (p, d)
        | _ \<Rightarrow> Inl (MultipleObjectsReturned ''ContestParticipation''))"

definition start_virtual :: "time \<Rightarrow> contest \<Rightarrow> user \<Rightarrow> string option \<Rightarrow> db \<Rightarrow> (participation \<times> db) result" where
  "start_virtual now c u code d =
     raise_if (effective_time_limit c = None) (ContestError ''Virtual participation requires contest.time_limit.'')
       (raise_if (\<not> can_join_contest now (Some u) d c code True)
          (ContestAccessDeniedError ''You are not allowed to enter this contest.'')
          (case first (sort_key pa_id (filter (\<lambda>p. pa_contest p = c_id c \<and> pa_user p = u_id u \<and> pa_status p = Part_VIRTUAL)
                         (db_participations d))) of
             Some p \<Rightarrow> Inr (p, d)
           | None \<Rightarrow> Inr (insert_participation
                 ((new_participation 0 (c_id c) (u_id u))\<lparr>pa_status := Part_VIRTUAL, pa_virtual_start := Some now\<rparr>) d)))"

text \<open>The participation \<open>submit_to_contest\<close> picks: the first in the default order of the table.\<close>

definition active_entry :: "contest \<Rightarrow> user \<Rightarrow> db \<Rightarrow> participation option" where
  "active_entry c u d =
     first (sort_key (\<lambda>p. (- pa_score p, pa_cumulative_time p, pa_id p))
       (filter (\<lambda>p. pa_contest p = c_id c \<and> pa_user p = u_id u \<and> \<not> pa_is_disqualified p
                  \<and> (pa_status p = Part_LIVE \<or> pa_status p = Part_VIRTUAL)) (db_participations d)))"

definition find_contest_problem :: "contest \<Rightarrow> string \<Rightarrow> db \<Rightarrow> (contest_problem \<times> problem) option" where
  "find_contest_problem c code d =
     first (List.map_filter (\<lambda>cp. case row_get p_id (cp_problem cp) (db_problems d) of
                None \<Rightarrow> None | Some p \<Rightarrow> if p_code p = code then Some (cp, p) else None)
        (sort_key cp_order (filter (\<lambda>cp. cp_contest cp = c_id c) (db_contest_problems d))))"

definition used_submissions :: "participation \<Rightarrow> problem \<Rightarrow> db \<Rightarrow> nat" where
  "used_submissions pa p d =
     length (filter (\<lambda>s. s_contest_participation s = Some (pa_id pa) \<and> s_problem s = p_id p) (db_submissions d))"

definition submit_to_contest ::
    "env \<Rightarrow> time \<Rightarrow> user \<Rightarrow> contest \<Rightarrow> string \<Rightarrow> language \<Rightarrow> string \<Rightarrow> db \<Rightarrow> (submission \<times> db) result" where
  "submit_to_contest env now u c code l source d =
     (case active_entry c u d of
        None \<Rightarrow> Inl (ContestAccessDeniedError ''Join the contest before submitting.'')
      | Some pa \<Rightarrow>
          raise_if (pa_status pa = Part_LIVE \<and> \<not> is_active now c) (ContestError ''Contest is not active.'')
          (raise_if (pa_status pa = Part_VIRTUAL \<and> participation_time_remaining now c pa \<le> 0)
             (ContestError ''Virtual participation time has expired.'')
           (case find_contest_problem c code d of
              None \<Rightarrow> Inl (ContestError ''Problem is not part of this contest.'')
            | Some (cp, p) \<Rightarrow>
                raise_if (case cp_max_submissions cp of None \<Rightarrow> False | Some n \<Rightarrow> used_submissions pa p d \<ge> n)
                  (ContestError ''Submission limit reached for this problem.'')
                  (create_submission env now u p l source (Some pa) Mode_SUBMIT [] [] d))))"

definition set_disqualified :: "bool \<Rightarrow> contest \<Rightarrow> user \<Rightarrow> db \<Rightarrow> db" where
  "set_disqualified b c u d = d\<lparr>db_participations :=
     rows_update (\<lambda>p. pa_contest p = c_id c \<and> pa_user p = u_id u) (\<lambda>p. p\<lparr>pa_is_disqualified := b\<rparr>) (db_participations d)\<rparr>"

definition disqualify_user :: "contest \<Rightarrow> user \<Rightarrow> db \<Rightarrow> db" where
  "disqualify_user = set_disqualified True"

definition undisqualify_user :: "contest \<Rightarrow> user \<Rightarrow> db \<Rightarrow> db" where
  "undisqualify_user = set_disqualified False"

section \<open>The life of a contest (\<open>contest_lifecycle_service.py\<close>)\<close>

definition contest_event :: "string \<Rightarrow> contest \<Rightarrow> event" where
  "contest_event ty c = \<lparr>ev_type = ty,
     ev_payload = [(''contest_id'', JInt (int (c_id c))), (''contest_key'', JStr (c_key c))], ev_group = None\<rparr>"

definition recalculate_rankings :: "env \<Rightarrow> nat \<Rightarrow> db \<Rightarrow> db result" where
  "recalculate_rankings env i d =
     (case get_contest i d of
        None \<Rightarrow> Inr d
      | Some c \<Rightarrow> andThen (recalculate_contest env c d) (\<lambda>d'. Inr (publish (contest_event ''contest.ranking.updated'' c) d')))"

definition start_contest :: "time \<Rightarrow> nat \<Rightarrow> db \<Rightarrow> db" where
  "start_contest now i d =
     (case get_contest i d of
        None \<Rightarrow> d
      | Some c \<Rightarrow>
          if c_started_at c \<noteq> None then d
          else publish (contest_event ''contest.started'' c)
                 (d\<lparr>db_contests := rows_update (\<lambda>x. c_id x = i) (\<lambda>x. x\<lparr>c_started_at := Some now\<rparr>) (db_contests d)\<rparr>))"

definition end_contest :: "env \<Rightarrow> time \<Rightarrow> nat \<Rightarrow> db \<Rightarrow> db result" where
  "end_contest env now i d =
     (case get_contest i d of
        None \<Rightarrow> Inr d
      | Some c \<Rightarrow>
          if c_ended_at c \<noteq> None then Inr d
          else andThen (recalculate_contest env c d) (\<lambda>d1.
               andThen (if c_is_rated c then andThen (calculate_ratings env now c False d1) (\<lambda>(_, x). Inr x) else Inr d1) (\<lambda>d2.
                 Inr (publish (contest_event ''contest.ended'' c)
                   (d2\<lparr>db_contests := rows_update (\<lambda>x. c_id x = i) (\<lambda>x. x\<lparr>c_ended_at := Some now\<rparr>) (db_contests d2)\<rparr>)))))"

definition due_to_start :: "time \<Rightarrow> db \<Rightarrow> nat list" where
  "due_to_start now d = map c_id (sort_key (\<lambda>c. - c_start_time c)
     (filter (\<lambda>c. c_started_at c = None \<and> c_start_time c \<le> now) (db_contests d)))"

definition due_to_end :: "time \<Rightarrow> db \<Rightarrow> nat list" where
  "due_to_end now d = map c_id (sort_key (\<lambda>c. - c_start_time c)
     (filter (\<lambda>c. c_ended_at c = None \<and> c_end_time c \<le> now) (db_contests d)))"

text \<open>One pass of the second loop: an exception is logged and the contest left for the next tick.\<close>

definition tick_end :: "env \<Rightarrow> time \<Rightarrow> nat \<Rightarrow> nat \<times> db \<Rightarrow> nat \<times> db" where
  "tick_end env now i st = (case st of (n, d) \<Rightarrow>
     (case end_contest env now i d of Inl _ \<Rightarrow> (n, d) | Inr d' \<Rightarrow> (n + 1, d')))"

definition tick_contests :: "env \<Rightarrow> time \<Rightarrow> db \<Rightarrow> (nat \<times> nat) \<times> db" where
  "tick_contests env now d =
     (let starts = due_to_start now d;
          d1 = fold (start_contest now) starts d
      in case fold (tick_end env now) (due_to_end now d1) (0, d1) of
           (ended, d2) \<Rightarrow> ((length starts, ended), d2))"

section \<open>The endpoints (\<open>contests/api/router.py\<close>)\<close>

definition valid_page :: "int \<Rightarrow> int \<Rightarrow> int \<Rightarrow> bool" where
  "valid_page max_size page page_size = (1 \<le> page \<and> 1 \<le> page_size \<and> page_size \<le> max_size)"

text \<open>\<open>paginated.get(key)\<close> for the one entry of the page dictionary that is a list.\<close>

definition page_get :: "string \<Rightarrow> 'a page \<Rightarrow> 'a list option" where
  "page_get key pg = (if key = ''results'' then Some (pg_results pg) else None)"

definition api_list_contests :: "int \<Rightarrow> viewer \<Rightarrow> int \<Rightarrow> int \<Rightarrow> db \<Rightarrow> contest list result" where
  "api_list_contests max_size v page page_size d =
     raise_if (\<not> valid_page max_size page page_size) (ValueError ''PaginationParams'')
       (Inr (get_or (page_get ''items'' (paginate_queryset (sort_key (\<lambda>c. - c_start_time c) (get_visible_contests v d))
                       page page_size)) []))"

record contest_detail =
  cd_id :: nat
  cd_key :: string
  cd_name :: string
  cd_description :: string
  cd_start_time :: time
  cd_end_time :: time
  cd_visibility :: contest_visibility
  cd_is_rated :: bool
  cd_format_name :: string
  cd_is_active :: bool
  cd_is_finished :: bool
  cd_is_upcoming :: bool
  cd_points_precision :: nat

definition contest_detail_of :: "time \<Rightarrow> contest \<Rightarrow> contest_detail" where
  "contest_detail_of now c = \<lparr>cd_id = c_id c, cd_key = c_key c, cd_name = c_name c,
     cd_description = c_description c, cd_start_time = c_start_time c, cd_end_time = c_end_time c,
     cd_visibility = c_visibility c, cd_is_rated = c_is_rated c, cd_format_name = c_format_name c,
     cd_is_active = is_active now c, cd_is_finished = is_finished now c, cd_is_upcoming = is_upcoming now c,
     cd_points_precision = c_points_precision c\<rparr>"

definition access_denied :: "string \<Rightarrow> error" where
  "access_denied s = ContestAccessDeniedError s"

definition api_create_contest :: "time \<Rightarrow> viewer \<Rightarrow> contest_in \<Rightarrow> db \<Rightarrow> (contest_detail \<times> db) result" where
  "api_create_contest now v x d =
     raise_if (\<not> is_staff v) (access_denied ''Only staff can create contests.'')
       (case v of None \<Rightarrow> Inl (access_denied ''Only staff can create contests.'')
        | Some u \<Rightarrow> andThen (create_contest x (u_id u) d) (\<lambda>(c, d'). Inr (contest_detail_of now c, d')))"

definition api_submit_contest_problem ::
    "env \<Rightarrow> time \<Rightarrow> viewer \<Rightarrow> string \<Rightarrow> string \<Rightarrow> nat \<Rightarrow> string \<Rightarrow> db \<Rightarrow> (submission_detail \<times> db) result" where
  "api_submit_contest_problem env now v key problem_code language_id source d =
     raise_if (\<not> is_authenticated v) (access_denied ''Authentication required.'')
       (andThen (contest_by_key key d) (\<lambda>c.
        case (row_get l_id language_id (db_languages d), v) of
          (Some l, Some u) \<Rightarrow> andThen (submit_to_contest env now u c problem_code l source d) (\<lambda>(s, d').
              Inr (submission_detail_out d' s True, d'))
        | _ \<Rightarrow> Inl not_found))"

definition api_contest_detail :: "time \<Rightarrow> viewer \<Rightarrow> string \<Rightarrow> db \<Rightarrow> contest_detail result" where
  "api_contest_detail now v key d =
     andThen (contest_by_key key d) (\<lambda>c.
     raise_if (\<not> can_see_contest v d c) (access_denied ''You are not allowed to view this contest.'')
       (Inr (contest_detail_of now c)))"

definition api_update_contest :: "time \<Rightarrow> viewer \<Rightarrow> string \<Rightarrow> contest_field list \<Rightarrow> db \<Rightarrow> (contest_detail \<times> db) result" where
  "api_update_contest now v key fs d =
     andThen (contest_by_key key d) (\<lambda>c.
     raise_if (\<not> is_contest_staff v c) (access_denied ''You are not contest staff.'')
       (andThen (update_contest c fs d) (\<lambda>(c', d'). Inr (contest_detail_of now c', d'))))"

definition api_list_contest_problems :: "viewer \<Rightarrow> string \<Rightarrow> db \<Rightarrow> contest_problem list result" where
  "api_list_contest_problems v key d =
     andThen (contest_by_key key d) (\<lambda>c.
     raise_if (\<not> can_see_contest v d c) (access_denied ''You are not allowed to view this contest.'')
       (Inr (contest_problems_of d c)))"

text \<open>\<open>payload.order or (count() + 1)\<close>: zero counts as absent.\<close>

definition api_add_contest_problem :: "viewer \<Rightarrow> string \<Rightarrow> contest_problem_in \<Rightarrow> db \<Rightarrow> (contest_problem \<times> db) result" where
  "api_add_contest_problem v key x d =
     andThen (contest_by_key key d) (\<lambda>c.
     raise_if (\<not> is_contest_staff v c) (access_denied ''You are not contest staff.'')
       (case row_get p_id (pin_problem_id x) (db_problems d) of
          None \<Rightarrow> Inl not_found
        | Some p \<Rightarrow>
            add_problem c p (pin_label x) (pin_points x)
              (Some (case pin_order x of Some n \<Rightarrow> if n = 0 then contest_problem_count c d + 1 else n
                     | None \<Rightarrow> contest_problem_count c d + 1))
              (pin_partial_score x) (pin_output_prefix_override x) (pin_max_submissions x) d))"

definition api_get_ranking :: "env \<Rightarrow> time \<Rightarrow> viewer \<Rightarrow> string \<Rightarrow> bool \<Rightarrow> db \<Rightarrow> ranking_entry list result" where
  "api_get_ranking env now v key frozen d =
     andThen (contest_by_key key d) (\<lambda>c.
     raise_if (\<not> can_see_contest v d c) (access_denied ''You are not allowed to view this contest.'')
       (if frozen \<or> (is_frozen now c \<and> \<not> is_contest_staff v c) then get_frozen_ranking env now d c
        else get_contest_ranking d c))"

definition api_join_contest :: "time \<Rightarrow> viewer \<Rightarrow> string \<Rightarrow> string option \<Rightarrow> db \<Rightarrow> (participation \<times> db) result" where
  "api_join_contest now v key code d =
     raise_if (\<not> is_authenticated v) (access_denied ''Authentication required.'')
       (andThen (contest_by_key key d) (\<lambda>c.
        case v of None \<Rightarrow> Inl (access_denied ''Authentication required.'') | Some u \<Rightarrow> join_contest now c u code d))"

definition api_start_virtual :: "time \<Rightarrow> viewer \<Rightarrow> string \<Rightarrow> string option \<Rightarrow> db \<Rightarrow> (participation \<times> db) result" where
  "api_start_virtual now v key code d =
     raise_if (\<not> is_authenticated v) (access_denied ''Authentication required.'')
       (andThen (contest_by_key key d) (\<lambda>c.
        case v of None \<Rightarrow> Inl (access_denied ''Authentication required.'') | Some u \<Rightarrow> start_virtual now c u code d))"

definition api_list_participations :: "viewer \<Rightarrow> string \<Rightarrow> db \<Rightarrow> participation list result" where
  "api_list_participations v key d =
     andThen (contest_by_key key d) (\<lambda>c.
     raise_if (\<not> is_contest_staff v c) (access_denied ''Contest staff access required.'')
       (Inr (participations_of d c)))"

definition api_participation_detail :: "viewer \<Rightarrow> string \<Rightarrow> nat \<Rightarrow> db \<Rightarrow> participation result" where
  "api_participation_detail v key uid d =
     andThen (contest_by_key key d) (\<lambda>c.
     raise_if (\<not> is_contest_staff v c \<and> (case v of None \<Rightarrow> True | Some u \<Rightarrow> u_id u \<noteq> uid))
       (access_denied ''Not allowed to view this participation.'')
       (case filter (\<lambda>p. pa_contest p = c_id c \<and> pa_user p = uid) (db_participations d) of
          [] \<Rightarrow> Inl not_found | [p] \<Rightarrow> Inr p | _ \<Rightarrow> Inl (MultipleObjectsReturned ''ContestParticipation'')))"

end
