(* ===== verification/Shadow.thy ===== *)
theory Shadow
  imports Submissions
begin

text \<open>
  \<open>apps/judge/services/shadow_job_service.py\<close>: replays of a submission that do not touch it, queued
  and claimed like judge jobs, optionally pinned to one judge; and the shadow endpoints of
  \<open>judge/api/gateway.py\<close> and \<open>submissions/api/router.py\<close>.
\<close>

section \<open>The service\<close>

definition save_shadow :: "shadow_job \<Rightarrow> db \<Rightarrow> db" where
  "save_shadow j d = d\<lparr>db_shadow_jobs := row_put sh_id j (db_shadow_jobs d)\<rparr>"

abbreviation get_shadow :: "nat \<Rightarrow> db \<Rightarrow> shadow_job option" where
  "get_shadow i d \<equiv> row_get sh_id i (db_shadow_jobs d)"

definition new_shadow :: "nat \<Rightarrow> nat \<Rightarrow> nat option \<Rightarrow> nat \<Rightarrow> nat option \<Rightarrow> job_config \<Rightarrow> time \<Rightarrow> shadow_job" where
  "new_shadow i sub pkg lang target cf now = \<lparr>sh_id = i, sh_submission = sub, sh_package = pkg, sh_language = lang,
     sh_target_judge = target, sh_status = Job_QUEUED, sh_priority = 0, sh_claimed_by = None,
     sh_lease_expires_at = None, sh_attempts = 0, sh_max_attempts = 3, sh_config = cf, sh_case_results = [],
     sh_result = [], sh_total_points = 0, sh_case_total = 0, sh_case_passed = 0, sh_error_message = [],
     sh_claimed_at = None, sh_started_at = None, sh_finished_at = None, sh_created_at = now\<rparr>"

text \<open>\<open>config.setdefault(key, value)\<close>\<close>

definition setdefault :: "'a option \<Rightarrow> 'a \<Rightarrow> 'a option" where
  "setdefault x v = (case x of Some w \<Rightarrow> Some w | None \<Rightarrow> Some v)"

definition shadow_config :: "submission \<Rightarrow> problem \<Rightarrow> judge_job option \<Rightarrow> job_config" where
  "shadow_config s p job =
     (let cf = (case job of
                  Some j \<Rightarrow> jj_config j
                | None \<Rightarrow> empty_config\<lparr>cf_time_limit := Some (p_time_limit p), cf_memory_limit := Some (p_memory_limit p),
                    cf_mode := Some (s_mode s), cf_custom_input := Some (s_custom_input s),
                    cf_expected_output := Some (s_custom_expected_output s)\<rparr>)
      in cf\<lparr>cf_mode := setdefault (cf_mode cf) (s_mode s),
            cf_custom_input := setdefault (cf_custom_input cf) (s_custom_input s)\<rparr>)"

definition create_for_submission :: "time \<Rightarrow> submission \<Rightarrow> problem \<Rightarrow> nat option \<Rightarrow> db \<Rightarrow> (shadow_job \<times> db) result" where
  "create_for_submission now s p target d =
     (let job = job_of_submission (s_id s) d;
          pkg = (case job of Some j \<Rightarrow> package_of d (jj_package j) | None \<Rightarrow> active_package (s_problem s) d)
      in raise_if (pkg = None \<and> s_mode s \<noteq> Mode_RUN)
           (ValueError ''No active test data package is available for this problem.'')
         (let j = new_shadow (fresh_key sh_id (db_shadow_jobs d)) (s_id s) (map_option pk_id pkg) (s_language s)
                    target (shadow_config s p job) now
          in Inr (j, d\<lparr>db_shadow_jobs := db_shadow_jobs d @ [j]\<rparr>)))"

definition shadow_active :: "shadow_job \<Rightarrow> bool" where
  "shadow_active j \<longleftrightarrow> sh_status j \<in> {Job_CLAIMED, Job_RUNNING}"

definition shadow_stale :: "time \<Rightarrow> shadow_job \<Rightarrow> bool" where
  "shadow_stale now j \<longleftrightarrow> shadow_active j \<and> (case sh_lease_expires_at j of None \<Rightarrow> False | Some t \<Rightarrow> t < now)"

definition shadow_requeued :: "shadow_job \<Rightarrow> shadow_job" where
  "shadow_requeued j = j\<lparr>sh_status := Job_QUEUED, sh_claimed_by := None, sh_claimed_at := None,
     sh_started_at := None, sh_lease_expires_at := None,
     sh_error_message := ''Shadow lease expired; job requeued.''\<rparr>"

definition shadow_requeue :: "time \<Rightarrow> db \<Rightarrow> db" where
  "shadow_requeue now d = d\<lparr>db_shadow_jobs := rows_update (shadow_stale now) shadow_requeued (db_shadow_jobs d)\<rparr>"

text \<open>\<open>models_target_judge\<close>: not pinned, or pinned to this judge.\<close>

definition shadow_claimable :: "db \<Rightarrow> nat \<Rightarrow> string list \<Rightarrow> shadow_job \<Rightarrow> bool" where
  "shadow_claimable d judge_id languages j \<longleftrightarrow> sh_status j = Job_QUEUED
     \<and> (case language_key d (sh_language j) of None \<Rightarrow> False | Some k \<Rightarrow> k \<in> set languages)
     \<and> (sh_target_judge j = None \<or> sh_target_judge j = Some judge_id)"

definition shadow_claimed :: "time \<Rightarrow> nat \<Rightarrow> shadow_job \<Rightarrow> shadow_job" where
  "shadow_claimed now judge_id j = j\<lparr>sh_status := Job_CLAIMED, sh_claimed_by := Some judge_id, sh_claimed_at := Some now,
     sh_attempts := sh_attempts j + 1, sh_lease_expires_at := Some (now + lease_seconds)\<rparr>"

definition shadow_claim_job :: "time \<Rightarrow> nat \<Rightarrow> string list \<Rightarrow> db \<Rightarrow> shadow_job option \<times> db" where
  "shadow_claim_job now judge_id languages d =
     (let d' = shadow_requeue now d
      in case first (sort_key (\<lambda>j. (- sh_priority j, sh_created_at j))
                (filter (shadow_claimable d' judge_id languages) (db_shadow_jobs d'))) of
           None \<Rightarrow> (None, d')
         | Some j \<Rightarrow> (Some (shadow_claimed now judge_id j), save_shadow (shadow_claimed now judge_id j) d'))"

definition shadow_claim_payload :: "db \<Rightarrow> shadow_job \<Rightarrow> claim_payload" where
  "shadow_claim_payload d j =
     (let m = manifest_of d (sh_package j); cf = sh_config j
      in \<lparr>cl_job_id = sh_id j, cl_submission_id = sh_submission j,
          cl_language = get_or (language_key d (sh_language j)) [],
          cl_source = source_of d (sh_submission j),
          cl_time_limit = or_else (cf_time_limit cf) (m_time_limit m),
          cl_memory_limit = or_else (cf_memory_limit cf) (m_memory_limit m),
          cl_short_circuit = get_or (cf_short_circuit cf) False,
          cl_partial_score = get_or (cf_partial_score cf) False,
          cl_contest_points = None,
          cl_mode = get_or (cf_mode cf) Mode_SUBMIT,
          cl_custom_input = get_or (cf_custom_input cf) [],
          cl_expected_output = get_or (cf_expected_output cf) [],
          cl_package = map_option package_payload_of (package_of d (sh_package j)),
          cl_checker = checker_of m, cl_cases = m_cases m, cl_groups = m_groups m,
          cl_lease_seconds = 60\<rparr>)"

definition shadow_lock :: "nat \<Rightarrow> db \<Rightarrow> shadow_job result" where
  "shadow_lock i d = (case get_shadow i d of Some j \<Rightarrow> Inr j
     | None \<Rightarrow> Inl (ValueError ''ShadowJob matching query does not exist.''))"

definition shadow_assert_owned :: "time \<Rightarrow> nat \<Rightarrow> shadow_job \<Rightarrow> unit result" where
  "shadow_assert_owned now judge_id j =
     (if sh_claimed_by j \<noteq> Some judge_id then Inl (PermissionDeniedError ''This shadow job is claimed by another judge.'')
      else if (case sh_lease_expires_at j of None \<Rightarrow> True | Some t \<Rightarrow> t \<le> now)
      then Inl (JudgeJobConflictError ''The shadow job lease has expired.'')
      else if sh_status j \<notin> {Job_CLAIMED, Job_RUNNING} then Inl (JudgeJobConflictError ''The shadow job is not active.'')
      else Inr ())"

definition shadow_running :: "time \<Rightarrow> shadow_job \<Rightarrow> shadow_job" where
  "shadow_running now j = j\<lparr>sh_status := Job_RUNNING,
     sh_started_at := (case sh_started_at j of Some t \<Rightarrow> Some t | None \<Rightarrow> Some now),
     sh_lease_expires_at := Some (now + lease_seconds)\<rparr>"

definition shadow_start :: "time \<Rightarrow> nat \<Rightarrow> nat \<Rightarrow> db \<Rightarrow> db result" where
  "shadow_start now job_id judge_id d =
     andThen (shadow_lock job_id d) (\<lambda>j.
     andThen (shadow_assert_owned now judge_id j) (\<lambda>_. Inr (save_shadow (shadow_running now j) d)))"

definition passed_count :: "case_in list \<Rightarrow> nat" where
  "passed_count cases = length (filter (\<lambda>c. ci_status c = verdict_code AC) cases)"

definition shadow_record_cases :: "time \<Rightarrow> nat \<Rightarrow> nat \<Rightarrow> case_in list \<Rightarrow> db \<Rightarrow> db result" where
  "shadow_record_cases now job_id judge_id cases d =
     andThen (shadow_lock job_id d) (\<lambda>j.
     andThen (shadow_assert_owned now judge_id j) (\<lambda>_.
       Inr (save_shadow ((shadow_running now j)\<lparr>sh_case_results := cases, sh_case_total := length cases,
              sh_case_passed := passed_count cases\<rparr>) d)))"

text \<open>The status of the first case that is not accepted.\<close>

definition shadow_result :: "case_in list \<Rightarrow> string option \<Rightarrow> string" where
  "shadow_result cases payload_result =
     (if cases = []
      then (case payload_result of Some r \<Rightarrow> if r = [] then verdict_code IE else r | None \<Rightarrow> verdict_code IE)
      else (case List.find (\<lambda>c. ci_status c \<noteq> verdict_code AC) cases of
              Some c \<Rightarrow> ci_status c | None \<Rightarrow> verdict_code AC))"

definition shadow_finish :: "time \<Rightarrow> nat \<Rightarrow> nat \<Rightarrow> finish_in \<Rightarrow> db \<Rightarrow> (shadow_job \<times> db) result" where
  "shadow_finish now job_id judge_id payload d =
     andThen (shadow_lock job_id d) (\<lambda>j.
     andThen (shadow_assert_owned now judge_id j) (\<lambda>_.
       let cases = sh_case_results j;
           j' = j\<lparr>sh_status := Job_SUCCEEDED, sh_result := shadow_result cases (fi_result payload),
                  sh_total_points := sum_list (map ci_points cases), sh_case_total := length cases,
                  sh_case_passed := passed_count cases, sh_error_message := fi_error_message payload,
                  sh_finished_at := Some now, sh_lease_expires_at := None\<rparr>
       in Inr (j', save_shadow j' d)))"

definition shadow_fail :: "time \<Rightarrow> nat \<Rightarrow> nat \<Rightarrow> fail_in \<Rightarrow> db \<Rightarrow> (shadow_job \<times> db) result" where
  "shadow_fail now job_id judge_id payload d =
     andThen (shadow_lock job_id d) (\<lambda>j.
     andThen (shadow_assert_owned now judge_id j) (\<lambda>_.
       let j' = j\<lparr>sh_status := Job_FAILED, sh_result := verdict_code (fail_verdict (fa_result payload)),
                  sh_error_message := fa_error_message payload, sh_finished_at := Some now,
                  sh_lease_expires_at := None\<rparr>
       in Inr (j', save_shadow j' d)))"

section \<open>The endpoints\<close>

definition gateway_get_shadow :: "nat \<Rightarrow> db \<Rightarrow> shadow_job result" where
  "gateway_get_shadow i d =
     (case get_shadow i d of None \<Rightarrow> Inl (HttpError 404 ''Shadow job not found.'') | Some j \<Rightarrow> Inr j)"

definition api_shadow_claim :: "env \<Rightarrow> time \<Rightarrow> string \<Rightarrow> string list \<Rightarrow> db \<Rightarrow> (claim_payload option \<times> db) result" where
  "api_shadow_claim env now token languages d =
     andThen (request_judge env token d) (\<lambda>g.
       case shadow_claim_job now (j_id g) languages d of
         (None, d') \<Rightarrow> Inr (None, d')
       | (Some j, d') \<Rightarrow> Inr (Some (shadow_claim_payload d' j), d'))"

definition api_shadow_start :: "env \<Rightarrow> time \<Rightarrow> string \<Rightarrow> nat \<Rightarrow> db \<Rightarrow> db result" where
  "api_shadow_start env now token job_id d =
     andThen (request_judge env token d) (\<lambda>g.
     andThen (gateway_get_shadow job_id d) (\<lambda>j. shadow_start now (sh_id j) (j_id g) d))"

definition api_shadow_cases ::
    "env \<Rightarrow> time \<Rightarrow> string \<Rightarrow> nat \<Rightarrow> string option \<Rightarrow> case_in list \<Rightarrow> db \<Rightarrow> (nat \<times> db) result" where
  "api_shadow_cases env now token job_id sha cases d =
     andThen (request_judge env token d) (\<lambda>g.
     andThen (gateway_get_shadow job_id d) (\<lambda>j.
     andThen (verify_package d (sh_package j) sha) (\<lambda>_.
     andThen (shadow_record_cases now (sh_id j) (j_id g) cases d) (\<lambda>d'. Inr (length cases, d')))))"

definition api_shadow_finish :: "env \<Rightarrow> time \<Rightarrow> string \<Rightarrow> nat \<Rightarrow> finish_in \<Rightarrow> db \<Rightarrow> (shadow_job \<times> db) result" where
  "api_shadow_finish env now token job_id payload d =
     andThen (request_judge env token d) (\<lambda>g.
     andThen (gateway_get_shadow job_id d) (\<lambda>j.
     andThen (verify_package d (sh_package j) (fi_package_sha256 payload)) (\<lambda>_.
       shadow_finish now (sh_id j) (j_id g) payload d)))"

definition api_shadow_fail :: "env \<Rightarrow> time \<Rightarrow> string \<Rightarrow> nat \<Rightarrow> fail_in \<Rightarrow> db \<Rightarrow> (shadow_job \<times> db) result" where
  "api_shadow_fail env now token job_id payload d =
     andThen (request_judge env token d) (\<lambda>g.
     andThen (gateway_get_shadow job_id d) (\<lambda>j.
     andThen (verify_package d (sh_package j) (fa_package_sha256 payload)) (\<lambda>_.
       shadow_fail now (sh_id j) (j_id g) payload d)))"

text \<open>\<open>create_shadow_job\<close> of the submissions router, staff only.\<close>

definition api_create_shadow :: "time \<Rightarrow> viewer \<Rightarrow> nat \<Rightarrow> string \<Rightarrow> db \<Rightarrow> (shadow_job \<times> db) result" where
  "api_create_shadow now v i judge_name d =
     andThen (require_authenticated v) (\<lambda>u.
     raise_if (\<not> u_is_staff u) (HttpError 403 ''Staff access required.'')
     (andThen (get_submission i d) (\<lambda>s.
      andThen (if judge_name = [] then Inr None
               else case first (filter (\<lambda>g. j_name g = judge_name) (db_judges d)) of
                      None \<Rightarrow> Inl (HttpError 404 ''Judge not found.'') | Some g \<Rightarrow> Inr (Some (j_id g))) (\<lambda>target.
        case row_get p_id (s_problem s) (db_problems d) of
          None \<Rightarrow> Inl (ValueError ''Problem matching query does not exist.'')
        | Some p \<Rightarrow> (case create_for_submission now s p target d of
              Inl (ValueError msg) \<Rightarrow> Inl (HttpError 400 msg)
            | r \<Rightarrow> r)))))"

record shadow_out =
  sx_job :: shadow_job
  sx_target :: "string option"
  sx_claimer :: "string option"

text \<open>\<open>_shadow_job_out\<close>: the row, with the names of its judges.\<close>

definition judge_name_of :: "nat option \<Rightarrow> db \<Rightarrow> string option" where
  "judge_name_of i d = Option.bind i (\<lambda>k. map_option j_name (row_get j_id k (db_judges d)))"

definition shadow_job_out :: "db \<Rightarrow> shadow_job \<Rightarrow> shadow_out" where
  "shadow_job_out d j = \<lparr>sx_job = j, sx_target = judge_name_of (sh_target_judge j) d, sx_claimer = judge_name_of (sh_claimed_by j) d\<rparr>"

definition api_list_shadows :: "viewer \<Rightarrow> nat \<Rightarrow> db \<Rightarrow> shadow_out list result" where
  "api_list_shadows v i d =
     andThen (require_authenticated v) (\<lambda>u.
     raise_if (\<not> u_is_staff u) (HttpError 403 ''Staff access required.'')
     (andThen (get_submission i d) (\<lambda>s.
      Inr (map (shadow_job_out d)
        (sort_key (\<lambda>j. - sh_created_at j) (filter (\<lambda>j. sh_submission j = s_id s) (db_shadow_jobs d)))))))"

end
