(* ===== verification/JobFlow.thy ===== *)
theory JobFlow
  imports Shadow
begin

text \<open>
  What the operations of the judge queue do to the tables, and the contract of a leased queue as a
  locale, which the queue of the judge jobs and the queue of the shadow jobs both keep.
\<close>

section \<open>What the operations leave alone\<close>

lemma publish_tables [simp]:
  "db_jobs (publish_submission ty i pl d) = db_jobs d"
  "db_submissions (publish_submission ty i pl d) = db_submissions d"
  "db_test_cases (publish_submission ty i pl d) = db_test_cases d"
  "db_packages (publish_submission ty i pl d) = db_packages d"
  "db_languages (publish_submission ty i pl d) = db_languages d"
  "db_participations (publish_submission ty i pl d) = db_participations d"
  "db_users (publish_submission ty i pl d) = db_users d"
  "db_shadow_jobs (publish_submission ty i pl d) = db_shadow_jobs d"
  "db_sources (publish_submission ty i pl d) = db_sources d"
  by (simp_all add: publish_submission_def publish_def)

lemma save_submission_tables [simp]:
  "db_jobs (save_submission s d) = db_jobs d"
  "db_submissions (save_submission s d) = row_put s_id s (db_submissions d)"
  "db_test_cases (save_submission s d) = db_test_cases d"
  "db_packages (save_submission s d) = db_packages d"
  "db_languages (save_submission s d) = db_languages d"
  "db_participations (save_submission s d) = db_participations d"
  "db_shadow_jobs (save_submission s d) = db_shadow_jobs d"
  "db_sources (save_submission s d) = db_sources d"
  by (simp_all add: save_submission_def update_user_stats_def Let_def)

lemma save_job_tables [simp]:
  "db_jobs (save_job j d) = row_put jj_id j (db_jobs d)"
  "db_submissions (save_job j d) = db_submissions d"
  "db_test_cases (save_job j d) = db_test_cases d"
  "db_packages (save_job j d) = db_packages d"
  "db_languages (save_job j d) = db_languages d"
  "db_participations (save_job j d) = db_participations d"
  "db_users (save_job j d) = db_users d"
  "db_shadow_jobs (save_job j d) = db_shadow_jobs d"
  "db_sources (save_job j d) = db_sources d"
  by (simp_all add: save_job_def)

lemma update_submission_tables [simp]:
  "db_jobs (update_submission_row i f d) = db_jobs d"
  "db_submissions (update_submission_row i f d) = rows_update (\<lambda>s. s_id s = i) f (db_submissions d)"
  "db_languages (update_submission_row i f d) = db_languages d"
  by (simp_all add: update_submission_row_def)

lemma delete_test_cases_tables [simp]:
  "db_jobs (delete_test_cases i d) = db_jobs d"
  "db_submissions (delete_test_cases i d) = db_submissions d"
  "db_languages (delete_test_cases i d) = db_languages d"
  "db_packages (delete_test_cases i d) = db_packages d"
  by (simp_all add: delete_test_cases_def)

lemma refresh_contest_score_tables [simp]:
  "db_jobs (refresh_contest_score env s d) = db_jobs d"
  "db_submissions (refresh_contest_score env s d) = db_submissions d"
  "db_test_cases (refresh_contest_score env s d) = db_test_cases d"
proof -
  have "recalculate_participation env c p d = Inr d' \<Longrightarrow>
      db_jobs d' = db_jobs d \<and> db_submissions d' = db_submissions d \<and> db_test_cases d' = db_test_cases d" for c p d'
    by (erule recalculate_InrD) simp
  then show "db_jobs (refresh_contest_score env s d) = db_jobs d"
    "db_submissions (refresh_contest_score env s d) = db_submissions d"
    "db_test_cases (refresh_contest_score env s d) = db_test_cases d"
    by (auto simp: refresh_contest_score_def split: option.splits sum.splits)
qed

lemma rows_update_is_put:
  assumes "distinct (map key rows)" and "row_get key k rows = Some r" and "key (f r) = k"
  shows "rows_update (\<lambda>x. key x = k) f rows = row_put key (f r) rows"
proof -
  have r: "r \<in> set rows" "key r = k" using row_get_SomeD [OF assms(2)] by auto
  have "x = r" if "x \<in> set rows" "key x = k" for x
    using that r assms(1) by (metis distinct_map inj_onD)
  then show ?thesis using assms(3) by (auto simp: row_put_def rows_update_def)
qed

lemma row_get_member: "distinct (map key rows) \<Longrightarrow> r \<in> set rows \<Longrightarrow> row_get key (key r) rows = Some r"
proof (cases "row_get key (key r) rows")
  case None
  assume "r \<in> set rows"
  then show ?thesis using row_get_NoneD [OF None] by auto
next
  case (Some s)
  assume "distinct (map key rows)" "r \<in> set rows"
  then have "s = r" using row_get_SomeD [OF Some] by (metis distinct_map inj_onD)
  then show ?thesis using Some by simp
qed

section \<open>The contract of a leased queue\<close>

text \<open>A queue whose jobs are claimed for a lease: the guard of the progress callbacks holds for the
  owner of a live lease only, and a claim hands out a job that was queued or whose lease has run out.\<close>

locale leased_queue =
  fixes jobs :: "db \<Rightarrow> 'j list" and key :: "'j \<Rightarrow> nat"
    and owner :: "'j \<Rightarrow> nat option" and lease :: "'j \<Rightarrow> time option" and state :: "'j \<Rightarrow> job_status"
    and claim :: "time \<Rightarrow> nat \<Rightarrow> string list \<Rightarrow> db \<Rightarrow> 'j option \<times> db"
    and guard :: "time \<Rightarrow> nat \<Rightarrow> 'j \<Rightarrow> unit result"
  assumes guard_iff: "guard now g j = Inr () \<longleftrightarrow>
        owner j = Some g \<and> (\<exists>t. lease j = Some t \<and> now < t) \<and> state j \<in> {Job_CLAIMED, Job_RUNNING}"
    and claim_free: "claim now g ls d = (Some j, d') \<Longrightarrow> \<exists>j0 \<in> set (jobs d). key j0 = key j
        \<and> (state j0 = Job_QUEUED \<or> (\<exists>t. lease j0 = Some t \<and> t < now))"
    and claim_owns: "claim now g ls d = (Some j, d') \<Longrightarrow>
        owner j = Some g \<and> lease j = Some (now + lease_seconds) \<and> state j = Job_CLAIMED \<and> j \<in> set (jobs d')"
    and claim_keys: "claim now g ls d = (r, d') \<Longrightarrow> map key (jobs d') = map key (jobs d)"
begin

lemma guard_exclusive: "guard now g j = Inr () \<Longrightarrow> guard now' g' j = Inr () \<Longrightarrow> g = g'"
  by (simp add: guard_iff)

lemma claim_passes_guard:
  assumes "claim now g ls d = (Some j, d')" and "now' < now + lease_seconds"
  shows "guard now' g j = Inr ()"
  using claim_owns [OF assms(1)] assms(2) by (simp add: guard_iff)

lemma claim_spares_leased:
  assumes "distinct (map key (jobs d))" and "j0 \<in> set (jobs d)"
    and "state j0 \<noteq> Job_QUEUED" and "lease j0 = Some t" and "now \<le> t"
    and "claim now g ls d = (Some j, d')"
  shows "key j \<noteq> key j0"
proof
  assume eq: "key j = key j0"
  obtain j1 where "j1 \<in> set (jobs d)" "key j1 = key j" "state j1 = Job_QUEUED \<or> (\<exists>t. lease j1 = Some t \<and> t < now)"
    using claim_free [OF assms(6)] by blast
  moreover have "j1 = j0" using calculation eq assms(1,2) by (metis distinct_map inj_onD)
  ultimately show False using assms(3-5) by auto
qed

lemma claims_exclusive:
  assumes "distinct (map key (jobs d))" and "claim now g ls d = (Some j, d')"
    and "now' \<le> now + lease_seconds" and "claim now' g' ls' d' = (Some j', d'')"
  shows "key j' \<noteq> key j"
proof (rule claim_spares_leased [OF _ _ _ _ assms(3,4)])
  show "distinct (map key (jobs d'))" using claim_keys [OF assms(2)] assms(1) by simp
qed (use claim_owns [OF assms(2)] in auto)

end

section \<open>Expiry and claims\<close>

lemma sort_first_in: "first (sort_key f (filter P xs)) = Some x \<Longrightarrow> x \<in> set xs \<and> P x"
  using first_in [of "sort_key f (filter P xs)" x] by simp

lemma expire_job_keys [simp]: "map jj_id (db_jobs (expire_job now j d)) = map jj_id (db_jobs d)"
  by (simp add: expire_job_def expire_failed_def expire_requeued_def Let_def keys_row_put)

lemma expire_fold_keys [simp]: "map jj_id (db_jobs (fold (expire_job now) js d)) = map jj_id (db_jobs d)"
  by (induction js arbitrary: d) simp_all

text \<open>Every row after the expiry is an untouched one or a stale one reset.\<close>

lemma expire_job_member:
  assumes "x \<in> set (db_jobs (expire_job now j d))"
  shows "x \<in> set (db_jobs d) \<or> jj_id x = jj_id j"
  using assms by (auto simp: expire_job_def expire_failed_def expire_requeued_def Let_def set_row_put split: if_splits)

lemma expire_fold_member:
  "x \<in> set (db_jobs (fold (expire_job now) js d)) \<Longrightarrow> x \<in> set (db_jobs d) \<or> jj_id x \<in> jj_id ` set js"
proof (induction js arbitrary: d)
  case (Cons j js)
  then show ?case using expire_job_member by fastforce
qed simp

lemma expire_stale_jobs_keys: "map jj_id (db_jobs (snd (expire_stale_jobs now d))) = map jj_id (db_jobs d)"
  by (simp add: expire_stale_jobs_def Let_def)

lemma expire_origin:
  assumes "x \<in> set (db_jobs (snd (expire_stale_jobs now d)))"
  shows "\<exists>x0 \<in> set (db_jobs d). jj_id x0 = jj_id x \<and> (x0 = x \<or> stale_job now x0)"
  using expire_fold_member [of x now "stale_jobs now d" d] assms
  by (auto simp: expire_stale_jobs_def Let_def stale_jobs_def)

lemma claim_job_cases:
  assumes "claim_job now g ls d = (r, d')"
  obtains (none) "r = None" "d' = snd (expire_stale_jobs now d)"
  | (some) j where "r = Some (claimed_job now g j)" "d' = save_job (claimed_job now g j) (snd (expire_stale_jobs now d))"
      "j \<in> set (db_jobs (snd (expire_stale_jobs now d)))" "claimable (snd (expire_stale_jobs now d)) ls j"
      "first (sort_key queue_key (filter (claimable (snd (expire_stale_jobs now d)) ls) (db_jobs (snd (expire_stale_jobs now d))))) = Some j"
  using assms by (auto simp: claim_job_def Let_def split: option.splits dest: sort_first_in)

lemma claimed_job_simps [simp]:
  "jj_id (claimed_job now g j) = jj_id j" "jj_status (claimed_job now g j) = Job_CLAIMED"
  "jj_claimed_by (claimed_job now g j) = Some g" "jj_lease_expires_at (claimed_job now g j) = Some (now + lease_seconds)"
  "jj_attempts (claimed_job now g j) = Suc (jj_attempts j)" "jj_submission (claimed_job now g j) = jj_submission j"
  "jj_max_attempts (claimed_job now g j) = jj_max_attempts j"
  by (simp_all add: claimed_job_def)

lemma stale_job_leased: "stale_job now j \<Longrightarrow> \<exists>t. jj_lease_expires_at j = Some t \<and> t < now"
  by (auto simp: stale_job_def split: option.splits)

interpretation judge_queue: leased_queue db_jobs jj_id jj_claimed_by jj_lease_expires_at jj_status claim_job assert_owned
proof (unfold_locales, goal_cases)
  case (1 now g j)
  show ?case by (auto simp: assert_owned_def split: option.splits)
next
  case (2 now g ls d j d')
  then show ?case
  proof (cases rule: claim_job_cases)
    case (some j1)
    then have "jj_id j1 = jj_id j" "jj_status j1 = Job_QUEUED" by (auto simp: claimable_def)
    then show ?thesis using expire_origin [OF some(3)] stale_job_leased by metis
  qed simp
next
  case (3 now g ls d j d')
  then show ?case
  proof (cases rule: claim_job_cases)
    case (some j1)
    have "jj_id j1 \<in> jj_id ` set (db_jobs (snd (expire_stale_jobs now d)))" using some(3) by simp
    then show ?thesis using some(1,2) by (simp add: set_row_put)
  qed simp
next
  case (4 now g ls d r d')
  then show ?case by (cases rule: claim_job_cases) (simp_all add: keys_row_put expire_stale_jobs_keys)
qed

lemma shadow_requeue_keys: "map sh_id (db_shadow_jobs (shadow_requeue now d)) = map sh_id (db_shadow_jobs d)"
  by (simp add: shadow_requeue_def rows_update_def shadow_requeued_def)

lemma shadow_requeue_origin:
  assumes "x \<in> set (db_shadow_jobs (shadow_requeue now d))"
  shows "\<exists>x0 \<in> set (db_shadow_jobs d). sh_id x0 = sh_id x \<and> (x0 = x \<or> shadow_stale now x0)"
  using assms by (auto simp: shadow_requeue_def rows_update_def shadow_requeued_def)

lemma shadow_claim_cases:
  assumes "shadow_claim_job now g ls d = (r, d')"
  obtains (none) "r = None" "d' = shadow_requeue now d"
  | (some) j where "r = Some (shadow_claimed now g j)" "d' = save_shadow (shadow_claimed now g j) (shadow_requeue now d)"
      "j \<in> set (db_shadow_jobs (shadow_requeue now d))" "sh_status j = Job_QUEUED"
      "sh_target_judge j = None \<or> sh_target_judge j = Some g"
  using assms by (auto simp: shadow_claim_job_def Let_def shadow_claimable_def split: option.splits dest!: sort_first_in)

interpretation shadow_queue: leased_queue db_shadow_jobs sh_id sh_claimed_by sh_lease_expires_at sh_status
    shadow_claim_job shadow_assert_owned
proof (unfold_locales, goal_cases)
  case (1 now g j)
  show ?case by (auto simp: shadow_assert_owned_def split: option.splits)
next
  case (2 now g ls d j d')
  then show ?case
  proof (cases rule: shadow_claim_cases)
    case (some j1)
    then have "sh_id j1 = sh_id j" by (simp add: shadow_claimed_def)
    then show ?thesis using shadow_requeue_origin [OF some(3)] some(4) by (auto simp: shadow_stale_def split: option.splits)
  qed simp
next
  case (3 now g ls d j d')
  then show ?case
  proof (cases rule: shadow_claim_cases)
    case (some j1)
    have "sh_id j1 \<in> sh_id ` set (db_shadow_jobs (shadow_requeue now d))" using some(3) by simp
    then show ?thesis using some(1,2) by (simp add: save_shadow_def set_row_put shadow_claimed_def)
  qed simp
next
  case (4 now g ls d r d')
  then show ?case by (cases rule: shadow_claim_cases) (simp_all add: save_shadow_def keys_row_put shadow_requeue_keys)
qed

end
