(* ===== verification/JobInvariant.thy ===== *)
theory JobInvariant
  imports JobFlow
begin

text \<open>
  The flow from the creation of a submission to its verdict as a step relation over the operations
  of the judge queue, the invariant of every state it reaches, and the properties of the queue.
\<close>

section \<open>The invariant of the flow\<close>

definition job_ok :: "judge_job \<Rightarrow> bool" where
  "job_ok j \<longleftrightarrow> 0 < jj_max_attempts j \<and>
     (case jj_status j of
        Job_QUEUED \<Rightarrow> jj_claimed_by j = None \<and> jj_lease_expires_at j = None \<and> jj_attempts j < jj_max_attempts j
      | Job_CLAIMED \<Rightarrow> jj_claimed_by j \<noteq> None \<and> jj_lease_expires_at j \<noteq> None \<and> 0 < jj_attempts j \<and> jj_attempts j \<le> jj_max_attempts j
      | Job_RUNNING \<Rightarrow> jj_claimed_by j \<noteq> None \<and> jj_lease_expires_at j \<noteq> None \<and> 0 < jj_attempts j \<and> jj_attempts j \<le> jj_max_attempts j
      | Job_SUCCEEDED \<Rightarrow> jj_claimed_by j \<noteq> None \<and> jj_lease_expires_at j = None \<and> jj_finished_at j \<noteq> None \<and> jj_attempts j \<le> jj_max_attempts j
      | Job_FAILED \<Rightarrow> jj_claimed_by j \<noteq> None \<and> jj_lease_expires_at j = None \<and> jj_finished_at j \<noteq> None \<and> jj_attempts j \<le> jj_max_attempts j
      | Job_EXPIRED \<Rightarrow> False | Job_CANCELLED \<Rightarrow> False)"

definition unjudged :: "submission \<Rightarrow> bool" where
  "unjudged s \<longleftrightarrow> s_result s = None \<and> s_points s = 0 \<and> s_judged_on s = None"

text \<open>What the status of a job says about its submission.\<close>

definition coupled :: "judge_job \<Rightarrow> submission \<Rightarrow> bool" where
  "coupled j s \<longleftrightarrow>
     (case jj_status j of
        Job_QUEUED \<Rightarrow> s_status s = Sub_QUEUED \<and> unjudged s
      | Job_CLAIMED \<Rightarrow> s_status s = Sub_QUEUED \<and> unjudged s
      | Job_RUNNING \<Rightarrow> s_status s = Sub_JUDGING \<and> unjudged s
      | Job_SUCCEEDED \<Rightarrow> s_status s \<in> {Sub_COMPLETED, Sub_ERROR} \<and> s_result s \<noteq> None
      | Job_FAILED \<Rightarrow> s_status s = Sub_ERROR \<and> s_result s \<in> {Some CE, Some IE} \<and> s_points s = 0
      | Job_EXPIRED \<Rightarrow> False | Job_CANCELLED \<Rightarrow> False)"

definition queue_ok :: "db \<Rightarrow> bool" where
  "queue_ok d \<longleftrightarrow> distinct (map jj_id (db_jobs d)) \<and> distinct (map s_id (db_submissions d))
     \<and> distinct (map jj_submission (db_jobs d))
     \<and> s_id ` set (db_submissions d) = jj_submission ` set (db_jobs d)
     \<and> (\<forall>j \<in> set (db_jobs d). job_ok j)
     \<and> (\<forall>j \<in> set (db_jobs d). \<forall>s \<in> set (db_submissions d). s_id s = jj_submission j \<longrightarrow> coupled j s)"

lemma queue_ok_put:
  assumes ok: "queue_ok d" and j: "j \<in> set (db_jobs d)" and s: "s \<in> set (db_submissions d)" "s_id s = jj_submission j"
    and j': "db_jobs d' = row_put jj_id j' (db_jobs d)" "jj_id j' = jj_id j" "jj_submission j' = jj_submission j"
    and s': "db_submissions d' = row_put s_id s' (db_submissions d)" "s_id s' = s_id s"
    and new: "job_ok j'" "coupled j' s'"
  shows "queue_ok d'"
proof -
  have one: "x = j" if "x \<in> set (db_jobs d)" "jj_id x = jj_id j" for x
    using ok j that by (auto simp: queue_ok_def distinct_map dest: inj_onD)
  have subs: "map jj_submission (db_jobs d') = map jj_submission (db_jobs d)"
    unfolding j'(1) by (rule map_row_put) (use one j'(2,3) in auto)
  have ids: "map s_id (db_submissions d') = map s_id (db_submissions d)"
    unfolding s'(1) by (rule keys_row_put)
  have jobs: "x = j' \<or> x \<in> set (db_jobs d) \<and> jj_id x \<noteq> jj_id j" if "x \<in> set (db_jobs d')" for x
    using that j'(1,2) by (auto simp: set_row_put split: if_splits)
  have sset: "y = s' \<or> y \<in> set (db_submissions d) \<and> s_id y \<noteq> s_id s" if "y \<in> set (db_submissions d')" for y
    using that s'(1,2) by (auto simp: set_row_put split: if_splits)
  have other: "jj_submission x \<noteq> jj_submission j" if "x \<in> set (db_jobs d)" "jj_id x \<noteq> jj_id j" for x
    using ok j that by (auto simp: queue_ok_def distinct_map dest: inj_onD)
  have "coupled x y" if "x \<in> set (db_jobs d')" "y \<in> set (db_submissions d')" "s_id y = jj_submission x" for x y
    using jobs [OF that(1)] sset [OF that(2)] that(3) new other [of x] j'(3) s(2) s'(2) ok by (auto simp: queue_ok_def)
  moreover have "job_ok x" if "x \<in> set (db_jobs d')" for x
    using jobs [OF that] new(1) ok by (auto simp: queue_ok_def)
  moreover have "map jj_id (db_jobs d') = map jj_id (db_jobs d)" unfolding j'(1) by (rule keys_row_put)
  moreover have "s_id ` set (db_submissions d') = s_id ` set (db_submissions d)" using arg_cong [OF ids, of set] by simp
  moreover have "jj_submission ` set (db_jobs d') = jj_submission ` set (db_jobs d)" using arg_cong [OF subs, of set] by simp
  ultimately show ?thesis using ok subs ids by (simp add: queue_ok_def)
qed

lemma queue_ok_job_only:
  assumes "queue_ok d" and "j \<in> set (db_jobs d)"
    and "db_jobs d' = row_put jj_id j' (db_jobs d)" "jj_id j' = jj_id j" "jj_submission j' = jj_submission j"
    and "db_submissions d' = db_submissions d" and "job_ok j'"
    and "\<And>s. s \<in> set (db_submissions d) \<Longrightarrow> s_id s = jj_submission j \<Longrightarrow> coupled j s \<Longrightarrow> coupled j' s"
  shows "queue_ok d'"
proof -
  obtain s where s: "s \<in> set (db_submissions d)" "s_id s = jj_submission j"
    using assms(1,2) by (auto simp: queue_ok_def) (metis imageE imageI)
  have "coupled j s" using assms(1,2) s by (simp add: queue_ok_def)
  moreover have "row_put s_id s (db_submissions d) = db_submissions d"
    using assms(1) s by (intro row_put_same) (simp_all add: queue_ok_def)
  ultimately show ?thesis
    by (intro queue_ok_put [OF assms(1,2) s assms(3-5) _ _ assms(7)]) (use assms(6,8) s in auto)
qed

lemma queue_ok_submission_only:
  assumes "queue_ok d" and "s \<in> set (db_submissions d)"
    and "db_jobs d' = db_jobs d" and "db_submissions d' = row_put s_id s' (db_submissions d)" "s_id s' = s_id s"
    and "\<And>j. coupled j s \<Longrightarrow> coupled j s'"
  shows "queue_ok d'"
proof -
  have "s_id s \<in> jj_submission ` set (db_jobs d)"
    using assms(1,2) by (auto simp: queue_ok_def)
  then obtain j where j: "j \<in> set (db_jobs d)" "s_id s = jj_submission j" by auto
  have "row_put jj_id j (db_jobs d) = db_jobs d"
    using assms(1) j by (intro row_put_same) (simp_all add: queue_ok_def)
  then show ?thesis
    by (intro queue_ok_put [OF assms(1) j(1) assms(2) j(2), of d' j s']) (use assms j in \<open>auto simp: queue_ok_def\<close>)
qed

lemma queue_ok_cong:
  "queue_ok d \<Longrightarrow> db_jobs d' = db_jobs d \<Longrightarrow> db_submissions d' = db_submissions d \<Longrightarrow> queue_ok d'"
  by (simp add: queue_ok_def)

lemma queue_ok_map_jobs:
  assumes "queue_ok d" and "db_submissions d' = db_submissions d" and "db_jobs d' = map f (db_jobs d)"
    and "\<And>j. jj_id (f j) = jj_id j \<and> jj_submission (f j) = jj_submission j \<and> jj_status (f j) = jj_status j"
    and "\<And>j. job_ok j \<Longrightarrow> job_ok (f j)"
  shows "queue_ok d'"
proof -
  have "coupled (f j) s = coupled j s" for j s using assms(4) by (simp add: coupled_def)
  then show ?thesis using assms by (auto simp: queue_ok_def comp_def image_image)
qed

section \<open>Each operation keeps the invariant\<close>

lemma job_ok_active: "job_ok j \<Longrightarrow> active_job j \<Longrightarrow> jj_claimed_by j \<noteq> None \<and> 0 < jj_attempts j \<and> jj_attempts j \<le> jj_max_attempts j \<and> 0 < jj_max_attempts j"
  by (auto simp: job_ok_def active_job_def)

lemma queue_ok_submission:
  assumes "queue_ok d" and "j \<in> set (db_jobs d)"
  obtains s where "s \<in> set (db_submissions d)" "s_id s = jj_submission j" "get_submission_row (jj_submission j) d = Some s"
proof -
  have "jj_submission j \<in> s_id ` set (db_submissions d)" using assms by (simp add: queue_ok_def)
  then obtain s where s: "s \<in> set (db_submissions d)" "s_id s = jj_submission j" by auto
  then show ?thesis using that row_get_member [of s_id "db_submissions d" s] assms(1) by (simp add: queue_ok_def)
qed

lemma reset_submission_simps [simp]:
  "s_id (reset_submission st res msg ja s) = s_id s" "s_status (reset_submission st res msg ja s) = st"
  "s_result (reset_submission st res msg ja s) = res" "s_points (reset_submission st res msg ja s) = 0"
  "s_judged_on (reset_submission st res msg ja s) = None"
  by (simp_all add: reset_submission_def)

lemma expire_job_ok:
  assumes ok: "queue_ok d" and j: "j \<in> set (db_jobs d)" and stale: "stale_job now j"
  shows "queue_ok (expire_job now j d)"
proof -
  obtain s where s: "s \<in> set (db_submissions d)" "s_id s = jj_submission j" "get_submission_row (jj_submission j) d = Some s"
    using ok j by (rule queue_ok_submission)
  have dist: "distinct (map s_id (db_submissions d))" using ok by (simp add: queue_ok_def)
  have active: "jj_claimed_by j \<noteq> None" "0 < jj_attempts j" "jj_attempts j \<le> jj_max_attempts j" "0 < jj_max_attempts j"
    using job_ok_active [of j] ok j stale by (auto simp: queue_ok_def stale_job_def)
  have put: "rows_update (\<lambda>x. s_id x = jj_submission j) (reset_submission st res msg ja) (db_submissions d)
      = row_put s_id (reset_submission st res msg ja s) (db_submissions d)" for st res msg ja
    by (rule rows_update_is_put [OF dist s(3)]) (simp add: s(2))
  show ?thesis
  proof (cases "jj_attempts j \<ge> jj_max_attempts j")
    case True
    have "queue_ok (expire_failed now j (delete_test_cases (jj_submission j) d))"
      by (rule queue_ok_put [OF ok j s(1,2), where j' = "j\<lparr>jj_status := Job_FAILED, jj_finished_at := Some now,
            jj_lease_expires_at := None, jj_last_error := ''Lease expired after maximum attempts.''\<rparr>"
            and s' = "reset_submission Sub_ERROR (Some IE) lease_failed_message (Some now) s"])
        (use active in \<open>auto simp: expire_failed_def put job_ok_def coupled_def\<close>)
    then show ?thesis using True by (simp add: expire_job_def Let_def)
  next
    case False
    have "queue_ok (expire_requeued j (delete_test_cases (jj_submission j) d))"
      by (rule queue_ok_put [OF ok j s(1,2), where j' = "j\<lparr>jj_status := Job_QUEUED, jj_claimed_by := None,
            jj_claimed_at := None, jj_started_at := None, jj_finished_at := None, jj_lease_expires_at := None,
            jj_last_error := ''Lease expired; job requeued.''\<rparr>"
            and s' = "reset_submission Sub_QUEUED None [] None s"])
        (use active False in \<open>auto simp: expire_requeued_def put job_ok_def coupled_def unjudged_def\<close>)
    then show ?thesis using False by (simp add: expire_job_def Let_def)
  qed
qed

lemma expire_job_keeps_other:
  assumes "x \<in> set (db_jobs d)" and "jj_id x \<noteq> jj_id j"
  shows "x \<in> set (db_jobs (expire_job now j d))"
  using assms by (auto simp: expire_job_def expire_failed_def expire_requeued_def Let_def set_row_put)

lemma expire_fold_ok:
  assumes "queue_ok d" and "distinct (map jj_id js)" and "\<forall>j \<in> set js. j \<in> set (db_jobs d) \<and> stale_job now j"
  shows "queue_ok (fold (expire_job now) js d)"
  using assms
proof (induction js arbitrary: d)
  case (Cons j js)
  have "queue_ok (expire_job now j d)" using Cons.prems by (intro expire_job_ok) auto
  moreover have "\<forall>x \<in> set js. x \<in> set (db_jobs (expire_job now j d)) \<and> stale_job now x"
    using Cons.prems(2,3) by (auto intro!: expire_job_keeps_other) (metis imageI)
  ultimately show ?case using Cons.IH Cons.prems(2) by simp
qed simp

lemma expire_stale_ok:
  assumes "queue_ok d"
  shows "queue_ok (snd (expire_stale_jobs now d))"
proof -
  have "distinct (map jj_id (filter (stale_job now) (db_jobs d)))"
    using assms by (intro distinct_map_filter) (simp add: queue_ok_def)
  then have "distinct (map jj_id (stale_jobs now d))" by (simp add: stale_jobs_def distinct_map)
  then show ?thesis using assms by (auto simp: expire_stale_jobs_def Let_def stale_jobs_def intro!: expire_fold_ok)
qed

lemma claim_ok:
  assumes "queue_ok d" and "claim_job now g ls d = (r, d')"
  shows "queue_ok d'"
  using assms(2)
proof (cases rule: claim_job_cases)
  case none
  then show ?thesis using expire_stale_ok [OF assms(1)] by simp
next
  case (some j)
  let ?d = "snd (expire_stale_jobs now d)"
  have ok: "queue_ok ?d" using expire_stale_ok [OF assms(1)] .
  have q: "jj_status j = Job_QUEUED" "job_ok j" using some(3,4) ok by (auto simp: claimable_def queue_ok_def)
  show ?thesis unfolding some(2)
    by (rule queue_ok_job_only [OF ok some(3), where j' = "claimed_job now g j"]) (use q in \<open>auto simp: job_ok_def coupled_def\<close>)
qed

lemma lock_jobD: "lock_job i d = Inr j \<Longrightarrow> j \<in> set (db_jobs d) \<and> jj_id j = i \<and> get_job i d = Some j"
  by (auto simp: lock_job_def split: option.splits dest: row_get_SomeD)

lemma submission_ofD: "submission_of j d = Inr s \<Longrightarrow> s \<in> set (db_submissions d) \<and> s_id s = jj_submission j"
  by (auto simp: submission_of_def split: option.splits dest: row_get_SomeD)

lemma assert_ownedD:
  "assert_owned now g j = Inr () \<Longrightarrow> jj_claimed_by j = Some g \<and> active_job j"
  by (simp add: judge_queue.guard_iff active_job_def)

lemma start_ok:
  assumes ok: "queue_ok d" and run: "start now i g d = Inr d'"
  shows "queue_ok d'"
proof -
  obtain j where j: "lock_job i d = Inr j" using run by (auto simp: start_def)
  have mem: "j \<in> set (db_jobs d)" "job_ok j" using lock_jobD [OF j] ok by (auto simp: queue_ok_def)
  obtain s where s: "s \<in> set (db_submissions d)" "s_id s = jj_submission j" "get_submission_row (jj_submission j) d = Some s"
    using ok mem(1) by (rule queue_ok_submission)
  show ?thesis
  proof (cases "jj_status j = Job_RUNNING")
    case True
    then have d': "d' = save_job (extend_lease now j) d" using run j by (auto simp: start_def)
    show ?thesis unfolding d'
      by (rule queue_ok_job_only [OF ok mem(1), where j' = "extend_lease now j"]) (use mem True in \<open>auto simp: extend_lease_def job_ok_def coupled_def\<close>)
  next
    case False
    let ?j = "extend_lease now (j\<lparr>jj_status := Job_RUNNING, jj_started_at := Some now\<rparr>)"
    have own: "assert_owned now g j = Inr ()" "jj_status j = Job_CLAIMED" using run j False by (auto simp: start_def)
    have d': "db_jobs d' = row_put jj_id ?j (db_jobs d)"
      "db_submissions d' = rows_update (\<lambda>x. s_id x = jj_submission j) (\<lambda>s. s\<lparr>s_status := Sub_JUDGING\<rparr>) (db_submissions d)"
      using run j False by (auto simp: start_def)
    have "rows_update (\<lambda>x. s_id x = jj_submission j) (\<lambda>s. s\<lparr>s_status := Sub_JUDGING\<rparr>) (db_submissions d)
        = row_put s_id (s\<lparr>s_status := Sub_JUDGING\<rparr>) (db_submissions d)"
      by (rule rows_update_is_put) (use ok s in \<open>auto simp: queue_ok_def\<close>)
    note subs = d'(2) [unfolded this]
    have c: "unjudged s" using ok mem(1) s(1,2) own(2) by (auto simp: queue_ok_def coupled_def)
    show ?thesis
      by (rule queue_ok_put [OF ok mem(1) s(1,2) d'(1) _ _ subs])
        (use mem own(2) c in \<open>auto simp: extend_lease_def job_ok_def coupled_def unjudged_def\<close>)
  qed
qed

lemma record_cases_ok:
  assumes ok: "queue_ok d" and run: "record_cases now i g cases d = Inr d'"
  shows "queue_ok d'"
proof -
  obtain j s where j: "lock_job i d = Inr j" "assert_owned now g j = Inr ()" "submission_of j d = Inr s"
    using run by (auto simp: record_cases_def)
  have mem: "j \<in> set (db_jobs d)" "job_ok j" "s \<in> set (db_submissions d)" "s_id s = jj_submission j"
    using lock_jobD [OF j(1)] submission_ofD [OF j(3)] ok by (auto simp: queue_ok_def)
  have act: "active_job j" using assert_ownedD [OF j(2)] by simp
  then have c: "unjudged s" using ok mem by (auto simp: queue_ok_def coupled_def active_job_def)
  let ?j = "if jj_status j = Job_CLAIMED
      then j\<lparr>jj_status := Job_RUNNING, jj_started_at := (case jj_started_at j of Some t \<Rightarrow> Some t | None \<Rightarrow> Some now)\<rparr> else j"
  obtain s' where subs: "db_submissions d' = row_put s_id s' (db_submissions d)" "s_id s' = s_id s"
      "s_status s' = Sub_JUDGING" "s_result s' = s_result s" "s_points s' = s_points s" "s_judged_on s' = s_judged_on s"
    and jobs: "db_jobs d' = row_put jj_id (extend_lease now ?j) (db_jobs d)"
    using run j by (auto simp: record_cases_def Let_def case_prod_beta)
  show ?thesis
    by (rule queue_ok_put [OF ok mem(1,3,4) jobs _ _ subs(1,2)])
      (use mem(2) act c subs in \<open>auto simp: extend_lease_def job_ok_def coupled_def unjudged_def active_job_def\<close>)
qed

lemma judged_submissionD:
  "judged_submission d j s = Inr s' \<Longrightarrow> s_id s' = s_id s \<and> s_result s' \<noteq> None \<and> s_status s' \<in> {Sub_COMPLETED, Sub_ERROR}"
  by (auto simp: judged_submission_def apply_run_result_def apply_summary_def score_def Let_def split: if_splits option.splits)

lemma finish_cases:
  assumes "finish env now i g payload d = Inr (s', d')"
  obtains (already) j where "lock_job i d = Inr j" "submission_of j d = Inr s'" "jj_status j = Job_SUCCEEDED"
      "jj_claimed_by j = Some g" "d' = d"
  | (judged) j s s0 where "lock_job i d = Inr j" "submission_of j d = Inr s" "assert_owned now g j = Inr ()"
      "judged_submission d j s = Inr s0"
      "s' = s0\<lparr>s_judged_at := Some now, s_judged_on := Some g, s_error_message := fi_error_message payload\<rparr>"
      "db_jobs d' = row_put jj_id (j\<lparr>jj_status := Job_SUCCEEDED, jj_finished_at := Some now,
           jj_lease_expires_at := None, jj_last_error := []\<rparr>) (db_jobs d)"
      "db_submissions d' = row_put s_id s' (db_submissions d)"
proof -
  obtain j s where j: "lock_job i d = Inr j" and s: "submission_of j d = Inr s"
    using assms by (auto simp: finish_def)
  show ?thesis
  proof (cases "jj_status j = Job_SUCCEEDED")
    case True
    then show ?thesis using assms j s by (intro already [of j]) (simp_all add: finish_def)
  next
    case False
    then have own: "assert_owned now g j = Inr ()" using assms j s by (auto simp: finish_def)
    obtain s0 where s0: "judged_submission d j s = Inr s0" using assms j s False own by (auto simp: finish_def)
    have act: "jj_status j \<in> {Job_CLAIMED, Job_RUNNING}" using own by (simp add: judge_queue.guard_iff)
    then show ?thesis using assms j s own s0 False
      by (intro judged [of j s s0]) (auto simp: finish_def Let_def)
  qed
qed

lemma finish_ok:
  assumes ok: "queue_ok d" and run: "finish env now i g payload d = Inr (s', d')"
  shows "queue_ok d'"
  using run
proof (cases rule: finish_cases)
  case already
  then show ?thesis using ok by simp
next
  case (judged j s s0)
  have mem: "j \<in> set (db_jobs d)" "job_ok j" "s \<in> set (db_submissions d)" "s_id s = jj_submission j"
    using lock_jobD [OF judged(1)] submission_ofD [OF judged(2)] ok by (auto simp: queue_ok_def)
  show ?thesis
    by (rule queue_ok_put [OF ok mem(1,3,4) judged(6) _ _ judged(7)])
      (use mem(2) assert_ownedD [OF judged(3)] judged_submissionD [OF judged(4)] judged(5) in
        \<open>auto simp: job_ok_def coupled_def active_job_def\<close>)
qed

lemma fail_cases:
  assumes "fail env now i g payload d = Inr (s', d')"
  obtains (already) j where "lock_job i d = Inr j" "submission_of j d = Inr s'" "jj_status j = Job_FAILED"
      "jj_claimed_by j = Some g" "d' = d"
  | (failed) j s where "lock_job i d = Inr j" "submission_of j d = Inr s" "assert_owned now g j = Inr ()"
      "s' = (reset_submission Sub_ERROR (Some (fail_verdict (fa_result payload))) (fa_error_message payload) (Some now) s)
              \<lparr>s_judged_on := Some g\<rparr>"
      "db_jobs d' = row_put jj_id (j\<lparr>jj_status := Job_FAILED, jj_finished_at := Some now,
           jj_lease_expires_at := None, jj_last_error := s_error_message s'\<rparr>) (db_jobs d)"
      "db_submissions d' = row_put s_id s' (db_submissions d)"
proof -
  obtain j s where j: "lock_job i d = Inr j" and s: "submission_of j d = Inr s"
    using assms by (auto simp: fail_def)
  show ?thesis
  proof (cases "jj_status j = Job_FAILED")
    case True
    then show ?thesis using assms j s by (intro already [of j]) (simp_all add: fail_def)
  next
    case False
    then have own: "assert_owned now g j = Inr ()" using assms j s by (auto simp: fail_def)
    have act: "jj_status j \<in> {Job_CLAIMED, Job_RUNNING}" using own by (simp add: judge_queue.guard_iff)
    then show ?thesis using assms j s own False
      by (intro failed [of j s]) (auto simp: fail_def Let_def)
  qed
qed

lemma fail_ok:
  assumes ok: "queue_ok d" and run: "fail env now i g payload d = Inr (s', d')"
  shows "queue_ok d'"
  using run
proof (cases rule: fail_cases)
  case already
  then show ?thesis using ok by simp
next
  case (failed j s)
  have mem: "j \<in> set (db_jobs d)" "job_ok j" "s \<in> set (db_submissions d)" "s_id s = jj_submission j"
    using lock_jobD [OF failed(1)] submission_ofD [OF failed(2)] ok by (auto simp: queue_ok_def)
  show ?thesis
    by (rule queue_ok_put [OF ok mem(1,3,4) failed(5) _ _ failed(6)])
      (use mem(2) assert_ownedD [OF failed(3)] failed(4) in
        \<open>auto simp: job_ok_def coupled_def active_job_def fail_verdict_def\<close>)
qed

lemma heartbeat_ok:
  assumes ok: "queue_ok d" and run: "heartbeat env now token ld d = Inr d'"
  shows "queue_ok d'"
proof -
  obtain g where g: "request_judge env token d = Inr g" using run by (auto simp: heartbeat_def)
  then have d': "db_submissions d' = db_submissions d"
    "db_jobs d' = map (\<lambda>j. if jj_claimed_by j = Some (j_id g) \<and> active_job j then extend_lease now j else j) (db_jobs d)"
    using run by (auto simp: heartbeat_def Let_def save_judge_def rows_update_def)
  show ?thesis
    by (rule queue_ok_map_jobs [OF ok d']) (auto simp: extend_lease_def job_ok_def active_job_def)
qed

lemma create_ok:
  assumes ok: "queue_ok d" and run: "create_submission env now u p l code pa mode ci eo d = Inr (s, d')"
  shows "queue_ok d'"
proof -
  let ?i = "fresh_key s_id (db_submissions d)" and ?k = "fresh_key jj_id (db_jobs d)"
  obtain pkg where pkg: "validate_submission env now u p l code mode ci eo d = Inr pkg"
    using run by (auto simp: create_submission_def)
  let ?j = "(new_job ?k ?i (map_option pk_id pkg) (l_id l) now)\<lparr>jj_config := build_job_config p l pkg pa mode ci eo d\<rparr>"
  have s: "s_id s = ?i" "s_status s = Sub_QUEUED" "unjudged s"
    and d': "db_submissions d' = db_submissions d @ [s]" "db_jobs d' = db_jobs d @ [?j]"
    using run pkg by (auto simp: create_submission_def insert_submission_def Let_def new_submission_def unjudged_def)
  have j: "jj_id ?j = ?k" "jj_submission ?j = ?i" "jj_status ?j = Job_QUEUED" "job_ok ?j"
    by (simp_all add: new_job_def job_ok_def)
  have fresh: "?i \<notin> s_id ` set (db_submissions d)" "?k \<notin> jj_id ` set (db_jobs d)"
    by (rule fresh_key_notin)+
  moreover have "?i \<notin> jj_submission ` set (db_jobs d)" using ok fresh(1) by (simp add: queue_ok_def)
  ultimately show ?thesis using ok s j by (auto simp: queue_ok_def d' coupled_def image_iff)
qed

lemma job_of_submissionD: "job_of_submission i d = Some j \<Longrightarrow> j \<in> set (db_jobs d) \<and> jj_submission j = i"
  by (auto simp: job_of_submission_def dest: sort_first_in)

lemma queue_ok_job_of_submission:
  assumes "queue_ok d" and "s \<in> set (db_submissions d)"
  obtains j where "job_of_submission (s_id s) d = Some j"
proof -
  have "s_id s \<in> jj_submission ` set (db_jobs d)" using assms by (auto simp: queue_ok_def)
  then have "filter (\<lambda>j. jj_submission j = s_id s) (db_jobs d) \<noteq> []" by (auto simp: filter_empty_conv)
  then have "sort_key queue_key (filter (\<lambda>j. jj_submission j = s_id s) (db_jobs d)) \<noteq> []"
    by (metis length_sort length_0_conv)
  then show ?thesis using that by (cases "sort_key queue_key (filter (\<lambda>j. jj_submission j = s_id s) (db_jobs d))")
      (auto simp: job_of_submission_def)
qed

lemma rejudge_cases:
  assumes "rejudge_submission now i d = Inr d'" and "queue_ok d"
  obtains s j cf where "s \<in> set (db_submissions d)" "s_id s = i" "j \<in> set (db_jobs d)" "jj_submission j = i"
    "db_jobs d' = row_put jj_id (requeued_job cf j) (db_jobs d)"
    "db_submissions d' = row_put s_id (reset_submission Sub_QUEUED None [] None s) (db_submissions d)"
    "db_test_cases d' = rows_delete (\<lambda>t. t_submission t = i) (db_test_cases d)"
proof -
  obtain s where s: "get_submission_row i d = Some s"
    using assms(1) by (auto simp: rejudge_submission_def split: option.splits)
  have mem: "s \<in> set (db_submissions d)" "s_id s = i" using row_get_SomeD [OF s] by auto
  obtain j where j: "job_of_submission i d = Some j"
    using queue_ok_job_of_submission [OF assms(2) mem(1)] mem(2) by auto
  obtain p l where pl: "row_get p_id (s_problem s) (db_problems d) = Some p" "row_get l_id (s_language s) (db_languages d) = Some l"
    using assms(1) s by (auto simp: rejudge_submission_def split: option.splits)
  let ?cf = "build_job_config p l (package_of d (jj_package j)) (participation_of s d) (s_mode s) (s_custom_input s)
      (s_custom_expected_output s) d"
  have "d' = publish_submission ''submission.status'' i [(''status'', JStr (status_code Sub_QUEUED))]
      (save_job (requeued_job ?cf j) (delete_test_cases i (save_submission (reset_submission Sub_QUEUED None [] None s) d)))"
    using assms(1) s j pl by (simp add: rejudge_submission_def Let_def)
  then show ?thesis
    using that [OF mem, of j ?cf] job_of_submissionD [OF j] by (simp add: delete_test_cases_def)
qed

lemma rejudge_ok:
  assumes ok: "queue_ok d" and run: "rejudge_submission now i d = Inr d'"
  shows "queue_ok d'"
proof -
  obtain s j cf where r: "s \<in> set (db_submissions d)" "s_id s = i" "j \<in> set (db_jobs d)" "jj_submission j = i"
    "db_jobs d' = row_put jj_id (requeued_job cf j) (db_jobs d)"
    "db_submissions d' = row_put s_id (reset_submission Sub_QUEUED None [] None s) (db_submissions d)"
    using run ok by (rule rejudge_cases)
  have "0 < jj_max_attempts j" using ok r(3) by (auto simp: queue_ok_def job_ok_def)
  then show ?thesis
    by (intro queue_ok_put [OF ok r(3,1) _ r(5) _ _ r(6)])
      (use r in \<open>auto simp: requeued_job_def job_ok_def coupled_def unjudged_def\<close>)
qed

section \<open>The step relation\<close>

text \<open>Everything that happens to the queue: submissions are created, rejudged and published, workers
  claim, start, report, finish, fail and send heartbeats, at arbitrary instants and in any order; a
  call that raises changes nothing. Contest scores, statistics and events change with them.\<close>

inductive queue_step :: "env \<Rightarrow> db \<Rightarrow> db \<Rightarrow> bool" for env where
  create: "create_submission env now u p l code pa mode ci eo d = Inr (s, d') \<Longrightarrow> queue_step env d d'"
| rejudge: "rejudge_submission now i d = Inr d' \<Longrightarrow> queue_step env d d'"
| expire: "expire_stale_jobs now d = (n, d') \<Longrightarrow> queue_step env d d'"
| claim: "claim_job now g ls d = (r, d') \<Longrightarrow> queue_step env d d'"
| start_job: "start now i g d = Inr d' \<Longrightarrow> queue_step env d d'"
| record_batch_cases: "record_cases now i g cases d = Inr d' \<Longrightarrow> queue_step env d d'"
| finish_job: "finish env now i g finish_payload d = Inr (s, d') \<Longrightarrow> queue_step env d d'"
| fail_job: "fail env now i g fail_payload d = Inr (s, d') \<Longrightarrow> queue_step env d d'"
| beat: "heartbeat env now token ld d = Inr d' \<Longrightarrow> queue_step env d d'"
| visibility: "get_submission i d = Inr s0 \<Longrightarrow> set_submission_public s0 b d = (s, d') \<Longrightarrow> queue_step env d d'"
| share: "get_submission i d = Inr s0 \<Longrightarrow> create_share_token t s0 d = (s, d') \<Longrightarrow> queue_step env d d'"
| revoke: "get_submission i d = Inr s0 \<Longrightarrow> revoke_share_token s0 d = (s, d') \<Longrightarrow> queue_step env d d'"

inductive queue_reachable :: "env \<Rightarrow> db \<Rightarrow> bool" for env where
  initial: "db_jobs d = [] \<Longrightarrow> db_submissions d = [] \<Longrightarrow> queue_reachable env d"
| step: "queue_reachable env d \<Longrightarrow> queue_step env d d' \<Longrightarrow> queue_reachable env d'"

lemma get_submissionD: "get_submission i d = Inr s \<Longrightarrow> s \<in> set (db_submissions d) \<and> s_id s = i"
  by (auto simp: get_submission_def split: option.splits dest: row_get_SomeD)

lemma save_flag_ok:
  assumes "queue_ok d" and "get_submission i d = Inr s" and "s_id s' = s_id s"
    and "s_status s' = s_status s" "s_result s' = s_result s" "s_points s' = s_points s" "s_judged_on s' = s_judged_on s"
  shows "queue_ok (save_submission s' d)"
proof (rule queue_ok_submission_only [OF assms(1)])
  show "s \<in> set (db_submissions d)" using get_submissionD [OF assms(2)] by simp
  show "coupled j s \<Longrightarrow> coupled j s'" for j by (auto simp: coupled_def unjudged_def assms(4-7) split: job_status.splits)
qed (simp_all add: assms(3))

lemma queue_step_ok: "queue_step env d d' \<Longrightarrow> queue_ok d \<Longrightarrow> queue_ok d'"
proof (induction rule: queue_step.induct)
  case (expire now d n d')
  then show ?case using expire_stale_ok [of d now] by simp
next
  case (visibility i d s0 b s d')
  then show ?case using save_flag_ok [of d i s0 "s0\<lparr>s_is_public := b\<rparr>"] by (auto simp: set_submission_public_def Let_def)
next
  case (share i d s0 t s d')
  then show ?case using save_flag_ok [of d i s0 "s0\<lparr>s_share_token := Some t\<rparr>"] by (auto simp: create_share_token_def Let_def)
next
  case (revoke i d s0 s d')
  then show ?case using save_flag_ok [of d i s0 "s0\<lparr>s_share_token := None\<rparr>"] by (auto simp: revoke_share_token_def Let_def)
qed (blast intro: create_ok rejudge_ok claim_ok start_ok record_cases_ok finish_ok fail_ok heartbeat_ok)+

lemma queue_reachable_ok: "queue_reachable env d \<Longrightarrow> queue_ok d"
proof (induction rule: queue_reachable.induct)
  case (initial d)
  then show ?case by (simp add: queue_ok_def)
qed (rule queue_step_ok)

section \<open>The queue order\<close>

lemma first_sort_key_least:
  assumes "first (sort_key f xs) = Some x" and "y \<in> set xs"
  shows "f x \<le> f y"
proof -
  obtain ys where ys: "sort_key f xs = x # ys" using assms(1) by (cases "sort_key f xs") auto
  have "sorted (map f (x # ys))" using sorted_sort_key [of f xs] ys by simp
  moreover have "y \<in> set (x # ys)" using assms(2) ys by (metis set_sort)
  ultimately show ?thesis by (auto simp: sorted_map)
qed

lemma claim_none:
  assumes "claim_job now g ls d = (None, d')" and "x \<in> set (db_jobs (snd (expire_stale_jobs now d)))"
  shows "\<not> claimable (snd (expire_stale_jobs now d)) ls x"
proof
  assume c: "claimable (snd (expire_stale_jobs now d)) ls x"
  let ?d = "snd (expire_stale_jobs now d)"
  have "x \<in> set (sort_key queue_key (filter (claimable ?d ls) (db_jobs ?d)))" using assms(2) c by simp
  moreover have "first (sort_key queue_key (filter (claimable ?d ls) (db_jobs ?d))) = None"
    using assms(1) by (auto simp: claim_job_def Let_def split: option.splits)
  ultimately show False by (metis first_None_iff empty_iff empty_set)
qed

section \<open>What finish and rejudge settle\<close>

lemma judged_submission_id: "judged_submission d j s = Inr s0 \<Longrightarrow> s_id s0 = s_id s"
  using judged_submissionD by blast

lemma row_get_row_put: "key r' = key r \<Longrightarrow> row_get key (key r) rows = Some r \<Longrightarrow> row_get key (key r) (row_put key r' rows) = Some r'"
  by (simp add: row_get_put)

lemma finish_settles:
  assumes "finish env now i g payload d = Inr (s', d')"
  shows "\<exists>j'. get_job i d' = Some j' \<and> jj_status j' = Job_SUCCEEDED \<and> jj_claimed_by j' = Some g
      \<and> get_submission_row (jj_submission j') d' = Some s'"
  using assms
proof (cases rule: finish_cases)
  case (already j)
  then show ?thesis by (auto simp: lock_job_def submission_of_def split: option.splits)
next
  case (judged j s s0)
  have j: "get_job i d = Some j" "jj_id j = i" using lock_jobD [OF judged(1)] by auto
  have s: "get_submission_row (jj_submission j) d = Some s" "s_id s = jj_submission j"
    using judged(2) submission_ofD [OF judged(2)] by (auto simp: submission_of_def split: option.splits)
  have "s_id s' = jj_submission j" using judged(5) judged_submission_id [OF judged(4)] s(2) by simp
  then show ?thesis using j s judged(6,7) assert_ownedD [OF judged(3)] by (simp add: row_get_put)
qed

lemma finish_again:
  assumes "get_job i d = Some j" "jj_status j = Job_SUCCEEDED" "jj_claimed_by j = Some g"
    and "get_submission_row (jj_submission j) d = Some s"
  shows "finish env now i g payload d = Inr (s, d)"
  using assms by (simp add: finish_def lock_job_def submission_of_def)

lemma unowned_rejected:
  assumes "get_job i d = Some j" "jj_status j = Job_QUEUED" "jj_claimed_by j = None"
  shows "start now i g d = Inl (PermissionDeniedError ''This job is claimed by another judge.'')"
    and "record_cases now i g cases d = Inl (PermissionDeniedError ''This job is claimed by another judge.'')"
    and "get_submission_row (jj_submission j) d = Some s \<Longrightarrow>
           finish env now i g fp d = Inl (PermissionDeniedError ''This job is claimed by another judge.'')
         \<and> fail env now i g ep d = Inl (PermissionDeniedError ''This job is claimed by another judge.'')"
  using assms by (simp_all add: start_def record_cases_def finish_def fail_def lock_job_def assert_owned_def submission_of_def)

lemma rejudge_settles:
  assumes "queue_ok d" and "rejudge_submission now i d = Inr d'"
  shows "\<exists>j s. get_job (jj_id j) d' = Some j \<and> jj_submission j = i \<and> jj_status j = Job_QUEUED \<and> jj_claimed_by j = None
      \<and> get_submission_row i d' = Some s \<and> unjudged s \<and> s_status s = Sub_QUEUED \<and> cases_of i (db_test_cases d') = []"
proof -
  obtain s j cf where r: "s \<in> set (db_submissions d)" "s_id s = i" "j \<in> set (db_jobs d)" "jj_submission j = i"
    "db_jobs d' = row_put jj_id (requeued_job cf j) (db_jobs d)"
    "db_submissions d' = row_put s_id (reset_submission Sub_QUEUED None [] None s) (db_submissions d)"
    "db_test_cases d' = rows_delete (\<lambda>t. t_submission t = i) (db_test_cases d)"
    using assms(2,1) by (rule rejudge_cases)
  have "get_job (jj_id j) d = Some j" "get_submission_row i d = Some s"
    using row_get_member [of jj_id "db_jobs d" j] row_get_member [of s_id "db_submissions d" s] r assms(1)
    by (auto simp: queue_ok_def)
  then show ?thesis using r
    by (intro exI [of _ "requeued_job cf j"] exI [of _ "reset_submission Sub_QUEUED None [] None s"])
      (auto simp: requeued_job_def row_get_put unjudged_def cases_of_def rows_delete_def)
qed

section \<open>A queue to look at\<close>

definition sample_problem :: problem where
  "sample_problem = (new_problem 5)\<lparr>p_visibility := Prob_PUBLIC\<rparr>"

definition sample_language :: language where
  "sample_language = \<lparr>l_id = 1, l_key = ''py'', l_is_enabled = True, l_name = ''Python'', l_short_name = ''Py'',
     l_ace_mode = ''python'', l_pygments_name = ''python'', l_description = [], l_extension = ''py''\<rparr>"

definition sample_package :: package where
  "sample_package = \<lparr>pk_id = 9, pk_problem = 5, pk_version = 1, pk_sha256 = ''sha'', pk_manifest = sample_manifest, pk_is_active = True\<rparr>"

definition sample_site :: db where
  "sample_site = empty_db\<lparr>db_users := [new_user 7], db_languages := [sample_language], db_problems := [sample_problem],
     db_packages := [sample_package], db_judges := [new_judge 2 0, new_judge 3 0]\<rparr>"

definition sample_config :: job_config where
  "sample_config = build_job_config sample_problem sample_language (Some sample_package) None Mode_SUBMIT [] [] sample_site"

definition sample_row :: submission where
  "sample_row = new_submission 1 7 5 1 0"

definition sample_job :: judge_job where
  "sample_job = (new_job 1 1 (Some 9) 1 0)\<lparr>jj_config := sample_config\<rparr>"

definition sample_created :: db where
  "sample_created = publish_submission ''submission.status'' 1 [(''status'', JStr (status_code Sub_QUEUED))]
     (sample_site\<lparr>db_submissions := [sample_row], db_sources := [\<lparr>src_submission = 1, src_code = ''x''\<rparr>],
        db_jobs := [sample_job]\<rparr>)"

definition sample_claimed :: db where
  "sample_claimed = save_job (claimed_job (seconds 1) 2 sample_job) sample_created"

lemma sample_validates:
  "validate_submission sample_env 0 (new_user 7) sample_problem sample_language ''x'' Mode_SUBMIT [] [] sample_site
     = Inr (Some sample_package)"
proof -
  have "active_package 5 sample_site = Some sample_package" by code_simp
  moreover have "is_accessible_by (Some (new_user 7)) sample_problem" by code_simp
  moreover have "recent_count 0 (new_user 7) Mode_SUBMIT sample_site = 0" by code_simp
  moreover have "p_id sample_problem = 5" "p_languages_allowed sample_problem = []" "l_is_enabled sample_language"
    by code_simp+
  ultimately show ?thesis
    by (simp add: validate_submission_def validate_source_code_size_def validate_problem_access_def validate_language_def
        check_rate_limit_def sample_env_def)
qed

lemma sample_tables [simp]:
  "db_jobs sample_site = []" "db_submissions sample_site = []" "db_sources sample_site = []" "db_languages sample_site = [sample_language]"
  "p_id sample_problem = 5" "l_id sample_language = 1" "u_id (new_user 7) = 7"
  "db_jobs sample_created = [sample_job]" "db_submissions sample_created = [sample_row]"
  "jj_id sample_job = 1" "jj_submission sample_job = 1" "jj_status sample_job = Job_QUEUED" "s_id sample_row = 1"
  "jj_language sample_job = 1" "jj_claimed_by sample_job = None"
  by (simp_all add: sample_site_def empty_db_def sample_problem_def sample_language_def new_problem_def new_user_def
      sample_created_def sample_job_def new_job_def sample_row_def new_submission_def)

lemma sample_create:
  "create_submission sample_env 0 (new_user 7) sample_problem sample_language ''x'' None Mode_SUBMIT [] [] sample_site
     = Inr (sample_row, sample_created)"
  by (simp add: create_submission_def sample_validates insert_submission_def Let_def sample_created_def fresh_key_def
      sample_job_def sample_config_def sample_row_def new_submission_def)
    (simp add: sample_package_def)

lemma sample_claim: "claim_job (seconds 1) 2 [''py''] sample_created = (Some (claimed_job (seconds 1) 2 sample_job), sample_claimed)"
proof -
  have "stale_jobs (seconds 1) sample_created = []" by (simp add: stale_jobs_def stale_job_def active_job_def)
  moreover have "claimable sample_created [''py''] sample_job"
    by (simp add: claimable_def language_key_def row_get_def sample_created_def) (simp add: sample_language_def)
  ultimately show ?thesis by (simp add: claim_job_def expire_stale_jobs_def Let_def sample_claimed_def)
qed

lemma sample_reachable: "queue_reachable sample_env sample_claimed"
proof -
  have "queue_reachable sample_env sample_site" by (rule queue_reachable.initial) simp_all
  then have "queue_reachable sample_env sample_created"
    by (rule queue_reachable.step) (rule queue_step.create [OF sample_create])
  then show ?thesis by (rule queue_reachable.step) (rule queue_step.claim [OF sample_claim])
qed

lemma sample_language_key [simp]: "l_key sample_language = ''py''"
  by (simp add: sample_language_def)

section \<open>Properties\<close>

text \<open>C1: In every state the flow reaches, whatever workers and users do and in whatever order: jobs and
  submissions are in one-to-one correspondence; a queued job has no owner, no lease and attempts
  left; an active one has an owner, a lease and at most \<open>max_attempts\<close> attempts; a finished one has an
  owner and no lease; and the status, result and points of the submission agree with its job.\<close>

theorem queue_invariant:
  assumes "queue_reachable env d"
  shows "queue_ok d"
  using assms by (rule queue_reachable_ok)

theorem queue_invariant_witness: "queue_ok sample_claimed"
  using sample_reachable by (rule queue_invariant)

text \<open>The verdict is the server's: nothing of the worker's final report but its error message has
  any effect, in particular not the points, the verdict or the counts it claims.\<close>

theorem finish_ignores_claims:
  "finish env now i g (payload\<lparr>fi_status := a, fi_result := b, fi_points := c, fi_time_used := e, fi_memory_used := f,
     fi_case_total := h, fi_case_passed := k\<rparr>) d = finish env now i g payload d"
proof -
  have "fi_error_message (payload\<lparr>fi_status := a, fi_result := b, fi_points := c, fi_time_used := e, fi_memory_used := f,
     fi_case_total := h, fi_case_passed := k\<rparr>) = fi_error_message payload" by simp
  then show ?thesis by (simp only: finish_def)
qed

definition sample_finish :: finish_in where
  "sample_finish = \<lparr>fi_package_sha256 = None, fi_status = ''completed'', fi_result = Some ''AC'', fi_points = 100,
     fi_time_used = 0, fi_memory_used = 0, fi_case_total = 2, fi_case_passed = 2, fi_error_message = []\<rparr>"

lemma sample_claimed_tables [simp]:
  "db_jobs sample_claimed = [claimed_job (seconds 1) 2 sample_job]" "db_submissions sample_claimed = [sample_row]"
  by (simp_all add: sample_claimed_def row_put_def rows_update_def)

lemma sample_claimed_lookups:
  "lock_job 1 sample_claimed = Inr (claimed_job (seconds 1) 2 sample_job)"
  "submission_of (claimed_job (seconds 1) 2 sample_job) sample_claimed = Inr sample_row"
  "assert_owned (seconds 2) 2 (claimed_job (seconds 1) 2 sample_job) = Inr ()"
  "s_mode sample_row = Mode_SUBMIT"
  by (simp_all add: lock_job_def row_get_def submission_of_def assert_owned_def lease_seconds_def seconds_def)
    (simp add: sample_row_def new_submission_def)

lemma sample_claimed_package: "package_of sample_claimed (jj_package (claimed_job (seconds 1) 2 sample_job)) = Some sample_package"
  by code_simp

lemma sample_finishes: "\<exists>s d'. finish sample_env (seconds 2) 1 2 p sample_claimed = Inr (s, d')"
  by (simp add: finish_def sample_claimed_lookups sample_claimed_package judged_submission_def Let_def del: One_nat_def)

text \<open>Finishing a job twice changes nothing: the owner gets the same submission back, whatever the
  second report says and whenever it arrives, and the database is left as it is.\<close>

theorem finish_idempotent:
  assumes "finish env now i g payload d = Inr (s, d')"
  shows "finish env now' i g payload' d' = Inr (s, d')"
  using finish_settles [OF assms] finish_again by blast

theorem finish_idempotent_witness:
  "\<exists>s d'. finish sample_env (seconds 2) 1 2 sample_finish sample_claimed = Inr (s, d')
     \<and> finish sample_env (seconds 900) 1 2 (sample_finish\<lparr>fi_points := 0\<rparr>) d' = Inr (s, d')"
  using sample_finishes [of sample_finish] finish_idempotent by blast

text \<open>C5: A scored submission that is judged gets the points and the verdict the scoring service
  computes from the recorded cases and the manifest of the job's package.\<close>

theorem finish_scores:
  assumes "finish env now i g payload d = Inr (s', d')" and "get_job i d = Some j" and "jj_status j \<noteq> Job_SUCCEEDED"
    and "get_submission_row (jj_submission j) d = Some s" and "s_mode s = Mode_SUBMIT"
    and "package_of d (jj_package j) = Some p"
  shows "let r = score (pk_manifest p) (map report_of (sorted_cases (s_id s) (db_test_cases d)))
         in s_points s' = sum_points r \<and> s_result s' = Some (sum_result r) \<and> s_status s' = sum_status r
          \<and> get_submission_row (s_id s) d' = Some s'"
  using assms(1)
proof (cases rule: finish_cases)
  case (already j1)
  then show ?thesis using assms(2,3) by (simp add: lock_job_def)
next
  case (judged j1 s1 s0)
  then have [simp]: "j1 = j" "s1 = s" using assms(2,4) by (simp_all add: lock_job_def submission_of_def)
  have "s_id s = jj_submission j" using assms(4) row_get_SomeD by metis
  then show ?thesis using judged(4,5,7) assms(4-6)
    by (auto simp: judged_submission_def Let_def apply_summary_def row_get_put)
qed

theorem finish_scores_witness:
  "\<exists>s d'. finish sample_env (seconds 2) 1 2 sample_finish sample_claimed = Inr (s, d') \<and> s_points s = 0"
proof -
  let ?j = "claimed_job (seconds 1) 2 sample_job"
  obtain s d' where run: "finish sample_env (seconds 2) 1 2 sample_finish sample_claimed = Inr (s, d')"
    using sample_finishes by blast
  have "get_job 1 sample_claimed = Some ?j" "jj_status ?j \<noteq> Job_SUCCEEDED"
    "get_submission_row (jj_submission ?j) sample_claimed = Some sample_row"
    by (simp_all add: row_get_def)
  note scores = finish_scores [OF run this sample_claimed_lookups(4) sample_claimed_package]
  have "sorted_cases (s_id sample_row) (db_test_cases sample_claimed) = []" by code_simp
  moreover have "sum_points (score (pk_manifest sample_package) []) = 0" by code_simp
  ultimately show ?thesis using scores run by (auto simp: Let_def)
qed

definition not_owner :: error where
  "not_owner = PermissionDeniedError ''This job is claimed by another judge.''"

text \<open>C6: A rejudge revokes every claim: until the job is claimed again no worker, the former owner
  included, can start it, report cases, finish or fail it, and no recorded case or result is left.\<close>

theorem rejudge_revokes:
  assumes "queue_ok d" and "rejudge_submission now i d = Inr d'"
  shows "\<exists>j s. jj_submission j = i \<and> get_job (jj_id j) d' = Some j \<and> get_submission_row i d' = Some s
      \<and> s_status s = Sub_QUEUED \<and> s_result s = None \<and> s_points s = 0 \<and> cases_of i (db_test_cases d') = []
      \<and> (\<forall>now' g cases fp ep. start now' (jj_id j) g d' = Inl not_owner \<and> record_cases now' (jj_id j) g cases d' = Inl not_owner
           \<and> finish env now' (jj_id j) g fp d' = Inl not_owner \<and> fail env now' (jj_id j) g ep d' = Inl not_owner)"
proof -
  obtain j s where js: "get_job (jj_id j) d' = Some j" "jj_submission j = i" "jj_status j = Job_QUEUED" "jj_claimed_by j = None"
      "get_submission_row i d' = Some s" "unjudged s" "s_status s = Sub_QUEUED" "cases_of i (db_test_cases d') = []"
    using rejudge_settles [OF assms] by blast
  then show ?thesis using unowned_rejected [OF js(1,3,4), folded not_owner_def]
    by (intro exI [of _ j] exI [of _ s]) (auto simp: unjudged_def)
qed

lemma sample_rejudge: "\<exists>d'. rejudge_submission (seconds 5) 1 sample_claimed = Inr d'"
proof -
  have "get_submission_row 1 sample_claimed = Some sample_row" "job_of_submission 1 sample_claimed = Some (claimed_job (seconds 1) 2 sample_job)"
    by (simp_all add: sample_claimed_def row_get_def job_of_submission_def row_put_def rows_update_def)
  moreover have "row_get p_id (s_problem sample_row) (db_problems sample_claimed) = Some sample_problem"
    "row_get l_id (s_language sample_row) (db_languages sample_claimed) = Some sample_language"
    "package_of sample_claimed (jj_package (claimed_job (seconds 1) 2 sample_job)) = Some sample_package"
    by code_simp+
  ultimately show ?thesis by (simp add: rejudge_submission_def Let_def)
qed

theorem rejudge_revokes_witness:
  "\<exists>d' (j::judge_job). rejudge_submission (seconds 5) 1 sample_claimed = Inr d' \<and> jj_submission j = 1
     \<and> finish sample_env (seconds 6) (jj_id j) 2 sample_finish d' = Inl not_owner"
proof -
  obtain d' where d': "rejudge_submission (seconds 5) 1 sample_claimed = Inr d'" using sample_rejudge by blast
  obtain j :: judge_job where "jj_submission j = 1" "finish sample_env (seconds 6) (jj_id j) 2 sample_finish d' = Inl not_owner"
    using rejudge_revokes [OF queue_reachable_ok [OF sample_reachable] d', of sample_env] by auto
  with d' show ?thesis by auto
qed

text \<open>A running job whose lease has expired is revived by its owner's repeated start, which checks
  no lease: a report that was refused is accepted after it.\<close>

theorem expired_lease_revived:
  "let j = (claimed_job 0 2 sample_job)\<lparr>jj_status := Job_RUNNING\<rparr>; late = seconds 100; d = sample_created\<lparr>db_jobs := [j]\<rparr>;
       d' = save_job (extend_lease late j) d
   in assert_owned late 2 j = Inl (JudgeJobConflictError ''The judge job lease has expired.'')
    \<and> start late 1 2 d = Inr d' \<and> assert_owned late 2 (extend_lease late j) = Inr ()"
  by (simp add: Let_def assert_owned_def lease_seconds_def seconds_def start_def lock_job_def row_get_def extend_lease_def)

text \<open>Neither a rejudge nor the collection of expired leases recalculates a contest: the
  participation keeps the points of a result that is gone.\<close>

theorem contest_score_left_behind:
  "db_participations (snd (expire_stale_jobs now d)) = db_participations d
   \<and> (case rejudge_submission now i d of Inr d' \<Rightarrow> db_participations d' = db_participations d | Inl _ \<Rightarrow> True)"
proof
  have "db_participations (expire_job now j d) = db_participations d" for j d
    by (simp add: expire_job_def expire_failed_def expire_requeued_def Let_def publish_submission_def publish_def
        update_submission_row_def save_job_def delete_test_cases_def)
  then have "db_participations (fold (expire_job now) js d) = db_participations d" for js
    by (induction js arbitrary: d) simp_all
  then show "db_participations (snd (expire_stale_jobs now d)) = db_participations d"
    by (simp add: expire_stale_jobs_def Let_def)
  show "case rejudge_submission now i d of Inr d' \<Rightarrow> db_participations d' = db_participations d | Inl _ \<Rightarrow> True"
    by (auto simp: rejudge_submission_def Let_def raise_if_def delete_test_cases_def split: option.splits sum.splits)
qed

text \<open>The statistics of a user follow only the submissions that complete: a worker that reports a
  failure leaves them as they are, also when the submission counted as accepted before a rejudge.\<close>

theorem failure_keeps_statistics:
  assumes "fail env now i g payload d = Inr (s, d')"
  shows "db_users d' = db_users d"
proof -
  have refresh: "db_users (refresh_contest_score env s d) = db_users d" for s d
  proof -
    have "recalculate_participation env c p d = Inr d' \<Longrightarrow> db_users d' = db_users d" for c p d'
      by (erule recalculate_InrD) simp
    then show ?thesis by (auto simp: refresh_contest_score_def split: option.splits sum.splits)
  qed
  have save: "s_status s = Sub_ERROR \<Longrightarrow> db_users (save_submission s d) = db_users d" for s d
    by (simp add: save_submission_def Let_def)
  obtain j s0 where js: "lock_job i d = Inr j" "submission_of j d = Inr s0" using assms by (auto simp: fail_def)
  show ?thesis
  proof (cases "jj_status j = Job_FAILED")
    case True
    then show ?thesis using assms js by (simp add: fail_def)
  next
    case False
    then have "assert_owned now g j = Inr ()" using assms js by (auto simp: fail_def)
    then show ?thesis using assms js False
      by (auto simp: fail_def Let_def refresh save)
  qed
qed

theorem failure_keeps_statistics_witness:
  "\<exists>s d'. fail sample_env (seconds 2) 1 2 \<lparr>fa_package_sha256 = None, fa_status = ''error'', fa_result = ''CE'', fa_error_message = []\<rparr>
      sample_claimed = Inr (s, d') \<and> db_users d' = db_users sample_claimed"
proof -
  have "\<exists>s d'. fail sample_env (seconds 2) 1 2 p sample_claimed = Inr (s, d')" for p
    by (simp add: fail_def sample_claimed_lookups Let_def del: One_nat_def)
  then show ?thesis using failure_keeps_statistics by blast
qed

text \<open>The same holds of shadow jobs, and a worker is never given a shadow job pinned to another
  judge.\<close>

theorem shadow_claims_are_exclusive:
  assumes "distinct (map sh_id (db_shadow_jobs d))" and "shadow_claim_job now g ls d = (Some j, d')"
    and "now' \<le> now + lease_seconds" and "shadow_claim_job now' g' ls' d' = (Some j', d'')"
  shows "sh_id j' \<noteq> sh_id j \<and> (sh_target_judge j = None \<or> sh_target_judge j = Some g)"
proof
  show "sh_id j' \<noteq> sh_id j" using assms by (rule shadow_queue.claims_exclusive)
  show "sh_target_judge j = None \<or> sh_target_judge j = Some g"
    using assms(2) by (rule shadow_claim_cases) (auto simp: shadow_claimed_def)
qed

definition sample_shadow :: "nat \<Rightarrow> shadow_job" where
  "sample_shadow i = new_shadow i 1 None 1 (Some (i + 1)) empty_config 0"

definition sample_shadows :: db where
  "sample_shadows = empty_db\<lparr>db_languages := [sample_language], db_shadow_jobs := [sample_shadow 1, sample_shadow 2]\<rparr>"

lemma sample_shadow_claims:
  "shadow_claim_job 0 2 [''py''] sample_shadows =
     (Some (shadow_claimed 0 2 (sample_shadow 1)), save_shadow (shadow_claimed 0 2 (sample_shadow 1)) sample_shadows)"
  "shadow_claim_job 1 3 [''py''] (save_shadow (shadow_claimed 0 2 (sample_shadow 1)) sample_shadows) =
     (Some (shadow_claimed 1 3 (sample_shadow 2)), save_shadow (shadow_claimed 1 3 (sample_shadow 2))
        (save_shadow (shadow_claimed 0 2 (sample_shadow 1)) sample_shadows))"
  by (simp_all add: sample_shadows_def shadow_claim_job_def shadow_requeue_def rows_update_def shadow_stale_def
      shadow_active_def Let_def save_shadow_def shadow_claimed_def sample_shadow_def new_shadow_def empty_db_def
      shadow_claimable_def language_key_def row_get_def sample_language_def row_put_def lease_seconds_def seconds_def)

theorem shadow_claims_are_exclusive_witness:
  "sh_id (shadow_claimed 1 3 (sample_shadow 2)) \<noteq> sh_id (shadow_claimed 0 2 (sample_shadow 1))"
  by (rule shadow_claims_are_exclusive [THEN conjunct1, OF _ sample_shadow_claims(1) _ sample_shadow_claims(2)])
    (simp_all add: sample_shadows_def sample_shadow_def new_shadow_def lease_seconds_def seconds_def)

definition scored_tables :: "db \<Rightarrow> submission list \<times> test_case list \<times> judge_job list \<times> user list \<times> participation list" where
  "scored_tables d = (db_submissions d, db_test_cases d, db_jobs d, db_users d, db_participations d)"

text \<open>A replay leaves the submission alone: no operation on shadow jobs changes a submission, a test
  case, a judge job, a user or a contest participation.\<close>

theorem shadow_isolated:
  "scored_tables (snd (shadow_claim_job now g ls d)) = scored_tables d
   \<and> map_sum id scored_tables (shadow_start now i g d) \<in> {Inr (scored_tables d)} \<union> range Inl
   \<and> map_sum id scored_tables (shadow_record_cases now i g cases d) \<in> {Inr (scored_tables d)} \<union> range Inl
   \<and> map_sum id (scored_tables \<circ> snd) (shadow_finish now i g fp d) \<in> {Inr (scored_tables d)} \<union> range Inl
   \<and> map_sum id (scored_tables \<circ> snd) (shadow_fail now i g ep d) \<in> {Inr (scored_tables d)} \<union> range Inl
   \<and> map_sum id (scored_tables \<circ> snd) (create_for_submission now s p tgt d) \<in> {Inr (scored_tables d)} \<union> range Inl"
proof -
  have save: "scored_tables (save_shadow j d) = scored_tables d" for j and d
    by (simp add: scored_tables_def save_shadow_def)
  have requeue: "scored_tables (shadow_requeue now d) = scored_tables d" by (simp add: scored_tables_def shadow_requeue_def)
  have claim: "scored_tables (snd (shadow_claim_job now g ls d)) = scored_tables d"
    by (simp add: shadow_claim_job_def Let_def save requeue split: option.splits)
  have inl: "r \<in> {Inr (scored_tables d)} \<union> range Inl" if "\<And>t. r = Inr t \<Longrightarrow> t = scored_tables d"
    for r :: "error + (submission list \<times> test_case list \<times> judge_job list \<times> user list \<times> participation list)"
    using that by (cases r) auto
  have "map_sum id scored_tables (shadow_start now i g d) \<in> {Inr (scored_tables d)} \<union> range Inl"
    by (rule inl) (cases "shadow_start now i g d"; auto simp: shadow_start_def save)
  moreover have "map_sum id scored_tables (shadow_record_cases now i g cases d) \<in> {Inr (scored_tables d)} \<union> range Inl"
    by (rule inl) (cases "shadow_record_cases now i g cases d"; auto simp: shadow_record_cases_def save)
  moreover have "map_sum id (scored_tables \<circ> snd) (shadow_finish now i g fp d) \<in> {Inr (scored_tables d)} \<union> range Inl"
    by (rule inl) (cases "shadow_finish now i g fp d"; auto simp: shadow_finish_def Let_def save)
  moreover have "map_sum id (scored_tables \<circ> snd) (shadow_fail now i g ep d) \<in> {Inr (scored_tables d)} \<union> range Inl"
    by (rule inl) (cases "shadow_fail now i g ep d"; auto simp: shadow_fail_def Let_def save)
  moreover have "map_sum id (scored_tables \<circ> snd) (create_for_submission now s p tgt d) \<in> {Inr (scored_tables d)} \<union> range Inl"
    by (rule inl) (cases "create_for_submission now s p tgt d"; auto simp: create_for_submission_def Let_def scored_tables_def)
  ultimately show ?thesis using claim by blast
qed

text \<open>A shadow job is handed out again however often its lease ran out: its \<open>max_attempts\<close> bounds
  nothing.\<close>

theorem shadow_attempts_unbounded:
  "let j = (new_shadow 1 1 None 1 None empty_config 0)\<lparr>sh_attempts := n, sh_max_attempts := 3\<rparr>;
       d = empty_db\<lparr>db_languages := [\<lparr>l_id = 1, l_key = ''py'', l_is_enabled = True, l_name = ''Python'', l_short_name = ''Py'',
     l_ace_mode = ''python'', l_pygments_name = ''python'', l_description = [], l_extension = ''py''\<rparr>], db_shadow_jobs := [j]\<rparr>
   in map_option sh_attempts (fst (shadow_claim_job now 2 [''py''] d)) = Some (n + 1)"
  by (simp add: Let_def shadow_claim_job_def shadow_requeue_def rows_update_def shadow_stale_def shadow_active_def
      new_shadow_def shadow_claimable_def language_key_def row_get_def shadow_claimed_def empty_db_def)

text \<open>Within the rate limits: when a user who is not staff has created a submission, the submissions of
  that mode the user made in the last minute, the new one included, are at most the configured limit.\<close>

theorem rate_limit_holds:
  assumes "create_submission env now u p l code pa mode ci eo d = Inr (s, d')" and "\<not> u_is_staff u"
  shows "recent_count now u mode d' \<le> (if mode = Mode_RUN then e_run_rate_limit env else e_submission_rate_limit env)"
proof -
  obtain pkg where v: "validate_submission env now u p l code mode ci eo d = Inr pkg"
    using assms(1) by (auto simp: create_submission_def)
  have "recent_count now u mode d < (if mode = Mode_RUN then e_run_rate_limit env else e_submission_rate_limit env)"
    using v assms(2) by (cases mode) (auto simp: validate_submission_def check_run_rate_limit_def check_rate_limit_def)
  moreover have "recent_count now u mode d' = Suc (recent_count now u mode d)"
    using assms(1) v by (auto simp: create_submission_def insert_submission_def Let_def recent_count_def new_submission_def
        publish_submission_def publish_def minutes_def seconds_def)
  ultimately show ?thesis by simp
qed

theorem rate_limit_holds_witness:
  "recent_count 0 (new_user 7) Mode_SUBMIT sample_created \<le> 30"
proof -
  have "\<not> u_is_staff (new_user 7)" "e_submission_rate_limit sample_env = 30" by (simp_all add: new_user_def sample_env_def)
  then show ?thesis using rate_limit_holds [OF sample_create] by simp
qed

end
