(* ===== verification/ContestFlow.thy ===== *)
theory ContestFlow
  imports Contests JobInvariant
begin

text \<open>
  The tables of contests under all operations of \<open>Contests\<close>: an invariant (schedules, one problem per
  label and per contest, one live and one virtual participation per user), its preservation by
  every operation, and the properties of joining, submitting, ranking and ending that rest on it.
\<close>

section \<open>The invariant\<close>

definition schedules_ok :: "contest list \<Rightarrow> bool" where
  "schedules_ok cs \<longleftrightarrow> distinct (map c_id cs) \<and> distinct (map c_key cs) \<and> (\<forall>c \<in> set cs. c_start_time c < c_end_time c)"

definition slots_ok :: "contest_problem list \<Rightarrow> bool" where
  "slots_ok cps \<longleftrightarrow> distinct (map cp_id cps) \<and> distinct (map (\<lambda>cp. (cp_contest cp, cp_problem cp)) cps)
     \<and> distinct (map (\<lambda>cp. (cp_contest cp, cp_label cp)) cps)"

definition entry_ok :: "participation \<Rightarrow> bool" where
  "entry_ok p \<longleftrightarrow> (case pa_status p of Part_LIVE \<Rightarrow> pa_virtual_start p = None
     | Part_VIRTUAL \<Rightarrow> pa_virtual_start p \<noteq> None | Part_SPECTATING \<Rightarrow> False)"

definition entries_ok :: "participation list \<Rightarrow> bool" where
  "entries_ok ps \<longleftrightarrow> distinct (map pa_id ps) \<and> distinct (map (\<lambda>p. (pa_contest p, pa_user p, pa_status p)) ps)
     \<and> (\<forall>p \<in> set ps. entry_ok p)"

definition contests_ok :: "db \<Rightarrow> bool" where
  "contests_ok d \<longleftrightarrow> schedules_ok (db_contests d) \<and> slots_ok (db_contest_problems d) \<and> entries_ok (db_participations d)"

text \<open>What the invariant reads of the rows; an update that keeps it keeps the invariant.\<close>

definition schedule_view :: "contest \<Rightarrow> nat \<times> string \<times> time \<times> time" where
  "schedule_view c = (c_id c, c_key c, c_start_time c, c_end_time c)"

definition slot_view :: "contest_problem \<Rightarrow> nat \<times> nat \<times> nat \<times> string" where
  "slot_view cp = (cp_id cp, cp_contest cp, cp_problem cp, cp_label cp)"

definition entry_view :: "participation \<Rightarrow> nat \<times> nat \<times> nat \<times> participation_status \<times> time option" where
  "entry_view p = (pa_id p, pa_contest p, pa_user p, pa_status p, pa_virtual_start p)"

lemma map_view: "map view xs = map view ys \<Longrightarrow> (\<And>x. g x = h (view x)) \<Longrightarrow> map g xs = map g ys"
proof -
  assume "map view xs = map view ys" and g: "\<And>x. g x = h (view x)"
  then have "map h (map view xs) = map h (map view ys)" by simp
  moreover have "g = h \<circ> view" by (rule ext) (simp add: g)
  ultimately show ?thesis by simp
qed

lemma ball_map_eq:
  assumes "map P xs = map P ys"
  shows "(\<forall>x \<in> set xs. P x) = (\<forall>x \<in> set ys. P x)"
proof -
  have "(\<forall>x \<in> set zs. P x) = (set (map P zs) \<subseteq> {True})" for zs by auto
  then show ?thesis by (simp only: assms)
qed

lemma schedules_view: "map schedule_view cs = map schedule_view cs' \<Longrightarrow> schedules_ok cs = schedules_ok cs'"
proof -
  assume v: "map schedule_view cs = map schedule_view cs'"
  have "map c_id cs = map c_id cs'" "map c_key cs = map c_key cs'"
    "map (\<lambda>c. c_start_time c < c_end_time c) cs = map (\<lambda>c. c_start_time c < c_end_time c) cs'"
    by (rule map_view [OF v, where h = fst] map_view [OF v, where h = "fst \<circ> snd"]
        map_view [OF v, where h = "\<lambda>(_, _, a, b). a < b"]; simp add: schedule_view_def)+
  then show ?thesis unfolding schedules_ok_def using ball_map_eq [of "\<lambda>c. c_start_time c < c_end_time c" cs cs'] by simp
qed

lemma slots_view: "map slot_view cs = map slot_view cs' \<Longrightarrow> slots_ok cs = slots_ok cs'"
proof -
  assume v: "map slot_view cs = map slot_view cs'"
  have "map cp_id cs = map cp_id cs'" "map (\<lambda>cp. (cp_contest cp, cp_problem cp)) cs = map (\<lambda>cp. (cp_contest cp, cp_problem cp)) cs'"
    "map (\<lambda>cp. (cp_contest cp, cp_label cp)) cs = map (\<lambda>cp. (cp_contest cp, cp_label cp)) cs'"
    by (rule map_view [OF v, where h = fst] map_view [OF v, where h = "\<lambda>(_, c, p, _). (c, p)"]
        map_view [OF v, where h = "\<lambda>(_, c, _, l). (c, l)"]; simp add: slot_view_def)+
  then show ?thesis by (simp only: slots_ok_def)
qed

lemma entries_view: "map entry_view cs = map entry_view cs' \<Longrightarrow> entries_ok cs = entries_ok cs'"
proof -
  assume v: "map entry_view cs = map entry_view cs'"
  have "map pa_id cs = map pa_id cs'" "map (\<lambda>p. (pa_contest p, pa_user p, pa_status p)) cs = map (\<lambda>p. (pa_contest p, pa_user p, pa_status p)) cs'"
    "map entry_ok cs = map entry_ok cs'"
    by (rule map_view [OF v, where h = fst] map_view [OF v, where h = "\<lambda>(_, c, u, s, _). (c, u, s)"]
        map_view [OF v, where h = "\<lambda>(_, _, _, s, vs). case s of Part_LIVE \<Rightarrow> vs = None | Part_VIRTUAL \<Rightarrow> vs \<noteq> None | Part_SPECTATING \<Rightarrow> False"];
        simp add: entry_view_def entry_ok_def)+
  then show ?thesis unfolding entries_ok_def using ball_map_eq [of entry_ok cs cs'] by simp
qed

definition same_views :: "db \<Rightarrow> db \<Rightarrow> bool" where
  "same_views d d' \<longleftrightarrow> map schedule_view (db_contests d') = map schedule_view (db_contests d)
     \<and> map slot_view (db_contest_problems d') = map slot_view (db_contest_problems d)
     \<and> map entry_view (db_participations d') = map entry_view (db_participations d)"

lemma same_views_refl [simp]: "same_views d d"
  by (simp add: same_views_def)

lemma same_views_trans: "same_views d d' \<Longrightarrow> same_views d' d'' \<Longrightarrow> same_views d d''"
  by (simp add: same_views_def)

lemma same_views_ok: "same_views d d' \<Longrightarrow> contests_ok d \<Longrightarrow> contests_ok d'"
  using schedules_view slots_view entries_view by (metis contests_ok_def same_views_def)

section \<open>Operations that keep the views\<close>

lemma create_submission_views: "create_submission env now u p l code pa mode ci eo d = Inr (s, d') \<Longrightarrow> same_views d d'"
  by (auto simp: create_submission_def insert_submission_def Let_def publish_submission_def publish_def same_views_def)

lemma submit_to_contest_views: "submit_to_contest env now u c code l src d = Inr (s, d') \<Longrightarrow> same_views d d'"
  by (auto simp: submit_to_contest_def dest: create_submission_views split: option.splits)

lemma set_disqualified_views: "same_views d (set_disqualified b c u d)"
  by (simp add: set_disqualified_def same_views_def map_rows_update entry_view_def)

lemma recalculate_participation_views: "recalculate_participation env c p d = Inr d' \<Longrightarrow> same_views d d'"
  by (erule recalculate_InrD) (simp add: same_views_def map_rows_update entry_view_def store_calculation_def)

lemma recalculate_contest_views: "recalculate_contest env c d = Inr d' \<Longrightarrow> same_views d d'"
  unfolding recalculate_contest_def
  by (erule fold_andThen_relates [where R = same_views]) (auto intro: recalculate_participation_views same_views_trans)

lemma publish_views: "same_views d d' \<Longrightarrow> same_views d (publish e d')"
  by (simp add: publish_def same_views_def)

text \<open>Rating a contest writes ratings, users and events only.\<close>

definition rating_frame :: "db \<Rightarrow> db \<Rightarrow> bool" where
  "rating_frame d d' \<longleftrightarrow> db_contests d' = db_contests d \<and> db_contest_problems d' = db_contest_problems d
     \<and> db_participations d' = db_participations d \<and> db_submissions d' = db_submissions d"

lemma rating_frame_views: "rating_frame d d' \<Longrightarrow> same_views d d'"
  by (simp add: rating_frame_def same_views_def)

lemma store_rating_frame: "rating_frame (snd st) (snd (store_rating env now c x st))"
proof -
  obtain item rank disp mean perf rows d where eq: "x = (item, rank, disp, mean, perf)" "st = (rows, d)"
    by (cases x; cases st) auto
  obtain r d1 where up: "upsert_rating (rating_row env now c item rank disp mean perf 0) d = (r, d1)"
    by (cases "upsert_rating (rating_row env now c item rank disp mean perf 0) d")
  then have "rating_frame d d1" by (auto simp: upsert_rating_def rating_frame_def Let_def split: option.splits)
  then show ?thesis using up
    by (simp add: eq store_rating_def Let_def sync_user_rating_def publish_def rating_frame_def)
qed

lemma store_fold_frame: "rating_frame (snd st) (snd (fold (store_rating env now c) xs st))"
proof (induction xs arbitrary: st)
  case (Cons x xs)
  show ?case using Cons.IH [of "store_rating env now c x st"] store_rating_frame [of st env now c x]
    by (simp add: rating_frame_def)
qed (simp add: rating_frame_def)

lemma calculate_ratings_frame:
  assumes "calculate_ratings env now c force d = Inr (rows, d')"
  shows "rating_frame d d'"
proof -
  have del: "rating_frame d (delete_contest_ratings c d)" by (simp add: delete_contest_ratings_def rating_frame_def)
  have "rating_frame d (snd (fold (store_rating env now c) xs ([], if force then delete_contest_ratings c d else d)))" for xs
    using store_fold_frame [of "([], if force then delete_contest_ratings c d else d)" env now c xs] del
    by (simp add: rating_frame_def split: if_splits)
  moreover have "rating_frame d d" by (simp add: rating_frame_def)
  ultimately show ?thesis using assms del
    by (auto simp: calculate_ratings_def Let_def split: if_splits) (metis snd_conv)+
qed

lemmas calculate_ratings_views = rating_frame_views [OF calculate_ratings_frame]

lemma start_contest_views: "same_views d (start_contest now i d)"
  by (simp add: start_contest_def same_views_def publish_def map_rows_update schedule_view_def split: option.splits)

lemma end_contest_views:
  assumes "end_contest env now i d = Inr d'"
  shows "same_views d d'"
proof (cases "get_contest i d")
  case (Some c)
  show ?thesis
  proof (cases "c_ended_at c")
    case None
    have mark: "same_views x (publish e (x\<lparr>db_contests := rows_update (\<lambda>y. c_id y = i) (\<lambda>y. y\<lparr>c_ended_at := Some now\<rparr>) (db_contests x)\<rparr>))" for x e
      by (simp add: same_views_def publish_def map_rows_update schedule_view_def)
    obtain d1 d2 where "recalculate_contest env c d = Inr d1"
      and "(if c_is_rated c then andThen (calculate_ratings env now c False d1) (\<lambda>(_, x). Inr x) else Inr d1) = Inr d2"
      and d': "d' = publish (contest_event ''contest.ended'' c)
                 (d2\<lparr>db_contests := rows_update (\<lambda>y. c_id y = i) (\<lambda>y. y\<lparr>c_ended_at := Some now\<rparr>) (db_contests d2)\<rparr>)"
      using assms Some None by (auto simp: end_contest_def)
    then have "same_views d d1" "same_views d1 d2"
      by (auto dest: recalculate_contest_views calculate_ratings_views split: if_splits)
    then show ?thesis unfolding d' using mark same_views_trans by blast
  qed (use assms Some in \<open>simp add: end_contest_def\<close>)
qed (use assms in \<open>simp add: end_contest_def\<close>)

lemma recalculate_rankings_views: "recalculate_rankings env i d = Inr d' \<Longrightarrow> same_views d d'"
  by (auto simp: recalculate_rankings_def dest!: recalculate_contest_views intro: publish_views split: option.splits)

lemma set_orders_view: "map slot_view (set_orders cid i ls rows) = map slot_view rows"
  by (induction ls arbitrary: i rows) (simp_all add: map_rows_update slot_view_def)

lemma reorder_views: "reorder_problems c ls d = Inr d' \<Longrightarrow> same_views d d'"
  by (auto simp: reorder_problems_def same_views_def set_orders_view)

section \<open>Operations that add rows\<close>

lemma create_contest_ok:
  assumes "contests_ok d" and "create_contest x o' d = Inr (c, d')"
  shows "contests_ok d'"
proof -
  have d': "c = contest_row x o' (fresh_key c_id (db_contests d))" "d' = d\<lparr>db_contests := db_contests d @ [c]\<rparr>"
    and new: "\<not> list_ex (\<lambda>c. c_key c = cin_key x) (db_contests d)" "cin_start_time x < cin_end_time x"
    using assms(2) by (auto simp: create_contest_def Let_def)
  have "c_id c = fresh_key c_id (db_contests d)" "c_key c = cin_key x" "c_start_time c < c_end_time c"
    using new by (simp_all add: d'(1) contest_row_def new_contest_def)
  then show ?thesis using assms(1) new fresh_key_notin [of c_id "db_contests d"]
    by (auto simp: contests_ok_def schedules_ok_def d'(2) list_ex_iff)
qed

lemma set_fields_view:
  "c_id (fold set_field fs c) = c_id c \<and> c_key (fold set_field fs c) = c_key c
   \<and> c_start_time (fold set_field fs c) = get_start fs (c_start_time c)
   \<and> c_end_time (fold set_field fs c) = get_end fs (c_end_time c)"
proof (induction fs arbitrary: c)
  case (Cons f fs)
  then show ?case by (cases f) (simp_all add: get_start_def get_end_def)
qed (simp add: get_start_def get_end_def)

lemma update_contest_ok:
  assumes "contests_ok d" and "c \<in> set (db_contests d)" and "update_contest c fs d = Inr (c', d')"
  shows "contests_ok d'"
proof -
  have d': "c' = fold set_field fs c" "d' = d\<lparr>db_contests := row_put c_id c' (db_contests d)\<rparr>"
    "get_start fs (c_start_time c) < get_end fs (c_end_time c)"
    using assms(3) by (auto simp: update_contest_def Let_def)
  have v: "c_id c' = c_id c" "c_key c' = c_key c" "c_start_time c' < c_end_time c'"
    using set_fields_view [of fs c] d' by simp_all
  have one: "x = c" if "x \<in> set (db_contests d)" "c_id x = c_id c" for x
    using that assms(1,2) by (auto simp: contests_ok_def schedules_ok_def distinct_map dest: inj_onD)
  have "map c_id (db_contests d') = map c_id (db_contests d)" "map c_key (db_contests d') = map c_key (db_contests d)"
    using one v by (auto simp: d'(2) row_put_def rows_update_def)
  moreover have "\<forall>x \<in> set (db_contests d'). c_start_time x < c_end_time x"
    using assms(1) v(3) by (auto simp: d'(2) set_row_put contests_ok_def schedules_ok_def)
  ultimately show ?thesis using assms(1) by (simp add: contests_ok_def schedules_ok_def d'(2))
qed

lemma add_problem_ok:
  assumes "contests_ok d" and "add_problem c p l pts ord part pre mx d = Inr (cp, d')"
  shows "contests_ok d'"
proof -
  have cp: "cp_id cp = fresh_key cp_id (db_contest_problems d)" "cp_contest cp = c_id c" "cp_problem cp = p_id p" "cp_label cp = l"
    and d': "d' = d\<lparr>db_contest_problems := db_contest_problems d @ [cp]\<rparr>"
    and new: "\<And>q. q \<in> set (db_contest_problems d) \<Longrightarrow> cp_contest q = c_id c \<Longrightarrow> cp_problem q \<noteq> p_id p \<and> cp_label q \<noteq> l"
    using assms(2) by (auto simp: add_problem_def Let_def list_ex_iff)
  have "(c_id c, p_id p) \<notin> (\<lambda>cp. (cp_contest cp, cp_problem cp)) ` set (db_contest_problems d)"
    "(c_id c, l) \<notin> (\<lambda>cp. (cp_contest cp, cp_label cp)) ` set (db_contest_problems d)"
    using new by force+
  then show ?thesis using assms(1) fresh_key_notin [of cp_id "db_contest_problems d"]
    by (simp add: contests_ok_def slots_ok_def d' cp)
qed

lemma distinct_map_sub: "distinct (map f xs) \<Longrightarrow> distinct (map f (filter P xs))"
  by (rule distinct_map_filter)

lemma remove_problem_ok: "contests_ok d \<Longrightarrow> contests_ok (remove_problem c p d)"
  by (simp add: contests_ok_def slots_ok_def remove_problem_def rows_delete_def distinct_map_sub)

lemma insert_participation_ok:
  assumes "contests_ok d" and "insert_participation p d = (p', d')" and "entry_ok p"
    and "\<And>q. q \<in> set (db_participations d) \<Longrightarrow> (pa_contest q, pa_user q, pa_status q) \<noteq> (pa_contest p, pa_user p, pa_status p)"
  shows "contests_ok d'"
proof -
  have d': "p' = p\<lparr>pa_id := fresh_key pa_id (db_participations d)\<rparr>" "d' = d\<lparr>db_participations := db_participations d @ [p']\<rparr>"
    using assms(2) by (auto simp: insert_participation_def Let_def)
  have "entry_ok p'" using assms(3) by (simp add: d'(1) entry_ok_def split: participation_status.splits)
  moreover have "(pa_contest p, pa_user p, pa_status p) \<notin> (\<lambda>p. (pa_contest p, pa_user p, pa_status p)) ` set (db_participations d)"
    using assms(4) by force
  ultimately show ?thesis using assms(1) fresh_key_notin [of pa_id "db_participations d"]
    by (simp add: contests_ok_def entries_ok_def d')
qed

lemma entry_live_virtual:
  assumes "contests_ok d" and "p \<in> set (db_participations d)"
  shows "pa_status p = Part_LIVE \<longleftrightarrow> pa_virtual_start p = None" and "pa_status p \<noteq> Part_SPECTATING"
proof -
  have "entry_ok p" using assms by (simp add: contests_ok_def entries_ok_def)
  then show "pa_status p = Part_LIVE \<longleftrightarrow> pa_virtual_start p = None" "pa_status p \<noteq> Part_SPECTATING"
    by (cases "pa_status p"; simp add: entry_ok_def)+
qed

lemma join_contest_ok:
  assumes "contests_ok d" and "join_contest now c u code d = Inr (p, d')"
  shows "contests_ok d'"
proof (cases "live_entries c u d")
  case Nil
  obtain p1 d1 where ins: "insert_participation (new_participation 0 (c_id c) (u_id u)) d = (p1, d1)"
    by (cases "insert_participation (new_participation 0 (c_id c) (u_id u)) d")
  then have d': "d' = publish (joined_event c u p1) d1" using assms(2) Nil by (auto simp: join_contest_def)
  have "contests_ok d1"
  proof (rule insert_participation_ok [OF assms(1) ins])
    show "(pa_contest q, pa_user q, pa_status q) \<noteq>
        (pa_contest (new_participation 0 (c_id c) (u_id u)), pa_user (new_participation 0 (c_id c) (u_id u)),
         pa_status (new_participation 0 (c_id c) (u_id u)))" if "q \<in> set (db_participations d)" for q
      using Nil that entry_live_virtual [OF assms(1) that]
      by (auto simp: live_entries_def new_participation_def filter_empty_conv)
  qed (simp add: entry_ok_def new_participation_def)
  then show ?thesis by (simp add: d' publish_def contests_ok_def)
next
  case (Cons q qs)
  then show ?thesis using assms by (cases qs) (auto simp: join_contest_def)
qed

lemma start_virtual_ok:
  assumes "contests_ok d" and "start_virtual now c u code d = Inr (p, d')"
  shows "contests_ok d'"
proof -
  let ?old = "filter (\<lambda>p. pa_contest p = c_id c \<and> pa_user p = u_id u \<and> pa_status p = Part_VIRTUAL) (db_participations d)"
  let ?new = "(new_participation 0 (c_id c) (u_id u))\<lparr>pa_status := Part_VIRTUAL, pa_virtual_start := Some now\<rparr>"
  show ?thesis
  proof (cases "?old = []")
    case True
    then have "insert_participation ?new d = (p, d')" using assms(2) by (simp add: start_virtual_def)
    then show ?thesis
      by (rule insert_participation_ok [OF assms(1)])
        (use True in \<open>auto simp: entry_ok_def new_participation_def filter_empty_conv\<close>)
  next
    case False
    then have "sort_key pa_id ?old \<noteq> []" by (simp only: sort_key_empty not_False_eq_True)
    then obtain q qs where "sort_key pa_id ?old = q # qs" by (meson neq_Nil_conv)
    then show ?thesis using assms by (simp add: start_virtual_def)
  qed
qed

section \<open>The step relation\<close>

inductive contest_step :: "env \<Rightarrow> db \<Rightarrow> db \<Rightarrow> bool" for env where
  create: "create_contest x org d = Inr (c, d') \<Longrightarrow> contest_step env d d'"
| update: "c \<in> set (db_contests d) \<Longrightarrow> update_contest c fs d = Inr (c', d') \<Longrightarrow> contest_step env d d'"
| add: "add_problem c p l pts ord part pre mx d = Inr (cp, d') \<Longrightarrow> contest_step env d d'"
| remove: "contest_step env d (remove_problem c p d)"
| reorder: "reorder_problems c ls d = Inr d' \<Longrightarrow> contest_step env d d'"
| join: "join_contest now c u code d = Inr (p, d') \<Longrightarrow> contest_step env d d'"
| virtual: "start_virtual now c u code d = Inr (p, d') \<Longrightarrow> contest_step env d d'"
| submit: "submit_to_contest env now u c code l src d = Inr (s, d') \<Longrightarrow> contest_step env d d'"
| disqualify: "contest_step env d (set_disqualified b c u d)"
| recalculate: "recalculate_rankings env i d = Inr d' \<Longrightarrow> contest_step env d d'"
| start: "contest_step env d (start_contest now i d)"
| finish: "end_contest env now i d = Inr d' \<Longrightarrow> contest_step env d d'"

inductive contest_reachable :: "env \<Rightarrow> db \<Rightarrow> bool" for env where
  initial: "db_contests d = [] \<Longrightarrow> db_contest_problems d = [] \<Longrightarrow> db_participations d = [] \<Longrightarrow> contest_reachable env d"
| step: "contest_reachable env d \<Longrightarrow> contest_step env d d' \<Longrightarrow> contest_reachable env d'"

lemmas add_rows_ok = create_contest_ok update_contest_ok add_problem_ok remove_problem_ok join_contest_ok start_virtual_ok

lemmas keep_views_ok = same_views_ok [OF reorder_views] same_views_ok [OF submit_to_contest_views]
  same_views_ok [OF set_disqualified_views] same_views_ok [OF recalculate_rankings_views]
  same_views_ok [OF start_contest_views] same_views_ok [OF end_contest_views]

lemma contest_step_ok: "contest_step env d d' \<Longrightarrow> contests_ok d \<Longrightarrow> contests_ok d'"
  by (induction rule: contest_step.induct)
    (blast intro: add_rows_ok keep_views_ok)+

lemma contest_reachable_ok: "contest_reachable env d \<Longrightarrow> contests_ok d"
proof (induction rule: contest_reachable.induct)
  case (initial d)
  then show ?case by (simp add: contests_ok_def schedules_ok_def slots_ok_def entries_ok_def)
qed (rule contest_step_ok)

section \<open>Joining\<close>

lemma live_entries_short:
  assumes "contests_ok d"
  shows "live_entries c u d = [] \<or> (\<exists>p. live_entries c u d = [p])"
proof (cases "live_entries c u d")
  case (Cons p ps)
  have "ps = []"
  proof (rule ccontr)
    assume "ps \<noteq> []"
    then obtain q qs where ps: "ps = q # qs" by (meson neq_Nil_conv)
    have "distinct (map (\<lambda>p. (pa_contest p, pa_user p, pa_status p)) (live_entries c u d))"
      unfolding live_entries_def using assms by (intro distinct_map_filter) (simp add: contests_ok_def entries_ok_def)
    moreover have "p \<in> set (live_entries c u d)" "q \<in> set (live_entries c u d)" by (simp_all add: Cons ps)
    then have "(pa_contest p, pa_user p, pa_status p) = (pa_contest q, pa_user q, pa_status q)"
      by (auto simp: live_entries_def)
    ultimately show False by (simp add: Cons ps)
  qed
  then show ?thesis using Cons by simp
qed simp

lemma can_join_more:
  assumes "can_join_contest now (Some u) d c code fin" and "set (db_participations d) \<subseteq> set (db_participations d')"
  shows "can_join_contest now (Some u) d' c code fin"
  using assms by (auto simp: can_join_contest_def can_see_contest_def list_ex_iff split: contest_visibility.splits if_splits)

lemma create_submission_row:
  assumes "create_submission env now u p l src pa mode ci eo d = Inr (s, d')"
  shows "s = (new_submission (fresh_key s_id (db_submissions d)) (u_id u) (p_id p) (l_id l) now)
                \<lparr>s_contest_participation := map_option pa_id pa, s_mode := mode, s_custom_input := ci,
                 s_custom_expected_output := eo\<rparr> \<and> db_submissions d' = db_submissions d @ [s]"
proof -
  obtain pkg where "(let cf = build_job_config p l pkg pa mode ci eo d
       in case insert_submission now u p l src pa mode ci eo pkg cf d of
            (s, d') \<Rightarrow> Inr (s, publish_submission ''submission.status'' (s_id s)
                                [(''status'', JStr (status_code (s_status s)))] d')) = (Inr (s, d') :: (submission \<times> db) result)"
    using assms unfolding create_submission_def andThen_Inr by blast
  then show ?thesis unfolding insert_submission_def Let_def publish_submission_def publish_def by clarsimp
qed

lemma find_contest_problemD:
  assumes "find_contest_problem c code d = Some (cp, p)"
  shows "cp \<in> set (db_contest_problems d) \<and> cp_contest cp = c_id c \<and> cp_problem cp = p_id p
     \<and> row_get p_id (cp_problem cp) (db_problems d) = Some p"
proof -
  obtain q where q: "q \<in> set (db_contest_problems d)" "cp_contest q = c_id c"
    and r: "(case row_get p_id (cp_problem q) (db_problems d) of None \<Rightarrow> None
            | Some p \<Rightarrow> if p_code p = code then Some (q, p) else None) = Some (cp, p)"
    using first_in [OF assms [unfolded find_contest_problem_def]] unfolding map_filter_member by auto
  from r have "q = cp" "row_get p_id (cp_problem q) (db_problems d) = Some p" by (auto split: option.splits if_splits)
  then show ?thesis using q row_get_SomeD [of p_id "cp_problem q" "db_problems d" p] by simp
qed

lemma find_contest_problem_code:
  assumes "find_contest_problem c code d = Some (cp, p)"
  shows "p_code p = code"
proof -
  have "\<exists>q. (case row_get p_id (cp_problem q) (db_problems d) of None \<Rightarrow> None
            | Some p \<Rightarrow> if p_code p = code then Some (q, p) else None) = Some (cp, p)"
    using first_in [OF assms [unfolded find_contest_problem_def]] unfolding map_filter_member by blast
  then show ?thesis by (auto split: option.splits if_splits)
qed

lemma recalculate_contest_contests: "recalculate_contest env c d = Inr d' \<Longrightarrow> db_contests d' = db_contests d"
  unfolding recalculate_contest_def
  by (erule fold_andThen_relates [where R = "\<lambda>d d'. db_contests d' = db_contests d"]) (auto elim: recalculate_InrD)

section \<open>Reordering\<close>

definition pos_of :: "string list \<Rightarrow> string \<Rightarrow> nat" where
  "pos_of ls l = length (takeWhile (\<lambda>x. x \<noteq> l) ls)"

lemma pos_of_nth: "distinct ls \<Longrightarrow> i < length ls \<Longrightarrow> pos_of ls (ls ! i) = i"
  by (induction ls arbitrary: i) (auto simp: pos_of_def nth_Cons split: nat.splits)

lemma set_orders_spec:
  "distinct ls \<Longrightarrow> set_orders cid i ls rows =
     map (\<lambda>cp. if cp_contest cp = cid \<and> cp_label cp \<in> set ls then cp\<lparr>cp_order := i + int (pos_of ls (cp_label cp))\<rparr> else cp) rows"
proof (induction ls arbitrary: i rows)
  case (Cons l ls)
  then show ?case by (auto simp: rows_update_def pos_of_def)
qed simp

lemma map_pos_of: "distinct ls \<Longrightarrow> map (pos_of ls) ls = [0..<length ls]"
  by (rule nth_equalityI) (simp_all add: pos_of_nth)

lemma sorted_by_pos:
  assumes "distinct ls" and "distinct xs" and "set xs = set ls" and "sorted (map (pos_of ls) xs)"
  shows "xs = ls"
proof -
  have inj: "inj_on (pos_of ls) (set ls)"
    using map_pos_of [OF assms(1)] assms(1) by (metis distinct_map distinct_upt)
  have "map (pos_of ls) xs = map (pos_of ls) ls"
  proof (rule sorted_distinct_set_unique)
    show "sorted (map (pos_of ls) ls)" "distinct (map (pos_of ls) ls)" by (simp_all add: map_pos_of assms(1))
    show "distinct (map (pos_of ls) xs)" using assms(2,3) inj by (simp add: distinct_map)
  qed (use assms in simp_all)
  then show ?thesis using inj assms(3) by (simp add: inj_on_map_eq_map)
qed

section \<open>A contest to look at\<close>

definition sample_contest_in :: contest_in where
  "sample_contest_in = \<lparr>cin_name = ''Round 1'', cin_key = ''r1'', cin_description = [], cin_start_time = 0, cin_end_time = 100,
     cin_visibility = ''public'', cin_is_rated = False, cin_time_limit = None, cin_format_name = ''custom'', cin_format_config = []\<rparr>"

definition sample_round :: contest where
  "sample_round = (new_contest 3 ''r1'' 0 100)\<lparr>c_visibility := Con_PUBLIC\<rparr>"

definition sample_slot :: contest_problem where
  "sample_slot = (new_contest_problem 4 3 5 1 ''A'' 100)\<lparr>cp_max_submissions := Some 1\<rparr>"

definition sample_round_site :: db where
  "sample_round_site = sample_site\<lparr>db_contests := [sample_round], db_contest_problems := [sample_slot],
     db_participations := [new_participation 6 3 7]\<rparr>"

lemma sample_round_ok: "contests_ok sample_round_site"
  by (simp add: contests_ok_def schedules_ok_def slots_ok_def entries_ok_def entry_ok_def sample_round_site_def
      sample_round_def new_contest_def new_participation_def)

lemma sample_round_join: "can_join_contest 5 (Some (new_user 7)) sample_round_site sample_round None False"
  by (simp add: can_join_contest_def sample_round_def new_contest_def is_upcoming_def is_finished_def is_contest_staff_def
      staff_user_def new_user_def)

lemma sample_round_validates:
  "validate_submission sample_env 5 (new_user 7) sample_problem sample_language ''x'' Mode_SUBMIT [] [] sample_round_site
     = Inr (Some sample_package)"
proof -
  have "active_package 5 sample_round_site = Some sample_package" by code_simp
  moreover have "is_accessible_by (Some (new_user 7)) sample_problem" by code_simp
  moreover have "recent_count 5 (new_user 7) Mode_SUBMIT sample_round_site = 0" by code_simp
  moreover have "p_id sample_problem = 5" "p_languages_allowed sample_problem = []" "l_is_enabled sample_language"
    by code_simp+
  ultimately show ?thesis
    by (simp add: validate_submission_def validate_source_code_size_def validate_problem_access_def validate_language_def
        check_rate_limit_def sample_env_def)
qed

lemma sample_round_submit:
  "\<exists>s d'. submit_to_contest sample_env 5 (new_user 7) sample_round ''p5'' sample_language ''x'' sample_round_site = Inr (s, d')"
proof -
  have "active_entry sample_round (new_user 7) sample_round_site = Some (new_participation 6 3 7)"
    "find_contest_problem sample_round ''p5'' sample_round_site = Some (sample_slot, sample_problem)"
    "is_active 5 sample_round" "used_submissions (new_participation 6 3 7) sample_problem sample_round_site = 0"
    "pa_status (new_participation 6 3 7) = Part_LIVE" "cp_max_submissions sample_slot = Some 1"
    by code_simp+
  then show ?thesis
    by (simp add: submit_to_contest_def create_submission_def sample_round_validates insert_submission_def Let_def)
qed

section \<open>Properties\<close>

text \<open>C15: Whatever organizers, participants and the scheduler do, in any order: every contest starts before
  it ends and keeps its key to itself, no contest holds a problem or a label twice, and no user has
  more than one live and one virtual participation in a contest.\<close>

theorem contest_invariant:
  assumes "contest_reachable env d"
  shows "contests_ok d"
  using assms by (rule contest_reachable_ok)

theorem contest_invariant_witness:
  "\<exists>c d'. create_contest sample_contest_in 7 empty_db = Inr (c, d') \<and> contests_ok d'"
proof -
  obtain c d' where run: "create_contest sample_contest_in 7 empty_db = Inr (c, d')"
    by (auto simp: create_contest_def sample_contest_in_def empty_db_def Let_def)
  have "contest_reachable sample_env empty_db" by (rule contest_reachable.initial) (simp_all add: empty_db_def)
  then have "contest_reachable sample_env d'"
    by (rule contest_reachable.step) (rule contest_step.create [OF run])
  then show ?thesis using run contest_invariant by blast
qed

text \<open>Who may join a contest joins it: there is exactly one live participation afterwards, and joining
  again returns the same one and changes nothing.\<close>

theorem join_once:
  assumes "contests_ok d" and "can_join_contest now (Some u) d c code False"
  shows "\<exists>p d'. join_contest now c u code d = Inr (p, d') \<and> live_entries c u d' = [p]
     \<and> join_contest now c u code d' = Inr (p, d')"
proof (cases "live_entries c u d")
  case Nil
  obtain p d1 where ins: "insert_participation (new_participation 0 (c_id c) (u_id u)) d = (p, d1)"
    by (cases "insert_participation (new_participation 0 (c_id c) (u_id u)) d")
  define d' where "d' = publish (joined_event c u p) d1"
  have "live_entries c u d' = [p]" "set (db_participations d) \<subseteq> set (db_participations d')"
    using ins Nil by (auto simp: d'_def insert_participation_def live_entries_def new_participation_def Let_def publish_def)
  moreover have "join_contest now c u code d = Inr (p, d')"
    using assms(2) Nil ins by (simp add: join_contest_def d'_def)
  ultimately show ?thesis using can_join_more [OF assms(2), of d'] by (auto simp: join_contest_def)
next
  case (Cons q qs)
  then have "live_entries c u d = [q]" using live_entries_short [OF assms(1), of c u] by auto
  then show ?thesis using assms(2) by (auto simp: join_contest_def)
qed

theorem join_once_witness:
  "\<exists>p d'. join_contest 5 sample_round (new_user 7) None sample_round_site = Inr (p, d')
     \<and> live_entries sample_round (new_user 7) d' = [p]"
  using join_once [OF sample_round_ok sample_round_join] by blast

text \<open>C16: A submission to a contest is bound to a participation of that user that is not disqualified, is
  made while the contest runs or virtual time is left, for a problem of the contest, and never
  exceeds the submission limit of the problem.\<close>

theorem contest_submission_guarded:
  assumes "submit_to_contest env now u c code l src d = Inr (s, d')"
  shows "\<exists>pa cp. pa \<in> set (db_participations d) \<and> pa_contest pa = c_id c \<and> pa_user pa = u_id u
     \<and> \<not> pa_is_disqualified pa \<and> s_contest_participation s = Some (pa_id pa)
     \<and> (pa_status pa = Part_LIVE \<and> is_active now c \<or> pa_status pa = Part_VIRTUAL \<and> 0 < participation_time_remaining now c pa)
     \<and> cp \<in> set (db_contest_problems d) \<and> cp_contest cp = c_id c \<and> cp_problem cp = s_problem s
     \<and> (\<forall>n. cp_max_submissions cp = Some n \<longrightarrow>
          length (filter (\<lambda>x. s_contest_participation x = Some (pa_id pa) \<and> s_problem x = s_problem s) (db_submissions d')) \<le> n)"
proof -
  obtain pa where pa: "active_entry c u d = Some pa" using assms by (auto simp: submit_to_contest_def split: option.splits)
  obtain cp p where cp: "find_contest_problem c code d = Some (cp, p)"
    using assms pa by (auto simp: submit_to_contest_def split: option.splits)
  have facts: "\<not> (pa_status pa = Part_LIVE \<and> \<not> is_active now c)
      \<and> \<not> (pa_status pa = Part_VIRTUAL \<and> participation_time_remaining now c pa \<le> 0)
      \<and> \<not> (case cp_max_submissions cp of None \<Rightarrow> False | Some n \<Rightarrow> used_submissions pa p d \<ge> n)
      \<and> create_submission env now u p l src (Some pa) Mode_SUBMIT [] [] d = Inr (s, d')"
    using assms by (simp add: submit_to_contest_def pa cp)
  then have guards: "\<not> (pa_status pa = Part_LIVE \<and> \<not> is_active now c)"
      "\<not> (pa_status pa = Part_VIRTUAL \<and> participation_time_remaining now c pa \<le> 0)"
      "\<And>n. cp_max_submissions cp = Some n \<Longrightarrow> used_submissions pa p d < n"
    and run: "create_submission env now u p l src (Some pa) Mode_SUBMIT [] [] d = Inr (s, d')"
    by auto
  have entry: "pa \<in> set (db_participations d) \<and> pa_contest pa = c_id c \<and> pa_user pa = u_id u
      \<and> \<not> pa_is_disqualified pa \<and> (pa_status pa = Part_LIVE \<or> pa_status pa = Part_VIRTUAL)"
    using first_in [OF pa [unfolded active_entry_def]] by simp
  have prob: "cp \<in> set (db_contest_problems d)" "cp_contest cp = c_id c" "cp_problem cp = p_id p"
    using find_contest_problemD [OF cp] by simp_all
  have s: "s_contest_participation s = Some (pa_id pa)" "s_problem s = p_id p" "db_submissions d' = db_submissions d @ [s]"
    using create_submission_row [OF run] by (simp_all add: new_submission_def)
  have "length (filter (\<lambda>x. s_contest_participation x = Some (pa_id pa) \<and> s_problem x = s_problem s) (db_submissions d')) \<le> n"
    if "cp_max_submissions cp = Some n" for n
    using guards(3) [OF that] s by (simp add: used_submissions_def)
  then show ?thesis using entry prob s guards by (intro exI [of _ pa] exI [of _ cp]) auto
qed

theorem contest_submission_guarded_witness:
  "\<exists>s d' pa. submit_to_contest sample_env 5 (new_user 7) sample_round ''p5'' sample_language ''x'' sample_round_site = Inr (s, d')
     \<and> pa \<in> set (db_participations sample_round_site) \<and> s_contest_participation s = Some (pa_id pa)"
proof -
  obtain s d' where run:
    "submit_to_contest sample_env 5 (new_user 7) sample_round ''p5'' sample_language ''x'' sample_round_site = Inr (s, d')"
    using sample_round_submit by blast
  then show ?thesis using contest_submission_guarded [OF run] by blast
qed

text \<open>Reordering with a list of distinct labels gives the problems of the contest exactly that order.\<close>

theorem reorder_sets_order:
  assumes "contests_ok d" and "reorder_problems c ls d = Inr d'" and "distinct ls"
  shows "map cp_label (contest_problems_of d' c) = ls"
proof -
  let ?rows = "filter (\<lambda>cp. cp_contest cp = c_id c) (db_contest_problems d)"
  let ?new = "filter (\<lambda>cp. cp_contest cp = c_id c) (db_contest_problems d')"
  have labels: "set (map cp_label ?rows) = set ls" using assms(2) by (simp add: reorder_problems_def labels_of_def)
  define f where "f cp = (if cp_contest cp = c_id c \<and> cp_label cp \<in> set ls
      then cp\<lparr>cp_order := 1 + int (pos_of ls (cp_label cp))\<rparr> else cp)" for cp :: contest_problem
  have f: "cp_label (f cp) = cp_label cp" "cp_contest (f cp) = cp_contest cp" for cp by (simp_all add: f_def)
  have d': "db_contest_problems d' = map f (db_contest_problems d)"
    using assms(2,3) by (auto simp: reorder_problems_def set_orders_spec f_def [abs_def])
  have new: "map cp_label ?new = map cp_label ?rows" by (simp add: d' filter_map comp_def f)
  have ord: "\<forall>cp \<in> set ?new. cp_order cp = 1 + int (pos_of ls (cp_label cp))"
    using labels by (auto simp: d' f_def)
  have "distinct (map cp_label ?rows)"
    using assms(1) by (auto simp: contests_ok_def slots_ok_def distinct_map inj_on_def)
  then have dist: "distinct (map cp_label (sort_key cp_order ?new))" unfolding new [symmetric] by (simp add: distinct_map)
  have "sorted (map cp_order (sort_key cp_order ?new))" by simp
  moreover have "map cp_order (sort_key cp_order ?new) =
      map (\<lambda>p. 1 + int p) (map (pos_of ls) (map cp_label (sort_key cp_order ?new)))"
    using ord by simp
  ultimately have "sorted (map (pos_of ls) (map cp_label (sort_key cp_order ?new)))"
    by (simp add: sorted_map sorted_wrt_map)
  moreover have "set (map cp_label (sort_key cp_order ?new)) = set ls"
    using labels new by (metis set_map set_sort)
  ultimately show ?thesis unfolding contest_problems_of_def using assms(3) dist sorted_by_pos by blast
qed

definition sample_two_slots :: db where
  "sample_two_slots = sample_round_site\<lparr>db_contest_problems := [sample_slot, new_contest_problem 7 3 6 2 ''B'' 100]\<rparr>"

theorem reorder_sets_order_witness:
  "\<exists>d'. reorder_problems sample_round [''B'', ''A''] sample_two_slots = Inr d'
     \<and> map cp_label (contest_problems_of d' sample_round) = [''B'', ''A'']"
proof -
  have "labels_of sample_round sample_two_slots = [''A'', ''B'']" by code_simp
  then have same: "set (labels_of sample_round sample_two_slots) = set [''B'', ''A'']" by (simp add: insert_commute)
  obtain d' where run: "reorder_problems sample_round [''B'', ''A''] sample_two_slots = Inr d'"
    unfolding reorder_problems_def by (simp only: same) simp
  have "contests_ok sample_two_slots"
    using sample_round_ok by (simp add: contests_ok_def slots_ok_def sample_two_slots_def sample_slot_def new_contest_problem_def)
  then have "map cp_label (contest_problems_of d' sample_round) = [''B'', ''A'']"
    by (rule reorder_sets_order [OF _ run]) simp
  with run show ?thesis by (intro exI conjI)
qed

text \<open>Ending a contest stores every participation's current result and the time of the end, once: ending
  it again changes nothing.\<close>

theorem contest_end_settles:
  assumes "contests_ok d" and "get_contest i d = Some c" and "c_ended_at c = None" and "end_contest env now i d = Inr d'"
  shows "(\<forall>q \<in> set (db_participations d'). pa_contest q = i \<longrightarrow> up_to_date env d' c q)
     \<and> map_option c_ended_at (get_contest i d') = Some (Some now) \<and> end_contest env later i d' = Inr d'"
proof -
  obtain d1 d2 where r1: "recalculate_contest env c d = Inr d1"
    and r2: "(if c_is_rated c then andThen (calculate_ratings env now c False d1) (\<lambda>(_, x). Inr x) else Inr d1) = Inr d2"
    and d': "d' = publish (contest_event ''contest.ended'' c)
               (d2\<lparr>db_contests := rows_update (\<lambda>y. c_id y = i) (\<lambda>y. y\<lparr>c_ended_at := Some now\<rparr>) (db_contests d2)\<rparr>)"
    using assms by (auto simp: end_contest_def)
  have i: "c_id c = i" using row_get_SomeD [OF assms(2)] by simp
  have fr: "rating_frame d1 d2"
    using r2 calculate_ratings_frame by (auto simp: rating_frame_def split: if_splits)
  then have same: "db_participations d' = db_participations d1" "db_submissions d' = db_submissions d1"
    "db_contest_problems d' = db_contest_problems d1" by (simp_all add: d' rating_frame_def publish_def)
  have "up_to_date env d' c q" if q: "q \<in> set (db_participations d')" "pa_contest q = i" for q
  proof -
    have "up_to_date env d1 c q"
      using recalculate_contest_up_to_date [OF r1 _, of q] assms(1) q same i by (simp add: contests_ok_def entries_ok_def)
    moreover have "calculate_participation f env d' c q None = calculate_participation f env d1 c q None" for f
      by (rule any_format.tables_only) (simp_all add: same)
    ultimately show ?thesis by (simp only: up_to_date_def)
  qed
  moreover have ended: "map_option c_ended_at (get_contest i d') = Some (Some now)"
  proof -
    have "db_contests d1 = db_contests d" using r1 by (rule recalculate_contest_contests)
    then have "get_contest i d2 = Some c" using fr assms(2) by (simp add: rating_frame_def)
    then show ?thesis
      by (simp add: d' publish_def row_get_def rows_update_def find_map_key [where key = c_id] i)
  qed
  moreover have "end_contest env later i d' = Inr d'" using ended by (auto simp: end_contest_def)
  ultimately show ?thesis by blast
qed

theorem contest_end_settles_witness:
  "\<exists>d'. end_contest sample_env 200 3 (sample_round_site\<lparr>db_contest_problems := []\<rparr>) = Inr d'
     \<and> end_contest sample_env 300 3 d' = Inr d'"
proof -
  let ?d = "sample_round_site\<lparr>db_contest_problems := []\<rparr>"
  have ok: "contests_ok ?d" using sample_round_ok by (simp add: contests_ok_def slots_ok_def)
  have get: "get_contest 3 ?d = Some sample_round" "c_ended_at sample_round = None"
    "\<not> c_is_rated sample_round" "get_format (c_format_name sample_round) = Inr DefaultContestFormat"
    by code_simp+
  have get': "get_contest 3 sample_round_site = Some sample_round" by code_simp
  have "participations_of ?d sample_round = [new_participation 6 3 7]" by code_simp
  then have "\<exists>d1. recalculate_contest sample_env sample_round ?d = Inr d1"
    by (simp add: recalculate_contest_def recalculate_participation_def get update_participation_def default_calculate_def
        contest_problems_of_def)
  then obtain d' where run: "end_contest sample_env 200 3 ?d = Inr d'" by (auto simp: end_contest_def get get')
  then show ?thesis using contest_end_settles [OF ok get(1,2) run, of 300] by blast
qed

text \<open>A virtual participant can never submit to a problem that is visible in contests only, however
  much virtual time is left: access to such a problem asks for a live participation in a running
  contest.\<close>

theorem virtual_cannot_submit:
  assumes "\<And>pa. pa \<in> set (db_participations d) \<Longrightarrow> pa_user pa = u_id u \<Longrightarrow> pa_status pa = Part_VIRTUAL"
    and "\<And>p. p \<in> set (db_problems d) \<Longrightarrow> p_code p = code \<Longrightarrow> \<not> is_accessible_by (Some u) p"
  shows "isl (submit_to_contest env now u c code l src d)"
proof (cases "submit_to_contest env now u c code l src d")
  case (Inr r)
  obtain s d' where r: "r = (s, d')" by (cases r)
  obtain pa where pa: "active_entry c u d = Some pa" using Inr by (auto simp: submit_to_contest_def split: option.splits)
  obtain cp p where cp: "find_contest_problem c code d = Some (cp, p)"
    using Inr pa by (auto simp: submit_to_contest_def split: option.splits)
  have p: "p \<in> set (db_problems d)" "p_code p = code"
    using find_contest_problemD [OF cp] find_contest_problem_code [OF cp] row_get_SomeD by fastforce+
  have "create_submission env now u p l src (Some pa) Mode_SUBMIT [] [] d = Inr (s, d')"
    using Inr by (simp add: submit_to_contest_def pa cp r)
  then have "validate_problem_access now u p d = Inr ()"
    by (auto simp: create_submission_def validate_submission_def)
  then have "has_active_contest now u p d" using assms(2) [OF p] by (auto simp: validate_problem_access_def)
  then show ?thesis using assms(1) by (auto simp: has_active_contest_def list_ex_iff)
qed simp


theorem virtual_cannot_submit_witness:
  "isl (submit_to_contest sample_env 250 (new_user 7) (sample_round\<lparr>c_time_limit := Some 100\<rparr>) ''p5'' sample_language ''x''
     (sample_round_site\<lparr>db_problems := [sample_problem\<lparr>p_visibility := Prob_CONTEST_ONLY\<rparr>],
        db_contests := [sample_round\<lparr>c_time_limit := Some 100\<rparr>],
        db_participations := [(new_participation 6 3 7)\<lparr>pa_status := Part_VIRTUAL, pa_virtual_start := Some 200\<rparr>]\<rparr>))"
  by (rule virtual_cannot_submit)
    (auto simp: is_accessible_by_def is_public_def sample_problem_def new_problem_def is_maintainer_or_tester_def staff_user_def
      new_user_def)

text \<open>A contest may be created with a format name that no format has; from then on its ranking cannot
  be read, with the exception that becomes a 500 response.\<close>

theorem unknown_format_breaks_ranking:
  assumes "cin_start_time x < cin_end_time x" and "\<not> list_ex (\<lambda>c. c_key c = cin_key x) (db_contests d)"
    and "cin_format_name x \<notin> fst ` set registry"
  shows "\<exists>c d' e. create_contest x org d = Inr (c, d') \<and> get_contest_ranking d' c = Inl e \<and> response_status e = 500"
proof -
  have "c_format_name (contest_row x org i) = cin_format_name x" for i by (simp add: contest_row_def)
  moreover have "map_of registry (cin_format_name x) = None" using assms(3) by (simp add: map_of_eq_None_iff)
  ultimately show ?thesis using assms(1,2)
    by (simp add: create_contest_def Let_def get_contest_ranking_def get_format_def response_status_def)
qed

theorem unknown_format_breaks_ranking_witness:
  "\<exists>c d' e. create_contest sample_contest_in 7 empty_db = Inr (c, d') \<and> get_contest_ranking d' c = Inl e \<and> response_status e = 500"
  by (rule unknown_format_breaks_ranking) (simp_all add: sample_contest_in_def empty_db_def registry_def)

text \<open>The contest list endpoint returns no contest, whoever asks and whatever contests exist.\<close>

theorem contest_list_always_empty:
  assumes "valid_page max_size page page_size"
  shows "api_list_contests max_size v page page_size d = Inr []"
  using assms by (simp add: api_list_contests_def page_get_def get_or_def)

theorem contest_list_always_empty_witness: "api_list_contests 200 None 1 20 sample_round_site = Inr []"
  by (rule contest_list_always_empty) (simp add: valid_page_def)

end
