(* ===== verification/Accounts.thy ===== *)
theory Accounts
  imports Submissions Core "HOL-Library.List_Lexorder" "HOL-Library.Char_ord"
begin

text \<open>
  The accounts application: \<open>auth_service.py\<close>, \<open>profile_service.py\<close>, \<open>account_maintenance_service.py\<close>,
  \<open>backends.py\<close>, the properties of \<open>models/user.py\<close>, the bearer authentication of \<open>core/permissions.py\<close>
  and the endpoints of \<open>accounts/api/router.py\<close>. Password hashing, the configured password
  validators and PyJWT are the fields of the parameter \<open>auth_lib\<close>, over an arbitrary type of
  tokens. The request to close live sockets that follows a revocation is transport. Text columns
  are unbounded; usernames are compared and sorted as ASCII.
\<close>

section \<open>The libraries\<close>

text \<open>\<open>make_password(raw)\<close> with the salt it draws, \<open>check_password(raw, encoded)\<close>, the messages of
  \<open>validate_password(raw, user)\<close>, \<open>jwt.encode(payload, SECRET_KEY)\<close> and \<open>jwt.decode(token, SECRET_KEY)\<close>
  at an instant (\<open>None\<close>: it raises a \<open>PyJWTError\<close>).\<close>

record 't auth_lib =
  al_make_password :: "string \<Rightarrow> string \<Rightarrow> string"
  al_check_password :: "string \<Rightarrow> string \<Rightarrow> bool"
  al_validate_password :: "user option \<Rightarrow> string \<Rightarrow> string list"
  al_encode :: "(string, json) dict \<Rightarrow> 't"
  al_decode :: "time \<Rightarrow> 't \<Rightarrow> (string, json) dict option"

text \<open>Python's \<open>int(x)\<close> on a decoded JSON value.\<close>

fun py_int_json :: "json \<Rightarrow> int result" where
  "py_int_json JNull = Inl (TypeError ''int() argument'')"
| "py_int_json (JBool b) = Inr (if b then 1 else 0)"
| "py_int_json (JInt n) = Inr n"
| "py_int_json (JFloat q) = Inr (if q < 0 then \<lceil>q\<rceil> else \<lfloor>q\<rfloor>)"
| "py_int_json (JStr s) = (case py_int s of None \<Rightarrow> Inl (ValueError ''invalid literal for int()'') | Some n \<Rightarrow> Inr n)"
| "py_int_json (JArr xs) = Inl (TypeError ''int() argument'')"
| "py_int_json (JObj xs) = Inl (TypeError ''int() argument'')"

section \<open>The user model (\<open>models/user.py\<close>)\<close>

definition display_name :: "user \<Rightarrow> string" where
  "display_name u = (let full_name = strip (u_full_name u) in if full_name \<noteq> [] then full_name else u_username u)"

definition rating_classes :: "(int \<times> string) list" where
  "rating_classes = [(3000, ''user-legendary-grandmaster''), (2600, ''user-international-grandmaster''),
     (2400, ''user-grandmaster''), (2200, ''user-master''), (1900, ''user-candidate-master''),
     (1600, ''user-expert''), (1400, ''user-specialist''), (1200, ''user-pupil''), (0, ''user-newbie'')]"

definition get_rating_class :: "user \<Rightarrow> string" where
  "get_rating_class u = (case List.find (\<lambda>(threshold, _). u_rating u \<ge> threshold) rating_classes of
     Some (_, class_name) \<Rightarrow> class_name | None \<Rightarrow> ''user-newbie'')"

definition calculate_contribution :: "user \<Rightarrow> rat" where
  "calculate_contribution u =
     (let activity_component = of_nat (u_problem_count u) * (2 / 10);
          rating_component = max (of_int (u_rating u)) 0 / 1000
      in round_to 3 (u_points u + u_performance_points u + activity_component + rating_component))"

section \<open>Looking users up\<close>

text \<open>\<open>filter(username__iexact=...).first()\<close> and the same for the email, in the model's order.\<close>

definition same_text :: "string \<Rightarrow> string \<Rightarrow> bool" where
  "same_text a b = (lower a = lower b)"

definition user_by_name :: "string \<Rightarrow> db \<Rightarrow> user option" where
  "user_by_name s d = first (sort_key u_username (filter (\<lambda>u. same_text (u_username u) s) (db_users d)))"

definition user_by_email :: "string \<Rightarrow> db \<Rightarrow> user option" where
  "user_by_email s d = first (sort_key u_username (filter (\<lambda>u. same_text (u_email u) s) (db_users d)))"

definition find_identity :: "string \<Rightarrow> db \<Rightarrow> user option" where
  "find_identity s d = (case user_by_name s d of Some u \<Rightarrow> Some u | None \<Rightarrow> user_by_email s d)"

text \<open>\<open>user.save(update_fields=...)\<close> writes the changed columns of the row.\<close>

definition update_user :: "nat \<Rightarrow> (user \<Rightarrow> user) \<Rightarrow> db \<Rightarrow> db" where
  "update_user i f d = d\<lparr>db_users := rows_update (\<lambda>u. u_id u = i) f (db_users d)\<rparr>"

section \<open>Accounts and passwords (\<open>auth_service.py\<close>)\<close>

definition validate_password :: "'t auth_lib \<Rightarrow> user option \<Rightarrow> string \<Rightarrow> unit result" where
  "validate_password lib u password =
     (let messages = al_validate_password lib u password
      in raise_if (messages \<noteq> []) (ValidationError (join_with '' '' messages)) (Inr ()))"

definition account_row :: "'t auth_lib \<Rightarrow> string \<Rightarrow> string \<Rightarrow> string \<Rightarrow> string \<Rightarrow> nat \<Rightarrow> user" where
  "account_row lib salt username email password i =
     (new_user i)\<lparr>u_username := username, u_email := email, u_password := al_make_password lib salt password\<rparr>"

definition create_user :: "'t auth_lib \<Rightarrow> string \<Rightarrow> string \<Rightarrow> string \<Rightarrow> string \<Rightarrow> db \<Rightarrow> (user \<times> db) result" where
  "create_user lib salt username email password d =
     (let name = strip username; mail = lower (strip email)
      in raise_if (name = []) (ValidationError ''Username is required.'')
        (raise_if (mail = []) (ValidationError ''Email is required.'')
        (raise_if (length password < 8) (ValidationError ''Password must be at least 8 characters.'')
        (raise_if (list_ex (\<lambda>u. same_text (u_username u) name) (db_users d)) (ValidationError ''Username is already in use.'')
        (raise_if (list_ex (\<lambda>u. same_text (u_email u) mail) (db_users d)) (ValidationError ''Email is already in use.'')
        (andThen (validate_password lib None password) (\<lambda>_.
         let u = account_row lib salt name mail password (fresh_key u_id (db_users d))
         in Inr (u, d\<lparr>db_users := db_users d @ [u]\<rparr>))))))))"

definition authenticate :: "'t auth_lib \<Rightarrow> string \<Rightarrow> string \<Rightarrow> db \<Rightarrow> user option" where
  "authenticate lib username_or_email password d =
     (let ident = strip username_or_email
      in if ident = [] \<or> password = [] then None
         else case find_identity ident d of
                None \<Rightarrow> None
              | Some u \<Rightarrow> if u_is_banned u then None
                          else if \<not> al_check_password lib password (u_password u) then None
                          else if \<not> u_is_active u then None else Some u)"

definition change_password :: "'t auth_lib \<Rightarrow> string \<Rightarrow> user \<Rightarrow> string \<Rightarrow> string \<Rightarrow> db \<Rightarrow> db result" where
  "change_password lib salt u old_password new_password d =
     raise_if (\<not> al_check_password lib old_password (u_password u)) (ValidationError ''Old password is incorrect.'')
       (raise_if (length new_password < 8) (ValidationError ''New password must be at least 8 characters.'')
         (andThen (validate_password lib (Some u) new_password) (\<lambda>_.
          Inr (update_user (u_id u) (\<lambda>x. x\<lparr>u_password := al_make_password lib salt new_password,
                 u_token_version := u_token_version u + 1\<rparr>) d))))"

definition revoke_tokens :: "user \<Rightarrow> db \<Rightarrow> db" where
  "revoke_tokens u d = update_user (u_id u) (\<lambda>x. x\<lparr>u_token_version := u_token_version u + 1\<rparr>) d"

text \<open>\<open>secrets.token_urlsafe(48)\<close> is the argument; the column is unique.\<close>

definition generate_api_token :: "string \<Rightarrow> user \<Rightarrow> db \<Rightarrow> (string \<times> db) result" where
  "generate_api_token token u d =
     raise_if (list_ex (\<lambda>x. u_id x \<noteq> u_id u \<and> u_api_token x = Some token) (db_users d)) (IntegrityError ''accounts_user.api_token'')
       (Inr (token, update_user (u_id u) (\<lambda>x. x\<lparr>u_api_token := Some token\<rparr>) d))"

definition ban_user :: "user \<Rightarrow> string \<Rightarrow> db \<Rightarrow> db" where
  "ban_user u reason d = update_user (u_id u)
     (\<lambda>x. x\<lparr>u_is_banned := True, u_ban_reason := strip reason, u_token_version := u_token_version u + 1\<rparr>) d"

definition unban_user :: "user \<Rightarrow> db \<Rightarrow> db" where
  "unban_user u d = update_user (u_id u) (\<lambda>x. x\<lparr>u_is_banned := False, u_ban_reason := []\<rparr>) d"

section \<open>Tokens\<close>

definition access_token_hours :: int where
  "access_token_hours = 1"

definition refresh_max_age_days :: int where
  "refresh_max_age_days = 30"

text \<open>\<open>int(t.timestamp())\<close>\<close>

definition timestamp :: "time \<Rightarrow> int" where
  "timestamp t = t div 1000000"

definition token_payload :: "time \<Rightarrow> user \<Rightarrow> int \<Rightarrow> (string, json) dict" where
  "token_payload now u issued_at =
     [(''sub'', JStr (show_nat (u_id u))), (''username'', JStr (u_username u)), (''type'', JStr ''access''),
      (''ver'', JInt (int (u_token_version u))), (''auth_time'', JInt issued_at), (''iat'', JInt (timestamp now)),
      (''exp'', JInt (timestamp (now + seconds (access_token_hours * 3600))))]"

definition generate_jwt_token :: "'t auth_lib \<Rightarrow> time \<Rightarrow> user \<Rightarrow> int option \<Rightarrow> 't" where
  "generate_jwt_token lib now u auth_time =
     al_encode lib (token_payload now u (case auth_time of Some t \<Rightarrow> t | None \<Rightarrow> timestamp now))"

text \<open>\<open>int(payload.get("ver", 0))\<close>\<close>

definition payload_version :: "(string, json) dict \<Rightarrow> int result" where
  "payload_version p = (case map_of p ''ver'' of None \<Rightarrow> Inr 0 | Some j \<Rightarrow> py_int_json j)"

text \<open>\<open>objects.filter(pk=...)\<close> with an integer.\<close>

definition user_by_pk :: "int \<Rightarrow> db \<Rightarrow> user option" where
  "user_by_pk n d = (if n < 0 then None else row_get u_id (nat n) (db_users d))"

text \<open>\<open>JudgeLoomAuth.authenticate\<close>\<close>

definition token_subject :: "(string, json) dict \<Rightarrow> json option" where
  "token_subject p =
     (case map_of p ''sub'' of
        Some j \<Rightarrow> if truthy j then Some j else map_of p ''user_id''
      | None \<Rightarrow> map_of p ''user_id'')"

definition authenticate_token :: "'t auth_lib \<Rightarrow> time \<Rightarrow> 't \<Rightarrow> db \<Rightarrow> user option result" where
  "authenticate_token lib now token d =
     (case al_decode lib now token of
        None \<Rightarrow> Inr None
      | Some p \<Rightarrow>
          if map_of p ''type'' \<notin> {None, Some JNull, Some (JStr ''access'')} then Inr None
          else case token_subject p of
                 None \<Rightarrow> Inr None
               | Some j \<Rightarrow>
                   if \<not> truthy j then Inr None
                   else andThen (py_int_json j) (\<lambda>pk.
                     case user_by_pk pk d of
                       None \<Rightarrow> Inr None
                     | Some u \<Rightarrow>
                         if \<not> u_is_active u \<or> u_is_banned u then Inr None
                         else andThen (payload_version p) (\<lambda>v. Inr (if v = int (u_token_version u) then Some u else None))))"

text \<open>\<open>refresh_jwt_token\<close>: the subject goes through \<open>str\<close> and the integer column, so only strings of
  digits and integers are keys.\<close>

definition refresh_subject :: "(string, json) dict \<Rightarrow> int result" where
  "refresh_subject p = (case map_of p ''sub'' of
     Some (JStr s) \<Rightarrow> (case py_int s of Some n \<Rightarrow> Inr n | None \<Rightarrow> Inl (ValueError ''id''))
   | Some (JInt n) \<Rightarrow> Inr n
   | _ \<Rightarrow> Inl (ValueError ''id''))"

definition issued_at_of :: "(string, json) dict \<Rightarrow> int option" where
  "issued_at_of p =
     (case (case map_of p ''auth_time'' of Some j \<Rightarrow> Some j | None \<Rightarrow> map_of p ''iat'') of
        Some (JInt n) \<Rightarrow> Some n
      | Some (JBool b) \<Rightarrow> Some (if b then 1 else 0)
      | _ \<Rightarrow> None)"

definition refresh_jwt_token :: "'t auth_lib \<Rightarrow> time \<Rightarrow> 't \<Rightarrow> db \<Rightarrow> 't result" where
  "refresh_jwt_token lib now token d =
     (case al_decode lib now token of
        None \<Rightarrow> Inl (ValidationError ''Invalid token.'')
      | Some p \<Rightarrow>
          raise_if (map_of p ''type'' \<noteq> Some (JStr ''access'')) (ValidationError ''Unsupported token type.'')
          (andThen (refresh_subject p) (\<lambda>pk.
           case user_by_pk pk d of
             None \<Rightarrow> Inl (ValidationError ''User not found for token.'')
           | Some u \<Rightarrow>
               raise_if (u_is_banned u \<or> \<not> u_is_active u) (ValidationError ''User cannot refresh token.'')
               (andThen (payload_version p) (\<lambda>v.
                raise_if (v \<noteq> int (u_token_version u)) (ValidationError ''Token has been revoked.'')
                (case issued_at_of p of
                   None \<Rightarrow> Inl (ValidationError ''Invalid token session.'')
                 | Some t \<Rightarrow>
                     raise_if (now - seconds t > seconds (refresh_max_age_days * 86400))
                       (ValidationError ''Session expired; log in again.'')
                       (Inr (generate_jwt_token lib now u (Some t)))))))))"

section \<open>Django's login backend (\<open>backends.py\<close>)\<close>

text \<open>\<open>kw_username\<close> and \<open>kw_email\<close> are the keyword arguments that are strings; Django's own
  \<open>user_can_authenticate\<close> asks for an active user.\<close>

definition user_can_authenticate :: "user \<Rightarrow> bool" where
  "user_can_authenticate u = (u_is_active u \<and> \<not> u_is_banned u)"

definition backend_authenticate ::
    "'t auth_lib \<Rightarrow> string option \<Rightarrow> string option \<Rightarrow> string option \<Rightarrow> string option \<Rightarrow> db \<Rightarrow> user option" where
  "backend_authenticate lib username password kw_username kw_email d =
     (case password of
        None \<Rightarrow> None
      | Some pw \<Rightarrow>
          (case (case username of Some s \<Rightarrow> Some s | None \<Rightarrow> (case kw_username of Some s \<Rightarrow> Some s | None \<Rightarrow> kw_email)) of
             None \<Rightarrow> None
           | Some ident \<Rightarrow>
               (case find_identity ident d of
                  None \<Rightarrow> None
                | Some u \<Rightarrow> if \<not> al_check_password lib pw (u_password u) then None
                            else if \<not> user_can_authenticate u then None
                            else if u_is_banned u then None else Some u)))"

section \<open>Profiles (\<open>profile_service.py\<close>)\<close>

definition editable_fields :: "string list" where
  "editable_fields = [''timezone'', ''language'', ''theme'', ''display_rank'', ''about'', ''notes'']"

definition set_profile_field :: "string \<Rightarrow> string \<Rightarrow> user \<Rightarrow> user" where
  "set_profile_field field_name val u =
     (if field_name = ''timezone'' then u\<lparr>u_timezone := val\<rparr>
      else if field_name = ''language'' then u\<lparr>u_language := val\<rparr>
      else if field_name = ''theme'' then u\<lparr>u_theme := val\<rparr>
      else if field_name = ''display_rank'' then u\<lparr>u_display_rank := val\<rparr>
      else if field_name = ''about'' then u\<lparr>u_about := val\<rparr>
      else if field_name = ''notes'' then u\<lparr>u_notes := val\<rparr> else u)"

fun apply_profile :: "(string \<times> string) list \<Rightarrow> user \<Rightarrow> user result" where
  "apply_profile [] u = Inr u"
| "apply_profile ((field_name, val) # items) u =
     (if field_name \<notin> set editable_fields then apply_profile items u
      else raise_if (field_name \<in> {''timezone'', ''language'', ''theme''} \<and> val = [])
             (ValidationError (field_name @ '' cannot be empty.''))
             (apply_profile items (set_profile_field field_name val u)))"

definition update_profile :: "user \<Rightarrow> (string \<times> string) list \<Rightarrow> db \<Rightarrow> (user \<times> db) result" where
  "update_profile u data d =
     andThen (apply_profile data u) (\<lambda>u'.
       Inr (u', update_user (u_id u) (\<lambda>x. x\<lparr>u_timezone := u_timezone u', u_language := u_language u', u_theme := u_theme u',
                  u_display_rank := u_display_rank u', u_about := u_about u', u_notes := u_notes u'\<rparr>) d))"

record user_stats =
  us_submission_count :: nat
  us_solved_problem_count :: nat
  us_rating :: int
  us_max_rating :: int
  us_points :: rat
  us_performance_points :: rat
  us_problem_count :: nat
  us_contributions :: rat

definition get_user_stats :: "user \<Rightarrow> db \<Rightarrow> user_stats" where
  "get_user_stats u d = \<lparr>us_submission_count = length (filter (\<lambda>s. s_user s = u_id u \<and> s_mode s = Mode_SUBMIT) (db_submissions d)),
     us_solved_problem_count = u_problem_count u, us_rating = u_rating u, us_max_rating = u_max_rating u,
     us_points = u_points u, us_performance_points = u_performance_points u,
     us_problem_count = u_problem_count u, us_contributions = calculate_contribution u\<rparr>"

section \<open>Maintenance (\<open>account_maintenance_service.py\<close>)\<close>

text \<open>\<open>send_welcome_email\<close> with the recipients of the mail it sends.\<close>

definition registered_event :: "user \<Rightarrow> event" where
  "registered_event u = \<lparr>ev_type = ''user.registered'',
     ev_payload = [(''user_id'', JInt (int (u_id u))), (''username'', JStr (u_username u))], ev_group = None\<rparr>"

definition send_welcome_email :: "nat \<Rightarrow> db \<Rightarrow> string list \<times> db" where
  "send_welcome_email i d =
     (case row_get u_id i (db_users d) of
        None \<Rightarrow> ([], d)
      | Some u \<Rightarrow> (if u_email u \<noteq> [] then [u_email u] else [], publish (registered_event u) d))"

text \<open>\<open>order_by("-points").first()\<close> of all submissions to the problem.\<close>

definition best_submission_points :: "nat \<Rightarrow> nat \<Rightarrow> db \<Rightarrow> rat" where
  "best_submission_points uid pid d =
     (case first (sort_key (\<lambda>x. - x) (map s_points (filter (\<lambda>s. s_user s = uid \<and> s_problem s = pid) (db_submissions d)))) of
        Some x \<Rightarrow> x | None \<Rightarrow> 0)"

definition refresh_user_submission_stats :: "nat \<Rightarrow> db \<Rightarrow> db" where
  "refresh_user_submission_stats i d =
     (case row_get u_id i (db_users d) of
        None \<Rightarrow> d
      | Some u \<Rightarrow>
          (let solved = remdups (map s_problem (filter (\<lambda>s. s_user s = i \<and> s_result s = Some AC) (db_submissions d)));
               total_points = sum_list (map (\<lambda>p. best_submission_points i p d) solved)
           in update_user i (\<lambda>x. x\<lparr>u_problem_count := length solved, u_points := round_to 2 total_points,
                u_performance_points := round_to 2 (total_points * (1 / 10))\<rparr>) d))"

section \<open>The endpoints (\<open>accounts/api/router.py\<close>)\<close>

text \<open>The schema of the registration; \<open>is_email\<close> is pydantic's \<open>EmailStr\<close>. A request ninja rejects is
  answered 422.\<close>

definition bad_request :: error where
  "bad_request = HttpError 422 ''Unprocessable Entity''"

definition valid_registration :: "(string \<Rightarrow> bool) \<Rightarrow> string \<Rightarrow> string \<Rightarrow> string \<Rightarrow> bool" where
  "valid_registration is_email username email password =
     (3 \<le> length username \<and> length username \<le> 150 \<and> is_email email \<and> 8 \<le> length password \<and> length password \<le> 128)"

definition valid_login :: "string \<Rightarrow> string \<Rightarrow> bool" where
  "valid_login username_or_email password =
     (1 \<le> length username_or_email \<and> length username_or_email \<le> 254 \<and> 1 \<le> length password \<and> length password \<le> 128)"

definition api_register ::
    "'t auth_lib \<Rightarrow> (string \<Rightarrow> bool) \<Rightarrow> string \<Rightarrow> time \<Rightarrow> string \<Rightarrow> string \<Rightarrow> string \<Rightarrow> db \<Rightarrow> ('t \<times> db) result" where
  "api_register lib is_email salt now username email password d =
     raise_if (\<not> valid_registration is_email username email password) bad_request
       (andThen (create_user lib salt username email password d) (\<lambda>(u, d'). Inr (generate_jwt_token lib now u None, d')))"

definition api_login :: "'t auth_lib \<Rightarrow> time \<Rightarrow> string \<Rightarrow> string \<Rightarrow> db \<Rightarrow> 't result" where
  "api_login lib now username_or_email password d =
     raise_if (\<not> valid_login username_or_email password) bad_request
       (case authenticate lib username_or_email password d of
          None \<Rightarrow> Inl (ValidationError ''Invalid credentials.'')
        | Some u \<Rightarrow> Inr (generate_jwt_token lib now u None))"

definition api_refresh :: "'t auth_lib \<Rightarrow> time \<Rightarrow> 't \<Rightarrow> db \<Rightarrow> 't result" where
  "api_refresh = refresh_jwt_token"

text \<open>\<open>auth=JudgeLoomAuth()\<close>: the handler runs with the user of the bearer token.\<close>

definition with_bearer :: "'t auth_lib \<Rightarrow> time \<Rightarrow> 't option \<Rightarrow> db \<Rightarrow> (user \<Rightarrow> 'a result) \<Rightarrow> 'a result" where
  "with_bearer lib now token d handler =
     (case token of
        None \<Rightarrow> Inl (HttpError 401 ''Unauthorized'')
      | Some t \<Rightarrow> andThen (authenticate_token lib now t d) (\<lambda>v.
          case v of None \<Rightarrow> Inl (HttpError 401 ''Unauthorized'') | Some u \<Rightarrow> handler u))"

record user_profile =
  up_username :: string
  up_email :: string
  up_display_name :: string
  up_timezone :: string
  up_language :: string
  up_theme :: string
  up_display_rank :: string
  up_about :: string
  up_rating :: int
  up_max_rating :: int
  up_points :: rat
  up_performance_points :: rat
  up_problem_count :: nat
  up_is_totp_enabled :: bool
  up_mfa_enabled :: bool
  up_css_class :: string
  up_is_banned :: bool

definition user_profile_out :: "user \<Rightarrow> user_profile" where
  "user_profile_out u = \<lparr>up_username = u_username u, up_email = u_email u, up_display_name = display_name u,
     up_timezone = u_timezone u, up_language = u_language u, up_theme = u_theme u,
     up_display_rank = u_display_rank u, up_about = u_about u, up_rating = u_rating u,
     up_max_rating = u_max_rating u, up_points = u_points u, up_performance_points = u_performance_points u,
     up_problem_count = u_problem_count u, up_is_totp_enabled = u_is_totp_enabled u,
     up_mfa_enabled = u_mfa_enabled u, up_css_class = get_rating_class u, up_is_banned = u_is_banned u\<rparr>"

definition api_me :: "'t auth_lib \<Rightarrow> time \<Rightarrow> 't option \<Rightarrow> db \<Rightarrow> user_profile result" where
  "api_me lib now token d = with_bearer lib now token d (\<lambda>u. Inr (user_profile_out u))"

definition api_update_me ::
    "'t auth_lib \<Rightarrow> time \<Rightarrow> 't option \<Rightarrow> (string \<times> string) list \<Rightarrow> db \<Rightarrow> (user_profile \<times> db) result" where
  "api_update_me lib now token data d =
     with_bearer lib now token d (\<lambda>u. andThen (update_profile u data d) (\<lambda>(u', d'). Inr (user_profile_out u', d')))"

definition api_logout :: "'t auth_lib \<Rightarrow> time \<Rightarrow> 't option \<Rightarrow> db \<Rightarrow> db result" where
  "api_logout lib now token d = with_bearer lib now token d (\<lambda>u. Inr (revoke_tokens u d))"

definition api_create_api_token :: "'t auth_lib \<Rightarrow> time \<Rightarrow> 't option \<Rightarrow> string \<Rightarrow> db \<Rightarrow> (string \<times> db) result" where
  "api_create_api_token lib now token fresh d = with_bearer lib now token d (\<lambda>u. generate_api_token fresh u d)"

record user_public =
  upub_username :: string
  upub_display_name :: string
  upub_rating :: int
  upub_max_rating :: int
  upub_points :: rat
  upub_problem_count :: nat
  upub_css_class :: string

definition user_not_found :: error where
  "user_not_found = NotFoundError ''User not found.''"

definition api_public_profile :: "string \<Rightarrow> db \<Rightarrow> user_public result" where
  "api_public_profile username d =
     (case user_by_name username d of
        None \<Rightarrow> Inl user_not_found
      | Some u \<Rightarrow> Inr \<lparr>upub_username = u_username u, upub_display_name = display_name u, upub_rating = u_rating u,
                     upub_max_rating = u_max_rating u, upub_points = u_points u,
                     upub_problem_count = u_problem_count u, upub_css_class = get_rating_class u\<rparr>)"

definition api_user_stats :: "string \<Rightarrow> db \<Rightarrow> user_stats result" where
  "api_user_stats username d =
     (case user_by_name username d of None \<Rightarrow> Inl user_not_found | Some u \<Rightarrow> Inr (get_user_stats u d))"

end
