(* ===== verification/AccountFlow.thy ===== *)
theory AccountFlow
  imports Accounts
begin

text \<open>
  The accounts application as a whole: what the operations keep of the users' table, the log of the
  tokens issued so far, and the abstract registry of sessions that the version counter of a user
  row implements. A token is presented by a client who got it from the server: forging a signature
  is outside the model, so refreshing starts from an entry of the log.
\<close>

section \<open>Text\<close>

lemma lower_char_idem: "lower_char (lower_char c) = lower_char c"
  by (auto simp: lower_char_def Let_def of_char_of)

lemma lower_lower [simp]: "lower (lower s) = lower s"
  by (simp add: lower_def lower_char_idem)

lemma same_text_refl [simp]: "same_text s s"
  by (simp add: same_text_def)

lemma same_text_lower [simp]: "same_text (lower s) t = same_text s t" "same_text s (lower t) = same_text s t"
  by (simp_all add: same_text_def)

lemma same_text_sym: "same_text s t \<Longrightarrow> same_text t s"
  by (simp add: same_text_def)

section \<open>The users' table\<close>

text \<open>What identifies an account.\<close>

definition account_key :: "user \<Rightarrow> nat \<times> string \<times> string" where
  "account_key u = (u_id u, lower (u_username u), lower (u_email u))"

definition accounts_ok :: "db \<Rightarrow> bool" where
  "accounts_ok d \<longleftrightarrow> distinct (map u_id (db_users d)) \<and> distinct (map (\<lambda>u. lower (u_username u)) (db_users d))
     \<and> distinct (map (\<lambda>u. lower (u_email u)) (db_users d))"

definition user_at :: "nat \<Rightarrow> db \<Rightarrow> user option" where
  "user_at i d = row_get u_id i (db_users d)"

definition version_of :: "nat \<Rightarrow> db \<Rightarrow> nat option" where
  "version_of i d = map_option u_token_version (user_at i d)"

lemma user_at_update:
  assumes "\<And>u. u_id (f u) = u_id u"
  shows "user_at j (update_user i f d) = (if j = i then map_option f (user_at j d) else user_at j d)"
proof -
  have "List.find (\<lambda>r. u_id r = j) (map (\<lambda>r. if u_id r = i then f r else r) us) =
      (if j = i then map_option f (List.find (\<lambda>r. u_id r = j) us) else List.find (\<lambda>r. u_id r = j) us)" for us
    by (induction us) (auto simp: assms)
  then show ?thesis by (simp add: user_at_def row_get_def update_user_def rows_update_def)
qed

lemma accounts_ok_update:
  assumes "\<And>u. account_key (f u) = account_key u"
  shows "accounts_ok (update_user i f d) = accounts_ok d"
proof -
  have f: "u_id (f u) = u_id u" "lower (u_username (f u)) = lower (u_username u)" "lower (u_email (f u)) = lower (u_email u)" for u
    using assms [of u] by (simp_all add: account_key_def)
  have m: "map (\<lambda>u. g (if u_id u = i then f u else u)) us = map g us" if "\<And>u. g (f u) = g u" for us and g :: "user \<Rightarrow> 'b"
    using that by (intro map_cong) auto
  show ?thesis by (simp add: accounts_ok_def update_user_def rows_update_def comp_def f m [of u_id]
      m [of "\<lambda>u. lower (u_username u)"] m [of "\<lambda>u. lower (u_email u)"])
qed

lemma user_at_append:
  assumes "u_id u \<notin> u_id ` set (db_users d)"
  shows "user_at j (d\<lparr>db_users := db_users d @ [u]\<rparr>) = (if j = u_id u then Some u else user_at j d)"
proof -
  have "List.find (\<lambda>r. u_id r = j) (us @ [u]) = (if j = u_id u then Some u else List.find (\<lambda>r. u_id r = j) us)"
    if "u_id u \<notin> u_id ` set us" for us
    using that by (induction us) auto
  with assms show ?thesis by (simp add: user_at_def row_get_def)
qed

lemma user_at_Some: "user_at i d = Some u \<Longrightarrow> u \<in> set (db_users d) \<and> u_id u = i"
  unfolding user_at_def by (drule row_get_SomeD) simp

lemma user_at_member: "accounts_ok d \<Longrightarrow> u \<in> set (db_users d) \<Longrightarrow> user_at (u_id u) d = Some u"
proof -
  assume ok: "accounts_ok d" and u: "u \<in> set (db_users d)"
  have "\<exists>v. row_get u_id (u_id u) (db_users d) = Some v" using u row_get_NoneD by fastforce
  then obtain v where v: "row_get u_id (u_id u) (db_users d) = Some v" ..
  then have "v \<in> set (db_users d)" "u_id v = u_id u" using row_get_SomeD by fastforce+
  then have "v = u" using ok u by (auto simp: accounts_ok_def distinct_map inj_on_def)
  then show ?thesis using v by (simp add: user_at_def)
qed

section \<open>Tokens\<close>

text \<open>What PyJWT documents for a payload with a string subject and integer times: what was signed is read
  back from its issue until it expires.\<close>

definition jwt_laws :: "'t auth_lib \<Rightarrow> bool" where
  "jwt_laws lib \<longleftrightarrow> (\<forall>p s e i now. map_of p ''sub'' = Some (JStr s) \<longrightarrow> map_of p ''exp'' = Some (JInt e) \<longrightarrow>
     map_of p ''iat'' = Some (JInt i) \<longrightarrow>
     al_decode lib now (al_encode lib p) = (if seconds i \<le> now \<and> now < seconds e then Some p else None))"

lemma timestamp_le: "seconds (timestamp t) \<le> t"
  by (simp add: seconds_def timestamp_def)

lemma timestamp_gt: "t < seconds (timestamp t) + seconds 1"
  by (simp add: seconds_def timestamp_def)

lemma map_of_token_payload [simp]:
  "map_of (token_payload now u t) ''sub'' = Some (JStr (show_nat (u_id u)))"
  "map_of (token_payload now u t) ''type'' = Some (JStr ''access'')"
  "map_of (token_payload now u t) ''ver'' = Some (JInt (int (u_token_version u)))"
  "map_of (token_payload now u t) ''auth_time'' = Some (JInt t)"
  "map_of (token_payload now u t) ''iat'' = Some (JInt (timestamp now))"
  "map_of (token_payload now u t) ''exp'' = Some (JInt (timestamp (now + seconds 3600)))"
  by (simp_all add: token_payload_def access_token_hours_def)

definition expiry :: "time \<Rightarrow> time" where
  "expiry made = seconds (timestamp (made + seconds 3600))"

definition alive :: "time \<Rightarrow> time \<Rightarrow> bool" where
  "alive made now \<longleftrightarrow> seconds (timestamp made) \<le> now \<and> now < expiry made"

lemma decode_token:
  assumes "jwt_laws lib"
  shows "al_decode lib now (al_encode lib (token_payload made u t)) = (if alive made now then Some (token_payload made u t) else None)"
  using assms unfolding jwt_laws_def alive_def expiry_def by (metis map_of_token_payload(1,5,6))

lemma token_subject_payload [simp]: "token_subject (token_payload made u t) = Some (JStr (show_nat (u_id u)))"
  using show_nat_digits [of "u_id u"] by (simp add: token_subject_def)

lemma payload_version_payload [simp]: "payload_version (token_payload made u t) = Inr (int (u_token_version u))"
  by (simp add: payload_version_def)

lemma refresh_subject_payload [simp]: "refresh_subject (token_payload made u t) = Inr (int (u_id u))"
  by (simp add: refresh_subject_def)

lemma issued_at_payload [simp]: "issued_at_of (token_payload made u t) = Some t"
  by (simp add: issued_at_of_def)

lemma user_by_pk_int [simp]: "user_by_pk (int i) d = user_at i d"
  by (simp add: user_by_pk_def user_at_def)

text \<open>Authentication with an issued token, in closed form.\<close>

lemma authenticate_issued:
  assumes "jwt_laws lib"
  shows "authenticate_token lib now (al_encode lib (token_payload made u0 t)) d =
     (if \<not> alive made now then Inr None
      else case user_at (u_id u0) d of
             None \<Rightarrow> Inr None
           | Some u \<Rightarrow> Inr (if u_is_active u \<and> \<not> u_is_banned u \<and> u_token_version u = u_token_version u0 then Some u else None))"
  using show_nat_digits [of "u_id u0"] by (auto simp: authenticate_token_def decode_token [OF assms] split: option.splits)

lemma refresh_issued:
  assumes "jwt_laws lib" and "refresh_jwt_token lib now (al_encode lib (token_payload made u0 t)) d = Inr tok"
  shows "\<exists>u. user_at (u_id u0) d = Some u \<and> u_token_version u = u_token_version u0 \<and> u_is_active u \<and> \<not> u_is_banned u
     \<and> now - seconds t \<le> seconds (30 * 86400) \<and> alive made now \<and> tok = al_encode lib (token_payload now u t)"
  using assms(2) by (auto simp: refresh_jwt_token_def decode_token [OF assms(1)] generate_jwt_token_def refresh_max_age_days_def
      split: option.splits if_splits)

section \<open>The site and its log\<close>

record 't issued =
  is_token :: 't
  is_user :: nat
  is_version :: nat
  is_auth_time :: int
  is_made :: time

definition issue :: "'t auth_lib \<Rightarrow> time \<Rightarrow> user \<Rightarrow> int \<Rightarrow> 't issued" where
  "issue lib now u t = \<lparr>is_token = generate_jwt_token lib now u (Some t), is_user = u_id u,
     is_version = u_token_version u, is_auth_time = t, is_made = now\<rparr>"

text \<open>The abstract registry: a set of open sessions. A login opens one, and closing an account's sessions
  removes them all.\<close>

datatype 't session_op = Open_session "'t issued" | Close_sessions nat | No_change

fun session_apply :: "'t session_op \<Rightarrow> 't issued set \<Rightarrow> 't issued set" where
  "session_apply (Open_session e) S = insert e S"
| "session_apply (Close_sessions i) S = {e \<in> S. is_user e \<noteq> i}"
| "session_apply No_change S = S"

text \<open>One call of the accounts application; a user row is the one its handler read.\<close>

inductive account_step :: "'t auth_lib \<Rightarrow> 't session_op \<Rightarrow> db \<times> 't issued set \<Rightarrow> db \<times> 't issued set \<Rightarrow> bool"
  for lib :: "'t auth_lib" where
  step_register: "create_user lib salt n e p d = Inr (u, d') \<Longrightarrow> ev = issue lib now u (timestamp now) \<Longrightarrow>
     account_step lib (Open_session ev) (d, iss) (d', insert ev iss)"
| step_login: "authenticate lib n p d = Some u \<Longrightarrow> ev = issue lib now u (timestamp now) \<Longrightarrow>
     account_step lib (Open_session ev) (d, iss) (d, insert ev iss)"
| step_refresh: "old \<in> iss \<Longrightarrow> refresh_jwt_token lib now (is_token old) d = Inr tok \<Longrightarrow> user_at (is_user old) d = Some u \<Longrightarrow>
     ev = \<lparr>is_token = tok, is_user = is_user old, is_version = is_version old, is_auth_time = is_auth_time old, is_made = now\<rparr> \<Longrightarrow>
     account_step lib (Open_session ev) (d, iss) (d, insert ev iss)"
| step_change: "user_at i d = Some u \<Longrightarrow> change_password lib salt u old new d = Inr d' \<Longrightarrow>
     account_step lib (Close_sessions i) (d, iss) (d', iss)"
| step_revoke: "user_at i d = Some u \<Longrightarrow> account_step lib (Close_sessions i) (d, iss) (revoke_tokens u d, iss)"
| step_ban: "user_at i d = Some u \<Longrightarrow> account_step lib (Close_sessions i) (d, iss) (ban_user u reason d, iss)"
| step_unban: "user_at i d = Some u \<Longrightarrow> account_step lib No_change (d, iss) (unban_user u d, iss)"
| step_api_token: "user_at i d = Some u \<Longrightarrow> generate_api_token t u d = Inr (t', d') \<Longrightarrow>
     account_step lib No_change (d, iss) (d', iss)"
| step_profile: "user_at i d = Some u \<Longrightarrow> update_profile u items d = Inr (u', d') \<Longrightarrow>
     account_step lib No_change (d, iss) (d', iss)"
| step_stats: "account_step lib No_change (d, iss) (refresh_user_submission_stats i d, iss)"
| step_mail: "account_step lib No_change (d, iss) (snd (send_welcome_email i d), iss)"

inductive account_reachable :: "'t auth_lib \<Rightarrow> db \<times> 't issued set \<Rightarrow> bool" for lib :: "'t auth_lib" where
  start: "db_users d = [] \<Longrightarrow> account_reachable lib (d, {})"
| step: "account_reachable lib s \<Longrightarrow> account_step lib oper s s' \<Longrightarrow> account_reachable lib s'"

text \<open>The sessions that are open: those with the version their user's row has now.\<close>

definition live :: "db \<times> 't issued set \<Rightarrow> 't issued set" where
  "live s = {e \<in> snd s. version_of (is_user e) (fst s) = Some (is_version e)}"

text \<open>The invariant of the log.\<close>

definition entry_ok :: "'t auth_lib \<Rightarrow> db \<Rightarrow> 't issued \<Rightarrow> bool" where
  "entry_ok lib d e \<longleftrightarrow> (\<exists>u0. is_token e = al_encode lib (token_payload (is_made e) u0 (is_auth_time e))
      \<and> u_id u0 = is_user e \<and> u_token_version u0 = is_version e)
    \<and> is_made e - seconds (is_auth_time e) \<le> seconds (30 * 86400)
    \<and> (\<exists>v. version_of (is_user e) d = Some v \<and> is_version e \<le> v)"

definition site_ok :: "'t auth_lib \<Rightarrow> db \<times> 't issued set \<Rightarrow> bool" where
  "site_ok lib s \<longleftrightarrow> accounts_ok (fst s) \<and> (\<forall>e \<in> snd s. entry_ok lib (fst s) e)"

section \<open>What the operations do to the users\<close>

text \<open>Each operation but the registration updates one row, keeping its keys.\<close>

lemma account_key_simps [simp]:
  "account_key (u\<lparr>u_password := p\<rparr>) = account_key u" "account_key (u\<lparr>u_token_version := n\<rparr>) = account_key u"
  "account_key (u\<lparr>u_is_banned := b\<rparr>) = account_key u" "account_key (u\<lparr>u_ban_reason := s\<rparr>) = account_key u"
  "account_key (u\<lparr>u_api_token := t\<rparr>) = account_key u" "account_key (u\<lparr>u_problem_count := m\<rparr>) = account_key u"
  "account_key (u\<lparr>u_points := x\<rparr>) = account_key u" "account_key (u\<lparr>u_performance_points := x\<rparr>) = account_key u"
  "account_key (u\<lparr>u_timezone := s\<rparr>) = account_key u" "account_key (u\<lparr>u_language := s\<rparr>) = account_key u"
  "account_key (u\<lparr>u_theme := s\<rparr>) = account_key u" "account_key (u\<lparr>u_display_rank := s\<rparr>) = account_key u"
  "account_key (u\<lparr>u_about := s\<rparr>) = account_key u" "account_key (u\<lparr>u_notes := s\<rparr>) = account_key u"
  by (simp_all add: account_key_def)

text \<open>Either nothing happens to the versions, or one account's version goes up by one.\<close>

definition keeps_versions :: "db \<Rightarrow> db \<Rightarrow> bool" where
  "keeps_versions d d' \<longleftrightarrow> accounts_ok d' = accounts_ok d \<and> (\<forall>j. version_of j d' = version_of j d)"

definition bumps_version :: "nat \<Rightarrow> db \<Rightarrow> db \<Rightarrow> bool" where
  "bumps_version i d d' \<longleftrightarrow> accounts_ok d' = accounts_ok d
     \<and> (\<forall>j. version_of j d' = (if j = i then map_option Suc (version_of j d) else version_of j d))"

lemma update_keeps:
  assumes "\<And>u. account_key (f u) = account_key u" and "\<And>u. u_token_version (f u) = u_token_version u"
  shows "keeps_versions d (update_user i f d)"
proof -
  have "u_id (f u) = u_id u" for u using assms(1) [of u] by (simp add: account_key_def)
  then show ?thesis using assms by (auto simp: keeps_versions_def accounts_ok_update version_of_def user_at_update option.map_comp comp_def)
qed

lemma update_bumps:
  assumes "user_at i d = Some u" and "\<And>x. account_key (f x) = account_key x"
    and "\<And>x. u_token_version (f x) = u_token_version u + 1"
  shows "bumps_version i d (update_user (u_id u) f d)"
proof -
  have "u_id (f x) = u_id x" for x using assms(2) [of x] by (simp add: account_key_def)
  moreover have "u_id u = i" using assms(1) user_at_Some by blast
  ultimately show ?thesis using assms by (auto simp: bumps_version_def accounts_ok_update version_of_def user_at_update)
qed

lemma change_password_bumps:
  "user_at i d = Some u \<Longrightarrow> change_password lib salt u old new d = Inr d' \<Longrightarrow> bumps_version i d d'"
  by (auto simp: change_password_def intro!: update_bumps)

lemma revoke_tokens_bumps: "user_at i d = Some u \<Longrightarrow> bumps_version i d (revoke_tokens u d)"
  unfolding revoke_tokens_def by (rule update_bumps) simp_all

lemma ban_user_bumps: "user_at i d = Some u \<Longrightarrow> bumps_version i d (ban_user u reason d)"
  unfolding ban_user_def by (rule update_bumps) simp_all

lemma unban_user_keeps: "keeps_versions d (unban_user u d)"
  unfolding unban_user_def by (rule update_keeps) simp_all

lemma generate_api_token_keeps: "generate_api_token t u d = Inr (t', d') \<Longrightarrow> keeps_versions d d'"
  by (auto simp: generate_api_token_def intro!: update_keeps)

lemma update_profile_keeps: "update_profile u items d = Inr (u', d') \<Longrightarrow> keeps_versions d d'"
  by (auto simp: update_profile_def intro!: update_keeps)

lemma refresh_stats_keeps: "keeps_versions d (refresh_user_submission_stats i d)"
proof (cases "row_get u_id i (db_users d)")
  case None
  then show ?thesis by (simp add: refresh_user_submission_stats_def keeps_versions_def)
next
  case (Some u)
  then show ?thesis by (simp add: refresh_user_submission_stats_def Let_def) (rule update_keeps, simp_all)
qed

lemma welcome_keeps: "keeps_versions d (snd (send_welcome_email i d))"
  by (simp add: send_welcome_email_def publish_def keeps_versions_def accounts_ok_def version_of_def user_at_def split: option.splits)

lemma create_user_facts:
  assumes "accounts_ok d" and "create_user lib salt n e p d = Inr (u, d')"
  shows "accounts_ok d' \<and> user_at (u_id u) d = None \<and> u_token_version u = 0
     \<and> (\<forall>j. user_at j d' = (if j = u_id u then Some u else user_at j d))"
proof -
  define name mail i where "name = strip n" and "mail = lower (strip e)" and "i = fresh_key u_id (db_users d)"
  have u: "u = account_row lib salt name mail p i" and d': "d' = d\<lparr>db_users := db_users d @ [u]\<rparr>"
    and fresh_name: "\<not> list_ex (\<lambda>u. same_text (u_username u) name) (db_users d)"
    and fresh_mail: "\<not> list_ex (\<lambda>u. same_text (u_email u) mail) (db_users d)"
    using assms(2) by (auto simp: create_user_def Let_def name_def mail_def i_def)
  have i: "u_id u \<notin> u_id ` set (db_users d)" using fresh_key_notin [of u_id "db_users d"] by (simp add: u account_row_def new_user_def i_def)
  moreover have "lower (u_username u) \<notin> (\<lambda>u. lower (u_username u)) ` set (db_users d)"
    using fresh_name by (auto simp: u account_row_def list_ex_iff same_text_def)
  moreover have "lower (u_email u) \<notin> (\<lambda>u. lower (u_email u)) ` set (db_users d)"
    using fresh_mail by (auto simp: u account_row_def list_ex_iff same_text_def)
  ultimately have "accounts_ok d'" using assms(1) by (simp add: accounts_ok_def d')
  moreover have "user_at (u_id u) d = None"
    using i user_at_Some [of "u_id u" d] by (metis image_eqI not_None_eq)
  moreover have "u_token_version u = 0" by (simp add: u account_row_def new_user_def)
  ultimately show ?thesis using user_at_append [OF i] by (simp add: d')
qed

lemma authenticate_finds:
  assumes "accounts_ok d" and "authenticate lib n p d = Some u"
  shows "user_at (u_id u) d = Some u \<and> u_is_active u \<and> \<not> u_is_banned u \<and> al_check_password lib p (u_password u)"
proof -
  have "find_identity (strip n) d = Some u" and ok: "u_is_active u \<and> \<not> u_is_banned u \<and> al_check_password lib p (u_password u)"
    using assms(2) by (auto simp: authenticate_def Let_def split: if_splits option.splits)
  then have "u \<in> set (db_users d)"
    by (auto simp: find_identity_def user_by_name_def user_by_email_def split: option.splits dest!: first_in)
  then show ?thesis using ok user_at_member [OF assms(1)] by blast
qed

section \<open>The simulation\<close>

lemma entry_ok_mono:
  assumes "entry_ok lib d e" and "\<And>j v. version_of j d = Some v \<Longrightarrow> \<exists>w \<ge> v. version_of j d' = Some w"
  shows "entry_ok lib d' e"
  using assms unfolding entry_ok_def by (meson order_trans)

lemma keeps_simulates:
  assumes "keeps_versions d d'" and "site_ok lib (d, iss)"
  shows "site_ok lib (d', iss) \<and> live (d', iss) = session_apply No_change (live (d, iss))"
  using assms by (auto simp: keeps_versions_def site_ok_def live_def intro: entry_ok_mono)

lemma bumps_simulates:
  assumes "bumps_version i d d'" and "site_ok lib (d, iss)"
  shows "site_ok lib (d', iss) \<and> live (d', iss) = session_apply (Close_sessions i) (live (d, iss))"
proof -
  have bump: "version_of j d' = (if j = i then map_option Suc (version_of j d) else version_of j d)" for j
    using assms(1) by (simp add: bumps_version_def)
  have "\<exists>w \<ge> v. version_of j d' = Some w" if "version_of j d = Some v" for j v
    using that by (auto simp: bump)
  then have "site_ok lib (d', iss)"
    using assms by (auto simp: bumps_version_def site_ok_def intro: entry_ok_mono)
  moreover have "\<exists>v. version_of (is_user e) d = Some v \<and> is_version e \<le> v" if "e \<in> iss" for e
    using assms(2) that by (auto simp: site_ok_def entry_ok_def)
  then have "live (d', iss) = {e \<in> live (d, iss). is_user e \<noteq> i}"
    unfolding live_def by (fastforce simp: bump split: if_splits)
  ultimately show ?thesis by simp
qed

lemma opens_simulates:
  assumes "site_ok lib (d, iss)" and "entry_ok lib d ev" and "version_of (is_user ev) d = Some (is_version ev)"
  shows "site_ok lib (d, insert ev iss) \<and> live (d, insert ev iss) = session_apply (Open_session ev) (live (d, iss))"
  using assms by (auto simp: site_ok_def live_def)

lemma issue_entry_ok:
  assumes "user_at (u_id u) d = Some u"
  shows "entry_ok lib d (issue lib now u (timestamp now)) \<and> version_of (is_user (issue lib now u (timestamp now))) d
     = Some (is_version (issue lib now u (timestamp now)))"
proof -
  have "now - seconds (timestamp now) \<le> seconds (30 * 86400)"
    using timestamp_gt [of now] by (simp add: seconds_def)
  then show ?thesis
    using assms by (auto simp: entry_ok_def issue_def version_of_def generate_jwt_token_def)
qed

lemma register_simulates:
  assumes "site_ok lib (d, iss)" and "create_user lib salt n e p d = Inr (u, d')" and "ev = issue lib now u (timestamp now)"
  shows "site_ok lib (d', insert ev iss) \<and> live (d', insert ev iss) = session_apply (Open_session ev) (live (d, iss))"
proof -
  have ok: "accounts_ok d" and iss: "\<And>x. x \<in> iss \<Longrightarrow> entry_ok lib d x" using assms(1) by (simp_all add: site_ok_def)
  note new = create_user_facts [OF ok assms(2)]
  then have at: "user_at j d' = (if j = u_id u then Some u else user_at j d)" for j by blast
  have old: "is_user x \<noteq> u_id u" if "x \<in> iss" for x
    using iss [OF that] new by (auto simp: entry_ok_def version_of_def)
  have "version_of (is_user x) d' = version_of (is_user x) d" if "x \<in> iss" for x
    using old [OF that] by (simp add: version_of_def at)
  then have "site_ok lib (d', iss) \<and> live (d', iss) = live (d, iss)"
    using iss new by (auto simp: site_ok_def live_def entry_ok_def)
  moreover have "user_at (u_id u) d' = Some u" by (simp add: at)
  ultimately show ?thesis using opens_simulates [of lib d' iss ev] issue_entry_ok [of u d' lib now] assms(3) by simp
qed

lemma refresh_simulates:
  assumes "jwt_laws lib" and "site_ok lib (d, iss)" and "old \<in> iss"
    and "refresh_jwt_token lib now (is_token old) d = Inr tok"
    and "ev = \<lparr>is_token = tok, is_user = is_user old, is_version = is_version old, is_auth_time = is_auth_time old, is_made = now\<rparr>"
  shows "site_ok lib (d, insert ev iss) \<and> live (d, insert ev iss) = session_apply (Open_session ev) (live (d, iss))"
proof -
  have "entry_ok lib d old" using assms(2,3) by (simp add: site_ok_def)
  then obtain u0 where u0: "is_token old = al_encode lib (token_payload (is_made old) u0 (is_auth_time old))"
    "u_id u0 = is_user old" "u_token_version u0 = is_version old" by (auto simp: entry_ok_def)
  then obtain u where "user_at (is_user old) d = Some u" "u_token_version u = is_version old"
    "now - seconds (is_auth_time old) \<le> seconds (30 * 86400)" "tok = al_encode lib (token_payload now u (is_auth_time old))"
    using refresh_issued [OF assms(1), of now "is_made old" u0 "is_auth_time old" d tok] assms(4) by auto
  then show ?thesis
    using user_at_Some assms(5) by (intro opens_simulates [OF assms(2)]) (auto simp: entry_ok_def version_of_def)
qed

lemma step_simulates:
  assumes "jwt_laws lib" and "account_step lib oper s s'" and "site_ok lib s"
  shows "site_ok lib s' \<and> live s' = session_apply oper (live s)"
  using assms(2,3)
proof (induction rule: account_step.induct)
  case (step_register salt n e p d u d' ev now iss)
  show ?case by (rule register_simulates [OF step_register(3,1,2)])
next
  case (step_login n p d u ev now iss)
  then have "user_at (u_id u) d = Some u" using authenticate_finds by (fastforce simp: site_ok_def)
  note new = issue_entry_ok [OF this, of lib now, folded step_login(2)]
  show ?case by (rule opens_simulates [OF step_login(3)]) (use new in auto)
next
  case (step_refresh old iss now d tok u ev)
  then show ?case using refresh_simulates [OF assms(1)] by blast
qed (rule bumps_simulates keeps_simulates, blast intro: change_password_bumps revoke_tokens_bumps ban_user_bumps
  unban_user_keeps generate_api_token_keeps update_profile_keeps refresh_stats_keeps welcome_keeps, assumption)+

lemma account_reachable_ok:
  assumes "jwt_laws lib" and "account_reachable lib s"
  shows "site_ok lib s"
  using assms(2)
proof induction
  case (start d)
  then show ?case by (simp add: site_ok_def accounts_ok_def)
next
  case (step s oper s')
  then show ?case using step_simulates [OF assms(1)] by blast
qed

lemma step_versions:
  assumes "jwt_laws lib" and "account_step lib oper s s'" and "site_ok lib s" and "version_of j (fst s) = Some v"
  shows "\<exists>w \<ge> v. version_of j (fst s') = Some w"
  using assms(2,3,4)
proof (induction rule: account_step.induct)
  case (step_register salt n e p d u d' ev now iss)
  have "accounts_ok d" using step_register by (simp add: site_ok_def)
  then show ?case using create_user_facts [of d lib salt n e p u d'] step_register by (auto simp: version_of_def)
next
  case (step_change i d u salt old new d' iss)
  then show ?case using change_password_bumps by (fastforce simp: bumps_version_def)
next
  case (step_revoke i d u iss)
  then show ?case using revoke_tokens_bumps by (fastforce simp: bumps_version_def)
next
  case (step_ban i d u iss reason)
  then show ?case using ban_user_bumps by (fastforce simp: bumps_version_def)
next
  case (step_unban i d u iss)
  then show ?case using unban_user_keeps by (fastforce simp: keeps_versions_def)
next
  case (step_api_token i d u t t' d' iss)
  then show ?case using generate_api_token_keeps by (fastforce simp: keeps_versions_def)
next
  case (step_profile i d u items u' d' iss)
  then show ?case using update_profile_keeps by (fastforce simp: keeps_versions_def)
next
  case (step_stats d iss i)
  then show ?case using refresh_stats_keeps by (fastforce simp: keeps_versions_def)
next
  case (step_mail d iss i)
  then show ?case using welcome_keeps by (fastforce simp: keeps_versions_def)
qed auto

inductive_cases close_stepE: "account_step lib (Close_sessions i) s s'"

lemma close_step:
  "account_step lib (Close_sessions i) s s' \<Longrightarrow> bumps_version i (fst s) (fst s') \<and> snd s' = snd s"
  by (erule close_stepE) (simp_all add: change_password_bumps revoke_tokens_bumps ban_user_bumps)

text \<open>Any number of calls.\<close>

definition account_run :: "'t auth_lib \<Rightarrow> db \<times> 't issued set \<Rightarrow> db \<times> 't issued set \<Rightarrow> bool" where
  "account_run lib = (\<lambda>s s'. \<exists>oper. account_step lib oper s s')\<^sup>*\<^sup>*"

lemma run_keeps:
  assumes "jwt_laws lib" and "account_run lib s s'" and "site_ok lib s" and "version_of j (fst s) = Some v"
  shows "site_ok lib s' \<and> (\<exists>w \<ge> v. version_of j (fst s') = Some w)"
  using assms(2) unfolding account_run_def
proof (induction rule: rtranclp_induct)
  case base
  then show ?case using assms(3,4) by blast
next
  case (step s1 s2)
  then show ?case using step_simulates [OF assms(1)] step_versions [OF assms(1)] by (meson order_trans)
qed

text \<open>Who a token of the log lets in.\<close>

lemma authenticate_entry:
  assumes "jwt_laws lib" and "entry_ok lib d e"
  shows "authenticate_token lib now (is_token e) d = Inr (Some u) \<longleftrightarrow>
     user_at (is_user e) d = Some u \<and> u_token_version u = is_version e \<and> u_is_active u \<and> \<not> u_is_banned u \<and> alive (is_made e) now"
proof -
  obtain u0 where "is_token e = al_encode lib (token_payload (is_made e) u0 (is_auth_time e))" "u_id u0 = is_user e"
    "u_token_version u0 = is_version e" using assms(2) by (auto simp: entry_ok_def)
  then show ?thesis by (auto simp: authenticate_issued [OF assms(1)] split: option.splits)
qed

lemma stale_entry_refused:
  assumes "jwt_laws lib" and "entry_ok lib d e" and "version_of (is_user e) d = Some w" and "is_version e < w"
  shows "authenticate_token lib now (is_token e) d = Inr None \<and> isl (refresh_jwt_token lib now (is_token e) d)"
proof -
  obtain u0 where u0: "is_token e = al_encode lib (token_payload (is_made e) u0 (is_auth_time e))" "u_id u0 = is_user e"
    "u_token_version u0 = is_version e" using assms(2) by (auto simp: entry_ok_def)
  obtain u where u: "user_at (is_user e) d = Some u" "u_token_version u = w" using assms(3) by (auto simp: version_of_def)
  have "isl (refresh_jwt_token lib now (is_token e) d)"
    using refresh_issued [OF assms(1), of now "is_made e" u0 "is_auth_time e" d] u0 u assms(4)
    by (cases "refresh_jwt_token lib now (is_token e) d") auto
  then show ?thesis using u0 u assms(4) by (auto simp: authenticate_issued [OF assms(1)])
qed

section \<open>A small site\<close>

text \<open>Tokens that are their own payload, and passwords stored as they are.\<close>

definition sample_lib :: "(string, json) dict auth_lib" where
  "sample_lib = \<lparr>al_make_password = (\<lambda>salt raw. raw), al_check_password = (\<lambda>raw encoded. raw = encoded),
     al_validate_password = (\<lambda>u raw. []), al_encode = (\<lambda>p. p),
     al_decode = (\<lambda>now p. case (map_of p ''exp'', map_of p ''iat'') of
        (Some (JInt e), Some (JInt i)) \<Rightarrow> if seconds i \<le> now \<and> now < seconds e then Some p else None
      | _ \<Rightarrow> None)\<rparr>"

lemma sample_lib_laws: "jwt_laws sample_lib"
  by (simp add: jwt_laws_def sample_lib_def)

definition sample_account :: user where
  "sample_account = account_row sample_lib [] ''ann'' ''ann@x.org'' ''password'' 1"

definition sample_accounts :: db where
  "sample_accounts = empty_db\<lparr>db_users := [sample_account]\<rparr>"

definition sample_session :: "(string, json) dict issued" where
  "sample_session = issue sample_lib 0 sample_account 0"

lemma sample_created: "create_user sample_lib [] '' ann'' ''Ann@x.org'' ''password'' empty_db = Inr (sample_account, sample_accounts)"
  by code_simp

lemma sample_account_at: "user_at 1 sample_accounts = Some sample_account"
  by (simp add: user_at_def row_get_def sample_accounts_def sample_account_def account_row_def new_user_def)

lemma sample_account_reachable: "account_reachable sample_lib (sample_accounts, {sample_session})"
proof -
  have "account_reachable sample_lib (empty_db, {})" by (rule account_reachable.start) (simp add: empty_db_def)
  moreover have "sample_session = issue sample_lib 0 sample_account (timestamp 0)" by (simp add: sample_session_def timestamp_def)
  ultimately show ?thesis by (rule account_reachable.step [OF _ step_register [OF sample_created]])
qed

lemma sample_logout:
  "account_step sample_lib (Close_sessions 1) (sample_accounts, {sample_session}) (revoke_tokens sample_account sample_accounts, {sample_session})"
  by (rule step_revoke [OF sample_account_at])

section \<open>Properties\<close>

text \<open>C20: The version counter of a user row implements a registry of sessions: every call of the accounts
  application changes the set of open sessions as the registry prescribes (a login or refresh opens
  one, a logout, ban or password change closes all of that user, nothing else changes it), and a
  token lets in exactly the active user of an open session while it is alive.\<close>

theorem sessions_refined:
  assumes "jwt_laws lib" and "account_reachable lib s" and "account_step lib oper s s'"
  shows "live s' = session_apply oper (live s)
     \<and> (\<forall>e \<in> snd s'. \<forall>now u. authenticate_token lib now (is_token e) (fst s') = Inr (Some u) \<longleftrightarrow>
           e \<in> live s' \<and> alive (is_made e) now \<and> user_at (is_user e) (fst s') = Some u \<and> u_is_active u \<and> \<not> u_is_banned u)"
proof -
  note sim = step_simulates [OF assms(1,3) account_reachable_ok [OF assms(1,2)]]
  moreover have "authenticate_token lib now (is_token e) (fst s') = Inr (Some u) \<longleftrightarrow>
      e \<in> live s' \<and> alive (is_made e) now \<and> user_at (is_user e) (fst s') = Some u \<and> u_is_active u \<and> \<not> u_is_banned u"
    if "e \<in> snd s'" for e now u
  proof -
    have "entry_ok lib (fst s') e" using sim that by (simp add: site_ok_def)
    moreover have "e \<in> live s' \<longleftrightarrow> version_of (is_user e) (fst s') = Some (is_version e)" using that by (simp add: live_def)
    ultimately show ?thesis using authenticate_entry [OF assms(1), of "fst s'" e now u] by (auto simp: version_of_def)
  qed
  ultimately show ?thesis by blast
qed

theorem sessions_refined_witness:
  "live (revoke_tokens sample_account sample_accounts, {sample_session})
     = session_apply (Close_sessions 1) (live (sample_accounts, {sample_session}))"
  by (rule sessions_refined [OF sample_lib_laws sample_account_reachable sample_logout, THEN conjunct1])

text \<open>C21: After a logout, a ban or a password change no token the user was given before is ever accepted
  again, nor refreshed, whatever calls follow (a lifted ban included).\<close>

theorem revoked_for_good:
  assumes "jwt_laws lib" and "account_reachable lib s" and "account_step lib (Close_sessions i) s s1"
    and "account_run lib s1 s2" and "e \<in> snd s" and "is_user e = i"
  shows "authenticate_token lib now (is_token e) (fst s2) = Inr None \<and> isl (refresh_jwt_token lib now (is_token e) (fst s2))"
proof -
  have ok: "site_ok lib s" by (rule account_reachable_ok [OF assms(1,2)])
  then have "entry_ok lib (fst s) e" using assms(5) by (simp add: site_ok_def)
  then obtain v where v: "version_of i (fst s) = Some v" "is_version e \<le> v" using assms(6) by (auto simp: entry_ok_def)
  have "version_of i (fst s1) = Some (Suc v)" and e: "e \<in> snd s1"
    using close_step [OF assms(3)] assms(5) v by (simp_all add: bumps_version_def)
  then obtain w where w: "site_ok lib s2" "version_of i (fst s2) = Some w" "Suc v \<le> w"
    using run_keeps [OF assms(1,4)] step_simulates [OF assms(1,3) ok] by blast
  have "snd s1 \<subseteq> snd s2" using assms(4) unfolding account_run_def
    by (induction rule: rtranclp_induct) (auto elim!: account_step.cases)
  then have "entry_ok lib (fst s2) e" using e w(1) by (auto simp: site_ok_def)
  then show ?thesis using stale_entry_refused [OF assms(1)] w v(2) assms(6) by fastforce
qed

theorem revoked_for_good_witness:
  "authenticate_token sample_lib 5 (is_token sample_session) (unban_user sample_account (revoke_tokens sample_account sample_accounts)) = Inr None"
proof -
  have "user_at 1 (revoke_tokens sample_account sample_accounts) = Some (sample_account\<lparr>u_token_version := 1\<rparr>)" by code_simp
  then have "account_run sample_lib (revoke_tokens sample_account sample_accounts, {sample_session})
      (unban_user (sample_account\<lparr>u_token_version := 1\<rparr>) (revoke_tokens sample_account sample_accounts), {sample_session})"
    unfolding account_run_def using step_unban by (intro r_into_rtranclp) blast
  from revoked_for_good [OF sample_lib_laws sample_account_reachable sample_logout this, of sample_session 5]
  show ?thesis by (simp add: sample_session_def issue_def sample_account_def account_row_def new_user_def unban_user_def)
qed

text \<open>C22: However often a session is refreshed, its tokens let nobody in later than thirty days and one hour
  after the login, and never anybody but the user who logged in, while active and not banned.\<close>

theorem session_ends:
  assumes "jwt_laws lib" and "account_reachable lib s" and "e \<in> snd s"
    and "authenticate_token lib now (is_token e) (fst s) = Inr (Some u)"
  shows "u_id u = is_user e \<and> u_is_active u \<and> \<not> u_is_banned u \<and> now < seconds (is_auth_time e + 30 * 86400 + 3600)"
proof -
  have "entry_ok lib (fst s) e" using account_reachable_ok [OF assms(1,2)] assms(3) by (simp add: site_ok_def)
  then have "is_made e - seconds (is_auth_time e) \<le> seconds (30 * 86400)"
    and u: "user_at (is_user e) (fst s) = Some u" "u_is_active u" "\<not> u_is_banned u" "alive (is_made e) now"
    using authenticate_entry [OF assms(1), of "fst s" e now u] assms(4) by (auto simp: entry_ok_def)
  moreover have "now < is_made e + seconds 3600"
    using u(4) timestamp_le [of "is_made e + seconds 3600"] by (simp add: alive_def expiry_def)
  ultimately show ?thesis using user_at_Some [OF u(1)] by (simp add: seconds_def)
qed

theorem session_ends_witness:
  "authenticate_token sample_lib 5 (is_token sample_session) sample_accounts = Inr (Some sample_account)
     \<and> u_id sample_account = is_user sample_session"
proof -
  have "authenticate_token sample_lib 5 (is_token sample_session) sample_accounts = Inr (Some sample_account)" by code_simp
  then show ?thesis using session_ends [OF sample_lib_laws sample_account_reachable, of sample_session 5 sample_account] by simp
qed

text \<open>C23: A new account can be logged into at once with the credentials it was made from, the username
  in any letter case and with blanks around it, and the token obtained lets its user in until it
  expires an hour later.\<close>

theorem register_login_roundtrip:
  assumes "jwt_laws lib" and "al_check_password lib pw (al_make_password lib salt pw)" and "accounts_ok d"
    and "create_user lib salt name mail pw d = Inr (u, d')" and "same_text (strip ident) (strip name)"
    and "now \<le> later" and "later < expiry now"
  shows "authenticate lib ident pw d' = Some u
     \<and> authenticate_token lib later (generate_jwt_token lib now u None) d' = Inr (Some u)"
proof -
  note new = create_user_facts [OF assms(3,4)]
  have u: "u = account_row lib salt (strip name) (lower (strip mail)) pw (u_id u)" and d': "db_users d' = db_users d @ [u]"
    and ne: "strip name \<noteq> []" "pw \<noteq> []"
    and free: "\<not> list_ex (\<lambda>u. same_text (u_username u) (strip name)) (db_users d)"
    using assms(4) by (auto simp: create_user_def Let_def account_row_def new_user_def)
  have fields: "u_username u = strip name" "u_password u = al_make_password lib salt pw" "u_is_active u" "\<not> u_is_banned u"
    by (subst u, simp add: account_row_def new_user_def)+
  have "filter (\<lambda>x. same_text (u_username x) (strip ident)) (db_users d') = [u]"
    using free assms(5) by (auto simp: d' fields same_text_def list_ex_iff filter_empty_conv)
  then have "find_identity (strip ident) d' = Some u" by (simp add: find_identity_def user_by_name_def)
  moreover have "strip ident \<noteq> []" using ne assms(5) by (auto simp: same_text_def lower_def)
  ultimately have "authenticate lib ident pw d' = Some u"
    using ne fields assms(2) by (simp add: authenticate_def)
  moreover have "user_at (u_id u) d' = Some u" using new by simp
  moreover have "alive now later" using assms(6,7) timestamp_le [of now] by (simp add: alive_def)
  ultimately show ?thesis using fields by (simp add: generate_jwt_token_def authenticate_issued [OF assms(1)])
qed

theorem register_login_roundtrip_witness:
  "authenticate sample_lib '' ANN '' ''password'' sample_accounts = Some sample_account"
proof (rule register_login_roundtrip [OF sample_lib_laws _ _ sample_created, THEN conjunct1])
  show "al_check_password sample_lib ''password'' (al_make_password sample_lib [] ''password'')" by (simp add: sample_lib_def)
  show "accounts_ok empty_db" by (simp add: accounts_ok_def empty_db_def)
  show "same_text (strip '' ANN '') (strip '' ann'')" by code_simp
  show "(0 :: time) \<le> 0" "0 < expiry 0" by (simp_all add: expiry_def seconds_def timestamp_def)
qed

text \<open>Nobody shares a username or an email with another account, in any letter case.\<close>

lemma accounts_unique:
  assumes "jwt_laws lib" and "account_reachable lib s"
  shows "accounts_ok (fst s)"
  using account_reachable_ok [OF assms] by (simp add: site_ok_def)

definition squatted :: "db result" where
  "squatted = andThen (create_user sample_lib [] ''bob@x.org'' ''mallory@x.org'' ''mallory1'' empty_db) (\<lambda>(u, d1).
     andThen (create_user sample_lib [] ''bob'' ''bob@x.org'' ''password'' d1) (\<lambda>(v, d2). Inr d2))"

text \<open>A username may be the email address of somebody else: the owner of that address can register with
  it, but then cannot log in with it, as the username is looked up first.\<close>

theorem email_login_shadowed:
  "\<exists>d. squatted = Inr d \<and> authenticate sample_lib ''bob@x.org'' ''password'' d = None
     \<and> map_option u_username (authenticate sample_lib ''bob@x.org'' ''mallory1'' d) = Some ''bob@x.org''"
proof -
  have "(case squatted of Inl e \<Rightarrow> False | Inr d \<Rightarrow> authenticate sample_lib ''bob@x.org'' ''password'' d = None
     \<and> map_option u_username (authenticate sample_lib ''bob@x.org'' ''mallory1'' d) = Some ''bob@x.org'')" by code_simp
  then show ?thesis by (auto split: sum.splits)
qed

end
