(* ===== verification/Packages.thy ===== *)
theory Packages
  imports Submissions Core "HOL-Library.List_Lexorder" "HOL-Library.Char_ord"
begin

text \<open>
  \<open>apps/problems/services/package_service.py\<close>: the import of a ZIP archive of test data as a new
  package version, with its validation of paths, manifest, checker, cases and groups, and the
  activation of a version. Reading a ZIP archive and parsing JSON are the fields of \<open>import_lib\<close>, as is
  \<open>str\<close> on floats and containers; a file's bytes are characters. The numbers of the model are rationals,
  so a JSON document holds no infinity; strings like \<open>''inf''\<close> are handled. A stored manifest is a JSON
  object, which \<open>stored_manifest\<close> reads by the entries the scoring service reads.
\<close>

section \<open>The libraries\<close>

record zip_entry =
  ze_name :: string
  ze_content :: string
  ze_file_size :: int

text \<open>\<open>il_open_zip\<close> is \<open>None\<close> where \<open>zipfile\<close> raises \<open>BadZipFile\<close>, \<open>il_loads\<close> where \<open>json.loads\<close> raises.\<close>

record import_lib =
  il_open_zip :: "string \<Rightarrow> zip_entry list option"
  il_loads :: "string \<Rightarrow> json option"
  il_repr :: "json \<Rightarrow> string"

type_synonym json_dict = "(string \<times> json) list"

text \<open>\<open>str(x)\<close>\<close>

fun py_str :: "import_lib \<Rightarrow> json \<Rightarrow> string" where
  "py_str lib JNull = ''None''"
| "py_str lib (JBool b) = (if b then ''True'' else ''False'')"
| "py_str lib (JInt n) = show_int n"
| "py_str lib (JStr s) = s"
| "py_str lib j = il_repr lib j"

text \<open>\<open>float(s)\<close> on ASCII text: blanks around, a sign, decimal digits with single underscores, an exponent,
  or one of the words for a value that is not finite.\<close>

datatype pyfloat = Fin rat | NonFin

definition digit_run :: "string \<Rightarrow> string option" where
  "digit_run s = (if s = [] then Some []
     else if list_all (\<lambda>g. g \<noteq> [] \<and> list_all is_digit g) (split_on (CHR ''_'') s)
          then Some (concat (split_on (CHR ''_'') s)) else None)"

definition digits_value :: "string \<Rightarrow> nat" where
  "digits_value s = foldl (\<lambda>n c. n * 10 + digit_val c) 0 s"

definition unsigned_float :: "string \<Rightarrow> rat option" where
  "unsigned_float s =
     (let mant = takeWhile (\<lambda>c. c \<noteq> CHR ''e'') s; rest = dropWhile (\<lambda>c. c \<noteq> CHR ''e'') s;
          whole = takeWhile (\<lambda>c. c \<noteq> CHR ''.'') mant; frac = tl (dropWhile (\<lambda>c. c \<noteq> CHR ''.'') mant);
          expo = (if rest = [] then Some 0 else if strip (tl rest) = tl rest then py_int (tl rest) else None)
      in case (digit_run whole, digit_run frac, expo) of
           (Some w, Some f, Some e) \<Rightarrow>
             if w = [] \<and> f = [] then None
             else Some (of_nat (digits_value (w @ f)) * power_int 10 (e - int (length f)))
         | _ \<Rightarrow> None)"

definition py_float :: "string \<Rightarrow> pyfloat option" where
  "py_float s =
     (let t = lower (strip s);
          neg = (t \<noteq> [] \<and> hd t = CHR ''-'');
          body = (if t \<noteq> [] \<and> (hd t = CHR ''-'' \<or> hd t = CHR ''+'') then tl t else t)
      in if body \<in> {''inf'', ''infinity'', ''nan''} then Some NonFin
         else map_option (\<lambda>x. Fin (if neg then - x else x)) (unsigned_float body))"

text \<open>\<open>float(x)\<close> on a decoded JSON value; an integer that rounds past the largest double overflows.\<close>

fun float_of :: "json \<Rightarrow> pyfloat result" where
  "float_of (JBool b) = Inr (Fin (if b then 1 else 0))"
| "float_of (JInt n) = raise_if (\<bar>n\<bar> \<ge> 2 ^ 1024 - 2 ^ 970) (OverflowError ''int too large to convert to float'') (Inr (Fin (of_int n)))"
| "float_of (JFloat q) = Inr (Fin q)"
| "float_of (JStr s) = (case py_float s of None \<Rightarrow> Inl (ValueError ''could not convert string to float'') | Some x \<Rightarrow> Inr x)"
| "float_of _ = Inl (TypeError ''float() argument'')"

text \<open>\<open>except (TypeError, ValueError) as exc: raise e\<close>\<close>

definition rethrow :: "error \<Rightarrow> 'a result \<Rightarrow> 'a result" where
  "rethrow e r = (case r of Inl (TypeError _) \<Rightarrow> Inl e | Inl (ValueError _) \<Rightarrow> Inl e | _ \<Rightarrow> r)"

text \<open>A loop that appends, and stops at the first exception.\<close>

fun map_result :: "('a \<Rightarrow> 'b result) \<Rightarrow> 'a list \<Rightarrow> 'b list result" where
  "map_result f [] = Inr []"
| "map_result f (x # xs) = andThen (f x) (\<lambda>y. andThen (map_result f xs) (\<lambda>ys. Inr (y # ys)))"

section \<open>Paths\<close>

definition max_test_cases :: int where
  "max_test_cases = 200"

definition max_archive_bytes :: int where
  "max_archive_bytes = 64 * 1024 * 1024"

definition max_uncompressed_bytes :: int where
  "max_uncompressed_bytes = 256 * 1024 * 1024"

definition max_validator_source_bytes :: int where
  "max_validator_source_bytes = 256 * 1024"

definition max_manifest_points :: rat where
  "max_manifest_points = 1000000"

text \<open>The parts, name, stem and suffix of a \<open>PurePosixPath\<close> that is not absolute.\<close>

definition path_parts :: "string \<Rightarrow> string list" where
  "path_parts p = filter (\<lambda>x. x \<noteq> [] \<and> x \<noteq> ''.'') (split_on (CHR ''/'') p)"

definition path_name :: "string \<Rightarrow> string" where
  "path_name p = (if path_parts p = [] then [] else last (path_parts p))"

definition last_dot :: "string \<Rightarrow> nat option" where
  "last_dot name = (if CHR ''.'' \<in> set name then Some (length name - 1 - length (takeWhile (\<lambda>c. c \<noteq> CHR ''.'') (rev name))) else None)"

definition path_split :: "string \<Rightarrow> string \<times> string" where
  "path_split p = (let name = path_name p in
     case last_dot name of
       None \<Rightarrow> (name, [])
     | Some i \<Rightarrow> if 0 < i \<and> i < length name - 1 then (take i name, drop i name) else (name, []))"

definition starts_with :: "string \<Rightarrow> string \<Rightarrow> bool" where
  "starts_with p s = (take (length p) s = p)"

definition ends_with :: "string \<Rightarrow> string \<Rightarrow> bool" where
  "ends_with p s = starts_with (rev p) (rev s)"

definition normalized :: "string \<Rightarrow> string" where
  "normalized name = map (\<lambda>c. if c = CHR 0x5C then CHR ''/'' else c) name"

definition unsafe_path :: "string \<Rightarrow> bool" where
  "unsafe_path p = (starts_with ''/'' p \<or> ''..'' \<in> set (path_parts p)
     \<or> (path_parts p \<noteq> [] \<and> ends_with '':'' (hd (path_parts p))))"

fun safe_file_names :: "string list \<Rightarrow> string list result" where
  "safe_file_names [] = Inr []"
| "safe_file_names (name # names) =
     raise_if (unsafe_path (normalized name)) (ValidationError (''Invalid file path in archive: '' @ name))
       (andThen (safe_file_names names) (\<lambda>rest.
          Inr (if ends_with ''/'' name \<or> starts_with ''__MACOSX'' name then rest else normalized name # rest)))"

text \<open>\<open>zf.read(name)\<close>: the last entry of that name, else \<open>KeyError\<close>.\<close>

definition zip_read :: "zip_entry list \<Rightarrow> string \<Rightarrow> string result" where
  "zip_read zf name = (case List.find (\<lambda>e. ze_name e = name) (rev zf) of
     None \<Rightarrow> Inl (KeyError name) | Some e \<Rightarrow> Inr (ze_content e))"

section \<open>The manifest\<close>

definition read_manifest :: "import_lib \<Rightarrow> zip_entry list \<Rightarrow> string list \<Rightarrow> json_dict result" where
  "read_manifest lib zf file_names =
     (if ''manifest.json'' \<notin> set file_names then Inr []
      else andThen (zip_read zf ''manifest.json'') (\<lambda>payload.
        case il_loads lib payload of
          None \<Rightarrow> Inl (ValidationError ''Invalid manifest.json.'')
        | Some (JObj m) \<Rightarrow> Inr m
        | Some _ \<Rightarrow> Inl (ValidationError ''manifest.json must be an object.'')))"

text \<open>The test of the inline source that the checker and the validator share.\<close>

definition validate_source :: "json option \<Rightarrow> string \<Rightarrow> string \<Rightarrow> unit result" where
  "validate_source source missing too_long =
     (case source of
        Some (JStr s) \<Rightarrow> raise_if (strip s = []) (ValidationError missing)
          (raise_if (int (length s) > max_validator_source_bytes) (ValidationError too_long) (Inr ()))
      | _ \<Rightarrow> Inl (ValidationError missing))"

definition type_entry :: "import_lib \<Rightarrow> json_dict \<Rightarrow> string \<Rightarrow> string" where
  "type_entry lib obj dflt = lower (py_str lib (case map_of obj ''type'' of Some j \<Rightarrow> j | None \<Rightarrow> JStr dflt))"

definition validate_checker :: "import_lib \<Rightarrow> json_dict \<Rightarrow> unit result" where
  "validate_checker lib manifest =
     (case map_of manifest ''checker'' of
        None \<Rightarrow> Inr () | Some JNull \<Rightarrow> Inr ()
      | Some (JObj checker) \<Rightarrow>
          (let ty = type_entry lib checker ''exact''
           in raise_if (ty \<notin> {''exact'', ''testlib'', ''interactive'', ''none''})
                (ValidationError (''Unsupported manifest checker type: '' @ ty))
                (if ty \<in> {''testlib'', ''interactive''}
                 then validate_source (map_of checker ''source'') (''A '' @ ty @ '' checker requires inline source.'')
                        ''Checker source exceeds the maximum allowed size.''
                 else Inr ()))
      | Some _ \<Rightarrow> Inl (ValidationError ''manifest checker must be an object.''))"

definition validate_validator :: "import_lib \<Rightarrow> json_dict \<Rightarrow> unit result" where
  "validate_validator lib manifest =
     (case map_of manifest ''validator'' of
        None \<Rightarrow> Inr () | Some JNull \<Rightarrow> Inr ()
      | Some (JObj validator) \<Rightarrow>
          (let ty = type_entry lib validator ''none''
           in raise_if (ty \<notin> {''none'', ''testlib''}) (ValidationError (''Unsupported manifest validator type: '' @ ty))
                (if ty = ''testlib''
                 then validate_source (map_of validator ''source'') ''A Testlib validator requires inline source.''
                        ''Validator source exceeds the maximum allowed size.''
                 else Inr ()))
      | Some _ \<Rightarrow> Inl (ValidationError ''manifest validator must be an object.''))"

section \<open>Cases\<close>

record package_case =
  pc_input :: string
  pc_answer :: string
  pc_group :: string
  pc_points :: "rat option"
  pc_input_sha256 :: string
  pc_answer_sha256 :: string

definition json_get :: "json_dict \<Rightarrow> string \<Rightarrow> json \<Rightarrow> json" where
  "json_get obj key dflt = (case map_of obj key of Some j \<Rightarrow> j | None \<Rightarrow> dflt)"

text \<open>Whether \<open>math.isfinite(x)\<close> and x lies between 0 and \<open>MAX_MANIFEST_POINTS\<close>.\<close>

fun points_ok :: "pyfloat \<Rightarrow> bool" where
  "points_ok NonFin = False"
| "points_ok (Fin x) = (0 \<le> x \<and> x \<le> max_manifest_points)"

definition points_range_error :: error where
  "points_range_error = ValidationError ''Manifest case points must be finite and within the allowed range.''"

definition parse_points :: "json option \<Rightarrow> rat option result" where
  "parse_points j =
     (case j of
        None \<Rightarrow> Inr None | Some JNull \<Rightarrow> Inr None
      | Some v \<Rightarrow> andThen (rethrow (ValidationError ''Manifest case points must be numeric'') (float_of v)) (\<lambda>x.
          raise_if (\<not> points_ok x) points_range_error
            (case x of Fin q \<Rightarrow> Inr (Some q) | NonFin \<Rightarrow> Inl points_range_error)))"

definition hashed_case ::
    "env \<Rightarrow> zip_entry list \<Rightarrow> string \<Rightarrow> string \<Rightarrow> string \<Rightarrow> rat option \<Rightarrow> package_case result" where
  "hashed_case env zf input answer grp points =
     andThen (zip_read zf input) (\<lambda>a. andThen (zip_read zf answer) (\<lambda>b.
       Inr \<lparr>pc_input = input, pc_answer = answer, pc_group = grp, pc_points = points,
            pc_input_sha256 = e_sha256_hex env a, pc_answer_sha256 = e_sha256_hex env b\<rparr>))"

definition manifest_case ::
    "import_lib \<Rightarrow> env \<Rightarrow> zip_entry list \<Rightarrow> string list \<Rightarrow> json \<Rightarrow> package_case result" where
  "manifest_case lib env zf file_names item =
     (case item of
        JObj obj \<Rightarrow>
          (let input = py_str lib (json_get obj ''input'' (JStr []));
               answer = py_str lib (json_get obj ''answer'' (json_get obj ''output'' (JStr [])));
               g = json_get obj ''group'' JNull
           in raise_if (input = [] \<or> answer = []) (ValidationError ''Manifest cases require input and answer paths.'')
             (raise_if (input \<notin> set file_names \<or> answer \<notin> set file_names)
                (ValidationError (''Manifest case references a missing file: '' @ input @ '', '' @ answer))
                (andThen (parse_points (map_of obj ''points'')) (\<lambda>points.
                 hashed_case env zf input answer (if truthy g then py_str lib g else ''default'') points))))
      | _ \<Rightarrow> Inl (ValidationError ''Each manifest case must be an object.''))"

definition apply_default_points :: "problem \<Rightarrow> package_case list \<Rightarrow> package_case list" where
  "apply_default_points p cases =
     (let dflt = (if p_points p > 0 then round_to 2 (p_points p / of_nat (length cases)) else 0)
      in map (\<lambda>c. case pc_points c of None \<Rightarrow> c\<lparr>pc_points := Some dflt\<rparr> | Some _ \<Rightarrow> c) cases)"

text \<open>\<open>None\<close> where the code returns \<open>None\<close>: no non-empty list of cases.\<close>

definition manifest_cases ::
    "import_lib \<Rightarrow> env \<Rightarrow> zip_entry list \<Rightarrow> string list \<Rightarrow> json_dict \<Rightarrow> problem \<Rightarrow> package_case list option result" where
  "manifest_cases lib env zf file_names manifest p =
     (case map_of manifest ''cases'' of
        Some (JArr (x # xs)) \<Rightarrow>
          andThen (map_result (manifest_case lib env zf file_names) (x # xs)) (\<lambda>cases. Inr (Some (apply_default_points p cases)))
      | _ \<Rightarrow> Inr None)"

type_synonym file_pair = "string option \<times> string option"

definition duplicate_stem :: "string \<Rightarrow> error" where
  "duplicate_stem stem = ValidationError (''Duplicate testcase stem detected: '' @ stem)"

definition pair_file :: "string \<Rightarrow> (string, file_pair) dict \<Rightarrow> (string, file_pair) dict result" where
  "pair_file filename pairs =
     (let stem = fst (path_split filename); extension = lower (snd (path_split filename));
          parts = (case map_of pairs stem of Some q \<Rightarrow> q | None \<Rightarrow> (None, None))
      in if extension = ''.in''
         then raise_if (fst parts \<noteq> None) (duplicate_stem stem) (Inr (AList.update stem (Some filename, snd parts) pairs))
         else if extension = ''.out'' \<or> extension = ''.ans''
         then raise_if (snd parts \<noteq> None) (duplicate_stem stem) (Inr (AList.update stem (fst parts, Some filename) pairs))
         else Inr pairs)"

fun pair_files :: "string list \<Rightarrow> (string, file_pair) dict \<Rightarrow> (string, file_pair) dict result" where
  "pair_files [] pairs = Inr pairs"
| "pair_files (f # fs) pairs = andThen (pair_file f pairs) (pair_files fs)"

definition stem_number :: "string \<Rightarrow> nat" where
  "stem_number stem = (let ds = filter is_digit stem in if ds = [] then 0 else digits_value ds)"

definition no_pairs_error :: error where
  "no_pairs_error = ValidationError ''Archive must contain matching .in and .out/.ans files.''"

definition too_many_cases :: error where
  "too_many_cases = ValidationError ''Archive exceeds maximum allowed test cases (200).''"

definition valid_pairs :: "(string, file_pair) dict \<Rightarrow> (nat \<times> string \<times> string \<times> string) list" where
  "valid_pairs pairs = sort_key (\<lambda>(n, stem, _). (n, stem))
     (List.map_filter (\<lambda>(stem, parts). case parts of
        (Some i, Some a) \<Rightarrow> Some (stem_number stem, stem, i, a) | _ \<Rightarrow> None) pairs)"

definition file_cases :: "env \<Rightarrow> zip_entry list \<Rightarrow> string list \<Rightarrow> problem \<Rightarrow> package_case list result" where
  "file_cases env zf file_names p =
     andThen (pair_files file_names []) (\<lambda>pairs.
       let valid = valid_pairs pairs
       in raise_if (valid = []) no_pairs_error
         (raise_if (int (length valid) > max_test_cases) too_many_cases
           (andThen (map_result (\<lambda>(_, _, input, answer). hashed_case env zf input answer ''default'' None) valid) (\<lambda>cases.
            Inr (apply_default_points p cases)))))"

section \<open>Groups\<close>

definition group_entry :: "import_lib \<Rightarrow> json \<Rightarrow> (string, json) dict \<Rightarrow> (string, json) dict result" where
  "group_entry lib item defs =
     (case item of
        JObj obj \<Rightarrow>
          (let gid = strip (py_str lib (json_get obj ''id'' (JStr []))); mode = py_str lib (json_get obj ''mode'' (JStr ''sum''));
               pts = json_get obj ''points'' (JInt 0)
           in raise_if (gid = []) (ValidationError ''Manifest group id is required.'')
             (raise_if (gid \<in> set (map fst defs)) (ValidationError (''Duplicate manifest group id: '' @ gid))
             (raise_if (mode \<notin> {''sum'', ''min''}) (ValidationError (''Unsupported manifest group mode: '' @ mode))
             (andThen (rethrow (ValidationError (''Manifest group points must be numeric: '' @ gid))
                         (float_of (if truthy pts then pts else JInt 0))) (\<lambda>x.
              raise_if (\<not> points_ok x) (ValidationError (''Manifest group points must be finite and within range: '' @ gid))
                (Inr (AList.update gid item defs)))))))
      | _ \<Rightarrow> Inl (ValidationError ''Each manifest group must be an object.''))"

fun group_entries :: "import_lib \<Rightarrow> json list \<Rightarrow> (string, json) dict \<Rightarrow> (string, json) dict result" where
  "group_entries lib [] defs = Inr defs"
| "group_entries lib (x # xs) defs = andThen (group_entry lib x defs) (group_entries lib xs)"

definition validate_groups :: "import_lib \<Rightarrow> json_dict \<Rightarrow> package_case list \<Rightarrow> unit result" where
  "validate_groups lib manifest cases =
     (case json_get manifest ''groups'' JNull of
        JNull \<Rightarrow> raise_if (pc_group ` set cases \<noteq> {''default''})
           (ValidationError ''Manifest cases use custom groups but no group definitions were provided.'') (Inr ())
      | JArr raw_groups \<Rightarrow>
          andThen (group_entries lib raw_groups []) (\<lambda>defs.
            if defs \<noteq> []
            then raise_if (\<not> pc_group ` set cases \<subseteq> set (map fst defs)) (ValidationError ''Manifest cases reference unknown groups'')
                   (Inr ())
            else raise_if (pc_group ` set cases \<noteq> {''default''})
                   (ValidationError ''Manifest cases use custom groups but no group definitions were provided.'') (Inr ()))
      | _ \<Rightarrow> Inl (ValidationError ''manifest groups must be a list.''))"

section \<open>The stored manifest\<close>

definition set_default :: "string \<Rightarrow> json \<Rightarrow> json_dict \<Rightarrow> json_dict" where
  "set_default key val m = (if key \<in> set (map fst m) then m else m @ [(key, val)])"

definition case_json :: "nat \<Rightarrow> package_case \<Rightarrow> json" where
  "case_json index c = JObj [(''id'', JStr (show_nat index)), (''input'', JStr (pc_input c)), (''answer'', JStr (pc_answer c)),
     (''input_sha256'', JStr (pc_input_sha256 c)), (''answer_sha256'', JStr (pc_answer_sha256 c)),
     (''points'', JFloat (get_or (pc_points c) 0)), (''group'', JStr (pc_group c))]"

definition cases_json :: "package_case list \<Rightarrow> json" where
  "cases_json cases = JArr (map (\<lambda>(i, c). case_json i c) (zip [1..<Suc (length cases)] cases))"

definition default_groups_json :: "package_case list \<Rightarrow> json" where
  "default_groups_json cases = JArr [JObj [(''id'', JStr ''default''),
     (''points'', JFloat (round_to 2 (sum_list (map (\<lambda>c. get_or (pc_points c) 0) cases)))), (''mode'', JStr ''sum'')]]"

definition build_manifest :: "problem \<Rightarrow> json_dict \<Rightarrow> package_case list \<Rightarrow> json_dict" where
  "build_manifest p manifest cases =
     (let r = set_default ''short_circuit'' (JBool (p_short_circuit p))
                (set_default ''partial_score'' (JBool (p_partial_score p))
                (set_default ''checker'' (JObj [(''type'', JStr ''exact'')])
                (set_default ''memory_limit'' (JInt (p_memory_limit p))
                (set_default ''time_limit'' (JFloat (p_time_limit p))
                (set_default ''problem_code'' (JStr (p_code p))
                (set_default ''schema'' (JInt 1) manifest))))));
          r1 = AList.update ''cases'' (cases_json cases) r
      in if \<not> truthy (json_get r1 ''groups'' JNull) then AList.update ''groups'' (default_groups_json cases) r1 else r1)"

text \<open>How the scoring service and the queue read a stored manifest: \<open>float(x or 0)\<close>, \<open>str\<close>, \<open>bool\<close>.\<close>

definition number_entry :: "json option \<Rightarrow> rat option" where
  "number_entry j = (case j of None \<Rightarrow> None
     | Some v \<Rightarrow> if \<not> truthy v then None else (case float_of v of Inr (Fin q) \<Rightarrow> Some q | _ \<Rightarrow> None))"

definition case_of :: "import_lib \<Rightarrow> json \<Rightarrow> mcase" where
  "case_of lib j = (case j of
     JObj obj \<Rightarrow> \<lparr>mc_points = number_entry (map_of obj ''points''), mc_group = map_option (py_str lib) (map_of obj ''group'')\<rparr>
   | _ \<Rightarrow> \<lparr>mc_points = None, mc_group = None\<rparr>)"

definition group_of :: "import_lib \<Rightarrow> json \<Rightarrow> mgroup" where
  "group_of lib j = (case j of
     JObj obj \<Rightarrow> \<lparr>mg_id = map_option (py_str lib) (map_of obj ''id''), mg_mode = map_option (py_str lib) (map_of obj ''mode''),
                mg_points = number_entry (map_of obj ''points'')\<rparr>
   | _ \<Rightarrow> \<lparr>mg_id = None, mg_mode = None, mg_points = None\<rparr>)"

definition list_entry :: "json_dict \<Rightarrow> string \<Rightarrow> json list" where
  "list_entry m key = (case map_of m key of Some (JArr xs) \<Rightarrow> xs | _ \<Rightarrow> [])"

definition stored_manifest :: "import_lib \<Rightarrow> json_dict \<Rightarrow> manifest" where
  "stored_manifest lib m = \<lparr>m_cases = map (case_of lib) (list_entry m ''cases''), m_groups = map (group_of lib) (list_entry m ''groups''),
     m_partial_score = map_option truthy (map_of m ''partial_score''), m_short_circuit = map_option truthy (map_of m ''short_circuit''),
     m_time_limit = number_entry (map_of m ''time_limit''), m_memory_limit = map_option floor (number_entry (map_of m ''memory_limit'')),
     m_checker = map_of m ''checker'', m_output_prefix = map_of m ''output_prefix''\<rparr>"

section \<open>Importing\<close>

record problem_test_case =
  ptc_package :: nat
  ptc_order :: nat
  ptc_input_file :: string
  ptc_output_file :: string
  ptc_input_sha256 :: string
  ptc_output_sha256 :: string
  ptc_points :: rat
  ptc_group :: string

definition test_case_rows :: "nat \<Rightarrow> package_case list \<Rightarrow> problem_test_case list" where
  "test_case_rows pk cases = map (\<lambda>(i, c). \<lparr>ptc_package = pk, ptc_order = i, ptc_input_file = pc_input c,
     ptc_output_file = pc_answer c, ptc_input_sha256 = pc_input_sha256 c, ptc_output_sha256 = pc_answer_sha256 c,
     ptc_points = get_or (pc_points c) 0, ptc_group = pc_group c\<rparr>) (zip [1..<Suc (length cases)] cases)"

definition deactivate_others :: "nat \<Rightarrow> nat \<Rightarrow> db \<Rightarrow> db" where
  "deactivate_others prob pk d = d\<lparr>db_packages :=
     rows_update (\<lambda>x. pk_problem x = prob \<and> pk_id x \<noteq> pk) (\<lambda>x. x\<lparr>pk_is_active := False\<rparr>) (db_packages d)\<rparr>"

definition activate :: "package \<Rightarrow> db \<Rightarrow> package \<times> db" where
  "activate k d =
     (let k' = k\<lparr>pk_is_active := True\<rparr>; d1 = deactivate_others (pk_problem k) (pk_id k) d
      in (k', d1\<lparr>db_packages := rows_update (\<lambda>x. pk_id x = pk_id k) (\<lambda>x. x\<lparr>pk_is_active := True\<rparr>) (db_packages d1)\<rparr>))"

definition next_version :: "nat \<Rightarrow> db \<Rightarrow> nat" where
  "next_version prob d = foldr max (map pk_version (filter (\<lambda>k. pk_problem k = prob) (db_packages d))) 0 + 1"

text \<open>The checks of \<open>import_zip\<close> on an opened archive: the manifest to store and the cases.\<close>

definition read_archive ::
    "import_lib \<Rightarrow> env \<Rightarrow> problem \<Rightarrow> zip_entry list \<Rightarrow> (json_dict \<times> package_case list) result" where
  "read_archive lib env p zf =
     andThen (safe_file_names (map ze_name zf)) (\<lambda>file_names.
     raise_if (sum_list (map ze_file_size zf) > max_uncompressed_bytes)
       (ValidationError ''Archive exceeds maximum uncompressed size (268435456 bytes).'')
     (andThen (read_manifest lib zf file_names) (\<lambda>manifest.
      andThen (validate_checker lib manifest) (\<lambda>_.
      andThen (validate_validator lib manifest) (\<lambda>_.
      andThen (manifest_cases lib env zf file_names manifest p) (\<lambda>mc.
      andThen (case mc of Some cases \<Rightarrow> Inr cases | None \<Rightarrow> file_cases env zf file_names p) (\<lambda>cases.
      raise_if (cases = []) no_pairs_error
      (raise_if (int (length cases) > max_test_cases) too_many_cases
      (andThen (validate_groups lib manifest cases) (\<lambda>_.
       Inr (build_manifest p manifest cases, cases)))))))))))"

definition import_zip ::
    "import_lib \<Rightarrow> env \<Rightarrow> problem \<Rightarrow> string \<Rightarrow> string \<Rightarrow> bool \<Rightarrow> db \<Rightarrow> (package \<times> problem_test_case list \<times> db) result" where
  "import_zip lib env p archive_name payload active d =
     raise_if (\<not> ends_with ''.zip'' (lower archive_name)) (ValidationError ''Test data must be a ZIP archive.'')
     (raise_if (int (length payload) > max_archive_bytes) (ValidationError ''Archive exceeds maximum allowed size (67108864 bytes).'')
     (let digest = e_sha256_hex env payload
      in case first (sort_key (\<lambda>k. - int (pk_version k)) (filter (\<lambda>k. pk_problem k = p_id p \<and> pk_sha256 k = digest) (db_packages d))) of
           Some k \<Rightarrow> (if active then (case activate k d of (k', d') \<Rightarrow> Inr (k', [], d')) else Inr (k, [], d))
         | None \<Rightarrow>
             (case il_open_zip lib payload of
                None \<Rightarrow> Inl (ValidationError ''Invalid ZIP archive.'')
              | Some zf \<Rightarrow>
                  andThen (read_archive lib env p zf) (\<lambda>(manifest, cases).
                    let pk = fresh_key pk_id (db_packages d);
                        k = \<lparr>pk_id = pk, pk_problem = p_id p, pk_version = next_version (p_id p) d, pk_sha256 = digest,
                             pk_manifest = stored_manifest lib manifest, pk_is_active = active\<rparr>;
                        d1 = (if active then deactivate_others (p_id p) pk d else d)
                    in Inr (k, test_case_rows pk cases, d1\<lparr>db_packages := db_packages d1 @ [k]\<rparr>)))))"

end
