(* ===== verification/PackageFlow.thy ===== *)
theory PackageFlow
  imports Packages
begin

text \<open>
  What an import promises: the files and points of an accepted package, one active version per
  problem, and, composed with the scoring service, that the packages made from plain archives can
  be solved.
\<close>

section \<open>The checks of an archive\<close>

lemma map_result_Inr:
  "map_result f xs = Inr ys \<Longrightarrow> list_all2 (\<lambda>x y. f x = Inr y) xs ys"
  by (induction xs arbitrary: ys) auto

lemma map_result_in: "map_result f xs = Inr ys \<Longrightarrow> y \<in> set ys \<Longrightarrow> \<exists>x \<in> set xs. f x = Inr y"
  by (induction xs arbitrary: ys) auto

lemma rethrow_Inr [simp]: "(rethrow e r = Inr x) = (r = Inr x)"
  by (cases r) (auto simp: rethrow_def split: error.splits)

lemma safe_file_names_safe:
  "safe_file_names names = Inr fs \<Longrightarrow> f \<in> set fs \<Longrightarrow> \<not> unsafe_path f"
  by (induction names arbitrary: fs) (auto split: if_splits)

lemma zip_read_Inr: "zip_read zf name = Inr c \<Longrightarrow> \<exists>e \<in> set zf. ze_name e = name \<and> ze_content e = c"
  by (auto simp: zip_read_def find_Some_iff split: option.splits) (metis nth_mem length_rev set_rev)

text \<open>A case whose two files are entries of the archive under safe names, with their digests.\<close>

definition case_sound :: "env \<Rightarrow> zip_entry list \<Rightarrow> package_case \<Rightarrow> bool" where
  "case_sound env zf c \<longleftrightarrow> \<not> unsafe_path (pc_input c) \<and> \<not> unsafe_path (pc_answer c)
     \<and> (\<exists>e \<in> set zf. ze_name e = pc_input c \<and> pc_input_sha256 c = e_sha256_hex env (ze_content e))
     \<and> (\<exists>e \<in> set zf. ze_name e = pc_answer c \<and> pc_answer_sha256 c = e_sha256_hex env (ze_content e))
     \<and> (\<forall>x. pc_points c = Some x \<longrightarrow> 0 \<le> x)"

lemma hashed_case_sound:
  assumes "hashed_case env zf i a g x = Inr c" and "\<not> unsafe_path i" and "\<not> unsafe_path a" and "x = None \<or> (\<exists>q \<ge> 0. x = Some q)"
  shows "case_sound env zf c \<and> pc_group c = g \<and> pc_points c = x"
  using assms zip_read_Inr by (fastforce simp: hashed_case_def case_sound_def)

lemma parse_points_nonneg: "parse_points j = Inr x \<Longrightarrow> x = None \<or> (\<exists>q \<ge> 0. x = Some q)"
  by (auto simp: parse_points_def split: option.splits json.splits pyfloat.splits)

lemma manifest_case_sound:
  assumes "manifest_case lib env zf fs item = Inr c" and "\<And>f. f \<in> set fs \<Longrightarrow> \<not> unsafe_path f"
  shows "case_sound env zf c"
proof -
  obtain obj input answer g points where "input \<in> set fs" "answer \<in> set fs" "parse_points (map_of obj ''points'') = Inr points"
    "hashed_case env zf input answer g points = Inr c"
    using assms(1) by (cases item) (auto simp: manifest_case_def Let_def split: if_splits)
  then show ?thesis using hashed_case_sound assms(2) parse_points_nonneg by blast
qed

text \<open>The pairs hold only names of files.\<close>

definition pairs_from :: "string list \<Rightarrow> (string, file_pair) dict \<Rightarrow> bool" where
  "pairs_from fs pairs \<longleftrightarrow> (\<forall>(stem, i, a) \<in> set pairs. set_option i \<union> set_option a \<subseteq> set fs)"

lemma set_AList_update: "x \<in> set (AList.update k v d) \<Longrightarrow> x = (k, v) \<or> x \<in> set d"
  by (induction d) (auto split: if_splits)

lemma pair_file_from:
  assumes "pair_file f pairs = Inr pairs'" and "pairs_from fs pairs" and "f \<in> set fs"
  shows "pairs_from fs pairs'"
proof -
  define stem where "stem = fst (path_split f)"
  define parts where "parts = (case map_of pairs stem of Some q \<Rightarrow> q | None \<Rightarrow> (None, None))"
  have "set_option (fst parts) \<union> set_option (snd parts) \<subseteq> set fs"
    using assms(2) by (fastforce simp: parts_def pairs_from_def split: option.splits dest: map_of_SomeD)
  then show ?thesis using assms
    by (auto simp: pair_file_def Let_def pairs_from_def simp flip: stem_def parts_def split: if_splits dest!: set_AList_update)
qed

lemma pair_files_from:
  "pair_files names pairs = Inr pairs' \<Longrightarrow> pairs_from fs pairs \<Longrightarrow> set names \<subseteq> set fs \<Longrightarrow> pairs_from fs pairs'"
  by (induction names arbitrary: pairs) (auto dest: pair_file_from)

lemma valid_pairs_from: "pairs_from fs pairs \<Longrightarrow> (n, stem, i, a) \<in> set (valid_pairs pairs) \<Longrightarrow> i \<in> set fs \<and> a \<in> set fs"
  by (fastforce simp: valid_pairs_def pairs_from_def List.map_filter_def split: option.splits)

lemma file_cases_plain:
  assumes "file_cases env zf fs p = Inr cases"
  shows "\<exists>raw. cases = apply_default_points p raw \<and> raw \<noteq> []
     \<and> (\<forall>c \<in> set raw. pc_points c = None \<and> pc_group c = ''default'' \<and> ((\<forall>f \<in> set fs. \<not> unsafe_path f) \<longrightarrow> case_sound env zf c))"
proof -
  obtain pairs raw where pairs: "pair_files fs [] = Inr pairs" and ne: "valid_pairs pairs \<noteq> []"
    and raw: "map_result (\<lambda>(_, _, i, a). hashed_case env zf i a ''default'' None) (valid_pairs pairs) = Inr raw"
    and cases: "cases = apply_default_points p raw"
    using assms by (auto simp: file_cases_def Let_def)
  note all = map_result_Inr [OF raw]
  have "pairs_from fs pairs" using pair_files_from [OF pairs, of fs] by (simp add: pairs_from_def)
  have "pc_points c = None \<and> pc_group c = ''default'' \<and> ((\<forall>f \<in> set fs. \<not> unsafe_path f) \<longrightarrow> case_sound env zf c)" if "c \<in> set raw" for c
  proof -
    obtain n stem i a where v: "(n, stem, i, a) \<in> set (valid_pairs pairs)" and h: "hashed_case env zf i a ''default'' None = Inr c"
      using map_result_in [OF raw \<open>c \<in> set raw\<close>] by auto
    have "i \<in> set fs \<and> a \<in> set fs" using valid_pairs_from [OF \<open>pairs_from fs pairs\<close> v] .
    moreover have "pc_points c = None \<and> pc_group c = ''default''" using h by (auto simp: hashed_case_def)
    ultimately show ?thesis using hashed_case_sound [OF h] by blast
  qed
  moreover have "raw \<noteq> []" using all ne by auto
  ultimately show ?thesis using cases by blast
qed

lemma default_points_sound:
  assumes "\<forall>c \<in> set raw. case_sound env zf c"
  shows "\<forall>c \<in> set (apply_default_points p raw). case_sound env zf c \<and> (\<exists>x \<ge> 0. pc_points c = Some x)"
proof -
  define dflt where "dflt = (if p_points p > 0 then round_to 2 (p_points p / of_nat (length raw)) else 0)"
  have "0 \<le> dflt" by (simp add: dflt_def)
  then show ?thesis using assms
    by (auto simp: apply_default_points_def Let_def case_sound_def simp flip: dflt_def split: option.splits)
qed

lemma manifest_cases_sound:
  assumes "manifest_cases lib env zf fs manifest p = Inr (Some cases)" and "\<And>f. f \<in> set fs \<Longrightarrow> \<not> unsafe_path f"
  shows "\<forall>c \<in> set cases. case_sound env zf c \<and> (\<exists>x \<ge> 0. pc_points c = Some x)"
proof -
  obtain items raw where raw: "map_result (manifest_case lib env zf fs) items = Inr raw" and cases: "cases = apply_default_points p raw"
    using assms(1) by (auto simp: manifest_cases_def simp del: map_result.simps split: option.splits json.splits list.splits)
  have "case_sound env zf c" if "c \<in> set raw" for c
    using map_result_in [OF raw that] manifest_case_sound assms(2) by blast
  then show ?thesis unfolding cases by (intro default_points_sound) blast
qed

lemma read_archive_sound:
  assumes "read_archive lib env p zf = Inr (m, cases)"
  shows "(\<forall>c \<in> set cases. case_sound env zf c \<and> (\<exists>x \<ge> 0. pc_points c = Some x)) \<and> cases \<noteq> [] \<and> int (length cases) \<le> max_test_cases
     \<and> (\<exists>manifest. m = build_manifest p manifest cases)"
proof -
  obtain fs manifest mc where fs: "safe_file_names (map ze_name zf) = Inr fs"
    and mc: "manifest_cases lib env zf fs manifest p = Inr mc"
    and cases: "(case mc of Some cs \<Rightarrow> Inr cs | None \<Rightarrow> file_cases env zf fs p) = Inr cases"
    and rest: "cases \<noteq> []" "int (length cases) \<le> max_test_cases" "m = build_manifest p manifest cases"
    using assms by (auto simp: read_archive_def)
  have safe: "\<not> unsafe_path f" if "f \<in> set fs" for f using safe_file_names_safe [OF fs that] .
  have "\<forall>c \<in> set cases. case_sound env zf c \<and> (\<exists>x \<ge> 0. pc_points c = Some x)"
  proof (cases mc)
    case None
    then obtain raw where raw: "cases = apply_default_points p raw" "\<forall>c \<in> set raw. case_sound env zf c"
      using cases file_cases_plain [of env zf fs p cases] safe by auto
    show ?thesis unfolding raw(1) using raw(2) by (rule default_points_sound)
  next
    case (Some cs)
    then show ?thesis using mc cases safe manifest_cases_sound [of lib env zf fs manifest p cases] by auto
  qed
  then show ?thesis using rest by blast
qed

section \<open>What is stored\<close>

lemma map_of_set_default: "map_of (set_default k v m) k' = (if k' = k \<and> k \<notin> set (map fst m) then Some v else map_of m k')"
  using map_of_eq_None_iff [of m k] by (cases "map_of m k'") (auto simp: set_default_def map_add_def)

lemma number_entry_float [simp]: "num_or_0 (number_entry (Some (JFloat q))) = q"
  by (simp add: number_entry_def num_or_0_def)

lemma list_entry_cases: "list_entry (build_manifest p manifest cases) ''cases'' = map (\<lambda>(i, c). case_json i c) (zip [1..<Suc (length cases)] cases)"
  by (simp add: build_manifest_def Let_def list_entry_def update_conv' cases_json_def)

lemma map_zip_snd: "length ks = length xs \<Longrightarrow> map (\<lambda>x. g (snd x)) (zip ks xs) = map g xs"
  by (induction ks xs rule: list_induct2) simp_all

text \<open>The typed reading of the stored manifest gives the cases back.\<close>

lemma stored_manifest_cases:
  "map (\<lambda>mc. (num_or_0 (mc_points mc), mc_group mc)) (m_cases (stored_manifest lib (build_manifest p manifest cases)))
     = map (\<lambda>c. (get_or (pc_points c) 0, Some (pc_group c))) cases"
proof -
  have one: "(num_or_0 (mc_points (case_of lib (case_json i c))), mc_group (case_of lib (case_json i c)))
      = (get_or (pc_points c) 0, Some (pc_group c))" for i c
    by (simp add: case_of_def case_json_def)
  have "map (\<lambda>x. g (snd x)) (zip [1..<Suc (length cases)] cases) = map g cases" for g :: "package_case \<Rightarrow> 'b"
    by (rule map_zip_snd) (simp del: upt_Suc)
  then show ?thesis
    by (simp add: stored_manifest_def list_entry_cases comp_def case_prod_unfold one del: upt_Suc)
qed

lemma test_case_rows_map:
  "map (\<lambda>r. (ptc_input_file r, ptc_output_file r, ptc_points r, ptc_group r)) (test_case_rows pk cases)
     = map (\<lambda>c. (pc_input c, pc_answer c, get_or (pc_points c) 0, pc_group c)) cases"
proof -
  have "map (\<lambda>x. g (snd x)) (zip [1..<Suc (length cases)] cases) = map g cases" for g :: "package_case \<Rightarrow> 'b"
    by (rule map_zip_snd) (simp del: upt_Suc)
  then show ?thesis by (simp add: test_case_rows_def comp_def case_prod_unfold del: upt_Suc)
qed

lemma length_test_case_rows [simp]: "length (test_case_rows pk cases) = length cases"
  by (simp add: test_case_rows_def del: upt_Suc)

lemma test_case_row_of: "r \<in> set (test_case_rows pk cases) \<Longrightarrow> \<exists>c \<in> set cases. ptc_input_file r = pc_input c
    \<and> ptc_output_file r = pc_answer c \<and> ptc_input_sha256 r = pc_input_sha256 c \<and> ptc_output_sha256 r = pc_answer_sha256 c
    \<and> ptc_points r = get_or (pc_points c) 0"
  by (auto simp: test_case_rows_def simp del: upt_Suc dest!: set_zip_rightD)

text \<open>A successful import of new data, step by step.\<close>

lemma import_fresh:
  assumes "import_zip lib env p name payload active d = Inr (k, rows, d')"
    and "\<not> list_ex (\<lambda>x. pk_problem x = p_id p \<and> pk_sha256 x = e_sha256_hex env payload) (db_packages d)"
  obtains zf m cases where "il_open_zip lib payload = Some zf" "read_archive lib env p zf = Inr (m, cases)"
    "pk_manifest k = stored_manifest lib m" "rows = test_case_rows (pk_id k) cases"
proof -
  have none: "filter (\<lambda>x. pk_problem x = p_id p \<and> pk_sha256 x = e_sha256_hex env payload) (db_packages d) = []"
    using assms(2) by (simp add: filter_empty_conv list_ex_iff)
  show ?thesis using assms(1) that by (auto simp: import_zip_def Let_def none split: option.splits)
qed

section \<open>The ids of groups\<close>

lemma float_of_entry: "rethrow e (float_of (if truthy (get_or j (JInt 0)) then get_or j (JInt 0) else JInt 0)) = Inr x \<Longrightarrow> points_ok x
    \<Longrightarrow> 0 \<le> num_or_0 (number_entry j)"
  by (cases j; cases x) (auto simp: number_entry_def num_or_0_def get_or_def split: if_splits)

lemma group_entry_Inr:
  assumes "group_entry lib x defs = Inr defs'"
  shows "map fst defs' = map fst defs @ [strip (group_id (group_of lib x))]
     \<and> strip (group_id (group_of lib x)) \<notin> set (map fst defs) \<and> 0 \<le> num_or_0 (mg_points (group_of lib x))"
proof -
  obtain obj where x: "x = JObj obj" using assms by (cases x) (auto simp: group_entry_def)
  define gid where "gid = strip (py_str lib (json_get obj ''id'' (JStr [])))"
  obtain v where v: "gid \<noteq> []" "gid \<notin> set (map fst defs)" "points_ok v" "defs' = AList.update gid x defs"
    "\<exists>e. rethrow e (float_of (if truthy (json_get obj ''points'' (JInt 0)) then json_get obj ''points'' (JInt 0) else JInt 0)) = Inr v"
    using assms unfolding x group_entry_def by (auto simp: Let_def simp flip: gid_def)
  have "map_of obj ''id'' \<noteq> None"
  proof
    assume "map_of obj ''id'' = None"
    then show False using v(1) by (simp add: gid_def json_get_def strip_def rstrip_def)
  qed
  then have id: "gid = strip (group_id (group_of lib x))" by (auto simp: gid_def json_get_def x group_of_def group_id_def)
  have "json_get obj ''points'' (JInt 0) = get_or (map_of obj ''points'') (JInt 0)"
    by (simp add: json_get_def get_or_def split: option.splits)
  then have "0 \<le> num_or_0 (number_entry (map_of obj ''points''))" using v(3,5) float_of_entry by metis
  moreover have "AList.update k w d = d @ [(k, w)]" if "k \<notin> fst ` set d" for k :: string and w :: json and d
    using that by (induction d) auto
  ultimately show ?thesis using v(2,4) id by (simp add: x group_of_def)
qed

lemma group_entries_Inr:
  "group_entries lib xs defs = Inr defs' \<Longrightarrow> distinct (map fst defs) \<Longrightarrow>
     map fst defs' = map fst defs @ map (\<lambda>x. strip (group_id (group_of lib x))) xs \<and> distinct (map fst defs')
     \<and> (\<forall>x \<in> set xs. 0 \<le> num_or_0 (mg_points (group_of lib x)))"
proof (induction xs arbitrary: defs)
  case (Cons x xs)
  then obtain d where d: "group_entry lib x defs = Inr d" "group_entries lib xs d = Inr defs'" by auto
  note one = group_entry_Inr [OF d(1)]
  then have "distinct (map fst d)" using Cons.prems(2) by (simp only: distinct_append) simp
  note ih = Cons.IH [OF d(2) this]
  have "map fst defs' = map fst defs @ map (\<lambda>x. strip (group_id (group_of lib x))) (x # xs)" using ih one by simp
  moreover have "\<forall>y \<in> set (x # xs). 0 \<le> num_or_0 (mg_points (group_of lib y))" using ih one by simp
  ultimately show ?case using ih by blast
qed simp

lemma build_manifest_groups:
  "list_entry (build_manifest p manifest cases) ''groups'' =
     (if truthy (json_get manifest ''groups'' JNull) then list_entry manifest ''groups''
      else [JObj [(''id'', JStr ''default''), (''points'', JFloat (round_to 2 (sum_list (map (\<lambda>c. get_or (pc_points c) 0) cases)))),
                  (''mode'', JStr ''sum'')]])"
  by (simp add: build_manifest_def Let_def list_entry_def json_get_def update_conv' map_of_set_default default_groups_json_def)

lemma validated_groups:
  assumes "validate_groups lib manifest cases = Inr ()" and "truthy (json_get manifest ''groups'' JNull)"
  shows "let gs = map (group_of lib) (list_entry manifest ''groups'')
    in gs \<noteq> [] \<and> distinct (map group_id gs) \<and> (\<forall>h \<in> set gs. 0 \<le> num_or_0 (mg_points h))
     \<and> pc_group ` set cases \<subseteq> strip ` group_id ` set gs"
proof -
  obtain raw defs where raw: "json_get manifest ''groups'' JNull = JArr raw" "raw \<noteq> []" and defs: "group_entries lib raw [] = Inr defs"
    and sub: "defs \<noteq> [] \<Longrightarrow> pc_group ` set cases \<subseteq> set (map fst defs)"
    using assms by (cases "json_get manifest ''groups'' JNull") (auto simp: validate_groups_def split: if_splits)
  have "distinct (map fst ([] :: (string, json) dict))" by simp
  note facts = group_entries_Inr [OF defs this]
  have keys: "map fst defs = map strip (map group_id (map (group_of lib) raw))" using facts by (simp add: comp_def)
  have "distinct (map fst defs)" using facts by blast
  then have "distinct (map strip (map group_id (map (group_of lib) raw)))" unfolding keys .
  then have dist: "distinct (map group_id (map (group_of lib) raw))" by (metis distinct_map)
  have "defs \<noteq> []" using raw(2) keys by auto
  then have "pc_group ` set cases \<subseteq> set (map strip (map group_id (map (group_of lib) raw)))" using sub unfolding keys by blast
  then have "pc_group ` set cases \<subseteq> strip ` group_id ` set (map (group_of lib) raw)" by (simp only: set_map)
  moreover have "list_entry manifest ''groups'' = raw" using raw by (auto simp: list_entry_def json_get_def split: option.splits)
  ultimately show ?thesis using dist facts raw(2) by (simp add: Let_def)
qed

lemma imported_groups:
  assumes "read_archive lib env p zf = Inr (m, cases)" and "g \<in> set (m_groups (stored_manifest lib m))" and "strip (group_id g) \<noteq> group_id g"
  shows "distinct (map group_id (m_groups (stored_manifest lib m)))
     \<and> (\<forall>h \<in> set (m_groups (stored_manifest lib m)). 0 \<le> num_or_0 (mg_points h))
     \<and> (\<forall>mc \<in> set (m_cases (stored_manifest lib m)). \<exists>i. mc_group mc = Some (strip i))"
proof -
  obtain manifest where v: "validate_groups lib manifest cases = Inr ()" and m: "m = build_manifest p manifest cases"
    using assms(1) by (auto simp: read_archive_def)
  have "truthy (json_get manifest ''groups'' JNull)"
  proof (rule ccontr)
    assume "\<not> truthy (json_get manifest ''groups'' JNull)"
    then have "group_id g = ''default''"
      using assms(2) by (simp add: m stored_manifest_def build_manifest_groups group_of_def group_id_def)
    moreover have "strip ''default'' = ''default''" by code_simp
    ultimately show False using assms(3) by simp
  qed
  then have groups: "m_groups (stored_manifest lib m) = map (group_of lib) (list_entry manifest ''groups'')"
    and facts: "distinct (map group_id (m_groups (stored_manifest lib m)))"
      "\<forall>h \<in> set (m_groups (stored_manifest lib m)). 0 \<le> num_or_0 (mg_points h)"
      "pc_group ` set cases \<subseteq> strip ` group_id ` set (m_groups (stored_manifest lib m))"
    using validated_groups [OF v] by (auto simp: m stored_manifest_def build_manifest_groups Let_def)
  have groups_in: "map mc_group (m_cases (stored_manifest lib m)) = map (\<lambda>c. Some (pc_group c)) cases"
    using arg_cong [OF stored_manifest_cases [of lib p manifest cases], of "map snd"] by (simp add: m comp_def)
  have "\<exists>i. mc_group mc = Some (strip i)" if "mc \<in> set (m_cases (stored_manifest lib m))" for mc
  proof -
    have "mc_group mc \<in> set (map (\<lambda>c. Some (pc_group c)) cases)" using that by (simp flip: groups_in)
    then obtain c where "c \<in> set cases" "mc_group mc = Some (pc_group c)" by auto
    moreover from this have "pc_group c \<in> strip ` group_id ` set (m_groups (stored_manifest lib m))"
      by (intro subsetD [OF facts(3)] imageI)
    ultimately show ?thesis by (elim imageE) (simp, rule exI, rule refl)
  qed
  with facts(1,2) show ?thesis by simp
qed

lemma resolve_stripped:
  assumes "gs \<noteq> []" and "distinct (map group_id gs)" and "mc_group mc = Some (strip i)"
    and "strip gid \<noteq> gid" and "group_id (hd gs) \<noteq> gid"
  shows "resolve_group (group_defs gs) mc \<noteq> gid"
proof -
  obtain g hs where gs: "gs = g # hs" using assms(1) by (cases gs) auto
  have "strip ''default'' = ''default''" by code_simp
  then have "strip i \<noteq> gid" "gid \<noteq> ''default''" using assms(4) by auto
  moreover have "group_defs gs = (group_id g, g) # map (\<lambda>g. (group_id g, g)) hs" using group_defs_eq [OF assms(2)] gs by simp
  ultimately show ?thesis using assms(3,5) by (auto simp: resolve_group_def Let_def gs)
qed

section \<open>One active version\<close>

definition packages_ok :: "db \<Rightarrow> bool" where
  "packages_ok d \<longleftrightarrow> distinct (map pk_id (db_packages d))
     \<and> distinct (map (\<lambda>k. (pk_problem k, pk_sha256 k)) (db_packages d))
     \<and> distinct (map (\<lambda>k. (pk_problem k, pk_version k)) (db_packages d))
     \<and> (\<forall>a \<in> set (db_packages d). \<forall>b \<in> set (db_packages d).
          pk_is_active a \<longrightarrow> pk_is_active b \<longrightarrow> pk_problem a = pk_problem b \<longrightarrow> pk_id a = pk_id b)"

text \<open>What an update of the activity flags keeps.\<close>

definition package_view :: "package \<Rightarrow> nat \<times> nat \<times> nat \<times> string" where
  "package_view k = (pk_id k, pk_problem k, pk_version k, pk_sha256 k)"

definition keys_ok :: "package list \<Rightarrow> bool" where
  "keys_ok ks \<longleftrightarrow> distinct (map pk_id ks) \<and> distinct (map (\<lambda>k. (pk_problem k, pk_sha256 k)) ks)
     \<and> distinct (map (\<lambda>k. (pk_problem k, pk_version k)) ks)"

definition one_active :: "package list \<Rightarrow> bool" where
  "one_active ks \<longleftrightarrow> (\<forall>a \<in> set ks. \<forall>b \<in> set ks. pk_is_active a \<longrightarrow> pk_is_active b \<longrightarrow> pk_problem a = pk_problem b \<longrightarrow> pk_id a = pk_id b)"

lemma packages_ok_alt: "packages_ok d \<longleftrightarrow> keys_ok (db_packages d) \<and> one_active (db_packages d)"
  by (simp add: packages_ok_def keys_ok_def one_active_def)

lemma keys_ok_update:
  assumes "\<And>k. package_view (f k) = package_view k"
  shows "keys_ok (rows_update P f ks) = keys_ok ks"
proof -
  have f: "pk_id (f k) = pk_id k" "pk_problem (f k) = pk_problem k" "pk_version (f k) = pk_version k" "pk_sha256 (f k) = pk_sha256 k" for k
    using assms [of k] by (simp_all add: package_view_def)
  have m: "map (\<lambda>k. g (if P k then f k else k)) ks = map g ks" if "\<And>k. g (f k) = g k" for g :: "package \<Rightarrow> 'b"
    using that by (intro map_cong) auto
  show ?thesis by (simp add: keys_ok_def rows_update_def comp_def m [of pk_id] f
      m [of "\<lambda>k. (pk_problem k, pk_sha256 k)"] m [of "\<lambda>k. (pk_problem k, pk_version k)"])
qed

lemma deactivated:
  "db_packages (deactivate_others prob pk d) = rows_update (\<lambda>x. pk_problem x = prob \<and> pk_id x \<noteq> pk) (\<lambda>x. x\<lparr>pk_is_active := False\<rparr>) (db_packages d)"
  by (simp add: deactivate_others_def)

lemma next_version_fresh: "k \<in> set (db_packages d) \<Longrightarrow> pk_problem k = prob \<Longrightarrow> pk_version k < next_version prob d"
  using foldr_max_ge [of "pk_version k" "map pk_version (filter (\<lambda>k. pk_problem k = prob) (db_packages d))" 0]
  by (simp add: next_version_def less_Suc_eq_le)

lemma active_package_unique:
  assumes "one_active (db_packages d)" and "distinct (map pk_id (db_packages d))" and "k \<in> set (db_packages d)" and "pk_is_active k"
  shows "active_package (pk_problem k) d = Some k"
proof -
  let ?l = "filter (\<lambda>x. pk_problem x = pk_problem k \<and> pk_is_active x) (db_packages d)"
  have "x = k" if "x \<in> set ?l" for x
  proof -
    have x: "x \<in> set (db_packages d)" "pk_is_active x" "pk_problem x = pk_problem k" using that by simp_all
    have "pk_id x = pk_id k"
      by (rule assms(1) [unfolded one_active_def, rule_format, OF x(1) assms(3) x(2) assms(4) x(3)])
    with assms(2) x(1) assms(3) show ?thesis unfolding distinct_map by (blast dest: inj_onD)
  qed
  moreover have "k \<in> set ?l" using assms by simp
  ultimately have "set (sort_key (\<lambda>p. - int (pk_version p)) ?l) = {k}" by auto
  then show ?thesis unfolding active_package_def by (cases "sort_key (\<lambda>p. - int (pk_version p)) ?l") auto
qed

lemma one_active_map:
  assumes "\<And>a b. a \<in> set ks \<Longrightarrow> pk_is_active (f a) \<Longrightarrow> b \<in> set ks \<Longrightarrow> pk_is_active (f b) \<Longrightarrow>
      pk_problem a = pk_problem b \<Longrightarrow> pk_id a = pk_id b"
    and "\<And>a. pk_problem (f a) = pk_problem a" and "\<And>a. pk_id (f a) = pk_id a"
  shows "one_active (map f ks)"
  unfolding one_active_def by (auto simp only: set_map ball_simps assms(2,3) intro: assms(1))

lemma one_active_append:
  assumes "one_active ks" and "pk_is_active k \<Longrightarrow> \<forall>x \<in> set ks. pk_problem x = pk_problem k \<longrightarrow> \<not> pk_is_active x"
  shows "one_active (ks @ [k])"
proof (unfold one_active_def, intro ballI impI)
  fix a b
  assume ab: "a \<in> set (ks @ [k])" "b \<in> set (ks @ [k])" "pk_is_active a" "pk_is_active b" "pk_problem a = pk_problem b"
  then consider "a \<in> set ks" "b \<in> set ks" | "a = k" "b = k" | "a = k" "b \<in> set ks" | "a \<in> set ks" "b = k" by auto
  then show "pk_id a = pk_id b"
  proof cases
    case 1
    then show ?thesis using ab assms(1) unfolding one_active_def by blast
  qed (use ab assms(2) in auto)
qed

lemma activate_ok:
  assumes "packages_ok d" and "k0 \<in> set (db_packages d)" and "activate k0 d = (k, d')"
  shows "packages_ok d' \<and> k \<in> set (db_packages d') \<and> pk_is_active k \<and> pk_problem k = pk_problem k0"
proof -
  let ?deact = "\<lambda>x. if pk_problem x = pk_problem k0 \<and> pk_id x \<noteq> pk_id k0 then x\<lparr>pk_is_active := False\<rparr> else x"
  let ?act = "\<lambda>x. if pk_id x = pk_id k0 then x\<lparr>pk_is_active := True\<rparr> else x"
  have k: "k = k0\<lparr>pk_is_active := True\<rparr>" and d': "db_packages d' = map ?act (map ?deact (db_packages d))"
    using assms(3) by (auto simp: activate_def Let_def deactivated rows_update_def)
  have "keys_ok (db_packages d')"
    using assms(1,3) by (auto simp: activate_def Let_def deactivated packages_ok_alt keys_ok_update package_view_def)
  moreover have "one_active (db_packages d')"
  proof -
    have same: "a = k0" if "a \<in> set (db_packages d)" "pk_id a = pk_id k0" for a
      using assms(1,2) that unfolding packages_ok_def distinct_map by (blast dest: inj_onD)
    have old: "pk_id a = pk_id b" if "a \<in> set (db_packages d)" "b \<in> set (db_packages d)" "pk_is_active a" "pk_is_active b"
      "pk_problem a = pk_problem b" for a b
      using assms(1) that unfolding packages_ok_def by blast
    have "pk_id a = pk_id b" if a: "a \<in> set (db_packages d)" "pk_is_active (?act (?deact a))"
      and b: "b \<in> set (db_packages d)" "pk_is_active (?act (?deact b))" and p: "pk_problem a = pk_problem b" for a b
    proof (cases "pk_problem a = pk_problem k0")
      case True
      then have "pk_id a = pk_id k0" "pk_id b = pk_id k0" using a b p by (simp_all split: if_splits)
      then show ?thesis by simp
    next
      case False
      then have "pk_id a \<noteq> pk_id k0" "pk_id b \<noteq> pk_id k0" using same a(1) b(1) p by force+
      then show ?thesis using False a b p by (intro old) (simp_all split: if_splits)
    qed
    moreover have "pk_problem (?act (?deact a)) = pk_problem a" "pk_id (?act (?deact a)) = pk_id a" for a by simp_all
    ultimately show ?thesis unfolding d' map_map comp_def by (intro one_active_map)
  qed
  moreover have "k = ?act (?deact k0)" by (simp add: k)
  then have "k \<in> set (db_packages d')" unfolding d' using assms(2) by (auto simp: image_iff)
  ultimately show ?thesis by (simp add: packages_ok_alt k)
qed

lemma new_package_ok:
  assumes "packages_ok d" and "pk_id k = fresh_key pk_id (db_packages d)" and "pk_version k = next_version (pk_problem k) d"
    and "\<not> list_ex (\<lambda>x. pk_problem x = pk_problem k \<and> pk_sha256 x = pk_sha256 k) (db_packages d)"
    and "db_packages d' = (if pk_is_active k then db_packages (deactivate_others (pk_problem k) (pk_id k) d) else db_packages d) @ [k]"
  shows "packages_ok d'"
proof -
  have fresh: "pk_id k \<notin> pk_id ` set (db_packages d)" using fresh_key_notin assms(2) by metis
  have version: "(pk_problem k, pk_version k) \<notin> (\<lambda>k. (pk_problem k, pk_version k)) ` set (db_packages d)"
    using next_version_fresh [of _ d "pk_problem k"] assms(3) by fastforce
  have "keys_ok (db_packages d @ [k])"
    using assms(1,4) fresh version by (auto simp: packages_ok_alt keys_ok_def list_ex_iff)
  moreover have "keys_ok (rows_update P (\<lambda>x. x\<lparr>pk_is_active := False\<rparr>) ks @ [k]) = keys_ok (ks @ [k])" for P ks
  proof -
    have "keys_ok (xs @ [k]) \<longleftrightarrow> keys_ok xs \<and> pk_id k \<notin> pk_id ` set xs
        \<and> (pk_problem k, pk_sha256 k) \<notin> (\<lambda>k. (pk_problem k, pk_sha256 k)) ` set xs
        \<and> (pk_problem k, pk_version k) \<notin> (\<lambda>k. (pk_problem k, pk_version k)) ` set xs" for xs
      by (auto simp: keys_ok_def)
    moreover have img: "g ` set (rows_update P (\<lambda>x. x\<lparr>pk_is_active := False\<rparr>) ks) = g ` set ks"
      if "\<And>x. g (x\<lparr>pk_is_active := False\<rparr>) = g x" for g :: "package \<Rightarrow> 'b"
      unfolding rows_update_def set_map image_image using that by (intro image_cong) auto
    ultimately show ?thesis using img [of pk_id] img [of "\<lambda>k. (pk_problem k, pk_sha256 k)"]
        img [of "\<lambda>k. (pk_problem k, pk_version k)"] by (simp add: keys_ok_update package_view_def)
  qed
  ultimately have "keys_ok (db_packages d')" using assms(5) by (simp add: deactivated)
  moreover have "one_active (db_packages d')"
  proof (cases "pk_is_active k")
    case True
    let ?f = "\<lambda>x. if pk_problem x = pk_problem k \<and> pk_id x \<noteq> pk_id k then x\<lparr>pk_is_active := False\<rparr> else x"
    have d': "db_packages d' = map ?f (db_packages d) @ [k]" using assms(5) True by (simp add: deactivated rows_update_def)
    have "one_active (map ?f (db_packages d))"
    proof (rule one_active_map)
      fix a b
      assume ab: "a \<in> set (db_packages d)" "pk_is_active (?f a)" "b \<in> set (db_packages d)" "pk_is_active (?f b)"
        and p: "pk_problem a = pk_problem b"
      have "pk_is_active a" "pk_is_active b" using ab(2,4) by (simp_all split: if_splits)
      then show "pk_id a = pk_id b" using assms(1) ab(1,3) p unfolding packages_ok_def by blast
    qed simp_all
    moreover have "\<forall>x \<in> set (map ?f (db_packages d)). pk_problem x = pk_problem k \<longrightarrow> \<not> pk_is_active x"
    proof (intro ballI impI)
      fix x
      assume "x \<in> set (map ?f (db_packages d))" and p: "pk_problem x = pk_problem k"
      then obtain y where y: "y \<in> set (db_packages d)" "x = ?f y" by auto
      then have "pk_id y \<noteq> pk_id k" using fresh by (metis imageI)
      then show "\<not> pk_is_active x" using y(2) p by (simp split: if_splits)
    qed
    ultimately show ?thesis unfolding d' by (rule one_active_append)
  next
    case False
    then have "db_packages d' = db_packages d @ [k]" using assms(5) by simp
    then show ?thesis using assms(1) False by (simp only: packages_ok_alt) (intro one_active_append, auto)
  qed
  ultimately show ?thesis by (simp add: packages_ok_alt)
qed

section \<open>Archives without a manifest\<close>

lemma safe_file_names_from: "safe_file_names names = Inr fs \<Longrightarrow> set fs \<subseteq> normalized ` set names"
  by (induction names arbitrary: fs) (fastforce split: if_splits)+

text \<open>The points of one case when the problem's points are shared out.\<close>

definition share :: "problem \<Rightarrow> nat \<Rightarrow> rat" where
  "share p n = (if p_points p > 0 then round_to 2 (p_points p / of_nat n) else 0)"

lemma share_cents: "0 \<le> share p n \<and> of_int \<lfloor>100 * share p n\<rfloor> = 100 * share p n"
  by (simp add: share_def round_to_def)

lemma read_plain_archive:
  assumes "read_archive lib env p zf = Inr (m, cases)" and "''manifest.json'' \<notin> normalized ` ze_name ` set zf"
  shows "m = build_manifest p [] cases \<and> (\<forall>c \<in> set cases. pc_points c = Some (share p (length cases)) \<and> pc_group c = ''default'')"
proof -
  obtain fs manifest mc where fs: "safe_file_names (map ze_name zf) = Inr fs" and manifest: "read_manifest lib zf fs = Inr manifest"
    and mc: "manifest_cases lib env zf fs manifest p = Inr mc"
    and cases: "(case mc of Some cs \<Rightarrow> Inr cs | None \<Rightarrow> file_cases env zf fs p) = Inr cases"
    and m: "m = build_manifest p manifest cases"
    using assms(1) by (auto simp: read_archive_def)
  have "set fs \<subseteq> normalized ` ze_name ` set zf" using safe_file_names_from [OF fs] by simp
  then have "''manifest.json'' \<notin> set fs" using assms(2) by blast
  then have "manifest = []" using manifest by (simp add: read_manifest_def)
  then have "mc = None" using mc by (simp add: manifest_cases_def)
  then obtain raw where raw: "cases = apply_default_points p raw" "\<forall>c \<in> set raw. pc_points c = None \<and> pc_group c = ''default''"
    using cases file_cases_plain [of env zf fs p cases] by auto
  have "\<forall>c \<in> set cases. pc_points c = Some (share p (length cases)) \<and> pc_group c = ''default''"
    using raw(2) by (auto simp: raw(1) apply_default_points_def Let_def share_def split: option.splits)
  then show ?thesis using m \<open>manifest = []\<close> by simp
qed

lemma plain_groups:
  "list_entry (build_manifest p [] cases) ''groups'' =
     [JObj [(''id'', JStr ''default''), (''points'', JFloat (round_to 2 (sum_list (map (\<lambda>c. get_or (pc_points c) 0) cases)))),
            (''mode'', JStr ''sum'')]]"
  by (simp add: build_manifest_def Let_def list_entry_def update_conv' default_groups_json_def set_default_def json_get_def)

lemma plain_full_score:
  assumes "m = build_manifest p [] cases" and "cases \<noteq> []"
    and "\<forall>c \<in> set cases. pc_points c = Some (share p (length cases)) \<and> pc_group c = ''default''"
    and "full_reports (m_cases (stored_manifest lib m)) reports"
  shows "sum_result (score (stored_manifest lib m) reports) = AC
     \<and> sum_points (score (stored_manifest lib m) reports) = of_nat (length cases) * share p (length cases)"
proof -
  let ?s = "share p (length cases)" and ?m = "stored_manifest lib m"
  note cases = stored_manifest_cases [of lib p "[]" cases, folded assms(1)]
  have pts: "map (\<lambda>mc. num_or_0 (mc_points mc)) (m_cases ?m) = map (\<lambda>c. get_or (pc_points c) 0) cases"
    using arg_cong [OF cases, of "map fst"] by (simp add: comp_def)
  have get: "map (\<lambda>c. get_or (pc_points c) 0) cases = replicate (length cases) ?s"
    using assms(3) by (intro replicate_eqI) (auto simp: get_or_def)
  then have total: "sum_list (map (\<lambda>c. get_or (pc_points c) 0) cases) = of_nat (length cases) * ?s" by (simp add: sum_list_replicate)
  obtain z where "100 * ?s = of_int z" using share_cents [of p "length cases"] by metis
  then have "100 * (of_nat (length cases) * ?s) = of_int (int (length cases) * z)" by (simp add: mult.left_commute)
  then have cents: "round_to 2 (of_nat (length cases) * ?s) = of_nat (length cases) * ?s" using round_to_cents by blast
  define g where "g = group_of lib (JObj [(''id'', JStr ''default''), (''points'', JFloat (of_nat (length cases) * ?s)), (''mode'', JStr ''sum'')])"
  have g: "m_groups ?m = [g]" by (simp add: stored_manifest_def assms(1) plain_groups total cents g_def)
  have "length (m_cases ?m) = length cases" using arg_cong [OF pts, of length] by simp
  then have ne: "m_cases ?m \<noteq> []" using assms(2) by auto
  have "whole_cents (m_cases ?m)"
  proof -
    have "x = ?s" if "x \<in> (\<lambda>mc. num_or_0 (mc_points mc)) ` set (m_cases ?m)" for x
      using arg_cong [OF pts, of set] that unfolding get by (auto split: if_splits)
    then show ?thesis using share_cents [of p "length cases"] by (fastforce simp: whole_cents_def list_all_iff)
  qed
  moreover have "groups_of ?m = [g]" by (simp add: groups_of_def g)
  moreover have "group_id g = ''default''" "mg_mode g = Some ''sum''" "num_or_0 (mg_points g) = of_nat (length cases) * ?s"
    by (simp_all add: g_def group_of_def group_id_def)
  ultimately have "sum_result (score ?m reports) = AC \<and> sum_points (score ?m reports) = total_possible ?m"
    using ne assms(4) pts total by (intro full_score [of ?m g]) simp_all
  moreover have "total_possible ?m = of_nat (length cases) * ?s"
    using \<open>groups_of ?m = [g]\<close> \<open>num_or_0 (mg_points g) = _\<close> by (simp add: total_possible_def)
  ultimately show ?thesis by simp
qed















section \<open>A small archive\<close>

definition sample_files :: "zip_entry list" where
  "sample_files = [\<lparr>ze_name = ''t/1.in'', ze_content = ''1 2'', ze_file_size = 3\<rparr>, \<lparr>ze_name = ''t/1.out'', ze_content = ''3'', ze_file_size = 1\<rparr>,
     \<lparr>ze_name = ''t/2.in'', ze_content = ''4 5'', ze_file_size = 3\<rparr>, \<lparr>ze_name = ''t/2.ans'', ze_content = ''9'', ze_file_size = 1\<rparr>]"

definition sample_zip_lib :: "zip_entry list \<Rightarrow> json \<Rightarrow> import_lib" where
  "sample_zip_lib zf m = \<lparr>il_open_zip = (\<lambda>_. Some zf), il_loads = (\<lambda>_. Some m), il_repr = (\<lambda>_. [])\<rparr>"

definition sample_task :: problem where
  "sample_task = (new_problem 5)\<lparr>p_points := 100\<rparr>"

definition sample_import :: "(package \<times> problem_test_case list \<times> db) result" where
  "sample_import = import_zip (sample_zip_lib sample_files JNull) sample_env sample_task ''data.ZIP'' ''zip'' True empty_db"

definition sample_case :: "string \<Rightarrow> rat option \<Rightarrow> string \<Rightarrow> string \<Rightarrow> string \<Rightarrow> string \<Rightarrow> package_case" where
  "sample_case g x i a si sa = \<lparr>pc_input = i, pc_answer = a, pc_group = g, pc_points = x, pc_input_sha256 = si, pc_answer_sha256 = sa\<rparr>"

lemma sample_hashed:
  "hashed_case sample_env (sample_files @ extra) ''t/1.in'' ''t/1.out'' g x = Inr (sample_case g x ''t/1.in'' ''t/1.out'' ''1 2'' ''3'')"
  "hashed_case sample_env (sample_files @ extra) ''t/2.in'' ''t/2.ans'' g x = Inr (sample_case g x ''t/2.in'' ''t/2.ans'' ''4 5'' ''9'')"
  if "extra = [] \<or> map ze_name extra = [''manifest.json'']"
  using that by (auto simp: hashed_case_def zip_read_def sample_files_def sample_env_def sample_case_def)

definition sample_pairs :: "(string, file_pair) dict" where
  "sample_pairs = [(''1'', (Some ''t/1.in'', Some ''t/1.out'')), (''2'', (Some ''t/2.in'', Some ''t/2.ans''))]"

lemma sample_names: "safe_file_names (map ze_name sample_files) = Inr [''t/1.in'', ''t/1.out'', ''t/2.in'', ''t/2.ans'']"
  by code_simp

lemma sample_paired:
  "pair_files [''t/1.in'', ''t/1.out'', ''t/2.in'', ''t/2.ans''] [] = Inr sample_pairs"
  "valid_pairs sample_pairs = [(1, ''1'', ''t/1.in'', ''t/1.out''), (2, ''2'', ''t/2.in'', ''t/2.ans'')]"
  by code_simp+

definition sample_cases :: "rat option \<Rightarrow> package_case list" where
  "sample_cases x = [sample_case ''default'' x ''t/1.in'' ''t/1.out'' ''1 2'' ''3'', sample_case ''default'' x ''t/2.in'' ''t/2.ans'' ''4 5'' ''9'']"

lemma sample_defaults: "apply_default_points sample_task (sample_cases None) = sample_cases (Some 50)"
  by code_simp

lemma sample_read: "read_archive (sample_zip_lib sample_files JNull) sample_env sample_task sample_files =
   Inr (build_manifest sample_task [] (sample_cases (Some 50)), sample_cases (Some 50))"
proof -
  have "file_cases sample_env sample_files [''t/1.in'', ''t/1.out'', ''t/2.in'', ''t/2.ans''] sample_task = Inr (sample_cases (Some 50))"
    using sample_hashed [of "[]"] sample_defaults [unfolded sample_cases_def]
    by (simp only: file_cases_def sample_paired andThen.simps Let_def max_test_cases_def) (simp add: sample_cases_def)
  moreover have "sum_list (map ze_file_size sample_files) \<le> max_uncompressed_bytes"
    by (simp add: sample_files_def max_uncompressed_bytes_def)
  moreover have "validate_groups lib [] (sample_cases (Some 50)) = Inr ()" for lib
    by (simp add: validate_groups_def json_get_def sample_cases_def sample_case_def)
  ultimately show ?thesis
    by (simp add: read_archive_def sample_names read_manifest_def validate_checker_def validate_validator_def manifest_cases_def
        max_test_cases_def) (simp add: sample_cases_def)
qed

lemma sample_import_rows:
  "\<exists>k rows d'. sample_import = Inr (k, rows, d') \<and> length rows = 2 \<and> length (m_cases (pk_manifest k)) = 2"
proof -
  have "ends_with ''.zip'' (lower ''data.ZIP'')" by code_simp
  moreover have "il_open_zip (sample_zip_lib sample_files JNull) ''zip'' = Some sample_files" by (simp add: sample_zip_lib_def)
  moreover have "length (m_cases (stored_manifest lib (build_manifest sample_task [] (sample_cases (Some 50))))) = 2" for lib
    using arg_cong [OF stored_manifest_cases [of lib sample_task "[]" "sample_cases (Some 50)"], of length] by (simp add: sample_cases_def)
  moreover have "length (sample_cases (Some 50)) = 2" by (simp add: sample_cases_def)
  ultimately show ?thesis
    by (simp add: sample_import_def import_zip_def Let_def empty_db_def max_archive_bytes_def sample_read)
qed

definition padded_cases :: "json list" where
  "padded_cases = [
     JObj [(''input'', JStr ''t/1.in''), (''answer'', JStr ''t/1.out''), (''group'', JStr ''a''), (''points'', JInt 50)],
     JObj [(''input'', JStr ''t/2.in''), (''answer'', JStr ''t/2.ans''), (''group'', JStr ''b''), (''points'', JInt 50)]]"

definition padded_manifest :: json_dict where
  "padded_manifest = [
     (''groups'', JArr [JObj [(''id'', JStr ''b''), (''points'', JInt 50)], JObj [(''id'', JStr ''a ''), (''points'', JInt 50)]]),
     (''cases'', JArr padded_cases)]"

definition padded_archive :: "zip_entry list" where
  "padded_archive = sample_files @ [\<lparr>ze_name = ''manifest.json'', ze_content = [], ze_file_size = 0\<rparr>]"

abbreviation padded_lib :: import_lib where
  "padded_lib \<equiv> sample_zip_lib padded_archive (JObj padded_manifest)"

definition padded_names :: "string list" where
  "padded_names = [''t/1.in'', ''t/1.out'', ''t/2.in'', ''t/2.ans'', ''manifest.json'']"

definition padded_read :: "package_case list" where
  "padded_read = [sample_case ''a'' (Some 50) ''t/1.in'' ''t/1.out'' ''1 2'' ''3'', sample_case ''b'' (Some 50) ''t/2.in'' ''t/2.ans'' ''4 5'' ''9'']"

definition padded_import :: "(package \<times> problem_test_case list \<times> db) result" where
  "padded_import = import_zip padded_lib sample_env sample_task ''data.zip'' ''zip'' True empty_db"

lemma padded_case_read:
  "map_result (manifest_case padded_lib sample_env padded_archive padded_names) padded_cases = Inr padded_read"
proof -
  note hashed = sample_hashed [of "[\<lparr>ze_name = ''manifest.json'', ze_content = [], ze_file_size = 0\<rparr>]", folded padded_archive_def]
  have "parse_points (Some (JInt 50)) = Inr (Some 50)" by code_simp
  then show ?thesis
    by (simp add: padded_cases_def manifest_case_def json_get_def padded_names_def hashed padded_read_def)
qed

lemma padded_groups_pass: "validate_groups padded_lib padded_manifest padded_read = Inr ()"
proof -
  have "strip ''a '' = ''a''" "strip ''b'' = ''b''" "float_of (JInt 50) = Inr (Fin 50)" "points_ok (Fin 50)" by code_simp+
  then show ?thesis
    by (simp add: validate_groups_def padded_manifest_def json_get_def group_entry_def padded_read_def sample_case_def Let_def)
qed

lemma padded_archive_read:
  "read_archive padded_lib sample_env sample_task padded_archive = Inr (build_manifest sample_task padded_manifest padded_read, padded_read)"
proof -
  have "safe_file_names (map ze_name padded_archive) = Inr padded_names" by code_simp
  moreover have "sum_list (map ze_file_size padded_archive) \<le> max_uncompressed_bytes" by code_simp
  moreover have "read_manifest padded_lib padded_archive padded_names = Inr padded_manifest"
    by (simp add: read_manifest_def padded_names_def zip_read_def padded_archive_def sample_zip_lib_def)
  moreover have "apply_default_points sample_task padded_read = padded_read"
    by (simp add: apply_default_points_def padded_read_def sample_case_def Let_def)
  then have "manifest_cases padded_lib sample_env padded_archive padded_names padded_manifest sample_task = Inr (Some padded_read)"
  proof -
    obtain x xs where shape: "padded_cases = x # xs" by (simp add: padded_cases_def)
    have "map_of padded_manifest ''cases'' = Some (JArr (x # xs))" by (simp add: padded_manifest_def shape)
    moreover note padded_case_read [unfolded shape]
    ultimately show ?thesis using \<open>apply_default_points sample_task padded_read = padded_read\<close>
      by (simp only: manifest_cases_def option.case json.case list.case andThen.simps)
  qed
  moreover have "validate_checker padded_lib padded_manifest = Inr ()" "validate_validator padded_lib padded_manifest = Inr ()"
    by (simp_all add: validate_checker_def validate_validator_def padded_manifest_def)
  moreover have "padded_read \<noteq> []" "length padded_read = 2" by (simp_all add: padded_read_def)
  ultimately show ?thesis using padded_groups_pass by (simp add: read_archive_def max_test_cases_def)
qed

definition padded_stored :: manifest where
  "padded_stored = stored_manifest padded_lib (build_manifest sample_task padded_manifest padded_read)"

lemma padded_import_rows: "\<exists>k rows d'. padded_import = Inr (k, rows, d') \<and> pk_manifest k = padded_stored"
proof -
  have "ends_with ''.zip'' (lower ''data.zip'')" by code_simp
  moreover have "il_open_zip padded_lib ''zip'' = Some padded_archive" by (simp add: sample_zip_lib_def)
  ultimately show ?thesis
    by (simp add: padded_import_def import_zip_def Let_def empty_db_def max_archive_bytes_def padded_archive_read padded_stored_def)
qed

section \<open>Properties\<close>

lemma import_cases:
  assumes "import_zip lib env p name payload active d = Inr (k, rows, d')"
  obtains
    (old) k0 where "k0 \<in> set (db_packages d)" "pk_problem k0 = p_id p" "if active then activate k0 d = (k, d') else k = k0 \<and> d' = d"
  | (new) "pk_id k = fresh_key pk_id (db_packages d)" "pk_problem k = p_id p" "pk_version k = next_version (p_id p) d"
      "\<not> list_ex (\<lambda>x. pk_problem x = p_id p \<and> pk_sha256 x = pk_sha256 k) (db_packages d)" "pk_is_active k = active"
      "db_packages d' = (if active then db_packages (deactivate_others (p_id p) (pk_id k) d) else db_packages d) @ [k]"
proof -
  let ?same = "filter (\<lambda>x. pk_problem x = p_id p \<and> pk_sha256 x = e_sha256_hex env payload) (db_packages d)"
  show thesis
  proof (cases "first (sort_key (\<lambda>k. - int (pk_version k)) ?same)")
    case (Some k0)
    then have "k0 \<in> set (db_packages d)" "pk_problem k0 = p_id p" by (auto dest!: first_in)
    moreover have "if active then activate k0 d = (k, d') else k = k0 \<and> d' = d"
      using assms Some by (auto simp: import_zip_def Let_def split: if_splits prod.splits)
    ultimately show thesis by (rule old)
  next
    case None
    then have "length (sort_key (\<lambda>k. - int (pk_version k)) ?same) = 0" by (simp only: first_None_iff list.size)
    then have "?same = []" by (simp only: length_sort length_0_conv)
    then have "\<not> list_ex (\<lambda>x. pk_problem x = p_id p \<and> pk_sha256 x = e_sha256_hex env payload) (db_packages d)"
      by (simp add: filter_empty_conv list_ex_iff)
    moreover have "(case il_open_zip lib payload of
          None \<Rightarrow> Inl (ValidationError ''Invalid ZIP archive.'')
        | Some zf \<Rightarrow> andThen (read_archive lib env p zf) (\<lambda>(manifest, cases).
            let pk = fresh_key pk_id (db_packages d);
                k = \<lparr>pk_id = pk, pk_problem = p_id p, pk_version = next_version (p_id p) d, pk_sha256 = e_sha256_hex env payload,
                     pk_manifest = stored_manifest lib manifest, pk_is_active = active\<rparr>;
                d1 = (if active then deactivate_others (p_id p) pk d else d)
            in Inr (k, test_case_rows pk cases, d1\<lparr>db_packages := db_packages d1 @ [k]\<rparr>))) = Inr (k, rows, d')"
      using assms unfolding import_zip_def raise_if_Inr Let_def None option.case by blast
    then obtain manifest where k: "k = \<lparr>pk_id = fresh_key pk_id (db_packages d), pk_problem = p_id p, pk_version = next_version (p_id p) d,
        pk_sha256 = e_sha256_hex env payload, pk_manifest = stored_manifest lib manifest, pk_is_active = active\<rparr>"
      and d': "d' = (if active then deactivate_others (p_id p) (fresh_key pk_id (db_packages d)) d else d)\<lparr>db_packages :=
        db_packages (if active then deactivate_others (p_id p) (fresh_key pk_id (db_packages d)) d else d) @ [k]\<rparr>"
      by (cases "il_open_zip lib payload") (clarsimp simp: Let_def)+
    moreover have "db_packages d' = (if active then db_packages (deactivate_others (p_id p) (pk_id k) d) else db_packages d) @ [k]"
      unfolding d' by (simp add: k)
    ultimately show thesis using new by simp
  qed
qed

text \<open>C24: Importing keeps at most one active version per problem, and no version or digest of a problem
  twice; an import that activates makes its package the one that submissions are judged with.\<close>

theorem import_keeps_one_active:
  assumes "packages_ok d" and "import_zip lib env p name payload active d = Inr (k, rows, d')"
  shows "packages_ok d' \<and> k \<in> set (db_packages d') \<and> (active \<longrightarrow> active_package (p_id p) d' = Some k)"
  using assms(2)
proof (cases rule: import_cases)
  case (old k0)
  show ?thesis
  proof (cases active)
    case True
    then have "packages_ok d' \<and> k \<in> set (db_packages d') \<and> pk_is_active k \<and> pk_problem k = p_id p"
      using activate_ok [OF assms(1) old(1), of k d'] old(2,3) by simp
    then show ?thesis using active_package_unique [of d' k] by (simp add: packages_ok_alt keys_ok_def)
  next
    case False
    then show ?thesis using old assms(1) by simp
  qed
next
  case new
  have "packages_ok d'" by (rule new_package_ok [OF assms(1), of k]) (use new in simp_all)
  moreover have "k \<in> set (db_packages d')" using new(6) by simp
  ultimately show ?thesis using new(2,5) active_package_unique [of d' k] by (simp add: packages_ok_alt keys_ok_def)
qed

theorem import_keeps_one_active_witness:
  "\<exists>k rows d'. sample_import = Inr (k, rows, d') \<and> active_package 5 d' = Some k"
proof -
  obtain k rows d' where run: "sample_import = Inr (k, rows, d')" using sample_import_rows by blast
  have "packages_ok empty_db" by (simp add: packages_ok_def empty_db_def)
  from import_keeps_one_active [OF this run [unfolded sample_import_def]] have "active_package 5 d' = Some k"
    by (simp add: sample_task_def new_problem_def)
  with run show ?thesis by blast
qed

text \<open>C25: The package that an import makes of new data (no version of the problem has its digest) has
  between 1 and 200 cases; each names two files of the archive, under relative paths without a parent
  step, with the digests of their contents, and has points that are not negative; and the stored
  manifest, as the scoring service reads it, has the same points case by case.\<close>

theorem imported_package_sound:
  assumes "import_zip lib env p name payload active d = Inr (k, rows, d')"
    and "\<not> list_ex (\<lambda>x. pk_problem x = p_id p \<and> pk_sha256 x = e_sha256_hex env payload) (db_packages d)"
    and "il_open_zip lib payload = Some zf"
  shows "1 \<le> length rows \<and> length rows \<le> 200 \<and> map ptc_points rows = map (\<lambda>mc. num_or_0 (mc_points mc)) (m_cases (pk_manifest k))
     \<and> (\<forall>r \<in> set rows. \<not> unsafe_path (ptc_input_file r) \<and> \<not> unsafe_path (ptc_output_file r) \<and> 0 \<le> ptc_points r
         \<and> (\<exists>e \<in> set zf. ze_name e = ptc_input_file r \<and> ptc_input_sha256 r = e_sha256_hex env (ze_content e))
         \<and> (\<exists>e \<in> set zf. ze_name e = ptc_output_file r \<and> ptc_output_sha256 r = e_sha256_hex env (ze_content e)))"
proof -
  obtain m cases where read: "read_archive lib env p zf = Inr (m, cases)" and k: "pk_manifest k = stored_manifest lib m"
    and rows: "rows = test_case_rows (pk_id k) cases" using assms(1,2) by (rule import_fresh) (use assms(3) in auto)
  note sound = read_archive_sound [OF read]
  then obtain manifest where m: "m = build_manifest p manifest cases" by blast
  have "map ptc_points rows = map (\<lambda>c. get_or (pc_points c) 0) cases"
    using arg_cong [OF test_case_rows_map [of "pk_id k" cases], of "map (\<lambda>(_, _, x, _). x)"] by (simp add: rows comp_def)
  moreover have "map (\<lambda>mc. num_or_0 (mc_points mc)) (m_cases (pk_manifest k)) = map (\<lambda>c. get_or (pc_points c) 0) cases"
    using arg_cong [OF stored_manifest_cases [of lib p manifest cases], of "map fst"] by (simp add: k m comp_def)
  moreover have "\<not> unsafe_path (ptc_input_file r) \<and> \<not> unsafe_path (ptc_output_file r) \<and> 0 \<le> ptc_points r
         \<and> (\<exists>e \<in> set zf. ze_name e = ptc_input_file r \<and> ptc_input_sha256 r = e_sha256_hex env (ze_content e))
         \<and> (\<exists>e \<in> set zf. ze_name e = ptc_output_file r \<and> ptc_output_sha256 r = e_sha256_hex env (ze_content e))"
    if r: "r \<in> set rows" for r
  proof -
    obtain c where c: "c \<in> set cases" "ptc_input_file r = pc_input c" "ptc_output_file r = pc_answer c"
      "ptc_input_sha256 r = pc_input_sha256 c" "ptc_output_sha256 r = pc_answer_sha256 c" "ptc_points r = get_or (pc_points c) 0"
      using test_case_row_of r rows by blast
    then show ?thesis using sound by (auto simp: case_sound_def get_or_def)
  qed
  moreover have "1 \<le> length rows" using sound rows by (cases cases) auto
  ultimately show ?thesis using sound rows by (simp add: max_test_cases_def)
qed

theorem imported_package_sound_witness:
  "\<exists>k rows d'. sample_import = Inr (k, rows, d') \<and> 1 \<le> length rows \<and> length rows \<le> 200"
proof -
  obtain k rows d' where run: "sample_import = Inr (k, rows, d')" using sample_import_rows by blast
  have "il_open_zip (sample_zip_lib sample_files JNull) ''zip'' = Some sample_files" by (simp add: sample_zip_lib_def)
  moreover have "db_packages empty_db = []" by (simp add: empty_db_def)
  ultimately show ?thesis using imported_package_sound [OF run [unfolded sample_import_def], of sample_files] run by auto
qed

text \<open>An archive without a manifest, if its import succeeds, gives a package that can be solved.\<close>

lemma manifestless_solvable:
  assumes "read_archive lib env p zf = Inr (m, cases)" and "''manifest.json'' \<notin> normalized ` ze_name ` set zf"
    and "full_reports (m_cases (stored_manifest lib m)) reports"
  shows "sum_result (score (stored_manifest lib m) reports) = AC
     \<and> sum_points (score (stored_manifest lib m) reports) = of_nat (length cases) * share p (length cases)"
proof -
  have "cases \<noteq> []" using read_archive_sound [OF assms(1)] by blast
  then show ?thesis using plain_full_score [of m p cases lib reports] read_plain_archive [OF assms(1,2)] assms(3) by blast
qed



definition sample_accepted :: "case_report list" where
  "sample_accepted = [sample_report 1 ''AC'' 50, sample_report 2 ''AC'' 50]"


text \<open>C27: The ids of groups are compared without the blanks around them when a package is imported, but
  stored and read with them: a package of new data with a group that has points, an id with blanks
  around it, and another group in front of it (all group points being whole hundredths) passes every
  check, but no case ever scores in that group: whatever is reported, a submission misses all of the
  group's points and is never accepted.\<close>

theorem padded_group_unsolvable:
  assumes "import_zip lib env p name payload active d = Inr (k, rows, d')"
    and "\<not> list_ex (\<lambda>x. pk_problem x = p_id p \<and> pk_sha256 x = e_sha256_hex env payload) (db_packages d)"
    and "g \<in> set (m_groups (pk_manifest k))" and "strip (group_id g) \<noteq> group_id g"
    and "group_id (hd (m_groups (pk_manifest k))) \<noteq> group_id g" and "0 < num_or_0 (mg_points g)"
    and "\<forall>h \<in> set (m_groups (pk_manifest k)). cents (num_or_0 (mg_points h))"
  shows "sum_points (score (pk_manifest k) reports) \<le> total_possible (pk_manifest k) - num_or_0 (mg_points g)
     \<and> sum_result (score (pk_manifest k) reports) \<noteq> AC"
proof -
  let ?m = "pk_manifest k"
  obtain zf m cases where "read_archive lib env p zf = Inr (m, cases)" "?m = stored_manifest lib m"
    using assms(1,2) by (rule import_fresh)
  then have facts: "distinct (map group_id (m_groups ?m))" "\<forall>h \<in> set (m_groups ?m). 0 \<le> num_or_0 (mg_points h)"
    "\<forall>mc \<in> set (m_cases ?m). \<exists>i. mc_group mc = Some (strip i)"
    using imported_groups [of lib env p zf m cases g] assms(3,4) by auto
  have ne: "m_groups ?m \<noteq> []" using assms(3) by auto
  show ?thesis
  proof (rule lost_group_score [OF ne facts(1) assms(3)])
    show "resolve_group (group_defs (m_groups ?m)) mc \<noteq> group_id g" if "mc \<in> set (m_cases ?m)" for mc
      using facts(3) that resolve_stripped [OF ne facts(1) _ assms(4,5)] by blast
  qed (use facts(2) assms(6,7) in auto)
qed

lemma padded_stored_groups:
  "m_groups padded_stored = [\<lparr>mg_id = Some ''b'', mg_mode = None, mg_points = Some 50\<rparr>, \<lparr>mg_id = Some ''a '', mg_mode = None, mg_points = Some 50\<rparr>]"
  by code_simp

theorem padded_group_unsolvable_witness:
  "\<exists>k rows d'. padded_import = Inr (k, rows, d') \<and> full_reports (m_cases (pk_manifest k)) sample_accepted
     \<and> sum_points (score (pk_manifest k) sample_accepted) \<le> 50 \<and> sum_result (score (pk_manifest k) sample_accepted) \<noteq> AC"
proof -
  let ?g = "\<lparr>mg_id = Some ''a '', mg_mode = None, mg_points = Some 50\<rparr> :: mgroup"
  obtain k rows d' where run: "padded_import = Inr (k, rows, d')" "pk_manifest k = padded_stored" using padded_import_rows by blast
  have "strip ''a '' = ''a''" "total_possible padded_stored = 100" by code_simp+
  moreover have "db_packages empty_db = []" by (simp add: empty_db_def)
  moreover have "cents 50" by (rule centsI [of _ 5000]) simp
  ultimately have "sum_points (score (pk_manifest k) sample_accepted) \<le> 50 \<and> sum_result (score (pk_manifest k) sample_accepted) \<noteq> AC"
    using padded_group_unsolvable [OF run(1) [unfolded padded_import_def], of ?g sample_accepted] run(2)
    by (simp add: padded_stored_groups group_id_def num_or_0_def)
  moreover have "full_reports (m_cases padded_stored) sample_accepted" by code_simp
  then have "full_reports (m_cases (pk_manifest k)) sample_accepted" using run(2) by simp
  ultimately show ?thesis using run(1) by blast
qed

end
