(* ===== verification/Tickets.thy ===== *)
theory Tickets
  imports Access
begin

text \<open>
  Support tickets: \<open>apps/tickets/services/ticket_service.py\<close> and \<open>apps/tickets/api/router.py\<close> over the
  tables of \<open>apps/tickets/models\<close>. The endpoints of this router read \<open>request.user\<close>, the viewer. The
  locale \<open>policy\<close> is interpreted on who sees and who changes a ticket; the histories of requests are
  the sequences of \<open>ticket_step\<close>.
\<close>

section \<open>Tables\<close>

text \<open>The status and the priority of a request are not compared with the choices, so a column may hold
  any text.\<close>

datatype ticket_status = Tic_OPEN | Tic_IN_PROGRESS | Tic_RESOLVED | Tic_CLOSED | Tic_OTHER string

definition ticket_status_of :: "string \<Rightarrow> ticket_status" where
  "ticket_status_of s = (if s = ''open'' then Tic_OPEN else if s = ''in_progress'' then Tic_IN_PROGRESS
     else if s = ''resolved'' then Tic_RESOLVED else if s = ''closed'' then Tic_CLOSED else Tic_OTHER s)"

datatype ticket_priority = Pri_LOW | Pri_MEDIUM | Pri_HIGH | Pri_CRITICAL | Pri_OTHER string

definition ticket_priority_of :: "string \<Rightarrow> ticket_priority" where
  "ticket_priority_of s = (if s = ''low'' then Pri_LOW else if s = ''medium'' then Pri_MEDIUM
     else if s = ''high'' then Pri_HIGH else if s = ''critical'' then Pri_CRITICAL else Pri_OTHER s)"

record ticket =
  tc_id :: nat
  tc_title :: string
  tc_author :: nat
  tc_assignees :: "nat list"
  tc_linked_problem :: "nat option"
  tc_linked_contest :: "nat option"
  tc_body :: string
  tc_status :: ticket_status
  tc_priority :: ticket_priority
  tc_is_public :: bool
  tc_created_at :: time

record ticket_message =
  tm_id :: nat
  tm_ticket :: nat
  tm_author :: nat
  tm_body :: string
  tm_created_at :: time

record ticket_site =
  ts_db :: db
  ts_tickets :: "ticket list"
  ts_messages :: "ticket_message list"

definition is_open :: "ticket \<Rightarrow> bool" where
  "is_open t = (tc_status t \<in> {Tic_OPEN, Tic_IN_PROGRESS})"

definition is_resolved :: "ticket \<Rightarrow> bool" where
  "is_resolved t = (tc_status t \<in> {Tic_RESOLVED, Tic_CLOSED})"

section \<open>The service\<close>

text \<open>One keyword argument of \<open>create_ticket\<close> or \<open>update_ticket\<close>.\<close>

datatype ticket_field =
    TF_title string
  | TF_body string
  | TF_status string
  | TF_priority string
  | TF_linked_problem "nat option"
  | TF_linked_problem_id "nat option"
  | TF_linked_contest "nat option"
  | TF_linked_contest_id "nat option"
  | TF_is_public bool

fun set_ticket_field :: "ticket_field \<Rightarrow> ticket \<Rightarrow> ticket" where
  "set_ticket_field (TF_title s) t = t\<lparr>tc_title := s\<rparr>"
| "set_ticket_field (TF_body s) t = t\<lparr>tc_body := s\<rparr>"
| "set_ticket_field (TF_status s) t = t\<lparr>tc_status := ticket_status_of s\<rparr>"
| "set_ticket_field (TF_priority s) t = t\<lparr>tc_priority := ticket_priority_of s\<rparr>"
| "set_ticket_field (TF_linked_problem p) t = t\<lparr>tc_linked_problem := p\<rparr>"
| "set_ticket_field (TF_linked_problem_id p) t = t\<lparr>tc_linked_problem := p\<rparr>"
| "set_ticket_field (TF_linked_contest c) t = t\<lparr>tc_linked_contest := c\<rparr>"
| "set_ticket_field (TF_linked_contest_id c) t = t\<lparr>tc_linked_contest := c\<rparr>"
| "set_ticket_field (TF_is_public b) t = t\<lparr>tc_is_public := b\<rparr>"

fun creation_field :: "ticket_field \<Rightarrow> bool" where
  "creation_field (TF_title _) = False"
| "creation_field (TF_body _) = False"
| "creation_field _ = True"

fun mutable_field :: "ticket_field \<Rightarrow> bool" where
  "mutable_field (TF_linked_problem_id _) = False"
| "mutable_field (TF_linked_contest_id _) = False"
| "mutable_field _ = True"

definition new_ticket :: "nat \<Rightarrow> time \<Rightarrow> string \<Rightarrow> nat \<Rightarrow> string \<Rightarrow> ticket" where
  "new_ticket i now title author body = \<lparr>tc_id = i, tc_title = title, tc_author = author, tc_assignees = [],
     tc_linked_problem = None, tc_linked_contest = None, tc_body = body, tc_status = Tic_OPEN, tc_priority = Pri_MEDIUM,
     tc_is_public = True, tc_created_at = now\<rparr>"

definition create_ticket :: "time \<Rightarrow> string \<Rightarrow> nat \<Rightarrow> string \<Rightarrow> ticket_field list \<Rightarrow> ticket_site \<Rightarrow> ticket \<times> ticket_site" where
  "create_ticket now title author body kwargs s =
     (let t = fold set_ticket_field (filter creation_field kwargs)
                (new_ticket (fresh_key tc_id (ts_tickets s)) now title author body)
      in (t, s\<lparr>ts_tickets := ts_tickets s @ [t]\<rparr>))"

definition save_ticket :: "ticket \<Rightarrow> ticket_site \<Rightarrow> ticket_site" where
  "save_ticket t s = s\<lparr>ts_tickets := row_put tc_id t (ts_tickets s)\<rparr>"

definition update_ticket :: "ticket \<Rightarrow> ticket_field list \<Rightarrow> ticket_site \<Rightarrow> ticket \<times> ticket_site" where
  "update_ticket t kwargs s =
     (let fs = filter mutable_field kwargs; t' = fold set_ticket_field fs t
      in (t', if fs = [] then s else save_ticket t' s))"

definition close_ticket :: "ticket \<Rightarrow> ticket_site \<Rightarrow> ticket \<times> ticket_site" where
  "close_ticket t s = (let t' = t\<lparr>tc_status := Tic_CLOSED\<rparr> in (t', save_ticket t' s))"

definition reopen_ticket :: "ticket \<Rightarrow> ticket_site \<Rightarrow> ticket \<times> ticket_site" where
  "reopen_ticket t s = (let t' = t\<lparr>tc_status := Tic_OPEN\<rparr> in (t', save_ticket t' s))"

text \<open>Adding to a relation twice has no effect.\<close>

definition assign_ticket :: "ticket \<Rightarrow> nat \<Rightarrow> ticket_site \<Rightarrow> ticket \<times> ticket_site" where
  "assign_ticket t assignee s =
     (let t' = (if assignee \<in> set (tc_assignees t) then t else t\<lparr>tc_assignees := tc_assignees t @ [assignee]\<rparr>)
      in (t', save_ticket t' s))"

definition add_message :: "time \<Rightarrow> ticket \<Rightarrow> nat \<Rightarrow> string \<Rightarrow> ticket_site \<Rightarrow> ticket_message \<times> ticket_site" where
  "add_message now t author body s =
     (let m = \<lparr>tm_id = fresh_key tm_id (ts_messages s), tm_ticket = tc_id t, tm_author = author, tm_body = body, tm_created_at = now\<rparr>
      in (m, s\<lparr>ts_messages := ts_messages s @ [m]\<rparr>))"

definition get_user_tickets :: "viewer \<Rightarrow> ticket_site \<Rightarrow> ticket list" where
  "get_user_tickets v s =
     (case v of
        None \<Rightarrow> filter tc_is_public (ts_tickets s)
      | Some u \<Rightarrow> if u_is_staff u then ts_tickets s
                  else filter (\<lambda>t. tc_is_public t \<or> tc_author t = u_id u) (ts_tickets s))"

definition get_open_tickets :: "ticket_site \<Rightarrow> ticket list" where
  "get_open_tickets s = filter (\<lambda>t. tc_status t \<in> {Tic_OPEN, Tic_IN_PROGRESS}) (ts_tickets s)"

section \<open>The endpoints\<close>

definition ticket_authenticated :: "viewer \<Rightarrow> user result" where
  "ticket_authenticated v = (case v of None \<Rightarrow> Inl (PermissionDeniedError ''Authentication required.'') | Some u \<Rightarrow> Inr u)"

definition ticket_staff :: "viewer \<Rightarrow> user result" where
  "ticket_staff v = andThen (ticket_authenticated v) (\<lambda>u.
     raise_if (\<not> u_is_staff u) (PermissionDeniedError ''Staff access required.'') (Inr u))"

definition validate_links :: "user \<Rightarrow> nat option \<Rightarrow> nat option \<Rightarrow> db \<Rightarrow> unit result" where
  "validate_links u problem_id contest_id d =
     raise_if (case problem_id of None \<Rightarrow> False
               | Some i \<Rightarrow> (case row_get p_id i (db_problems d) of None \<Rightarrow> True | Some p \<Rightarrow> \<not> is_accessible_by (Some u) p))
       (PermissionDeniedError ''You do not have access to the linked problem.'')
     (raise_if (case contest_id of None \<Rightarrow> False
                | Some i \<Rightarrow> (case row_get c_id i (db_contests d) of None \<Rightarrow> True | Some c \<Rightarrow> \<not> can_see_contest (Some u) d c))
       (PermissionDeniedError ''You do not have access to the linked contest.'')
     (Inr ()))"

definition can_access_ticket :: "viewer \<Rightarrow> ticket \<Rightarrow> bool" where
  "can_access_ticket v t =
     ((case v of None \<Rightarrow> False | Some u \<Rightarrow> u_is_staff u) \<or> tc_is_public t
      \<or> (case v of None \<Rightarrow> False | Some u \<Rightarrow> tc_author t = u_id u))"

text \<open>\<open>ticket.author_id == request.user.id or request.user.is_staff\<close>\<close>

definition can_change_ticket :: "viewer \<Rightarrow> ticket \<Rightarrow> bool" where
  "can_change_ticket v t = (case v of None \<Rightarrow> False | Some u \<Rightarrow> tc_author t = u_id u \<or> u_is_staff u)"

record ticket_detail =
  td_ticket :: ticket
  td_messages :: "ticket_message list"

definition ticket_messages :: "ticket \<Rightarrow> ticket_site \<Rightarrow> ticket_message list" where
  "ticket_messages t s = sort_key tm_created_at (filter (\<lambda>m. tm_ticket m = tc_id t) (ts_messages s))"

definition to_ticket_detail :: "ticket \<Rightarrow> ticket_site \<Rightarrow> ticket_detail" where
  "to_ticket_detail t s = \<lparr>td_ticket = t, td_messages = ticket_messages t s\<rparr>"

definition ticket_or_404 :: "nat \<Rightarrow> ticket_site \<Rightarrow> ticket result" where
  "ticket_or_404 i s = (case row_get tc_id i (ts_tickets s) of None \<Rightarrow> Inl not_found | Some t \<Rightarrow> Inr t)"

definition api_list_tickets :: "viewer \<Rightarrow> string option \<Rightarrow> nat option \<Rightarrow> ticket_site \<Rightarrow> ticket list" where
  "api_list_tickets v status user_id s =
     (let q = get_user_tickets v s;
          q1 = (case status of Some st \<Rightarrow> if st = [] then q else filter (\<lambda>t. tc_status t = ticket_status_of st) q | None \<Rightarrow> q);
          q2 = (case user_id of
                  Some i \<Rightarrow> if (case v of None \<Rightarrow> False | Some u \<Rightarrow> u_is_staff u \<or> u_id u = i)
                            then filter (\<lambda>t. tc_author t = i) q1 else q1
                | None \<Rightarrow> q1)
      in sort_key (\<lambda>t. - tc_created_at t) q2)"

record ticket_create_in =
  tci_title :: string
  tci_body :: string
  tci_linked_problem_id :: "nat option"
  tci_linked_contest_id :: "nat option"
  tci_priority :: string
  tci_is_public :: bool

definition api_create_ticket :: "time \<Rightarrow> viewer \<Rightarrow> ticket_create_in \<Rightarrow> ticket_site \<Rightarrow> (ticket_detail \<times> ticket_site) result" where
  "api_create_ticket now v x s =
     andThen (ticket_authenticated v) (\<lambda>u.
     andThen (validate_links u (tci_linked_problem_id x) (tci_linked_contest_id x) (ts_db s)) (\<lambda>_.
       case create_ticket now (tci_title x) (u_id u) (tci_body x)
              [TF_priority (tci_priority x), TF_is_public (tci_is_public x),
               TF_linked_problem_id (tci_linked_problem_id x), TF_linked_contest_id (tci_linked_contest_id x)] s of
         (t, s') \<Rightarrow> Inr (to_ticket_detail t s', s')))"

definition api_ticket_detail :: "viewer \<Rightarrow> nat \<Rightarrow> ticket_site \<Rightarrow> ticket_detail result" where
  "api_ticket_detail v i s =
     andThen (ticket_or_404 i s) (\<lambda>t.
     raise_if (\<not> can_access_ticket v t) (PermissionDeniedError ''You do not have permission to view this ticket.'')
       (Inr (to_ticket_detail t s)))"

text \<open>The items of \<open>payload.model_dump(exclude_none=True)\<close>; \<open>given_problem_link\<close> and \<open>given_contest_link\<close> are its \<open>get\<close>
  of the two links.\<close>

definition given_problem_link :: "ticket_field list \<Rightarrow> nat option" where
  "given_problem_link fs = fold (\<lambda>f acc. case f of TF_linked_problem_id p \<Rightarrow> p | _ \<Rightarrow> acc) fs None"

definition given_contest_link :: "ticket_field list \<Rightarrow> nat option" where
  "given_contest_link fs = fold (\<lambda>f acc. case f of TF_linked_contest_id c \<Rightarrow> c | _ \<Rightarrow> acc) fs None"

text \<open>\<open>TicketUpdateIn\<close> has no fields \<open>linked_problem\<close> and \<open>linked_contest\<close>.\<close>

fun payload_field :: "ticket_field \<Rightarrow> bool" where
  "payload_field (TF_linked_problem _) = False"
| "payload_field (TF_linked_contest _) = False"
| "payload_field _ = True"

definition api_update_ticket :: "viewer \<Rightarrow> nat \<Rightarrow> ticket_field list \<Rightarrow> ticket_site \<Rightarrow> (ticket_detail \<times> ticket_site) result" where
  "api_update_ticket v i payload s =
     andThen (ticket_authenticated v) (\<lambda>u.
     andThen (ticket_or_404 i s) (\<lambda>t.
     raise_if (\<not> can_change_ticket v t) (PermissionDeniedError ''You do not have permission to update this ticket.'')
       (let fs = filter payload_field payload
        in andThen (validate_links u (given_problem_link fs) (given_contest_link fs) (ts_db s)) (\<lambda>_.
             case update_ticket t fs s of (t', s') \<Rightarrow> Inr (to_ticket_detail t' s', s')))))"

definition api_add_message :: "time \<Rightarrow> viewer \<Rightarrow> nat \<Rightarrow> string \<Rightarrow> ticket_site \<Rightarrow> (ticket_message \<times> ticket_site) result" where
  "api_add_message now v i body s =
     andThen (ticket_authenticated v) (\<lambda>u.
     andThen (ticket_or_404 i s) (\<lambda>t.
     raise_if (\<not> can_access_ticket v t) (PermissionDeniedError ''You do not have permission to interact with this ticket.'')
       (Inr (add_message now t (u_id u) body s))))"

definition api_close_ticket :: "viewer \<Rightarrow> nat \<Rightarrow> ticket_site \<Rightarrow> (ticket_detail \<times> ticket_site) result" where
  "api_close_ticket v i s =
     andThen (ticket_authenticated v) (\<lambda>_.
     andThen (ticket_or_404 i s) (\<lambda>t.
     raise_if (\<not> can_change_ticket v t) (PermissionDeniedError ''You do not have permission to close this ticket.'')
       (case close_ticket t s of (t', s') \<Rightarrow> Inr (to_ticket_detail t' s', s'))))"

definition api_reopen_ticket :: "viewer \<Rightarrow> nat \<Rightarrow> ticket_site \<Rightarrow> (ticket_detail \<times> ticket_site) result" where
  "api_reopen_ticket v i s =
     andThen (ticket_authenticated v) (\<lambda>_.
     andThen (ticket_or_404 i s) (\<lambda>t.
     raise_if (\<not> can_change_ticket v t) (PermissionDeniedError ''You do not have permission to reopen this ticket.'')
       (case reopen_ticket t s of (t', s') \<Rightarrow> Inr (to_ticket_detail t' s', s'))))"

definition api_assign_ticket :: "viewer \<Rightarrow> nat \<Rightarrow> nat \<Rightarrow> ticket_site \<Rightarrow> (ticket_detail \<times> ticket_site) result" where
  "api_assign_ticket v i assignee_id s =
     andThen (ticket_staff v) (\<lambda>_.
     andThen (ticket_or_404 i s) (\<lambda>t.
       case row_get u_id assignee_id (db_users (ts_db s)) of
         None \<Rightarrow> Inl not_found
       | Some a \<Rightarrow> (case assign_ticket t (u_id a) s of (t', s') \<Rightarrow> Inr (to_ticket_detail t' s', s'))))"

section \<open>Histories\<close>

text \<open>One request that returned, by a viewer; \<open>elsewhere\<close> is any change of the other tables.\<close>

inductive ticket_step :: "viewer \<Rightarrow> ticket_site \<Rightarrow> ticket_site \<Rightarrow> bool" where
  create: "api_create_ticket now v x s = Inr (r, s') \<Longrightarrow> ticket_step v s s'"
| update: "api_update_ticket v i payload s = Inr (r, s') \<Longrightarrow> ticket_step v s s'"
| message: "api_add_message now v i body s = Inr (m, s') \<Longrightarrow> ticket_step v s s'"
| close: "api_close_ticket v i s = Inr (r, s') \<Longrightarrow> ticket_step v s s'"
| reopen: "api_reopen_ticket v i s = Inr (r, s') \<Longrightarrow> ticket_step v s s'"
| assign: "api_assign_ticket v i a s = Inr (r, s') \<Longrightarrow> ticket_step v s s'"
| elsewhere: "ticket_step v s (s\<lparr>ts_db := d\<rparr>)"

inductive ticket_run :: "ticket_site \<Rightarrow> viewer list \<Rightarrow> ticket_site \<Rightarrow> bool" where
  start: "ticket_run s [] s"
| more: "ticket_run s vs s' \<Longrightarrow> ticket_step v s' s'' \<Longrightarrow> ticket_run s (vs @ [v]) s''"

abbreviation ticket_at :: "nat \<Rightarrow> ticket_site \<Rightarrow> ticket option" where
  "ticket_at i s \<equiv> row_get tc_id i (ts_tickets s)"

lemma fold_set_ticket_field_keeps [simp]:
  "tc_id (fold set_ticket_field fs t) = tc_id t" "tc_author (fold set_ticket_field fs t) = tc_author t"
  "tc_assignees (fold set_ticket_field fs t) = tc_assignees t"
proof (induction fs arbitrary: t)
  case (Cons f fs)
  { case 1 then show ?case using Cons(1) [of "set_ticket_field f t"] by (cases f) simp_all
  next case 2 then show ?case using Cons(2) [of "set_ticket_field f t"] by (cases f) simp_all
  next case 3 then show ?case using Cons(3) [of "set_ticket_field f t"] by (cases f) simp_all }
qed simp_all

lemma ticket_or_404_Inr [simp]: "ticket_or_404 i s = Inr t \<longleftrightarrow> ticket_at i s = Some t"
  by (simp add: ticket_or_404_def split: option.splits)

lemma ticket_at_id: "ticket_at i s = Some t \<Longrightarrow> tc_id t = i"
  using row_get_SomeD by fast

lemma row_get_append: "row_get key i rows = Some r \<Longrightarrow> row_get key i (rows @ rows') = Some r"
  unfolding row_get_def by (induction rows) (auto split: if_splits)

lemma save_other: "tc_id t' \<noteq> i \<Longrightarrow> ticket_at i (save_ticket t' s) = ticket_at i s"
  by (auto simp: save_ticket_def row_get_put)

text \<open>A step keeps a ticket its viewer may not change, and only adds messages, to tickets he may see.\<close>

definition untouched :: "nat \<Rightarrow> ticket \<Rightarrow> ticket_site \<Rightarrow> ticket_site \<Rightarrow> bool" where
  "untouched i t s s' \<longleftrightarrow> ticket_at i s' = Some t
     \<and> (\<exists>ms. ts_messages s' = ts_messages s @ ms \<and> (tc_is_public t \<or> (\<forall>m \<in> set ms. tm_ticket m \<noteq> i)))"

lemma untouched_refl: "ticket_at i s = Some t \<Longrightarrow> untouched i t s s"
  by (auto simp: untouched_def intro!: exI [of _ "[]"])

lemma untouched_trans: "untouched i t s s' \<Longrightarrow> untouched i t s' s'' \<Longrightarrow> untouched i t s s''"
  unfolding untouched_def by (elim conjE exE) (intro conjI exI, assumption, simp, auto)

lemma untouched_saved:
  "ticket_at i s = Some t \<Longrightarrow> tc_id t' \<noteq> i \<Longrightarrow> untouched i t s (save_ticket t' s)"
  using save_other [of t' i s] by (auto simp: untouched_def save_ticket_def intro!: exI [of _ "[]"])

lemma step_untouched:
  assumes "ticket_step v s s'" and "ticket_at i s = Some t" and "\<not> can_change_ticket v t"
  shows "untouched i t s s'"
  using assms
proof (cases rule: ticket_step.cases)
  case (create now x r)
  then show ?thesis using assms(2)
    by (auto simp: api_create_ticket_def create_ticket_def Let_def untouched_def intro!: row_get_append exI [of _ "[]"])
next
  case (update j payload r)
  then obtain t' fs where t': "ticket_at j s = Some t'" "can_change_ticket v t'" and s': "s' = snd (update_ticket t' fs s)"
    by (fastforce simp: api_update_ticket_def Let_def case_prod_unfold)
  then have "j \<noteq> i" using assms(2,3) by auto
  then have "tc_id t' \<noteq> i" using t'(1) ticket_at_id by blast
  then show ?thesis using untouched_saved [OF assms(2)] untouched_refl [OF assms(2)] by (simp add: s' update_ticket_def Let_def)
next
  case (message now j body m)
  then obtain t' where t': "ticket_at j s = Some t'" "can_access_ticket v t'"
    and s': "ts_tickets s' = ts_tickets s" "ts_messages s' = ts_messages s @ [m]" "tm_ticket m = tc_id t'"
    by (auto simp: api_add_message_def add_message_def Let_def)
  have "tc_is_public t \<or> j \<noteq> i"
  proof (rule ccontr)
    assume "\<not> (tc_is_public t \<or> j \<noteq> i)"
    then have "can_access_ticket v t" "\<not> tc_is_public t" using t' assms(2) by auto
    then show False using assms(3) by (auto simp: can_access_ticket_def can_change_ticket_def split: option.splits)
  qed
  then show ?thesis using s' assms(2) ticket_at_id [OF t'(1)] by (auto simp: untouched_def)
next
  case (close j r)
  then obtain t' where t': "ticket_at j s = Some t'" "can_change_ticket v t'" and s': "s' = save_ticket (t'\<lparr>tc_status := Tic_CLOSED\<rparr>) s"
    by (auto simp: api_close_ticket_def close_ticket_def Let_def)
  then have "j \<noteq> i" using assms(2,3) by auto
  then show ?thesis using untouched_saved [OF assms(2)] ticket_at_id [OF t'(1)] by (simp add: s')
next
  case (reopen j r)
  then obtain t' where t': "ticket_at j s = Some t'" "can_change_ticket v t'" and s': "s' = save_ticket (t'\<lparr>tc_status := Tic_OPEN\<rparr>) s"
    by (auto simp: api_reopen_ticket_def reopen_ticket_def Let_def)
  then have "j \<noteq> i" using assms(2,3) by auto
  then show ?thesis using untouched_saved [OF assms(2)] ticket_at_id [OF t'(1)] by (simp add: s')
next
  case (assign j a r)
  then have False using assms(3)
    by (auto simp: api_assign_ticket_def ticket_staff_def ticket_authenticated_def can_change_ticket_def split: option.splits)
  then show ?thesis ..
next
  case (elsewhere d)
  then show ?thesis using untouched_refl [OF assms(2)] by (simp add: untouched_def)
qed

text \<open>Seeing and changing tickets is a policy whose listing is the list of the service.\<close>

interpretation ticket_policy: listed_policy "\<lambda>v s t. can_access_ticket v t" "\<lambda>v s t. can_change_ticket v t"
    get_user_tickets ts_tickets
  by unfold_locales (auto simp: can_access_ticket_def can_change_ticket_def get_user_tickets_def split: option.splits)

section \<open>Properties\<close>

definition sample_ticket :: ticket where
  "sample_ticket = (new_ticket 1 0 ''Judge down'' 7 ''help'')\<lparr>tc_is_public := False, tc_status := Tic_CLOSED\<rparr>"

definition sample_desk :: ticket_site where
  "sample_desk = \<lparr>ts_db = empty_db, ts_tickets = [sample_ticket], ts_messages = []\<rparr>"

text \<open>C33: Requests of others leave a ticket alone: in any history of requests none of which comes from staff
  or from the author of a ticket, the ticket keeps its text, status, links, assignees and privacy, no
  message of it is lost or changed, and it gains messages only when it is public.\<close>

theorem ticket_guarded:
  assumes "ticket_run s vs s'" and "ticket_at i s = Some t" and "\<forall>v \<in> set vs. \<not> can_change_ticket v t"
  shows "ticket_at i s' = Some t
     \<and> (\<exists>ms. ts_messages s' = ts_messages s @ ms \<and> (tc_is_public t \<or> (\<forall>m \<in> set ms. tm_ticket m \<noteq> i)))"
proof -
  have "untouched i t s s'" using assms
  proof (induction rule: ticket_run.induct)
    case (start s)
    then show ?case using untouched_refl by blast
  next
    case (more s vs s' v s'')
    then have "untouched i t s s'" by simp
    moreover have "untouched i t s' s''"
      using step_untouched [OF more.hyps(2)] \<open>untouched i t s s'\<close> more.prems by (simp add: untouched_def)
    ultimately show ?case by (rule untouched_trans)
  qed
  then show ?thesis by (simp add: untouched_def)
qed

theorem ticket_guarded_witness:
  "\<exists>s'. ticket_run sample_desk [Some (new_user 8)] s' \<and> ticket_at 1 s' = Some sample_ticket"
proof -
  let ?x = "\<lparr>tci_title = ''Typo'', tci_body = ''p5'', tci_linked_problem_id = None, tci_linked_contest_id = None,
              tci_priority = ''low'', tci_is_public = True\<rparr>"
  obtain r s' where step: "api_create_ticket 5 (Some (new_user 8)) ?x sample_desk = Inr (r, s')"
    by (simp add: api_create_ticket_def ticket_authenticated_def validate_links_def create_ticket_def Let_def)
  have run: "ticket_run sample_desk [Some (new_user 8)] s'"
    using ticket_run.more [OF ticket_run.start ticket_step.create [OF step]] by simp
  have "ticket_at 1 sample_desk = Some sample_ticket" "\<not> can_change_ticket (Some (new_user 8)) sample_ticket"
    by code_simp+
  then show ?thesis using ticket_guarded [OF run, of 1 sample_ticket] run by auto
qed

text \<open>The list of tickets and the ticket page agree: without filters a viewer's list holds exactly the
  tickets he may open.\<close>

theorem ticket_list_is_access:
  "t \<in> set (api_list_tickets v None None s) \<longleftrightarrow> t \<in> set (ts_tickets s) \<and> can_access_ticket v t"
  using ticket_policy.listed_iff [of t v s] by (simp add: api_list_tickets_def)

text \<open>A change of the links of a ticket is checked, answered with success, and not made.\<close>

theorem link_update_ignored:
  assumes "api_update_ticket v i [TF_linked_problem_id (Some p), TF_linked_contest_id (Some c)] s = Inr (r, s')"
  shows "s' = s \<and> ticket_at i s = Some (td_ticket r)"
  using assms by (auto simp: api_update_ticket_def update_ticket_def to_ticket_detail_def Let_def)

definition sample_link_desk :: ticket_site where
  "sample_link_desk = sample_desk\<lparr>ts_db := empty_db\<lparr>db_problems := [(new_problem 5)\<lparr>p_visibility := Prob_PUBLIC\<rparr>],
     db_contests := [(new_contest 6 ''c'' 0 10)\<lparr>c_visibility := Con_PUBLIC\<rparr>]\<rparr>\<rparr>"

theorem link_update_ignored_witness:
  "\<exists>r s'. api_update_ticket (Some (new_user 7)) 1 [TF_linked_problem_id (Some 5), TF_linked_contest_id (Some 6)] sample_link_desk = Inr (r, s')
     \<and> s' = sample_link_desk \<and> tc_linked_problem (td_ticket r) = None"
proof -
  have "(case api_update_ticket (Some (new_user 7)) 1 [TF_linked_problem_id (Some 5), TF_linked_contest_id (Some 6)] sample_link_desk of
     Inl e \<Rightarrow> False | Inr (r, s') \<Rightarrow> tc_linked_problem (td_ticket r) = None)" by code_simp
  then obtain r s' where run: "api_update_ticket (Some (new_user 7)) 1 [TF_linked_problem_id (Some 5), TF_linked_contest_id (Some 6)]
      sample_link_desk = Inr (r, s')" "tc_linked_problem (td_ticket r) = None"
    by (auto split: sum.splits)
  from link_update_ignored [OF run(1)] run show ?thesis by blast
qed

end
