(* ===== verification/Organizations.thy ===== *)
theory Organizations
  imports Accounts
begin

text \<open>
  Organizations: \<open>apps/organizations/services/org_service.py\<close> and \<open>apps/organizations/api/router.py\<close> over the
  tables of \<open>apps/organizations/models\<close>. Membership is a column of the user rows (\<open>u_organizations\<close>), as
  the relation belongs to the user model. Django's \<open>slugify\<close> is an argument. The histories of requests
  refine an abstract machine of members, administrators and pending requests.
\<close>

section \<open>Tables\<close>

datatype org_request_status = Req_PENDING | Req_APPROVED | Req_REJECTED

record organization =
  og_id :: nat
  og_slug :: string
  og_name :: string
  og_short_name :: string
  og_about :: string
  og_admins :: "nat list"
  og_is_open :: bool
  og_creation_date :: time
  og_access_code :: "string option"

record org_request =
  or_id :: nat
  or_user :: nat
  or_organization :: nat
  or_status :: org_request_status
  or_reason :: string
  or_response :: string
  or_reviewed_by :: "nat option"
  or_reviewed_at :: "time option"
  or_created_at :: time

record org_site =
  os_db :: db
  os_orgs :: "organization list"
  os_requests :: "org_request list"

section \<open>The service\<close>

text \<open>\<open>user.organizations.add(org)\<close> and \<open>.remove(org)\<close>, \<open>org.admins.add(user)\<close> and \<open>.remove(user)\<close>.\<close>

definition add_once :: "nat \<Rightarrow> nat list \<Rightarrow> nat list" where
  "add_once x xs = (if x \<in> set xs then xs else xs @ [x])"

definition set_memberships :: "nat \<Rightarrow> (nat list \<Rightarrow> nat list) \<Rightarrow> org_site \<Rightarrow> org_site" where
  "set_memberships uid f s = s\<lparr>os_db := (os_db s)\<lparr>db_users :=
     rows_update (\<lambda>u. u_id u = uid) (\<lambda>u. u\<lparr>u_organizations := f (u_organizations u)\<rparr>) (db_users (os_db s))\<rparr>\<rparr>"

definition set_admins :: "nat \<Rightarrow> (nat list \<Rightarrow> nat list) \<Rightarrow> org_site \<Rightarrow> org_site" where
  "set_admins oid f s = s\<lparr>os_orgs := rows_update (\<lambda>g. og_id g = oid) (\<lambda>g. g\<lparr>og_admins := f (og_admins g)\<rparr>) (os_orgs s)\<rparr>"

definition is_member :: "nat \<Rightarrow> nat \<Rightarrow> org_site \<Rightarrow> bool" where
  "is_member oid uid s = list_ex (\<lambda>u. u_id u = uid \<and> oid \<in> set (u_organizations u)) (db_users (os_db s))"

definition add_member :: "nat \<Rightarrow> nat \<Rightarrow> org_site \<Rightarrow> org_site" where
  "add_member oid uid s = (if \<not> is_member oid uid s then set_memberships uid (add_once oid) s else s)"

definition remove_member :: "nat \<Rightarrow> nat \<Rightarrow> org_site \<Rightarrow> org_site" where
  "remove_member oid uid s = set_admins oid (removeAll uid) (set_memberships uid (removeAll oid) s)"

definition promote_admin :: "nat \<Rightarrow> nat \<Rightarrow> org_site \<Rightarrow> org_site result" where
  "promote_admin oid uid s =
     raise_if (\<not> is_member oid uid s) (ValidationError ''User must be a member before promotion.'')
       (Inr (set_admins oid (add_once uid) s))"

definition demote_admin :: "nat \<Rightarrow> nat \<Rightarrow> org_site \<Rightarrow> org_site" where
  "demote_admin oid uid s = set_admins oid (removeAll uid) s"

text \<open>The keyword arguments the endpoint passes on.\<close>

record org_create_in =
  oci_name :: string
  oci_slug :: "string option"
  oci_short_name :: "string option"
  oci_about :: "string option"
  oci_is_open :: bool
  oci_access_code :: "string option"

definition text_or_empty :: "string option \<Rightarrow> string" where
  "text_or_empty s = (case s of None \<Rightarrow> [] | Some t \<Rightarrow> t)"

definition new_organization :: "nat \<Rightarrow> time \<Rightarrow> string \<Rightarrow> string \<Rightarrow> org_create_in \<Rightarrow> organization" where
  "new_organization i now slug name x = \<lparr>og_id = i, og_slug = slug, og_name = name,
     og_short_name = text_or_empty (oci_short_name x), og_about = text_or_empty (oci_about x), og_admins = [],
     og_is_open = oci_is_open x, og_creation_date = now, og_access_code = oci_access_code x\<rparr>"

definition create_organization ::
    "(string \<Rightarrow> string) \<Rightarrow> time \<Rightarrow> nat \<Rightarrow> org_create_in \<Rightarrow> org_site \<Rightarrow> (organization \<times> org_site) result" where
  "create_organization slugify now creator x s =
     (let clean_name = strip (oci_name x)
      in raise_if (clean_name = []) (ValidationError ''Organization name is required.'')
        (let slug = (if text_or_empty (oci_slug x) \<noteq> [] then text_or_empty (oci_slug x) else slugify clean_name)
         in andThen (validate_slug slug) (\<lambda>_.
            raise_if (list_ex (\<lambda>g. same_text (og_name g) clean_name) (os_orgs s)) (ValidationError ''Organization name already exists.'')
           (raise_if (list_ex (\<lambda>g. og_slug g = slug) (os_orgs s)) (ValidationError ''Organization slug already exists.'')
           (let g = new_organization (fresh_key og_id (os_orgs s)) now slug clean_name x;
                s1 = set_memberships creator (add_once (og_id g)) (s\<lparr>os_orgs := os_orgs s @ [g]\<rparr>)
            in Inr (g\<lparr>og_admins := [creator]\<rparr>, set_admins (og_id g) (add_once creator) s1))))))"

definition pending_request :: "nat \<Rightarrow> nat \<Rightarrow> org_request \<Rightarrow> bool" where
  "pending_request oid uid r = (or_organization r = oid \<and> or_user r = uid \<and> or_status r = Req_PENDING)"

definition request_membership ::
    "time \<Rightarrow> organization \<Rightarrow> nat \<Rightarrow> string \<Rightarrow> org_site \<Rightarrow> (org_request \<times> org_site) result" where
  "request_membership now g uid reason s =
     raise_if (is_member (og_id g) uid s) (ValidationError ''User is already a member.'')
    (raise_if (list_ex (pending_request (og_id g) uid) (os_requests s)) (ValidationError ''A pending request already exists.'')
    (let r = \<lparr>or_id = fresh_key or_id (os_requests s), or_user = uid, or_organization = og_id g, or_status = Req_PENDING,
              or_reason = strip reason, or_response = [], or_reviewed_by = None, or_reviewed_at = None, or_created_at = now\<rparr>
     in Inr (r, s\<lparr>os_requests := os_requests s @ [r]\<rparr>)))"

definition reviewed :: "org_request_status \<Rightarrow> time \<Rightarrow> nat \<Rightarrow> string \<Rightarrow> org_request \<Rightarrow> org_request" where
  "reviewed st now reviewer response r =
     r\<lparr>or_status := st, or_reviewed_by := Some reviewer, or_reviewed_at := Some now, or_response := response\<rparr>"

definition save_request :: "org_request \<Rightarrow> org_site \<Rightarrow> org_site" where
  "save_request r s = s\<lparr>os_requests := row_put or_id r (os_requests s)\<rparr>"

definition approve_request :: "time \<Rightarrow> org_request \<Rightarrow> nat \<Rightarrow> org_site \<Rightarrow> (org_request \<times> org_site) result" where
  "approve_request now r reviewer s =
     raise_if (or_status r \<noteq> Req_PENDING) (ValidationError ''Only pending requests can be approved.'')
       (let r' = reviewed Req_APPROVED now reviewer [] r
        in Inr (r', save_request r' (add_member (or_organization r) (or_user r) s)))"

definition reject_request :: "time \<Rightarrow> org_request \<Rightarrow> nat \<Rightarrow> string \<Rightarrow> org_site \<Rightarrow> (org_request \<times> org_site) result" where
  "reject_request now r reviewer response s =
     raise_if (or_status r \<noteq> Req_PENDING) (ValidationError ''Only pending requests can be rejected.'')
       (let r' = reviewed Req_REJECTED now reviewer (strip response) r in Inr (r', save_request r' s))"

definition list_members :: "nat \<Rightarrow> org_site \<Rightarrow> user list" where
  "list_members oid s = sort_key u_username (filter (\<lambda>u. oid \<in> set (u_organizations u)) (db_users (os_db s)))"

definition member_count :: "nat \<Rightarrow> org_site \<Rightarrow> nat" where
  "member_count oid s = length (filter (\<lambda>u. oid \<in> set (u_organizations u)) (db_users (os_db s)))"

definition get_request_or_404 :: "nat \<Rightarrow> nat \<Rightarrow> org_site \<Rightarrow> org_request result" where
  "get_request_or_404 oid request_id s =
     (case first (filter (\<lambda>r. or_organization r = oid \<and> or_id r = request_id) (os_requests s)) of
        None \<Rightarrow> Inl (NotFoundError ''Organization request not found.'') | Some r \<Rightarrow> Inr r)"

section \<open>The endpoints\<close>

text \<open>The acting user is the one \<open>JudgeLoomAuth\<close> found, so \<open>_request_user\<close> returns him.\<close>

definition get_org_or_404 :: "string \<Rightarrow> org_site \<Rightarrow> organization result" where
  "get_org_or_404 slug s = (case first (filter (\<lambda>g. og_slug g = slug) (os_orgs s)) of
     None \<Rightarrow> Inl (NotFoundError ''Organization not found.'') | Some g \<Rightarrow> Inr g)"

definition is_org_admin :: "organization \<Rightarrow> user \<Rightarrow> bool" where
  "is_org_admin g u = (u_is_staff u \<or> u_id u \<in> set (og_admins g))"

definition require_org_admin :: "organization \<Rightarrow> user \<Rightarrow> unit result" where
  "require_org_admin g u = raise_if (\<not> is_org_admin g u) (PermissionDeniedError ''Organization admin permission required.'') (Inr ())"

record org_out =
  oo_organization :: organization
  oo_member_count :: nat

definition org_out_of :: "organization \<Rightarrow> org_site \<Rightarrow> org_out" where
  "org_out_of g s = \<lparr>oo_organization = g, oo_member_count = member_count (og_id g) s\<rparr>"

definition api_list_organizations :: "org_site \<Rightarrow> org_out list" where
  "api_list_organizations s = map (\<lambda>g. org_out_of g s) (sort_key og_name (os_orgs s))"

definition api_create_organization ::
    "(string \<Rightarrow> string) \<Rightarrow> time \<Rightarrow> user \<Rightarrow> org_create_in \<Rightarrow> org_site \<Rightarrow> (org_out \<times> org_site) result" where
  "api_create_organization slugify now u x s =
     raise_if (\<not> u_is_staff u) (PermissionDeniedError ''Only staff can create organizations.'')
       (andThen (create_organization slugify now (u_id u) x s) (\<lambda>(g, s'). Inr (org_out_of g s', s')))"

definition api_organization_detail :: "string \<Rightarrow> org_site \<Rightarrow> org_out result" where
  "api_organization_detail slug s = andThen (get_org_or_404 slug s) (\<lambda>g. Inr (org_out_of g s))"

text \<open>One item of \<open>payload.model_dump(exclude_none=True)\<close>.\<close>

datatype org_field =
    OF_name string
  | OF_short_name string
  | OF_about string
  | OF_is_open bool
  | OF_access_code string

fun set_org_field :: "org_field \<Rightarrow> organization \<Rightarrow> organization" where
  "set_org_field (OF_name n) g = g\<lparr>og_name := n\<rparr>"
| "set_org_field (OF_short_name n) g = g\<lparr>og_short_name := n\<rparr>"
| "set_org_field (OF_about a) g = g\<lparr>og_about := a\<rparr>"
| "set_org_field (OF_is_open b) g = g\<lparr>og_is_open := b\<rparr>"
| "set_org_field (OF_access_code c) g = g\<lparr>og_access_code := Some c\<rparr>"

text \<open>The column \<open>name\<close> is unique: a save with the name of another row is refused by the database.\<close>

definition api_update_organization :: "user \<Rightarrow> string \<Rightarrow> org_field list \<Rightarrow> org_site \<Rightarrow> (org_out \<times> org_site) result" where
  "api_update_organization u slug fs s =
     andThen (get_org_or_404 slug s) (\<lambda>g.
     andThen (require_org_admin g u) (\<lambda>_.
       let g' = fold set_org_field fs g
       in raise_if (list_ex (\<lambda>h. og_id h \<noteq> og_id g \<and> og_name h = og_name g') (os_orgs s)) (IntegrityError ''organizations_organization.name'')
            (let s' = s\<lparr>os_orgs := row_put og_id g' (os_orgs s)\<rparr> in Inr (org_out_of g' s', s'))))"

definition api_organization_members :: "string \<Rightarrow> org_site \<Rightarrow> user list result" where
  "api_organization_members slug s = andThen (get_org_or_404 slug s) (\<lambda>g. Inr (list_members (og_id g) s))"

definition api_join_organization ::
    "time \<Rightarrow> user \<Rightarrow> string \<Rightarrow> string option \<Rightarrow> org_site \<Rightarrow> (org_request \<times> org_site) result" where
  "api_join_organization now u slug reason s =
     andThen (get_org_or_404 slug s) (\<lambda>g.
     raise_if (\<not> og_is_open g \<and> text_or_empty reason = [] \<and> text_or_empty (og_access_code g) = [])
       (ValidationError ''Private organization requires a reason or access code process.'')
       (request_membership now g (u_id u) (text_or_empty reason) s))"

definition api_approve_request :: "time \<Rightarrow> user \<Rightarrow> string \<Rightarrow> nat \<Rightarrow> org_site \<Rightarrow> (org_request \<times> org_site) result" where
  "api_approve_request now u slug request_id s =
     andThen (get_org_or_404 slug s) (\<lambda>g.
     andThen (require_org_admin g u) (\<lambda>_.
     andThen (get_request_or_404 (og_id g) request_id s) (\<lambda>r.
       approve_request now r (u_id u) s)))"

definition api_reject_request ::
    "time \<Rightarrow> user \<Rightarrow> string \<Rightarrow> nat \<Rightarrow> string \<Rightarrow> org_site \<Rightarrow> (org_request \<times> org_site) result" where
  "api_reject_request now u slug request_id response s =
     andThen (get_org_or_404 slug s) (\<lambda>g.
     andThen (require_org_admin g u) (\<lambda>_.
     andThen (get_request_or_404 (og_id g) request_id s) (\<lambda>r.
       reject_request now r (u_id u) response s)))"

end
