(* ===== verification/OrganizationFlow.thy ===== *)
theory OrganizationFlow
  imports Organizations
begin

text \<open>
  The histories of organization requests refine an abstract machine that knows three relations between
  users and organizations (members, administrators, pending requests) and which moves are permitted.
\<close>

section \<open>The membership machine\<close>

record membership =
  ms_members :: "(nat \<times> nat) set"
  ms_admins :: "(nat \<times> nat) set"
  ms_pending :: "(nat \<times> nat) set"

text \<open>The moves, with the user and the organization; a review names the reviewer and whether he is staff.
  The last four are calls of the service that no endpoint makes.\<close>

datatype org_move =
    Found nat nat
  | Ask nat nat
  | Accept nat bool nat nat
  | Refuse nat bool nat nat
  | Idle
  | Enlist nat nat
  | Expel nat nat
  | Promote nat nat
  | Demote nat nat

fun permitted :: "org_move \<Rightarrow> membership \<Rightarrow> bool" where
  "permitted (Found u g) m = (g \<notin> snd ` (ms_members m \<union> ms_admins m \<union> ms_pending m))"
| "permitted (Ask u g) m = ((u, g) \<notin> ms_members m \<and> (u, g) \<notin> ms_pending m)"
| "permitted (Accept a staff u g) m = ((u, g) \<in> ms_pending m \<and> (staff \<or> (a, g) \<in> ms_admins m))"
| "permitted (Refuse a staff u g) m = ((u, g) \<in> ms_pending m \<and> (staff \<or> (a, g) \<in> ms_admins m))"
| "permitted (Promote u g) m = ((u, g) \<in> ms_members m)"
| "permitted _ m = True"

fun org_moved :: "org_move \<Rightarrow> membership \<Rightarrow> membership" where
  "org_moved (Found u g) m = m\<lparr>ms_members := insert (u, g) (ms_members m), ms_admins := insert (u, g) (ms_admins m)\<rparr>"
| "org_moved (Ask u g) m = m\<lparr>ms_pending := insert (u, g) (ms_pending m)\<rparr>"
| "org_moved (Accept a staff u g) m = m\<lparr>ms_members := insert (u, g) (ms_members m), ms_pending := ms_pending m - {(u, g)}\<rparr>"
| "org_moved (Refuse a staff u g) m = m\<lparr>ms_pending := ms_pending m - {(u, g)}\<rparr>"
| "org_moved Idle m = m"
| "org_moved (Enlist u g) m = m\<lparr>ms_members := insert (u, g) (ms_members m)\<rparr>"
| "org_moved (Expel u g) m = m\<lparr>ms_members := ms_members m - {(u, g)}, ms_admins := ms_admins m - {(u, g)}\<rparr>"
| "org_moved (Promote u g) m = m\<lparr>ms_admins := insert (u, g) (ms_admins m)\<rparr>"
| "org_moved (Demote u g) m = m\<lparr>ms_admins := ms_admins m - {(u, g)}\<rparr>"

section \<open>The abstraction and the invariant\<close>

definition member_pairs :: "user list \<Rightarrow> (nat \<times> nat) set" where
  "member_pairs us = (\<Union>u \<in> set us. {u_id u} \<times> set (u_organizations u))"

definition admin_pairs :: "organization list \<Rightarrow> (nat \<times> nat) set" where
  "admin_pairs gs = (\<Union>g \<in> set gs. set (og_admins g) \<times> {og_id g})"

definition request_pair :: "org_request \<Rightarrow> nat \<times> nat" where
  "request_pair r = (or_user r, or_organization r)"

definition pending :: "org_request list \<Rightarrow> org_request set" where
  "pending rs = {r \<in> set rs. or_status r = Req_PENDING}"

definition membership_of :: "org_site \<Rightarrow> membership" where
  "membership_of s = \<lparr>ms_members = member_pairs (db_users (os_db s)), ms_admins = admin_pairs (os_orgs s),
     ms_pending = request_pair ` pending (os_requests s)\<rparr>"

text \<open>Keys, names and slugs are unique, every relation names rows that exist, a user has one pending request
  per organization, and exactly the settled requests carry a reviewer.\<close>

definition org_ok :: "org_site \<Rightarrow> bool" where
  "org_ok s \<longleftrightarrow> distinct (map og_id (os_orgs s)) \<and> distinct (map og_name (os_orgs s)) \<and> distinct (map og_slug (os_orgs s))
     \<and> distinct (map or_id (os_requests s))
     \<and> snd ` member_pairs (db_users (os_db s)) \<subseteq> og_id ` set (os_orgs s)
     \<and> request_pair ` set (os_requests s) \<subseteq> u_id ` set (db_users (os_db s)) \<times> og_id ` set (os_orgs s)
     \<and> inj_on request_pair (pending (os_requests s))
     \<and> (\<forall>r \<in> set (os_requests s). or_status r = Req_PENDING \<longleftrightarrow> or_reviewed_by r = None)"

section \<open>Steps\<close>

text \<open>The acting user is a row of the table. \<open>elsewhere\<close> is any change of the other tables that keeps the
  users and their memberships.\<close>

inductive org_step :: "org_move \<Rightarrow> org_site \<Rightarrow> org_site \<Rightarrow> bool" where
  create: "u \<in> set (db_users (os_db s)) \<Longrightarrow> api_create_organization slugify now u x s = Inr (r, s')
     \<Longrightarrow> org_step (Found (u_id u) (og_id (oo_organization r))) s s'"
| update: "api_update_organization u slug fs s = Inr (r, s') \<Longrightarrow> org_step Idle s s'"
| join: "u \<in> set (db_users (os_db s)) \<Longrightarrow> api_join_organization now u slug reason s = Inr (r, s')
     \<Longrightarrow> org_step (Ask (u_id u) (or_organization r)) s s'"
| approve: "api_approve_request now u slug i s = Inr (r, s')
     \<Longrightarrow> org_step (Accept (u_id u) (u_is_staff u) (or_user r) (or_organization r)) s s'"
| reject: "api_reject_request now u slug i response s = Inr (r, s')
     \<Longrightarrow> org_step (Refuse (u_id u) (u_is_staff u) (or_user r) (or_organization r)) s s'"
| enlist: "i \<in> u_id ` set (db_users (os_db s)) \<Longrightarrow> g \<in> og_id ` set (os_orgs s) \<Longrightarrow> org_step (Enlist i g) s (add_member g i s)"
| expel: "org_step (Expel i g) s (remove_member g i s)"
| promote: "promote_admin g i s = Inr s' \<Longrightarrow> g \<in> og_id ` set (os_orgs s) \<Longrightarrow> org_step (Promote i g) s s'"
| demote: "org_step (Demote i g) s (demote_admin g i s)"
| elsewhere: "u_id ` set (db_users (os_db s)) \<subseteq> u_id ` set (db_users d) \<Longrightarrow> member_pairs (db_users d) = member_pairs (db_users (os_db s))
     \<Longrightarrow> org_step Idle s (s\<lparr>os_db := d\<rparr>)"

lemma member_pairs_update:
  "member_pairs (rows_update (\<lambda>u. u_id u = i) (\<lambda>u. u\<lparr>u_organizations := add_once g (u_organizations u)\<rparr>) us) =
     (if i \<in> u_id ` set us then insert (i, g) (member_pairs us) else member_pairs us)"
  "member_pairs (rows_update (\<lambda>u. u_id u = i) (\<lambda>u. u\<lparr>u_organizations := removeAll g (u_organizations u)\<rparr>) us) =
     member_pairs us - {(i, g)}"
  by (induction us) (auto simp: member_pairs_def rows_update_def add_once_def)

lemma admin_pairs_update:
  "admin_pairs (rows_update (\<lambda>g. og_id g = k) (\<lambda>g. g\<lparr>og_admins := add_once i (og_admins g)\<rparr>) gs) =
     (if k \<in> og_id ` set gs then insert (i, k) (admin_pairs gs) else admin_pairs gs)"
  "admin_pairs (rows_update (\<lambda>g. og_id g = k) (\<lambda>g. g\<lparr>og_admins := removeAll i (og_admins g)\<rparr>) gs) = admin_pairs gs - {(i, k)}"
  by (induction gs) (auto simp: admin_pairs_def rows_update_def add_once_def)

lemma ids_rows_update: "(\<And>r. f (h r) = f r) \<Longrightarrow> f ` set (rows_update p h rows) = f ` set rows"
  by (metis list.set_map map_rows_update)

lemma set_memberships_simps [simp]:
  "os_orgs (set_memberships i f s) = os_orgs s" "os_requests (set_memberships i f s) = os_requests s"
  "u_id ` set (db_users (os_db (set_memberships i f s))) = u_id ` set (db_users (os_db s))"
  by (simp_all add: set_memberships_def ids_rows_update)

lemma set_admins_simps [simp]:
  "os_db (set_admins k f s) = os_db s" "os_requests (set_admins k f s) = os_requests s"
  "map og_id (os_orgs (set_admins k f s)) = map og_id (os_orgs s)"
  "map og_name (os_orgs (set_admins k f s)) = map og_name (os_orgs s)"
  "map og_slug (os_orgs (set_admins k f s)) = map og_slug (os_orgs s)"
  "og_id ` set (os_orgs (set_admins k f s)) = og_id ` set (os_orgs s)"
  by (simp_all add: set_admins_def map_rows_update ids_rows_update)

lemma member_pairs_set [simp]:
  "member_pairs (db_users (os_db (set_memberships i (add_once g) s))) =
     (if i \<in> u_id ` set (db_users (os_db s)) then insert (i, g) (member_pairs (db_users (os_db s))) else member_pairs (db_users (os_db s)))"
  "member_pairs (db_users (os_db (set_memberships i (removeAll g) s))) = member_pairs (db_users (os_db s)) - {(i, g)}"
  by (simp_all add: set_memberships_def member_pairs_update)

lemma admin_pairs_set [simp]:
  "admin_pairs (os_orgs (set_admins k (add_once i) s)) =
     (if k \<in> og_id ` set (os_orgs s) then insert (i, k) (admin_pairs (os_orgs s)) else admin_pairs (os_orgs s))"
  "admin_pairs (os_orgs (set_admins k (removeAll i) s)) = admin_pairs (os_orgs s) - {(i, k)}"
  by (simp_all add: set_admins_def admin_pairs_update)

lemma is_member_pairs: "is_member g i s \<longleftrightarrow> (i, g) \<in> member_pairs (db_users (os_db s))"
  by (auto simp: is_member_def member_pairs_def list_ex_iff)

lemma add_member_simps [simp]:
  "os_orgs (add_member g i s) = os_orgs s" "os_requests (add_member g i s) = os_requests s"
  "u_id ` set (db_users (os_db (add_member g i s))) = u_id ` set (db_users (os_db s))"
  "i \<in> u_id ` set (db_users (os_db s)) \<Longrightarrow>
     member_pairs (db_users (os_db (add_member g i s))) = insert (i, g) (member_pairs (db_users (os_db s)))"
  by (simp_all add: add_member_def is_member_pairs insert_absorb)

lemma get_org_or_404_Inr: "get_org_or_404 slug s = Inr g \<Longrightarrow> g \<in> set (os_orgs s)"
  by (auto simp: get_org_or_404_def split: option.splits dest!: first_in)

lemma get_request_Inr: "get_request_or_404 k i s = Inr r \<Longrightarrow> r \<in> set (os_requests s) \<and> or_organization r = k"
  by (auto simp: get_request_or_404_def split: option.splits dest!: first_in)

lemma require_org_admin_Inr: "require_org_admin g u = Inr () \<longleftrightarrow> is_org_admin g u"
  by (simp add: require_org_admin_def)

section \<open>Every step is simulated\<close>

lemma member_org: "org_ok s \<Longrightarrow> (i, g) \<in> member_pairs (db_users (os_db s)) \<Longrightarrow> g \<in> og_id ` set (os_orgs s)"
  by (force simp: org_ok_def)

lemma admin_org: "(i, g) \<in> admin_pairs gs \<Longrightarrow> g \<in> og_id ` set gs"
  by (auto simp: admin_pairs_def)

lemma pending_org: "org_ok s \<Longrightarrow> r \<in> pending (os_requests s) \<Longrightarrow> or_organization r \<in> og_id ` set (os_orgs s)"
  by (force simp: org_ok_def pending_def request_pair_def)

text \<open>A settled request leaves the pending ones.\<close>

lemma settle_request:
  assumes "org_ok s" and "r \<in> set (os_requests s)" and "or_status r = Req_PENDING" and "st \<noteq> Req_PENDING"
    and "rs = row_put or_id (reviewed st now a response r) (os_requests s)"
  shows "request_pair ` pending rs = request_pair ` pending (os_requests s) - {request_pair r}"
    and "inj_on request_pair (pending rs)" and "map or_id rs = map or_id (os_requests s)"
    and "request_pair ` set rs = request_pair ` set (os_requests s)"
    and "\<forall>r \<in> set rs. or_status r = Req_PENDING \<longleftrightarrow> or_reviewed_by r = None"
proof -
  have ids: "inj_on or_id (set (os_requests s))" and inj: "inj_on request_pair (pending (os_requests s))"
    using assms(1) by (simp_all add: org_ok_def distinct_map)
  have rid: "or_id (reviewed st now a response r) = or_id r" by (simp add: reviewed_def)
  have stat: "or_status (reviewed st now a response r) = st" by (simp add: reviewed_def)
  have set: "set rs = insert (reviewed st now a response r) (set (os_requests s) - {r})"
    using assms(2) inj_onD [OF ids] by (auto simp: assms(5) set_row_put rid)
  have pend: "pending rs = pending (os_requests s) - {r}"
    using assms(4) stat by (auto simp: pending_def set)
  have "r \<in> pending (os_requests s)" using assms(2,3) by (simp add: pending_def)
  then show "request_pair ` pending rs = request_pair ` pending (os_requests s) - {request_pair r}"
    using inj by (auto simp: pend inj_on_def)
  show "inj_on request_pair (pending rs)" using inj by (auto simp: pend intro: inj_on_subset)
  show "map or_id rs = map or_id (os_requests s)" by (simp add: assms(5) keys_row_put)
  have "request_pair (reviewed st now a response r) = request_pair r" by (simp add: reviewed_def request_pair_def)
  then show "request_pair ` set rs = request_pair ` set (os_requests s)" using assms(2) by (auto simp: set)
  show "\<forall>r \<in> set rs. or_status r = Req_PENDING \<longleftrightarrow> or_reviewed_by r = None"
    using assms(1,4) by (auto simp: set reviewed_def org_ok_def)
qed

lemma settle_site:
  assumes "org_ok s" and "r \<in> set (os_requests s)" and "or_status r = Req_PENDING" and "st \<noteq> Req_PENDING"
    and "s' = save_request (reviewed st now a response r) s1"
    and "os_requests s1 = os_requests s" and "os_orgs s1 = os_orgs s"
    and "u_id ` set (db_users (os_db s1)) = u_id ` set (db_users (os_db s))"
    and "snd ` member_pairs (db_users (os_db s1)) \<subseteq> og_id ` set (os_orgs s)"
  shows "org_ok s' \<and> ms_pending (membership_of s') = ms_pending (membership_of s) - {request_pair r}
     \<and> ms_admins (membership_of s') = ms_admins (membership_of s)
     \<and> ms_members (membership_of s') = member_pairs (db_users (os_db s1))"
proof -
  have s': "os_requests s' = row_put or_id (reviewed st now a response r) (os_requests s)" "os_orgs s' = os_orgs s" "os_db s' = os_db s1"
    using assms(5-7) by (simp_all add: save_request_def)
  note settled = settle_request [OF assms(1-4) s'(1)]
  have "org_ok s'" using assms(1,8,9) settled(2-5) by (simp add: org_ok_def s'(2,3))
  then show ?thesis using settled(1) by (simp add: membership_of_def s'(2,3))
qed

lemma pending_member: "r \<in> set (os_requests s) \<Longrightarrow> or_status r = Req_PENDING \<Longrightarrow> request_pair r \<in> ms_pending (membership_of s)"
  by (simp add: membership_of_def pending_def)

lemma may_review: "g \<in> set (os_orgs s) \<Longrightarrow> is_org_admin g u \<Longrightarrow> u_is_staff u \<or> (u_id u, og_id g) \<in> ms_admins (membership_of s)"
  by (auto simp: is_org_admin_def membership_of_def admin_pairs_def)

definition simulated :: "org_move \<Rightarrow> org_site \<Rightarrow> org_site \<Rightarrow> bool" where
  "simulated l s s' \<longleftrightarrow> org_ok s' \<and> permitted l (membership_of s) \<and> membership_of s' = org_moved l (membership_of s)"

lemma approve_simulated:
  assumes "org_ok s" and "api_approve_request now u slug i s = Inr (r, s')"
  shows "simulated (Accept (u_id u) (u_is_staff u) (or_user r) (or_organization r)) s s'"
proof -
  obtain g r0 where g: "g \<in> set (os_orgs s)" "is_org_admin g u" and r0: "r0 \<in> set (os_requests s)" "or_organization r0 = og_id g"
    "or_status r0 = Req_PENDING" and r: "r = reviewed Req_APPROVED now (u_id u) [] r0"
    and s': "s' = save_request r (add_member (or_organization r0) (or_user r0) s)"
    using assms(2) by (auto simp: api_approve_request_def approve_request_def require_org_admin_Inr Let_def
        dest!: get_org_or_404_Inr get_request_Inr)
  have user: "or_user r0 \<in> u_id ` set (db_users (os_db s))" and org: "og_id g \<in> og_id ` set (os_orgs s)"
    using assms(1) r0(1) g(1) by (force simp: org_ok_def request_pair_def)+
  have "snd ` member_pairs (db_users (os_db s)) \<subseteq> og_id ` set (os_orgs s)" using assms(1) by (simp add: org_ok_def)
  then have "org_ok s' \<and> ms_pending (membership_of s') = ms_pending (membership_of s) - {request_pair r0}
     \<and> ms_admins (membership_of s') = ms_admins (membership_of s)
     \<and> ms_members (membership_of s') = insert (or_user r0, og_id g) (ms_members (membership_of s))"
    using settle_site [OF assms(1) r0(1,3) _ s' [unfolded r]] user org by (simp add: r0(2) membership_of_def)
  then show ?thesis using pending_member [OF r0(1,3)] may_review [OF g]
    by (simp add: simulated_def r reviewed_def request_pair_def r0(2))
qed

lemma reject_simulated:
  assumes "org_ok s" and "api_reject_request now u slug i response s = Inr (r, s')"
  shows "simulated (Refuse (u_id u) (u_is_staff u) (or_user r) (or_organization r)) s s'"
proof -
  obtain g r0 where g: "g \<in> set (os_orgs s)" "is_org_admin g u" and r0: "r0 \<in> set (os_requests s)" "or_organization r0 = og_id g"
    "or_status r0 = Req_PENDING" and r: "r = reviewed Req_REJECTED now (u_id u) (strip response) r0" and s': "s' = save_request r s"
    using assms(2) by (auto simp: api_reject_request_def reject_request_def require_org_admin_Inr Let_def
        dest!: get_org_or_404_Inr get_request_Inr)
  have "snd ` member_pairs (db_users (os_db s)) \<subseteq> og_id ` set (os_orgs s)" using assms(1) by (simp add: org_ok_def)
  then have "org_ok s' \<and> ms_pending (membership_of s') = ms_pending (membership_of s) - {request_pair r0}
     \<and> ms_admins (membership_of s') = ms_admins (membership_of s)
     \<and> ms_members (membership_of s') = ms_members (membership_of s)"
    using settle_site [OF assms(1) r0(1,3) _ s' [unfolded r]] by (simp add: membership_of_def)
  then show ?thesis using pending_member [OF r0(1,3)] may_review [OF g]
    by (simp add: simulated_def r reviewed_def request_pair_def r0(2))
qed

lemma join_simulated:
  assumes "org_ok s" and "u \<in> set (db_users (os_db s))" and "api_join_organization now u slug reason s = Inr (r, s')"
  shows "simulated (Ask (u_id u) (or_organization r)) s s'"
proof -
  obtain g where g: "g \<in> set (os_orgs s)" and none: "\<not> is_member (og_id g) (u_id u) s" "\<not> list_ex (pending_request (og_id g) (u_id u)) (os_requests s)"
    and r: "or_id r = fresh_key or_id (os_requests s)" "or_user r = u_id u" "or_organization r = og_id g" "or_status r = Req_PENDING" "or_reviewed_by r = None"
    and s': "s' = s\<lparr>os_requests := os_requests s @ [r]\<rparr>"
    using assms(3) by (auto simp: api_join_organization_def request_membership_def Let_def dest!: get_org_or_404_Inr)
  have pend: "pending (os_requests s') = insert r (pending (os_requests s))" using r(4) by (auto simp: s' pending_def)
  have new: "request_pair r \<notin> request_pair ` pending (os_requests s)"
    using none(2) by (auto simp: request_pair_def pending_def pending_request_def list_ex_iff r)
  have "or_id r \<notin> or_id ` set (os_requests s)" using fresh_key_notin [of or_id "os_requests s"] r(1) by simp
  then have "org_ok s'" using assms(1,2) g r new by (auto simp: org_ok_def pend) (auto simp: s' request_pair_def)
  moreover have "membership_of s' = org_moved (Ask (u_id u) (or_organization r)) (membership_of s)"
    by (simp add: membership_of_def pend) (simp add: s' request_pair_def r)
  moreover have "permitted (Ask (u_id u) (or_organization r)) (membership_of s)"
    using none(1) new by (simp add: membership_of_def is_member_pairs request_pair_def r)
  ultimately show ?thesis by (simp add: simulated_def)
qed

lemma same_text_same [simp]: "same_text a a"
  by (simp add: same_text_def)

lemma create_simulated:
  assumes "org_ok s" and "u \<in> set (db_users (os_db s))" and "api_create_organization slugify now u x s = Inr (r, s')"
  shows "simulated (Found (u_id u) (og_id (oo_organization r))) s s'"
proof -
  let ?c = "u_id u"
  obtain g slug name where g: "g = new_organization (fresh_key og_id (os_orgs s)) now slug name x"
    and name: "\<not> list_ex (\<lambda>h. same_text (og_name h) name) (os_orgs s)" and slug: "\<not> list_ex (\<lambda>h. og_slug h = slug) (os_orgs s)"
    and r: "oo_organization r = g\<lparr>og_admins := [?c]\<rparr>"
    and s': "s' = set_admins (og_id g) (add_once ?c) (set_memberships ?c (add_once (og_id g)) (s\<lparr>os_orgs := os_orgs s @ [g]\<rparr>))"
    using assms(3) by (auto simp: api_create_organization_def create_organization_def org_out_of_def Let_def)
  have key: "og_id g = fresh_key og_id (os_orgs s)" "og_name g = name" "og_slug g = slug" and adm: "og_admins g = []"
    by (simp_all add: g new_organization_def)
  let ?s1 = "s\<lparr>os_orgs := os_orgs s @ [g]\<rparr>"
  have new: "og_id g \<notin> og_id ` set (os_orgs s)" using fresh_key_notin [of og_id "os_orgs s"] key(1) by simp
  have names: "og_name g \<notin> og_name ` set (os_orgs s)" "og_slug g \<notin> og_slug ` set (os_orgs s)"
    using name slug by (auto simp: list_ex_iff key)
  have "admin_pairs (os_orgs ?s1) = admin_pairs (os_orgs s)" by (simp add: admin_pairs_def adm)
  then have ms: "membership_of s' = org_moved (Found ?c (og_id g)) (membership_of s)"
    using assms(2) by (simp add: membership_of_def s')
  have "member_pairs (db_users (os_db s')) = insert (?c, og_id g) (member_pairs (db_users (os_db s)))"
    using assms(2) by (simp add: s')
  moreover have "map og_id (os_orgs s') = map og_id (os_orgs s) @ [og_id g]" "map og_name (os_orgs s') = map og_name (os_orgs s) @ [og_name g]"
    "map og_slug (os_orgs s') = map og_slug (os_orgs s) @ [og_slug g]" "os_requests s' = os_requests s"
    "u_id ` set (db_users (os_db s')) = u_id ` set (db_users (os_db s))"
    by (simp_all add: s')
  moreover then have "og_id ` set (os_orgs s') = insert (og_id g) (og_id ` set (os_orgs s))" by (simp flip: set_map)
  ultimately have "org_ok s'" using assms(1) new names by (auto simp: org_ok_def)
  moreover have "permitted (Found ?c (og_id g)) (membership_of s)"
    using new member_org [OF assms(1)] admin_org pending_org [OF assms(1)]
    by (auto simp: membership_of_def request_pair_def)
  ultimately show ?thesis using ms by (simp add: simulated_def r)
qed

lemma fold_set_org_field [simp]:
  "og_id (fold set_org_field fs g) = og_id g" "og_admins (fold set_org_field fs g) = og_admins g"
  "og_slug (fold set_org_field fs g) = og_slug g"
proof (induction fs arbitrary: g)
  case (Cons f fs)
  { case 1 then show ?case using Cons(1) [of "set_org_field f g"] by (cases f) simp_all
  next case 2 then show ?case using Cons(2) [of "set_org_field f g"] by (cases f) simp_all
  next case 3 then show ?case using Cons(3) [of "set_org_field f g"] by (cases f) simp_all }
qed simp_all

lemma distinct_row_put:
  assumes "distinct (map key rows)" and "distinct (map f rows)" and "\<forall>h \<in> set rows. key h \<noteq> key r \<longrightarrow> f h \<noteq> f r"
  shows "distinct (map f (row_put key r rows))"
proof -
  let ?h = "\<lambda>x. if key x = key r then r else x"
  have "inj_on (f \<circ> ?h) (set rows)"
    using assms inj_onD [of key "set rows"] inj_onD [of f "set rows"] by (auto simp: inj_on_def distinct_map)
  moreover have "distinct rows" using assms(1) by (simp add: distinct_map)
  ultimately show ?thesis by (simp add: row_put_def rows_update_def distinct_map comp_def)
qed

lemma update_simulated:
  assumes "org_ok s" and "api_update_organization u slug fs s = Inr (r, s')"
  shows "simulated Idle s s'"
proof -
  obtain g where g: "g \<in> set (os_orgs s)" and s': "s' = s\<lparr>os_orgs := row_put og_id (fold set_org_field fs g) (os_orgs s)\<rparr>"
    and name: "\<forall>h \<in> set (os_orgs s). og_id h \<noteq> og_id g \<longrightarrow> og_name h \<noteq> og_name (fold set_org_field fs g)"
    using assms(2) by (auto simp: api_update_organization_def Let_def list_ex_iff dest!: get_org_or_404_Inr)
  let ?g = "fold set_org_field fs g"
  have ids: "distinct (map og_id (os_orgs s))" "distinct (map og_name (os_orgs s))" "distinct (map og_slug (os_orgs s))"
    using assms(1) by (simp_all add: org_ok_def)
  have key: "h = g" if "h \<in> set (os_orgs s)" "og_id h = og_id g" for h
    using that g ids(1) by (auto simp: distinct_map dest: inj_onD)
  have set: "set (os_orgs s') = insert ?g (set (os_orgs s) - {g})"
    using g key by (auto simp: s' set_row_put)
  have "admin_pairs (os_orgs s') = admin_pairs (os_orgs s)" using g by (auto simp: admin_pairs_def set)
  then have "membership_of s' = membership_of s" by (simp add: membership_of_def s')
  moreover have "distinct (map og_slug (os_orgs s'))"
    using distinct_row_put [OF ids(1,3), of ?g] g ids(3) by (auto simp: s' distinct_map dest: inj_onD)
  moreover have "distinct (map og_name (os_orgs s'))" using distinct_row_put [OF ids(1,2), of ?g] name by (simp add: s')
  moreover have "map og_id (os_orgs s') = map og_id (os_orgs s)" by (simp add: s' keys_row_put)
  moreover then have "og_id ` set (os_orgs s') = og_id ` set (os_orgs s)" by (simp flip: set_map)
  moreover have "os_requests s' = os_requests s" "os_db s' = os_db s" by (simp_all add: s')
  ultimately show ?thesis using assms(1) by (simp add: simulated_def org_ok_def)
qed

lemma service_simulated:
  assumes "org_ok s"
  shows "i \<in> u_id ` set (db_users (os_db s)) \<Longrightarrow> g \<in> og_id ` set (os_orgs s) \<Longrightarrow> simulated (Enlist i g) s (add_member g i s)"
    and "simulated (Expel i g) s (remove_member g i s)"
    and "promote_admin g i s = Inr s' \<Longrightarrow> g \<in> og_id ` set (os_orgs s) \<Longrightarrow> simulated (Promote i g) s s'"
    and "simulated (Demote i g) s (demote_admin g i s)"
    and "u_id ` set (db_users (os_db s)) \<subseteq> u_id ` set (db_users d) \<Longrightarrow> member_pairs (db_users d) = member_pairs (db_users (os_db s))
           \<Longrightarrow> simulated Idle s (s\<lparr>os_db := d\<rparr>)"
proof -
  have ok: "snd ` member_pairs (db_users (os_db s)) \<subseteq> og_id ` set (os_orgs s)" using assms by (simp add: org_ok_def)
  show "i \<in> u_id ` set (db_users (os_db s)) \<Longrightarrow> g \<in> og_id ` set (os_orgs s) \<Longrightarrow> simulated (Enlist i g) s (add_member g i s)"
    using assms by (simp add: simulated_def org_ok_def membership_of_def)
  show "simulated (Promote i g) s s'" if run: "promote_admin g i s = Inr s'" and g: "g \<in> og_id ` set (os_orgs s)"
  proof -
    have s': "s' = set_admins g (add_once i) s" and "(i, g) \<in> member_pairs (db_users (os_db s))"
      using run by (auto simp: promote_admin_def is_member_pairs)
    then show ?thesis using assms g unfolding s' by (simp add: simulated_def org_ok_def membership_of_def)
  qed
  show "simulated (Expel i g) s (remove_member g i s)" "simulated (Demote i g) s (demote_admin g i s)"
    using assms ok by (auto simp: simulated_def org_ok_def membership_of_def remove_member_def demote_admin_def)
  show "simulated Idle s (s\<lparr>os_db := d\<rparr>)" if users: "u_id ` set (db_users (os_db s)) \<subseteq> u_id ` set (db_users d)"
    and same: "member_pairs (db_users d) = member_pairs (db_users (os_db s))"
  proof -
    have "request_pair ` set (os_requests s) \<subseteq> u_id ` set (db_users d) \<times> og_id ` set (os_orgs s)"
      using assms users unfolding org_ok_def by (meson Sigma_mono subset_refl subset_trans)
    then show ?thesis using assms same by (simp add: simulated_def org_ok_def membership_of_def)
  qed
qed

lemma step_simulated: "org_ok s \<Longrightarrow> org_step l s s' \<Longrightarrow> simulated l s s'"
  by (erule org_step.cases)
    (auto intro: create_simulated update_simulated join_simulated approve_simulated reject_simulated service_simulated)

interpretation memberships: labelled_simulation org_step org_ok membership_of permitted org_moved
  using step_simulated by unfold_locales (auto simp: simulated_def)

section \<open>What the machine keeps\<close>

abbreviation org_machine :: "membership \<Rightarrow> org_move list \<Rightarrow> membership option" where
  "org_machine \<equiv> machine_run permitted org_moved"

lemma machine_admins: "org_machine m ls = Some m' \<Longrightarrow> ms_admins m \<subseteq> ms_members m \<Longrightarrow> ms_admins m' \<subseteq> ms_members m'"
proof (induction ls arbitrary: m)
  case (Cons l ls)
  have "ms_admins (org_moved l m) \<subseteq> ms_members (org_moved l m)" using Cons.prems by (cases l) (auto split: if_splits)
  then show ?case using Cons by (auto split: if_splits)
qed simp

text \<open>A pair becomes a membership by one move, and pending by asking.\<close>

lemma machine_gain:
  assumes "org_machine m ls = Some m'" and "p \<in> ms_members m'" and "p \<notin> ms_members m"
  obtains pre l post mm where "ls = pre @ l # post" "org_machine m pre = Some mm" "permitted l mm" "p \<notin> ms_members mm"
    "p \<in> ms_members (org_moved l mm)"
  using assms
proof (induction ls arbitrary: m thesis)
  case (Cons l ls)
  then have run: "permitted l m" "org_machine (org_moved l m) ls = Some m'" by (auto split: if_splits)
  show ?case
  proof (cases "p \<in> ms_members (org_moved l m)")
    case True
    then show ?thesis using Cons.prems(1) [of "[]" l ls m] run(1) Cons.prems(4) by simp
  next
    case False
    from Cons.IH [OF _ run(2) Cons.prems(3) False] obtain pre k post mm where
      "ls = pre @ k # post" "org_machine (org_moved l m) pre = Some mm" "permitted k mm" "p \<notin> ms_members mm" "p \<in> ms_members (org_moved k mm)"
      by blast
    then show ?thesis using Cons.prems(1) [of "l # pre" k post mm] run(1) by simp
  qed
qed simp

lemma machine_pending:
  "org_machine m ls = Some m' \<Longrightarrow> (u, g) \<in> ms_pending m' \<Longrightarrow> (u, g) \<in> ms_pending m \<or> Ask u g \<in> set ls"
proof (induction ls arbitrary: m)
  case (Cons l ls)
  then have "(u, g) \<in> ms_pending (org_moved l m) \<or> Ask u g \<in> set ls" by (auto split: if_splits)
  then show ?case by (cases l) auto
qed simp

section \<open>Properties\<close>

definition sample_slugify :: "string \<Rightarrow> string" where
  "sample_slugify s = filter slug_char (lower s)"

definition sample_founder :: user where
  "sample_founder = (new_user 7)\<lparr>u_is_staff := True\<rparr>"

definition sample_campus :: org_site where
  "sample_campus = \<lparr>os_db = empty_db\<lparr>db_users := [sample_founder, new_user 8]\<rparr>, os_orgs = [], os_requests = []\<rparr>"

definition sample_org_in :: org_create_in where
  "sample_org_in = \<lparr>oci_name = ''ACM'', oci_slug = None, oci_short_name = None, oci_about = None, oci_is_open = True, oci_access_code = None\<rparr>"

definition sample_moves :: "org_move list" where
  "sample_moves = [Found 7 1, Ask 8 1, Accept 7 True 8 1]"

lemma sample_org_run: "\<exists>s'. labelled_run org_step sample_campus sample_moves s' \<and> is_member 1 8 s'"
proof -
  define s1 where "s1 = (case api_create_organization sample_slugify 5 sample_founder sample_org_in sample_campus of Inl e \<Rightarrow> sample_campus | Inr (r, s) \<Rightarrow> s)"
  define s2 where "s2 = (case api_join_organization 6 (new_user 8) ''acm'' None s1 of Inl e \<Rightarrow> s1 | Inr (r, s) \<Rightarrow> s)"
  define s3 where "s3 = (case api_approve_request 7 sample_founder ''acm'' 1 s2 of Inl e \<Rightarrow> s2 | Inr (r, s) \<Rightarrow> s)"
  have "case api_create_organization sample_slugify 5 sample_founder sample_org_in sample_campus of
      Inl e \<Rightarrow> False | Inr (r, s) \<Rightarrow> og_id (oo_organization r) = 1" by code_simp
  then obtain r1 where 1: "api_create_organization sample_slugify 5 sample_founder sample_org_in sample_campus = Inr (r1, s1)"
    "og_id (oo_organization r1) = 1" by (auto simp: s1_def split: sum.splits)
  have "case api_join_organization 6 (new_user 8) ''acm'' None s1 of Inl e \<Rightarrow> False | Inr (r, s) \<Rightarrow> or_organization r = 1"
    unfolding s1_def by code_simp
  then obtain r2 where 2: "api_join_organization 6 (new_user 8) ''acm'' None s1 = Inr (r2, s2)" "or_organization r2 = 1"
    by (auto simp: s2_def split: sum.splits)
  have "case api_approve_request 7 sample_founder ''acm'' 1 s2 of Inl e \<Rightarrow> False
      | Inr (r, s) \<Rightarrow> or_user r = 8 \<and> or_organization r = 1 \<and> is_member 1 8 s"
    unfolding s2_def s1_def by code_simp
  then obtain r3 where 3: "api_approve_request 7 sample_founder ''acm'' 1 s2 = Inr (r3, s3)"
    "or_user r3 = 8" "or_organization r3 = 1" "is_member 1 8 s3"
    by (auto simp: s3_def split: sum.splits)
  have "sample_founder \<in> set (db_users (os_db sample_campus))" by (simp add: sample_campus_def)
  from org_step.create [OF this 1(1)] have "org_step (Found 7 1) sample_campus s1" by (simp add: sample_founder_def new_user_def 1(2))
  moreover have "new_user 8 \<in> set (db_users (os_db s1))" unfolding s1_def by code_simp
  from org_step.join [OF this 2(1)] have "org_step (Ask 8 1) s1 s2" by (simp add: new_user_def 2(2))
  moreover from org_step.approve [OF 3(1)] have "org_step (Accept 7 True 8 1) s2 s3" by (simp add: sample_founder_def new_user_def 3(2,3))
  ultimately have "labelled_run org_step sample_campus sample_moves s3"
    unfolding sample_moves_def by (meson labelled_run.intros)
  then show ?thesis using 3(4) by blast
qed

lemma sample_campus_ok: "org_ok sample_campus"
  by (simp add: org_ok_def sample_campus_def member_pairs_def sample_founder_def new_user_def pending_def)

text \<open>C28: Histories of organization requests refine the membership machine: whatever is founded, changed,
  asked, approved, rejected, by whomever and in any order, every move is permitted by the machine
  (only for administrators and staff, only on pending requests, no second request or membership), the
  three relations change as the machine says, and the tables stay well-formed.\<close>

theorem membership_refined:
  assumes "org_ok s" and "labelled_run org_step s ls s'"
  shows "org_machine (membership_of s) ls = Some (membership_of s') \<and> org_ok s'"
  using memberships.run_refines [OF assms(2,1)] memberships.run_ok [OF assms(2,1)] by simp

theorem membership_refined_witness:
  "\<exists>s'. labelled_run org_step sample_campus sample_moves s'
     \<and> org_machine (membership_of sample_campus) sample_moves = Some (membership_of s')"
  using membership_refined [OF sample_campus_ok] sample_org_run by blast

text \<open>C29: Membership is earned: whoever is a member after a history and was not before has founded the
  organization, was enlisted by a call of the service, or was accepted, by staff or by somebody who was
  administrator at that moment, after asking for it; and administrators stay members.\<close>

theorem membership_earned:
  assumes "org_ok s" and "labelled_run org_step s ls s'" and "ms_admins (membership_of s) \<subseteq> ms_members (membership_of s)"
    and "is_member g u s'" and "\<not> is_member g u s"
  shows "ms_admins (membership_of s') \<subseteq> ms_members (membership_of s')
     \<and> (Found u g \<in> set ls \<or> Enlist u g \<in> set ls
        \<or> (\<exists>pre post a staff m. ls = pre @ Accept a staff u g # post \<and> org_machine (membership_of s) pre = Some m
             \<and> (staff \<or> (a, g) \<in> ms_admins m) \<and> ((u, g) \<in> ms_pending (membership_of s) \<or> Ask u g \<in> set pre)))"
proof -
  have run: "org_machine (membership_of s) ls = Some (membership_of s')" by (rule memberships.run_refines [OF assms(2,1)])
  have "(u, g) \<in> ms_members (membership_of s')" "(u, g) \<notin> ms_members (membership_of s)"
    using assms(4,5) by (simp_all add: is_member_pairs membership_of_def)
  from machine_gain [OF run this] obtain pre l post m where at: "ls = pre @ l # post" "org_machine (membership_of s) pre = Some m"
    "permitted l m" "(u, g) \<notin> ms_members m" "(u, g) \<in> ms_members (org_moved l m)" by blast
  note admins = machine_admins [OF run assms(3)]
  have member: "l = Found u g \<or> l = Enlist u g \<or> (\<exists>a staff. l = Accept a staff u g)" using at(4,5) by (cases l) auto
  show ?thesis
  proof (cases "\<exists>a staff. l = Accept a staff u g")
    case True
    then obtain a staff where l: "l = Accept a staff u g" by blast
    then have "staff \<or> (a, g) \<in> ms_admins m" "(u, g) \<in> ms_pending m" using at(3) by auto
    moreover then have "(u, g) \<in> ms_pending (membership_of s) \<or> Ask u g \<in> set pre" using machine_pending [OF at(2)] by blast
    ultimately show ?thesis using admins at(1,2) l by blast
  next
    case False
    then show ?thesis using member admins at(1) by auto
  qed
qed

theorem membership_earned_witness:
  "\<exists>pre post a staff. sample_moves = pre @ Accept a staff 8 1 # post \<and> Ask 8 1 \<in> set pre"
proof -
  obtain s' where run: "labelled_run org_step sample_campus sample_moves s'" "is_member 1 8 s'" using sample_org_run by blast
  have "ms_admins (membership_of sample_campus) \<subseteq> ms_members (membership_of sample_campus)" "\<not> is_member 1 8 sample_campus"
    "(8, 1) \<notin> ms_pending (membership_of sample_campus)"
    by (simp_all add: membership_of_def sample_campus_def admin_pairs_def is_member_def pending_def sample_founder_def new_user_def)
  moreover have "Found 8 1 \<notin> set sample_moves" "Enlist 8 1 \<notin> set sample_moves" by (simp_all add: sample_moves_def)
  ultimately show ?thesis using membership_earned [OF sample_campus_ok run(1) _ run(2)] by blast
qed

text \<open>A name without any character that a slug may have cannot be given to an organization: the check of
  the empty slug raises an exception that no handler turns into a client error, so the answer is 500.\<close>

theorem slugless_name_breaks:
  assumes "strip (oci_name x) \<noteq> []" and "text_or_empty (oci_slug x) = []" and "slugify (strip (oci_name x)) = []" and "u_is_staff u"
  shows "\<exists>e. api_create_organization slugify now u x s = Inl e \<and> response_status e = 500"
  using assms by (simp add: api_create_organization_def create_organization_def validate_slug_def Let_def response_status_def)

theorem slugless_name_breaks_witness:
  "\<exists>e. api_create_organization sample_slugify 5 sample_founder (sample_org_in\<lparr>oci_name := ''???''\<rparr>) sample_campus = Inl e \<and> response_status e = 500"
  by (rule slugless_name_breaks) code_simp+

end
