(* ===== verification/Forest.thy ===== *)
theory Forest
  imports Prelude
begin

text \<open>
  Trees built from rows that name their parent, as the comment service and the menu endpoint build them:
  one pass over the rows that keeps a dictionary of nodes and the list of roots, where a node is
  shared by the dictionary and its parent's list of children. The dictionary is an explicit store;
  reading the result follows the lists of children from the roots. The pass is shown to compute the
  pure insertion of rows into a forest, from which come that every row is read exactly once and that
  enough fuel for reading is the number of rows.
\<close>

section \<open>The pass\<close>

record 'a build =
  bd_nodes :: "(nat, 'a \<times> nat list) dict"
  bd_roots :: "nat list"

definition place :: "('a \<Rightarrow> nat) \<Rightarrow> ('a \<Rightarrow> nat option) \<Rightarrow> 'a \<Rightarrow> 'a build \<Rightarrow> 'a build" where
  "place ident parent x b =
     (let nodes = AList.update (ident x) (x, []) (bd_nodes b); roots = bd_roots b @ [ident x]
      in case parent x of
           None \<Rightarrow> \<lparr>bd_nodes = nodes, bd_roots = roots\<rparr>
         | Some p \<Rightarrow> (case map_of nodes p of
             None \<Rightarrow> \<lparr>bd_nodes = nodes, bd_roots = roots\<rparr>
           | Some (y, kids) \<Rightarrow> \<lparr>bd_nodes = AList.update p (y, kids @ [ident x]) nodes, bd_roots = bd_roots b\<rparr>))"

definition build_forest :: "('a \<Rightarrow> nat) \<Rightarrow> ('a \<Rightarrow> nat option) \<Rightarrow> 'a list \<Rightarrow> 'a build" where
  "build_forest ident parent xs = fold (place ident parent) xs \<lparr>bd_nodes = [], bd_roots = []\<rparr>"

datatype 'a node = Node (node_row: 'a) (node_children: "'a node list")

text \<open>The node a key stands for, with the nodes below it; \<open>None\<close> when the fuel does not suffice.\<close>

fun read_node :: "nat \<Rightarrow> (nat, 'a \<times> nat list) dict \<Rightarrow> nat \<Rightarrow> 'a node option" where
  "read_node 0 nodes i = None"
| "read_node (Suc n) nodes i =
     (case map_of nodes i of None \<Rightarrow> None
      | Some (x, kids) \<Rightarrow> map_option (Node x) (those (map (read_node n nodes) kids)))"

definition read_forest :: "nat \<Rightarrow> 'a build \<Rightarrow> 'a node list option" where
  "read_forest n b = those (map (read_node n (bd_nodes b)) (bd_roots b))"

section \<open>Pure insertion\<close>

fun preorder :: "'a node \<Rightarrow> 'a list" where
  "preorder (Node x ts) = x # concat (map preorder ts)"

definition forest_rows :: "'a node list \<Rightarrow> 'a list" where
  "forest_rows ts = concat (map preorder ts)"

fun graft :: "('a \<Rightarrow> nat) \<Rightarrow> nat \<Rightarrow> 'a \<Rightarrow> 'a node \<Rightarrow> 'a node" where
  "graft ident p x (Node y ts) = Node y (map (graft ident p x) ts @ (if ident y = p then [Node x []] else []))"

definition insert_row :: "('a \<Rightarrow> nat) \<Rightarrow> ('a \<Rightarrow> nat option) \<Rightarrow> 'a \<Rightarrow> 'a node list \<Rightarrow> 'a node list" where
  "insert_row ident parent x ts =
     (case parent x of
        None \<Rightarrow> ts @ [Node x []]
      | Some p \<Rightarrow> if p \<in> ident ` set (forest_rows ts) then map (graft ident p x) ts else ts @ [Node x []])"

definition pure_forest :: "('a \<Rightarrow> nat) \<Rightarrow> ('a \<Rightarrow> nat option) \<Rightarrow> 'a list \<Rightarrow> 'a node list" where
  "pure_forest ident parent xs = fold (insert_row ident parent) xs []"

lemma forest_rows_simps [simp]:
  "forest_rows [] = []" "forest_rows (t # ts) = preorder t @ forest_rows ts" "forest_rows (ts @ us) = forest_rows ts @ forest_rows us"
  by (simp_all add: forest_rows_def)

lemma preorder_Node [simp]: "preorder (Node x ts) = x # forest_rows ts"
  by (simp add: forest_rows_def)

declare preorder.simps [simp del]

lemma graft_root [simp]: "node_row (graft ident p x t) = node_row t"
  by (cases t) simp

lemma replicate_mset_sum: "replicate_mset (m + n) x = replicate_mset m x + replicate_mset n x"
  by (induction m) simp_all

lemma mset_graft:
  "mset (preorder (graft ident p x t)) = mset (preorder t) + replicate_mset (length (filter (\<lambda>y. ident y = p) (preorder t))) x"
proof (induction t)
  case (Node y ts)
  then have "mset (forest_rows (map (graft ident p x) ts)) =
      mset (forest_rows ts) + replicate_mset (length (filter (\<lambda>y. ident y = p) (forest_rows ts))) x"
    by (induction ts) (auto simp: replicate_mset_sum)
  then show ?case by simp
qed

lemma mset_graft_forest:
  "mset (forest_rows (map (graft ident p x) ts)) =
     mset (forest_rows ts) + replicate_mset (length (filter (\<lambda>y. ident y = p) (forest_rows ts))) x"
  by (induction ts) (auto simp: mset_graft replicate_mset_sum)

lemma filter_key_once:
  "distinct (map f xs) \<Longrightarrow> k \<in> f ` set xs \<Longrightarrow> length (filter (\<lambda>x. f x = k) xs) = 1"
proof (induction xs)
  case (Cons x xs)
  then have "filter (\<lambda>y. f y = k) xs = []" if "f x = k" using that Cons.prems(1) by (auto simp: filter_empty_conv intro: rev_image_eqI)
  then show ?case using Cons by auto
qed simp

lemma mset_insert_row:
  assumes "distinct (map ident (forest_rows ts))"
  shows "mset (forest_rows (insert_row ident parent x ts)) = add_mset x (mset (forest_rows ts))"
  using filter_key_once [OF assms] by (auto simp: insert_row_def mset_graft_forest split: option.splits)

lemma mset_pure_forest:
  "distinct (map ident xs) \<Longrightarrow> mset (forest_rows (pure_forest ident parent xs)) = mset xs"
proof (induction xs rule: rev_induct)
  case (snoc x xs)
  have "distinct (map ident (forest_rows (pure_forest ident parent xs)))"
    using snoc by (metis distinct_append map_append mset_eq_imp_distinct_iff mset_map)
  then show ?case using snoc mset_insert_row [of ident "pure_forest ident parent xs" parent x] by (simp add: pure_forest_def)
qed (simp add: pure_forest_def)

section \<open>The store computes it\<close>

lemma those_map_Some: "those (map f xs) = Some ys \<Longrightarrow> (\<And>x y. x \<in> set xs \<Longrightarrow> f x = Some y \<Longrightarrow> g x = Some (h y)) \<Longrightarrow> those (map g xs) = Some (map h ys)"
proof (induction xs arbitrary: ys)
  case (Cons x xs)
  then obtain y zs where "f x = Some y" "those (map f xs) = Some zs" "ys = y # zs" by (auto split: option.splits)
  then show ?case using Cons.IH [of zs] Cons.prems(2) by simp
qed simp

lemma those_append: "those xs = Some ys \<Longrightarrow> those zs = Some ws \<Longrightarrow> those (xs @ zs) = Some (ys @ ws)"
  by (induction xs arbitrary: ys) (auto split: option.splits)

lemma read_node_graft:
  assumes "map_of nodes p = Some (y, kids)" and "map_of nodes (ident x) = None" and "\<forall>i z ks. map_of nodes i = Some (z, ks) \<longrightarrow> ident z = i"
  shows "read_node n nodes i = Some t \<Longrightarrow>
     read_node (Suc n) (AList.update p (y, kids @ [ident x]) (AList.update (ident x) (x, []) nodes)) i = Some (graft ident p x t)"
proof (induction n arbitrary: i t)
  case (Suc n)
  let ?new = "AList.update p (y, kids @ [ident x]) (AList.update (ident x) (x, []) nodes)"
  have px: "p \<noteq> ident x" using assms(1,2) by auto
  obtain z ks ts where at: "map_of nodes i = Some (z, ks)" "those (map (read_node n nodes) ks) = Some ts" "t = Node z ts"
    using Suc.prems by (auto split: option.splits)
  have ix: "i \<noteq> ident x" and zi: "ident z = i" using at(1) assms(2,3) by auto
  have kids_read: "those (map (read_node (Suc n) ?new) ks) = Some (map (graft ident p x) ts)"
    using those_map_Some [OF at(2), of "read_node (Suc n) ?new" "graft ident p x"] Suc.IH by blast
  show ?case
  proof (cases "i = p")
    case True
    have "read_node (Suc n) ?new (ident x) = Some (Node x [])" using px by (simp add: update_conv')
    then have "those (map (read_node (Suc n) ?new) (ks @ [ident x])) = Some (map (graft ident p x) ts @ [Node x []])"
      using those_append [OF kids_read] by simp
    moreover have "map_of ?new i = Some (z, ks @ [ident x])" using True at(1) assms(1) by (simp add: update_conv')
    ultimately show ?thesis using True zi at(3) by (simp only: read_node.simps(2) [of "Suc n"]) simp
  next
    case False
    then have "map_of ?new i = Some (z, ks)" using ix at(1) by (simp add: update_conv')
    then show ?thesis using False zi at(3) kids_read by (simp only: read_node.simps(2) [of "Suc n"]) simp
  qed
qed simp

lemma read_node_new:
  assumes "map_of nodes (ident x) = None"
  shows "read_node n nodes i = Some t \<Longrightarrow> read_node (Suc n) (AList.update (ident x) (x, []) nodes) i = Some t"
proof (induction n arbitrary: i t)
  case (Suc n)
  let ?new = "AList.update (ident x) (x, []) nodes"
  obtain z ks ts where at: "map_of nodes i = Some (z, ks)" "those (map (read_node n nodes) ks) = Some ts" "t = Node z ts"
    using Suc.prems by (auto split: option.splits)
  have "those (map (read_node (Suc n) ?new) ks) = Some (map id ts)"
    using those_map_Some [OF at(2), of "read_node (Suc n) ?new" id] Suc.IH by simp
  moreover have "map_of ?new i = Some (z, ks)" using at(1) assms by (auto simp: update_conv')
  ultimately show ?case using at(3) by (simp only: read_node.simps(2) [of "Suc n"]) simp
qed simp

text \<open>What the pass keeps: the nodes are the rows read so far, and reading with as much fuel as there were
  rows gives the pure forest.\<close>

definition built :: "('a \<Rightarrow> nat) \<Rightarrow> ('a \<Rightarrow> nat option) \<Rightarrow> 'a list \<Rightarrow> 'a build \<Rightarrow> bool" where
  "built ident parent xs b \<longleftrightarrow> fst ` set (bd_nodes b) = ident ` set xs
     \<and> (\<forall>i z ks. map_of (bd_nodes b) i = Some (z, ks) \<longrightarrow> ident z = i)
     \<and> read_forest (length xs) b = Some (pure_forest ident parent xs)"

lemma map_of_fst: "map_of d k = None \<longleftrightarrow> k \<notin> fst ` set d"
  by (simp add: map_of_eq_None_iff)

lemma place_built:
  assumes "built ident parent xs b" and "ident x \<notin> ident ` set xs" and "distinct (map ident xs)" and "parent x \<noteq> Some (ident x)"
  shows "built ident parent (xs @ [x]) (place ident parent x b)"
proof -
  let ?F = "pure_forest ident parent xs"
  have keys: "fst ` set (bd_nodes b) = ident ` set xs" and key: "\<forall>i z ks. map_of (bd_nodes b) i = Some (z, ks) \<longrightarrow> ident z = i"
    and reads: "those (map (read_node (length xs) (bd_nodes b)) (bd_roots b)) = Some ?F"
    using assms(1) by (simp_all add: built_def read_forest_def)
  have fresh: "map_of (bd_nodes b) (ident x) = None" using assms(2) keys by (simp add: map_of_fst)
  have rows: "ident ` set (forest_rows ?F) = ident ` set xs"
    by (metis mset_pure_forest [OF assms(3)] mset_eq_setD)
  have F: "pure_forest ident parent (xs @ [x]) = insert_row ident parent x ?F" by (simp add: pure_forest_def)
  show ?thesis
  proof (cases "\<exists>p. parent x = Some p \<and> p \<in> ident ` set xs")
    case True
    then obtain p y kids where p: "parent x = Some p" "p \<in> ident ` set xs" "map_of (bd_nodes b) p = Some (y, kids)"
      using keys by (metis map_of_fst not_None_eq surj_pair)
    let ?new = "AList.update p (y, kids @ [ident x]) (AList.update (ident x) (x, []) (bd_nodes b))"
    have px: "p \<noteq> ident x" using p(2) assms(2) by metis
    then have place: "place ident parent x b = \<lparr>bd_nodes = ?new, bd_roots = bd_roots b\<rparr>"
      using p by (simp add: place_def Let_def update_conv')
    have "those (map (read_node (Suc (length xs)) ?new) (bd_roots b)) = Some (map (graft ident p x) ?F)"
      using those_map_Some [OF reads, of "read_node (Suc (length xs)) ?new" "graft ident p x"] read_node_graft [OF p(3) fresh key] by blast
    then have "read_forest (length (xs @ [x])) (place ident parent x b) = Some (pure_forest ident parent (xs @ [x]))"
      unfolding F using p(1,2) rows by (simp add: place read_forest_def insert_row_def del: read_node.simps)
    moreover have "fst ` set ?new = ident ` set (xs @ [x])" using p(2) by (simp add: keys insert_absorb)
    moreover have "\<forall>i z ks. map_of ?new i = Some (z, ks) \<longrightarrow> ident z = i" using key p(3) px by (auto simp: update_conv')
    ultimately show ?thesis unfolding built_def place build.simps by blast
  next
    case False
    let ?new = "AList.update (ident x) (x, []) (bd_nodes b)"
    have absent: "map_of ?new p = None" if "parent x = Some p" for p
    proof -
      have "p \<notin> ident ` set xs" "p \<noteq> ident x" using False that assms(4) by auto
      then show ?thesis using keys by (simp add: map_of_fst)
    qed
    have place: "place ident parent x b = \<lparr>bd_nodes = ?new, bd_roots = bd_roots b @ [ident x]\<rparr>"
      by (cases "parent x") (simp_all add: place_def Let_def absent)
    have "those (map (read_node (Suc (length xs)) ?new) (bd_roots b)) = Some (map id ?F)"
      using those_map_Some [OF reads, of "read_node (Suc (length xs)) ?new" id] read_node_new [of "bd_nodes b" ident x, OF fresh]
      unfolding id_apply by blast
    moreover have "read_node (Suc (length xs)) ?new (ident x) = Some (Node x [])" by (simp add: update_conv')
    ultimately have "those (map (read_node (Suc (length xs)) ?new) (bd_roots b @ [ident x])) = Some (?F @ [Node x []])"
      using those_append [of "map (read_node (Suc (length xs)) ?new) (bd_roots b)" ?F "[read_node (Suc (length xs)) ?new (ident x)]" "[Node x []]"]
      by (simp del: read_node.simps)
    then have "read_forest (length (xs @ [x])) (place ident parent x b) = Some (pure_forest ident parent (xs @ [x]))"
      unfolding F using False rows by (auto simp: place read_forest_def insert_row_def simp del: read_node.simps split: option.splits)
    moreover have "fst ` set ?new = ident ` set (xs @ [x])" by (simp add: keys)
    moreover have "\<forall>i z ks. map_of ?new i = Some (z, ks) \<longrightarrow> ident z = i" using key by (auto simp: update_conv')
    ultimately show ?thesis unfolding built_def place build.simps by blast
  qed
qed

lemma build_forest_built:
  "distinct (map ident xs) \<Longrightarrow> \<forall>x \<in> set xs. parent x \<noteq> Some (ident x) \<Longrightarrow> built ident parent xs (build_forest ident parent xs)"
proof (induction xs rule: rev_induct)
  case Nil
  then show ?case by (simp add: built_def build_forest_def read_forest_def pure_forest_def)
next
  case (snoc x xs)
  then show ?case using place_built [of ident parent xs "build_forest ident parent xs" x] by (simp add: build_forest_def)
qed

lemma read_build_forest:
  assumes "distinct (map ident xs)" and "\<forall>x \<in> set xs. parent x \<noteq> Some (ident x)"
  shows "read_forest (length xs) (build_forest ident parent xs) = Some (pure_forest ident parent xs)"
  using build_forest_built [OF assms] by (simp add: built_def)

text \<open>In a pure forest every node below another names it as its parent.\<close>

fun hung :: "('a \<Rightarrow> nat) \<Rightarrow> ('a \<Rightarrow> nat option) \<Rightarrow> 'a node \<Rightarrow> bool" where
  "hung ident parent (Node x ts) \<longleftrightarrow> (\<forall>t \<in> set ts. hung ident parent t \<and> parent (node_row t) = Some (ident x))"

lemma hung_graft: "hung ident parent t \<Longrightarrow> parent x = Some p \<Longrightarrow> hung ident parent (graft ident p x t)"
  by (induction t) auto

lemma pure_forest_hung: "\<forall>t \<in> set (pure_forest ident parent xs). hung ident parent t"
proof (induction xs rule: rev_induct)
  case (snoc x xs)
  then show ?case by (auto simp: pure_forest_def insert_row_def hung_graft split: option.splits)
qed (simp add: pure_forest_def)

text \<open>Where a parent comes before its children, as far as it is among the rows, no root has its parent there.\<close>

lemma pure_forest_roots:
  assumes "distinct (map ident xs)"
    and "\<And>us x vs p. xs = us @ x # vs \<Longrightarrow> parent x = Some p \<Longrightarrow> p \<in> ident ` set xs \<Longrightarrow> p \<in> ident ` set us"
    and "t \<in> set (pure_forest ident parent xs)" and "parent (node_row t) = Some p"
  shows "node_row t \<in> set xs \<and> p \<notin> ident ` set xs"
  using assms
proof (induction xs arbitrary: t p rule: rev_induct)
  case (snoc x xs)
  let ?F = "pure_forest ident parent xs"
  have dist: "distinct (map ident xs)" using snoc.prems(1) by simp
  have before: "q \<in> ident ` set us" if "xs = us @ y # vs" "parent y = Some q" "q \<in> ident ` set xs" for us y vs q
    using snoc.prems(2) [of us y "vs @ [x]" q] that by auto
  have rows: "ident ` set (forest_rows ?F) = ident ` set xs" by (metis mset_pure_forest [OF dist] mset_eq_setD)
  have F: "pure_forest ident parent (xs @ [x]) = insert_row ident parent x ?F" by (simp add: pure_forest_def)
  consider (old) u where "u \<in> set ?F" "node_row u = node_row t" | (new) "t = Node x []" "\<forall>q. parent x = Some q \<longrightarrow> q \<notin> ident ` set xs"
    using snoc.prems(3) rows by (force simp: F insert_row_def split: option.splits if_splits)
  then show ?case
  proof cases
    case old
    then have p: "node_row t \<in> set xs" "p \<notin> ident ` set xs" using snoc.IH [OF dist before old(1)] snoc.prems(4) by auto
    obtain us vs where xs: "xs = us @ node_row t # vs" using p(1) by (auto simp: in_set_conv_decomp)
    have "p \<noteq> ident x"
    proof
      assume "p = ident x"
      then have "p \<in> ident ` set us" using snoc.prems(2) [of us "node_row t" "vs @ [x]" p] snoc.prems(4) xs by simp
      then show False using p(2) xs by auto
    qed
    then show ?thesis using p by simp
  next
    case new
    then have "p \<notin> ident ` set xs" using snoc.prems(4) by simp
    then show ?thesis using snoc.prems(2) [of xs x "[]" p] snoc.prems(4) new(1) by auto
  qed
qed (simp add: pure_forest_def)

end
