(* ===== verification/Content.thy ===== *)
theory Content
  imports Accounts Forest
begin

text \<open>
  Blog posts, threaded comments, votes and the navigation menu: \<open>apps/content/services/post_service.py\<close>,
  \<open>comment_service.py\<close> and \<open>apps/content/api/router.py\<close> over the tables of \<open>apps/content/models\<close>. The
  endpoints of this router read \<open>request.user\<close>, the viewer. The trees of comments and menu items are
  built by the pass of \<open>Forest\<close>; reading them has as much fuel as there are rows, which is enough.
\<close>

section \<open>Tables\<close>

datatype post_visibility = Post_DRAFT | Post_PUBLISHED | Post_ARCHIVED | Post_OTHER string

definition post_visibility_of :: "string \<Rightarrow> post_visibility" where
  "post_visibility_of s = (if s = ''draft'' then Post_DRAFT else if s = ''published'' then Post_PUBLISHED
     else if s = ''archived'' then Post_ARCHIVED else Post_OTHER s)"

datatype comment_visibility = Com_VISIBLE | Com_HIDDEN | Com_DELETED

record post =
  bp_id :: nat
  bp_slug :: string
  bp_title :: string
  bp_author :: nat
  bp_content :: string
  bp_summary :: string
  bp_visibility :: post_visibility
  bp_publish_date :: "time option"
  bp_is_pinned :: bool
  bp_organizations :: "nat list"
  bp_is_organization_private :: bool
  bp_og_image :: string

record comment =
  cm_id :: nat
  cm_post :: nat
  cm_author :: nat
  cm_parent :: "nat option"
  cm_body :: string
  cm_visibility :: comment_visibility
  cm_score :: int
  cm_path :: string
  cm_created_at :: time
  cm_updated_at :: time

record comment_vote =
  cv_comment :: nat
  cv_user :: nat
  cv_value :: int

record navigation_item =
  nv_id :: nat
  nv_key :: string
  nv_label :: string
  nv_url :: string
  nv_icon :: string
  nv_order :: nat
  nv_parent :: "nat option"
  nv_is_external :: bool

text \<open>\<open>ct_organizations\<close> are the primary keys of the organization table.\<close>

record content_site =
  ct_db :: db
  ct_organizations :: "nat list"
  ct_posts :: "post list"
  ct_comments :: "comment list"
  ct_votes :: "comment_vote list"
  ct_navigation :: "navigation_item list"

section \<open>Posts\<close>

text \<open>\<open>s.split()\<close>: the runs of characters that are not white space.\<close>

fun split_words :: "string \<Rightarrow> string \<Rightarrow> string list" where
  "split_words w [] = (if w = [] then [] else [w])"
| "split_words w (c # cs) =
     (if is_space c then (if w = [] then split_words [] cs else w # split_words [] cs) else split_words (w @ [c]) cs)"

definition collapse :: "string \<Rightarrow> string" where
  "collapse s = join_with '' '' (split_words [] s)"

definition derive_summary :: "string \<Rightarrow> nat \<Rightarrow> string" where
  "derive_summary content max_chars =
     (let collapsed = collapse content
      in if length collapsed \<le> max_chars then collapsed else rstrip (take (max_chars - 3) collapsed) @ ''...'')"

definition new_post :: "nat \<Rightarrow> string \<Rightarrow> string \<Rightarrow> nat \<Rightarrow> string \<Rightarrow> string \<Rightarrow> string \<Rightarrow> post" where
  "new_post i slug title author content summary visibility = \<lparr>bp_id = i, bp_slug = slug, bp_title = title, bp_author = author,
     bp_content = content, bp_summary = summary, bp_visibility = post_visibility_of visibility, bp_publish_date = None,
     bp_is_pinned = False, bp_organizations = [], bp_is_organization_private = False, bp_og_image = []\<rparr>"

definition create_post ::
    "(string \<Rightarrow> string) \<Rightarrow> string \<Rightarrow> nat \<Rightarrow> string \<Rightarrow> string \<Rightarrow> content_site \<Rightarrow> post \<times> content_site" where
  "create_post slugify title author content visibility s =
     (let p = new_post (fresh_key bp_id (ct_posts s)) (save_slug slugify [] title (map bp_slug (ct_posts s)))
                title author content (derive_summary content 280) visibility
      in (p, s\<lparr>ct_posts := ct_posts s @ [p]\<rparr>))"

text \<open>One keyword argument of \<open>update_post\<close>; all of them are mutable fields.\<close>

datatype post_field =
    PF_title string
  | PF_content string
  | PF_summary string
  | PF_visibility string
  | PF_is_pinned bool
  | PF_is_organization_private bool
  | PF_og_image string

fun set_post_field :: "post_field \<Rightarrow> post \<Rightarrow> post" where
  "set_post_field (PF_title x) p = p\<lparr>bp_title := x\<rparr>"
| "set_post_field (PF_content x) p = p\<lparr>bp_content := x\<rparr>"
| "set_post_field (PF_summary x) p = p\<lparr>bp_summary := x\<rparr>"
| "set_post_field (PF_visibility x) p = p\<lparr>bp_visibility := post_visibility_of x\<rparr>"
| "set_post_field (PF_is_pinned b) p = p\<lparr>bp_is_pinned := b\<rparr>"
| "set_post_field (PF_is_organization_private b) p = p\<lparr>bp_is_organization_private := b\<rparr>"
| "set_post_field (PF_og_image x) p = p\<lparr>bp_og_image := x\<rparr>"

fun is_content_field :: "post_field \<Rightarrow> bool" where
  "is_content_field (PF_content _) = True" | "is_content_field _ = False"

fun is_summary_field :: "post_field \<Rightarrow> bool" where
  "is_summary_field (PF_summary _) = True" | "is_summary_field _ = False"

definition save_post :: "post \<Rightarrow> content_site \<Rightarrow> content_site" where
  "save_post p s = s\<lparr>ct_posts := row_put bp_id p (ct_posts s)\<rparr>"

definition update_post :: "post \<Rightarrow> post_field list \<Rightarrow> content_site \<Rightarrow> post \<times> content_site" where
  "update_post p fs s =
     (let p1 = fold set_post_field fs p;
          p2 = (if list_ex is_content_field fs \<and> \<not> list_ex is_summary_field fs \<and> bp_summary p1 = []
                then p1\<lparr>bp_summary := derive_summary (bp_content p1) 280\<rparr> else p1)
      in (p2, if fs = [] then s else save_post p2 s))"

definition publish_post :: "time \<Rightarrow> post \<Rightarrow> content_site \<Rightarrow> post \<times> content_site" where
  "publish_post now p s =
     (let p' = p\<lparr>bp_visibility := Post_PUBLISHED, bp_publish_date := Some now\<rparr> in (p', save_post p' s))"

definition is_published :: "time \<Rightarrow> post \<Rightarrow> bool" where
  "is_published now p = (bp_visibility p = Post_PUBLISHED \<and> (case bp_publish_date p of None \<Rightarrow> False | Some t \<Rightarrow> t \<le> now))"

text \<open>In listings pinned posts come first, then the latest; a missing date sorts as the latest.\<close>

definition post_order :: "post \<Rightarrow> bool \<times> bool \<times> int" where
  "post_order p = (\<not> bp_is_pinned p, case bp_publish_date p of None \<Rightarrow> (False, 0) | Some t \<Rightarrow> (True, - t))"

definition get_visible_posts :: "time \<Rightarrow> viewer \<Rightarrow> content_site \<Rightarrow> post list" where
  "get_visible_posts now v s =
     sort_key post_order
       (case v of
          None \<Rightarrow> filter (\<lambda>p. is_published now p \<and> \<not> bp_is_organization_private p) (ct_posts s)
        | Some u \<Rightarrow>
            if u_is_staff u then ct_posts s
            else filter (\<lambda>p. is_published now p
                   \<and> (\<not> bp_is_organization_private p
                      \<or> bp_is_organization_private p \<and> shares_organization u (bp_organizations p))) (ct_posts s))"

definition can_view_post :: "time \<Rightarrow> viewer \<Rightarrow> post \<Rightarrow> content_site \<Rightarrow> bool" where
  "can_view_post now v p s = list_ex (\<lambda>q. bp_id q = bp_id p) (get_visible_posts now v s)"

definition get_post_by_slug :: "string \<Rightarrow> content_site \<Rightarrow> post result" where
  "get_post_by_slug slug s = (case first (filter (\<lambda>p. bp_slug p = slug) (ct_posts s)) of
     None \<Rightarrow> Inl (NotFoundError (''Post with slug '' @ [CHR 0x27] @ slug @ [CHR 0x27] @ '' was not found.'')) | Some p \<Rightarrow> Inr p)"

definition pin_post :: "post \<Rightarrow> content_site \<Rightarrow> content_site" where
  "pin_post p s = (if \<not> bp_is_pinned p then save_post (p\<lparr>bp_is_pinned := True\<rparr>) s else s)"

definition unpin_post :: "post \<Rightarrow> content_site \<Rightarrow> content_site" where
  "unpin_post p s = (if bp_is_pinned p then save_post (p\<lparr>bp_is_pinned := False\<rparr>) s else s)"

section \<open>Comments\<close>

definition max_depth :: nat where
  "max_depth = 10"

definition max_segment_value :: int where
  "max_segment_value = 999"

text \<open>\<open>f"{n:03d}"\<close>\<close>

definition padded :: "nat \<Rightarrow> string" where
  "padded n = replicate (3 - length (show_nat n)) (CHR ''0'') @ show_nat n"

definition path_depth :: "string \<Rightarrow> nat" where
  "path_depth path = (if path = [] then 0 else length (split_on (CHR ''.'') path))"

fun highest_segment :: "string list \<Rightarrow> int \<Rightarrow> int result" where
  "highest_segment [] current_max = Inr current_max"
| "highest_segment (path # paths) current_max =
     (case py_int (last (split_on (CHR ''.'') path)) of
        None \<Rightarrow> Inl (ValidationError ''Invalid comment path segment encountered.'')
      | Some n \<Rightarrow> highest_segment paths (max current_max n))"

definition next_segment :: "string list \<Rightarrow> string result" where
  "next_segment sibling_paths =
     (if sibling_paths = [] then Inr ''001''
      else andThen (highest_segment sibling_paths 0) (\<lambda>current_max.
        let next_value = current_max + 1
        in raise_if (next_value > max_segment_value) (ValidationError ''Too many sibling comments at this depth.'')
             (Inr (padded (nat next_value)))))"

text \<open>The paths of the replies to a parent, or of the root comments of a post.\<close>

definition sibling_paths :: "nat \<Rightarrow> nat option \<Rightarrow> content_site \<Rightarrow> string list" where
  "sibling_paths post parent s = map cm_path (filter (\<lambda>c. cm_post c = post \<and> cm_parent c = parent) (ct_comments s))"

definition create_comment ::
    "time \<Rightarrow> nat \<Rightarrow> nat \<Rightarrow> string \<Rightarrow> comment option \<Rightarrow> content_site \<Rightarrow> (comment \<times> content_site) result" where
  "create_comment now post author body parent s =
     raise_if (case parent of None \<Rightarrow> False | Some q \<Rightarrow> cm_post q \<noteq> post)
       (ValidationError ''Parent comment does not belong to this post.'')
     (andThen
       (case parent of
          None \<Rightarrow> next_segment (sibling_paths post None s)
        | Some q \<Rightarrow> raise_if (path_depth (cm_path q) \<ge> max_depth) (ValidationError ''Maximum comment depth reached.'')
            (andThen (next_segment (sibling_paths post (Some (cm_id q)) s)) (\<lambda>segment. Inr (cm_path q @ ''.'' @ segment))))
       (\<lambda>new_path.
          let c = \<lparr>cm_id = fresh_key cm_id (ct_comments s), cm_post = post, cm_author = author, cm_parent = map_option cm_id parent,
                   cm_body = body, cm_visibility = Com_VISIBLE, cm_score = 0, cm_path = new_path,
                   cm_created_at = now, cm_updated_at = now\<rparr>
          in Inr (c, s\<lparr>ct_comments := ct_comments s @ [c]\<rparr>)))"

definition save_comment :: "comment \<Rightarrow> content_site \<Rightarrow> content_site" where
  "save_comment c s = s\<lparr>ct_comments := row_put cm_id c (ct_comments s)\<rparr>"

definition edit_comment :: "time \<Rightarrow> comment \<Rightarrow> string \<Rightarrow> content_site \<Rightarrow> comment \<times> content_site" where
  "edit_comment now c body s = (let c' = c\<lparr>cm_body := body, cm_updated_at := now\<rparr> in (c', save_comment c' s))"

definition delete_comment :: "time \<Rightarrow> comment \<Rightarrow> content_site \<Rightarrow> comment \<times> content_site" where
  "delete_comment now c s =
     (let c' = c\<lparr>cm_visibility := Com_DELETED, cm_body := ''[deleted]'', cm_updated_at := now\<rparr> in (c', save_comment c' s))"

definition vote_of :: "nat \<Rightarrow> nat \<Rightarrow> comment_vote \<Rightarrow> bool" where
  "vote_of cid uid w = (cv_comment w = cid \<and> cv_user w = uid)"

definition vote_comment :: "comment \<Rightarrow> nat \<Rightarrow> int \<Rightarrow> content_site \<Rightarrow> content_site result" where
  "vote_comment c uid val s =
     raise_if (val \<notin> {1, -1}) (ValidationError ''Vote value must be +1 or -1.'')
       (let mine = vote_of (cm_id c) uid;
            score_votes = (case List.find mine (ct_votes s) of
                None \<Rightarrow> (val, ct_votes s @ [\<lparr>cv_comment = cm_id c, cv_user = uid, cv_value = val\<rparr>])
              | Some w \<Rightarrow> if cv_value w = val then (0, ct_votes s)
                         else (val - cv_value w, rows_update mine (\<lambda>w. w\<lparr>cv_value := val\<rparr>) (ct_votes s)));
            delta = fst score_votes; s1 = s\<lparr>ct_votes := snd score_votes\<rparr>
        in Inr (if delta \<noteq> 0
                then s1\<lparr>ct_comments := rows_update (\<lambda>x. cm_id x = cm_id c) (\<lambda>x. x\<lparr>cm_score := cm_score x + delta\<rparr>) (ct_comments s1)\<rparr>
                else s1))"

definition get_comments_for_post :: "nat \<Rightarrow> content_site \<Rightarrow> comment list" where
  "get_comments_for_post post s =
     sort_key cm_path (filter (\<lambda>c. cm_post c = post \<and> cm_visibility c = Com_VISIBLE) (ct_comments s))"

definition get_comment_tree :: "nat \<Rightarrow> content_site \<Rightarrow> comment node list option" where
  "get_comment_tree post s =
     (let comments = get_comments_for_post post s in read_forest (length comments) (build_forest cm_id cm_parent comments))"

section \<open>The endpoints\<close>

definition content_authenticated :: "viewer \<Rightarrow> user result" where
  "content_authenticated v = (case v of None \<Rightarrow> Inl (PermissionDeniedError ''Authentication required.'') | Some u \<Rightarrow> Inr u)"

definition content_staff :: "viewer \<Rightarrow> user result" where
  "content_staff v = andThen (content_authenticated v) (\<lambda>u.
     raise_if (\<not> u_is_staff u) (PermissionDeniedError ''Staff access required.'') (Inr u))"

definition api_list_posts :: "time \<Rightarrow> viewer \<Rightarrow> int \<Rightarrow> int \<Rightarrow> content_site \<Rightarrow> post list" where
  "api_list_posts now v page page_size s =
     (let page = (if page < 1 then 1 else page); page_size = min (if page_size < 1 then 20 else page_size) 100;
          queryset = filter (\<lambda>p. bp_visibility p = Post_PUBLISHED) (get_visible_posts now v s);
          offset = (page - 1) * page_size
      in take (nat page_size) (drop (nat offset) queryset))"

record post_create_in =
  pci_title :: string
  pci_content :: string
  pci_visibility :: string
  pci_summary :: "string option"
  pci_is_organization_private :: bool
  pci_organization_ids :: "nat list"
  pci_og_image :: "string option"

text \<open>\<open>post.organizations.set(ids)\<close>; a key without a row breaks the foreign key.\<close>

definition set_organizations :: "nat list \<Rightarrow> post \<times> content_site \<Rightarrow> (post \<times> content_site) result" where
  "set_organizations ids ps =
     (case ps of (p, s) \<Rightarrow>
        raise_if (\<not> set ids \<subseteq> set (ct_organizations s)) (IntegrityError ''content_blog_post_organizations'')
          (let p' = p\<lparr>bp_organizations := remdups ids\<rparr> in Inr (p', save_post p' s)))"

definition optional_fields :: "post_create_in \<Rightarrow> post_field list" where
  "optional_fields x = (case pci_summary x of None \<Rightarrow> [] | Some t \<Rightarrow> [PF_summary t])
     @ [PF_is_organization_private (pci_is_organization_private x)]
     @ (case pci_og_image x of None \<Rightarrow> [] | Some t \<Rightarrow> [PF_og_image t])"

definition api_create_post ::
    "(string \<Rightarrow> string) \<Rightarrow> viewer \<Rightarrow> post_create_in \<Rightarrow> content_site \<Rightarrow> (post \<times> content_site) result" where
  "api_create_post slugify v x s =
     andThen (content_staff v) (\<lambda>u.
       case create_post slugify (pci_title x) (u_id u) (pci_content x) (pci_visibility x) s of
         (p, s1) \<Rightarrow> (let ps = update_post p (optional_fields x) s1
                    in if pci_organization_ids x \<noteq> [] then set_organizations (pci_organization_ids x) ps else Inr ps))"

definition not_visible :: error where
  "not_visible = PermissionDeniedError ''Post is not visible to this user.''"

definition api_post_detail :: "time \<Rightarrow> viewer \<Rightarrow> string \<Rightarrow> content_site \<Rightarrow> post result" where
  "api_post_detail now v slug s =
     andThen (get_post_by_slug slug s) (\<lambda>p. raise_if (\<not> can_view_post now v p s) not_visible (Inr p))"

text \<open>\<open>post.author_id == request.user.id or request.user.is_staff\<close>, which comments share.\<close>

definition owns_or_staff :: "user \<Rightarrow> nat \<Rightarrow> bool" where
  "owns_or_staff u author = (author = u_id u \<or> u_is_staff u)"

definition api_update_post ::
    "viewer \<Rightarrow> string \<Rightarrow> post_field list \<Rightarrow> nat list option \<Rightarrow> content_site \<Rightarrow> (post \<times> content_site) result" where
  "api_update_post v slug data organization_ids s =
     andThen (content_authenticated v) (\<lambda>u.
     andThen (get_post_by_slug slug s) (\<lambda>p.
     raise_if (\<not> owns_or_staff u (bp_author p)) (PermissionDeniedError ''You do not have permission to update this post.'')
       (let ps = update_post p data s
        in case organization_ids of None \<Rightarrow> Inr ps | Some ids \<Rightarrow> set_organizations ids ps)))"

definition api_publish_post :: "time \<Rightarrow> viewer \<Rightarrow> string \<Rightarrow> content_site \<Rightarrow> (post \<times> content_site) result" where
  "api_publish_post now v slug s =
     andThen (content_authenticated v) (\<lambda>u.
     andThen (get_post_by_slug slug s) (\<lambda>p.
     raise_if (\<not> owns_or_staff u (bp_author p)) (PermissionDeniedError ''You do not have permission to publish this post.'')
       (Inr (publish_post now p s))))"

definition api_post_comments :: "time \<Rightarrow> viewer \<Rightarrow> string \<Rightarrow> content_site \<Rightarrow> comment node list option result" where
  "api_post_comments now v slug s =
     andThen (get_post_by_slug slug s) (\<lambda>p.
     raise_if (\<not> can_view_post now v p s) not_visible (Inr (get_comment_tree (bp_id p) s)))"

definition comment_or_404 :: "nat \<Rightarrow> content_site \<Rightarrow> comment result" where
  "comment_or_404 i s = (case row_get cm_id i (ct_comments s) of None \<Rightarrow> Inl not_found | Some c \<Rightarrow> Inr c)"

definition api_add_comment ::
    "time \<Rightarrow> viewer \<Rightarrow> string \<Rightarrow> string \<Rightarrow> nat option \<Rightarrow> content_site \<Rightarrow> (comment \<times> content_site) result" where
  "api_add_comment now v slug body parent_id s =
     andThen (content_authenticated v) (\<lambda>u.
     andThen (get_post_by_slug slug s) (\<lambda>p.
     raise_if (\<not> can_view_post now v p s) not_visible
       (andThen (case parent_id of None \<Rightarrow> Inr None | Some i \<Rightarrow> andThen (comment_or_404 i s) (\<lambda>c. Inr (Some c))) (\<lambda>parent.
        create_comment now (bp_id p) (u_id u) body parent s))))"

definition api_edit_comment :: "time \<Rightarrow> viewer \<Rightarrow> nat \<Rightarrow> string \<Rightarrow> content_site \<Rightarrow> (comment \<times> content_site) result" where
  "api_edit_comment now v i body s =
     andThen (content_authenticated v) (\<lambda>u.
     andThen (comment_or_404 i s) (\<lambda>c.
     raise_if (\<not> owns_or_staff u (cm_author c)) (PermissionDeniedError ''You do not have permission to edit this comment.'')
       (Inr (edit_comment now c body s))))"

definition api_delete_comment :: "time \<Rightarrow> viewer \<Rightarrow> nat \<Rightarrow> content_site \<Rightarrow> (comment \<times> content_site) result" where
  "api_delete_comment now v i s =
     andThen (content_authenticated v) (\<lambda>u.
     andThen (comment_or_404 i s) (\<lambda>c.
     raise_if (\<not> owns_or_staff u (cm_author c)) (PermissionDeniedError ''You do not have permission to delete this comment.'')
       (Inr (delete_comment now c s))))"

text \<open>The foreign key of a comment always has its post.\<close>

definition api_vote_comment :: "time \<Rightarrow> viewer \<Rightarrow> nat \<Rightarrow> int \<Rightarrow> content_site \<Rightarrow> content_site result" where
  "api_vote_comment now v i val s =
     andThen (content_authenticated v) (\<lambda>u.
     andThen (comment_or_404 i s) (\<lambda>c.
       case row_get bp_id (cm_post c) (ct_posts s) of
         None \<Rightarrow> Inl not_found
       | Some p \<Rightarrow> raise_if (\<not> can_view_post now v p s) not_visible (vote_comment c (u_id u) val s)))"

definition api_navigation :: "content_site \<Rightarrow> navigation_item node list option" where
  "api_navigation s =
     (let items = sort_key nv_order (ct_navigation s) in read_forest (length items) (build_forest nv_id nv_parent items))"

end
