(* ===== verification/ContentFlow.thy ===== *)
theory ContentFlow
  imports Content
begin

text \<open>
  The properties of posts, comments and votes: the invariant of materialized paths, the shape and order of
  the comment tree, and votes as a machine of ballots that the vote endpoint refines.
\<close>

section \<open>Orders on paths\<close>

lemma append_less: "length a = length b \<Longrightarrow> a < b \<Longrightarrow> a @ s < b @ s'" for a b :: string
  by (induction a b rule: list_induct2) auto

lemma append_left_less [simp]: "p @ a < p @ b \<longleftrightarrow> a < b" for a :: string
  by (induction p) auto

lemma prefix_less: "s \<noteq> [] \<Longrightarrow> p < p @ s" for p :: string
  by (induction p) (auto simp: neq_Nil_conv)

text \<open>A tree whose children extend the path of their parent by a segment of three characters, in ascending
  order, reads in the order of its paths.\<close>

definition extends :: "string \<Rightarrow> comment \<Rightarrow> bool" where
  "extends pre c \<longleftrightarrow> (\<exists>seg. length seg = 3 \<and> cm_path c = pre @ seg)"

fun threaded :: "comment node \<Rightarrow> bool" where
  "threaded (Node c ts) \<longleftrightarrow> (\<forall>t \<in> set ts. threaded t \<and> extends (cm_path c @ ''.'') (node_row t))
     \<and> sorted_wrt (<) (map (\<lambda>t. cm_path (node_row t)) ts)"

definition ordered_tree :: "comment node \<Rightarrow> bool" where
  "ordered_tree t \<longleftrightarrow> sorted_wrt (<) (map cm_path (preorder t)) \<and> (\<forall>y \<in> set (preorder t). \<exists>s. cm_path y = cm_path (node_row t) @ s)"

lemma siblings_ordered:
  assumes "\<forall>t \<in> set ts. ordered_tree t \<and> extends pre (node_row t)" and "sorted_wrt (<) (map (\<lambda>t. cm_path (node_row t)) ts)"
  shows "sorted_wrt (<) (map cm_path (forest_rows ts))
     \<and> (\<forall>y \<in> set (forest_rows ts). \<exists>seg s. length seg = 3 \<and> cm_path y = pre @ seg @ s)"
  using assms
proof (induction ts)
  case (Cons t ts)
  obtain a where a: "length a = 3" "cm_path (node_row t) = pre @ a" using Cons.prems(1) by (auto simp: extends_def)
  have "cm_path y < cm_path z" if y: "y \<in> set (preorder t)" and z: "z \<in> set (forest_rows ts)" for y z
  proof -
    obtain u where u: "u \<in> set ts" "z \<in> set (preorder u)" using z by (auto simp: forest_rows_def)
    then have u': "ordered_tree u" "extends pre (node_row u)" "cm_path (node_row t) < cm_path (node_row u)" using Cons.prems by auto
    obtain b where b: "length b = 3" "cm_path (node_row u) = pre @ b" using u'(2) by (auto simp: extends_def)
    obtain s where s: "cm_path y = pre @ a @ s" using Cons.prems(1) y a(2) by (auto simp: ordered_tree_def)
    obtain s' where s': "cm_path z = pre @ b @ s'" using u'(1) u(2) b(2) by (auto simp: ordered_tree_def)
    have "a < b" using u'(3) a(2) b(2) by simp
    then show ?thesis using append_less [of a b] a(1) b(1) by (simp add: s s')
  qed
  moreover have "\<exists>seg s. length seg = 3 \<and> cm_path y = pre @ seg @ s" if "y \<in> set (preorder t)" for y
    using Cons.prems(1) that a by (fastforce simp: ordered_tree_def)
  ultimately show ?case using Cons by (auto simp: sorted_wrt_append ordered_tree_def)
qed simp

lemma threaded_ordered: "threaded t \<Longrightarrow> ordered_tree t"
proof (induction t)
  case (Node c ts)
  then have "\<forall>t \<in> set ts. ordered_tree t \<and> extends (cm_path c @ ''.'') (node_row t)" "sorted_wrt (<) (map (\<lambda>t. cm_path (node_row t)) ts)"
    by auto
  note below = siblings_ordered [OF this]
  have "cm_path c < cm_path y \<and> (\<exists>s. cm_path y = cm_path c @ s)" if y: "y \<in> set (forest_rows ts)" for y
  proof -
    obtain seg s where "cm_path y = (cm_path c @ ''.'') @ seg @ s" using below y by blast
    then have "cm_path y = cm_path c @ (''.'' @ seg @ s)" by simp
    then show ?thesis using prefix_less [of "''.'' @ seg @ s" "cm_path c"] by auto
  qed
  then show ?case using below by (auto simp: ordered_tree_def)
qed

lemma threaded_graft:
  assumes "threaded t" and "\<forall>y \<in> set (preorder t). cm_path y < cm_path x"
    and "\<forall>y \<in> set (preorder t). cm_id y = p \<longrightarrow> extends (cm_path y @ ''.'') x"
  shows "threaded (graft cm_id p x t)"
  using assms
proof (induction t)
  case (Node c ts)
  have sub: "set (preorder t) \<subseteq> set (preorder (Node c ts))" if "t \<in> set ts" for t using that by (auto simp: forest_rows_def)
  have "threaded (graft cm_id p x t)" if "t \<in> set ts" for t
    using Node.IH [OF that] Node.prems sub [OF that] that by auto
  moreover have "cm_path (node_row t) < cm_path x" if "t \<in> set ts" for t
  proof -
    have "node_row t \<in> set (preorder t)" by (cases t) simp
    then show ?thesis using Node.prems(2) sub [OF that] by blast
  qed
  ultimately show ?case using Node.prems by (auto simp: sorted_wrt_append comp_def)
qed

section \<open>Segments\<close>

lemma digits_of_padded: "\<forall>c \<in> set (padded n). is_digit c" and padded_nonempty [simp]: "padded n \<noteq> []"
  using show_nat_digits [of n] by (auto simp: padded_def list_all_iff is_digit_def)

lemma digit_not_dot: "is_digit c \<Longrightarrow> c \<noteq> CHR ''.''"
  by (auto simp: is_digit_def)

lemma padded_no_dot: "CHR ''.'' \<notin> set (padded n)"
  using digits_of_padded digit_not_dot by blast

lemma fold_zeros: "foldl (\<lambda>m c. m * 10 + digit_val c) 0 (replicate k (CHR ''0'')) = 0"
  by (induction k) (simp_all add: digit_val_def)

lemma py_int_padded [simp]: "py_int (padded n) = Some (int n)"
proof -
  have "read_nat (padded n) = Some n"
    using digits_of_padded [of n] read_show_fold [of n] by (simp add: read_nat_def list_all_iff) (simp add: padded_def fold_zeros)
  then show ?thesis using py_int_digits [OF padded_nonempty digits_of_padded] by simp
qed

lemma padded_inject [simp]: "padded m = padded n \<longleftrightarrow> m = n"
  by (metis py_int_padded option.inject of_nat_eq_iff)

lemma length_padded: "n \<le> 999 \<Longrightarrow> length (padded n) = 3"
proof -
  assume "n \<le> 999"
  then have "length (show_nat n) \<le> 3" by (simp add: show_nat.simps [of n] show_nat.simps [of "n div 10"] show_nat.simps [of "n div 10 div 10"])
  then show ?thesis by (simp add: padded_def)
qed

lemma last_segment: "last (split_on (CHR ''.'') (padded k)) = padded k"
    "last (split_on (CHR ''.'') (p @ CHR ''.'' # padded k)) = padded k"
  using split_on_append_sep [of "CHR ''.''" p "padded k"] by (simp_all add: split_on_no_sep [OF padded_no_dot])

lemma path_depth_simps: "path_depth (padded k) = 1" "path_depth (p @ CHR ''.'' # padded k) = length (split_on (CHR ''.'') p) + 1"
  using split_on_append_sep [of "CHR ''.''" p "padded k"] by (simp_all add: path_depth_def split_on_no_sep [OF padded_no_dot])

lemma highest_segment_max:
  assumes "\<forall>p \<in> set ps. \<exists>k. py_int (last (split_on (CHR ''.'') p)) = Some (int k)" and "0 \<le> m"
  shows "\<exists>n. highest_segment ps m = Inr n \<and> m \<le> n
     \<and> (\<forall>p \<in> set ps. \<forall>k. py_int (last (split_on (CHR ''.'') p)) = Some (int k) \<longrightarrow> int k \<le> n)"
  using assms
proof (induction ps arbitrary: m)
  case (Cons p ps)
  then obtain k where k: "py_int (last (split_on (CHR ''.'') p)) = Some (int k)" by auto
  have ps: "\<forall>p \<in> set ps. \<exists>k. py_int (last (split_on (CHR ''.'') p)) = Some (int k)" "0 \<le> max m (int k)"
    using Cons.prems by simp_all
  obtain n where "highest_segment ps (max m (int k)) = Inr n" "max m (int k) \<le> n"
    "\<forall>p \<in> set ps. \<forall>k. py_int (last (split_on (CHR ''.'') p)) = Some (int k) \<longrightarrow> int k \<le> n"
    using Cons.IH [OF ps] by blast
  then show ?case using k by auto
qed simp

text \<open>The next segment is a padded number of at most three digits that no sibling ends in.\<close>

lemma next_segment_new:
  assumes "next_segment ps = Inr seg" and "\<forall>p \<in> set ps. \<exists>k. last (split_on (CHR ''.'') p) = padded k"
  obtains k where "seg = padded k" "1 \<le> k" "k \<le> 999" "\<forall>p \<in> set ps. last (split_on (CHR ''.'') p) \<noteq> seg"
proof (cases "ps = []")
  case True
  have "padded 1 = ''001''" by code_simp
  then have "seg = padded 1" using assms(1) True by (simp add: next_segment_def)
  then show thesis using that [of 1] True by simp
next
  case False
  have nums: "\<forall>p \<in> set ps. \<exists>k. py_int (last (split_on (CHR ''.'') p)) = Some (int k)" using assms(2) by (metis py_int_padded)
  from highest_segment_max [OF nums, of 0] obtain n where n: "highest_segment ps 0 = Inr n" "0 \<le> n"
    "\<forall>p \<in> set ps. \<forall>k. py_int (last (split_on (CHR ''.'') p)) = Some (int k) \<longrightarrow> int k \<le> n" by auto
  then have seg: "seg = padded (nat (n + 1))" "n + 1 \<le> 999"
    using assms(1) False by (auto simp: next_segment_def Let_def max_segment_value_def)
  have "last (split_on (CHR ''.'') p) \<noteq> seg" if p: "p \<in> set ps" for p
  proof
    assume "last (split_on (CHR ''.'') p) = seg"
    then have "py_int (last (split_on (CHR ''.'') p)) = Some (int (nat (n + 1)))" using seg(1) by simp
    then have "int (nat (n + 1)) \<le> n" using n(3) p by blast
    then show False using n(2) by simp
  qed
  then show thesis using that [of "nat (n + 1)"] seg n(2) by auto
qed

section \<open>The invariant of comment paths\<close>

text \<open>A root comment has a number as its path; a reply names a comment of its post and extends its path.\<close>

definition placed :: "comment list \<Rightarrow> comment \<Rightarrow> bool" where
  "placed cs c \<longleftrightarrow> (\<exists>k. 1 \<le> k \<and> k \<le> 999 \<and> (case cm_parent c of None \<Rightarrow> cm_path c = padded k
     | Some p \<Rightarrow> \<exists>q \<in> set cs. cm_id q = p \<and> cm_post q = cm_post c \<and> cm_path c = cm_path q @ ''.'' @ padded k))"

definition short_path :: "comment \<Rightarrow> bool" where
  "short_path c \<longleftrightarrow> path_depth (cm_path c) \<le> max_depth \<and> Suc (length (cm_path c)) = 4 * path_depth (cm_path c)"

definition slot :: "comment \<Rightarrow> nat \<times> nat option \<times> string" where
  "slot c = (cm_post c, cm_parent c, cm_path c)"

definition thread_ok :: "comment list \<Rightarrow> bool" where
  "thread_ok cs \<longleftrightarrow> distinct (map cm_id cs) \<and> (\<forall>c \<in> set cs. placed cs c \<and> short_path c) \<and> inj_on slot (set cs)"

lemma placed_cases:
  assumes "placed cs c"
  obtains (root) k where "cm_parent c = None" "1 \<le> k" "k \<le> 999" "cm_path c = padded k"
  | (reply) k q where "cm_parent c = Some (cm_id q)" "q \<in> set cs" "cm_post q = cm_post c" "1 \<le> k" "k \<le> 999" "cm_path c = cm_path q @ ''.'' @ padded k"
  using assms by (auto simp: placed_def split: option.splits)

lemma placed_segment: "placed cs c \<Longrightarrow> \<exists>k. last (split_on (CHR ''.'') (cm_path c)) = padded k"
  by (erule placed_cases) (auto simp: last_segment)

lemma placed_mono: "placed cs d \<Longrightarrow> set cs \<subseteq> set cs' \<Longrightarrow> placed cs' d"
  unfolding placed_def by (cases "cm_parent d") (simp_all, blast)

lemma same_image: "map f xs = map f ys \<Longrightarrow> x \<in> set xs \<Longrightarrow> \<exists>y \<in> set ys. f y = f x"
  by (metis imageE image_eqI list.set_map)

text \<open>Only the key, the slot and nothing else of a comment matters.\<close>

lemma thread_ok_cong:
  assumes "thread_ok cs" and "map (\<lambda>c. (cm_id c, slot c)) cs' = map (\<lambda>c. (cm_id c, slot c)) cs"
  shows "thread_ok cs'"
proof -
  have ids: "map cm_id cs' = map cm_id cs" using arg_cong [OF assms(2), of "map fst"] by (simp add: comp_def)
  then have dist: "distinct (map cm_id cs')" using assms(1) by (simp add: thread_ok_def)
  have twin: "\<exists>c0 \<in> set cs. cm_id c0 = cm_id c \<and> slot c0 = slot c" if "c \<in> set cs'" for c
    using same_image [OF assms(2) that] by auto
  have twin': "\<exists>c \<in> set cs'. cm_id c0 = cm_id c \<and> slot c0 = slot c" if "c0 \<in> set cs" for c0
    using same_image [OF assms(2) [symmetric] that] by (metis prod.inject)
  have "placed cs' c \<and> short_path c" if c: "c \<in> set cs'" for c
  proof -
    obtain c0 where c0: "c0 \<in> set cs" "slot c0 = slot c" using twin [OF c] by blast
    then have "placed cs c0" "short_path c0" using assms(1) by (auto simp: thread_ok_def)
    from this(1) have "placed cs' c"
    proof (cases rule: placed_cases)
      case (root k)
      then show ?thesis using c0(2) by (auto simp: placed_def slot_def)
    next
      case (reply k q)
      obtain q' where "q' \<in> set cs'" "cm_id q = cm_id q'" "slot q = slot q'" using twin' [OF reply(2)] by blast
      then have "cm_parent c = Some (cm_id q')" "cm_path c = cm_path q' @ ''.'' @ padded k" "cm_post q' = cm_post c" "q' \<in> set cs'"
        using reply c0(2) by (auto simp: slot_def)
      then show ?thesis using reply(4,5) by (auto simp: placed_def)
    qed
    then show ?thesis using \<open>short_path c0\<close> c0(2) by (simp add: short_path_def slot_def)
  qed
  moreover have "inj_on slot (set cs')"
  proof (rule inj_onI)
    fix c d assume "c \<in> set cs'" "d \<in> set cs'" "slot c = slot d"
    moreover then obtain c0 d0 where "c0 \<in> set cs" "d0 \<in> set cs" "cm_id c0 = cm_id c" "cm_id d0 = cm_id d" "slot c0 = slot c" "slot d0 = slot d"
      using twin by metis
    moreover have "inj_on slot (set cs)" using assms(1) by (simp add: thread_ok_def)
    ultimately have "cm_id c = cm_id d" by (metis inj_onD)
    then show "c = d" using dist \<open>c \<in> set cs'\<close> \<open>d \<in> set cs'\<close> by (auto simp: distinct_map dest: inj_onD)
  qed
  ultimately show ?thesis using dist by (simp add: thread_ok_def)
qed

lemma thread_ok_append:
  assumes "thread_ok cs" and "cm_id c \<notin> cm_id ` set cs" and "placed cs c" and "short_path c" and "slot c \<notin> slot ` set cs"
  shows "thread_ok (cs @ [c])"
proof -
  have "placed (cs @ [c]) d" if "placed cs d" for d using placed_mono [OF that, of "cs @ [c]"] by auto
  then show ?thesis using assms by (auto simp: thread_ok_def)
qed

text \<open>Comments of one post have different paths.\<close>

lemma path_unique:
  assumes "thread_ok cs"
  shows "c \<in> set cs \<Longrightarrow> d \<in> set cs \<Longrightarrow> cm_post c = cm_post d \<Longrightarrow> cm_path c = cm_path d \<Longrightarrow> c = d"
proof (induction "length (cm_path c)" arbitrary: c d rule: less_induct)
  case less
  have pc: "placed cs c" and pd: "placed cs d" and inj: "inj_on slot (set cs)" using assms less.prems by (auto simp: thread_ok_def)
  have dot: "CHR ''.'' \<notin> set (padded k)" for k by (rule padded_no_dot)
  from pc show ?case
  proof (cases rule: placed_cases)
    case (root k)
    from pd show ?thesis
    proof (cases rule: placed_cases)
      case (root m)
      then show ?thesis using \<open>cm_parent c = None\<close> less.prems inj by (intro inj_onD [OF inj]) (auto simp: slot_def)
    next
      case (reply m q)
      then have "CHR ''.'' \<in> set (cm_path c)" using less.prems(4) by simp
      then show ?thesis using \<open>cm_path c = padded k\<close> dot by simp
    qed
  next
    case (reply k q)
    note c = reply
    from pd show ?thesis
    proof (cases rule: placed_cases)
      case (root m)
      then have "CHR ''.'' \<in> set (padded m)" using less.prems(4) c(6) by (metis append.left_neutral append_Cons in_set_conv_decomp)
      then show ?thesis using dot by blast
    next
      case (reply m r)
      have "length (padded k) = length (padded m)" using c(5) reply(5) by (simp add: length_padded)
      then have "cm_path q = cm_path r" using less.prems(4) c(6) reply(6) by simp
      moreover have "length (cm_path q) < length (cm_path c)" using c(6) by simp
      ultimately have "q = r" using less.hyps [of q r] c(2,3) reply(2,3) less.prems(3) by simp
      then show ?thesis using c(1) reply(1) less.prems by (intro inj_onD [OF inj]) (auto simp: slot_def)
    qed
  qed
qed

lemma parent_not_self:
  assumes "thread_ok cs" and "c \<in> set cs"
  shows "cm_parent c \<noteq> Some (cm_id c)"
proof
  assume self: "cm_parent c = Some (cm_id c)"
  have "placed cs c" "distinct (map cm_id cs)" using assms by (auto simp: thread_ok_def)
  from this(1) show False
  proof (cases rule: placed_cases)
    case (reply k q)
    then have "q = c" using self assms(2) \<open>distinct (map cm_id cs)\<close> by (auto simp: distinct_map dest: inj_onD)
    then show False using reply(6) by (metis append.assoc append_self_conv length_0_conv length_append add_eq_self_zero padded_nonempty append_is_Nil_conv)
  qed (use self in simp)
qed

lemma create_comment_ok:
  assumes "thread_ok (ct_comments s)" and "create_comment now post author body parent s = Inr (c, s')"
    and "\<forall>q. parent = Some q \<longrightarrow> q \<in> set (ct_comments s)"
  shows "thread_ok (ct_comments s') \<and> ct_comments s' = ct_comments s @ [c] \<and> cm_score c = 0 \<and> cm_id c \<notin> cm_id ` set (ct_comments s)
     \<and> ct_votes s' = ct_votes s"
proof -
  let ?cs = "ct_comments s" and ?p = "map_option cm_id parent"
  obtain seg where seg: "next_segment (sibling_paths post ?p s) = Inr seg"
    and path: "cm_path c = (case parent of None \<Rightarrow> seg | Some q \<Rightarrow> cm_path q @ ''.'' @ seg)"
    and depth: "\<forall>q. parent = Some q \<longrightarrow> path_depth (cm_path q) < max_depth \<and> cm_post q = post"
    and c: "cm_id c = fresh_key cm_id ?cs" "cm_post c = post" "cm_parent c = ?p" "cm_score c = 0"
    and s': "s' = s\<lparr>ct_comments := ?cs @ [c]\<rparr>"
    using assms(2) by (auto simp: create_comment_def Let_def split: option.splits)
  have "\<forall>x \<in> set (sibling_paths post ?p s). \<exists>k. last (split_on (CHR ''.'') x) = padded k"
    using assms(1) placed_segment by (fastforce simp: sibling_paths_def thread_ok_def)
  from next_segment_new [OF seg this] obtain k where k: "seg = padded k" "1 \<le> k" "k \<le> 999"
    and new: "\<forall>x \<in> set (sibling_paths post ?p s). last (split_on (CHR ''.'') x) \<noteq> seg" by blast
  have fresh: "cm_id c \<notin> cm_id ` set ?cs" using fresh_key_notin [of cm_id ?cs] c(1) by simp
  have "last (split_on (CHR ''.'') (cm_path c)) = seg" using path k(1) by (auto simp: last_segment split: option.splits)
  then have "slot c \<notin> slot ` set ?cs" using new c(2,3) by (auto simp: slot_def sibling_paths_def)
  moreover have "placed ?cs c" using path k c(2,3) assms(3) depth by (cases parent) (auto simp: placed_def)
  moreover have "short_path c"
  proof (cases parent)
    case None
    then show ?thesis using path k(1,3) by (simp add: short_path_def path_depth_simps length_padded max_depth_def)
  next
    case (Some q)
    then have "short_path q" "q \<in> set ?cs" using assms(1,3) by (auto simp: thread_ok_def)
    moreover then have "path_depth (cm_path q) = length (split_on (CHR ''.'') (cm_path q))" by (auto simp: short_path_def path_depth_def)
    ultimately show ?thesis using Some path k(1,3) depth by (simp add: short_path_def path_depth_simps length_padded)
  qed
  ultimately show ?thesis using thread_ok_append [OF assms(1) fresh] fresh c(4) by (simp add: s')
qed

section \<open>Votes\<close>

text \<open>The last vote of each user on each comment, and the moves of the machine of ballots.\<close>

type_synonym ballot_box = "nat \<times> nat \<Rightarrow> int option"

datatype content_move = Cast nat nat int | Quiet

fun castable :: "content_move \<Rightarrow> ballot_box \<Rightarrow> bool" where
  "castable (Cast i u v) b = (v = 1 \<or> v = -1)"
| "castable Quiet b = True"

fun cast_move :: "content_move \<Rightarrow> ballot_box \<Rightarrow> ballot_box" where
  "cast_move (Cast i u v) b = b((i, u) \<mapsto> v)"
| "cast_move Quiet b = b"

definition ballots_of :: "comment_vote list \<Rightarrow> ballot_box" where
  "ballots_of ws = (\<lambda>(i, u). map_option cv_value (List.find (vote_of i u) ws))"

definition ballots :: "content_site \<Rightarrow> ballot_box" where
  "ballots s = ballots_of (ct_votes s)"

definition vote_key :: "comment_vote \<Rightarrow> nat \<times> nat" where
  "vote_key w = (cv_comment w, cv_user w)"

definition vote_sum :: "nat \<Rightarrow> comment_vote list \<Rightarrow> int" where
  "vote_sum i ws = sum_list (map cv_value (filter (\<lambda>w. cv_comment w = i) ws))"

definition votes_ok :: "nat set \<Rightarrow> comment_vote list \<Rightarrow> bool" where
  "votes_ok ids ws \<longleftrightarrow> distinct (map vote_key ws) \<and> (\<forall>w \<in> set ws. (cv_value w = 1 \<or> cv_value w = -1) \<and> cv_comment w \<in> ids)"

definition content_ok :: "content_site \<Rightarrow> bool" where
  "content_ok s \<longleftrightarrow> thread_ok (ct_comments s) \<and> votes_ok (cm_id ` set (ct_comments s)) (ct_votes s)
     \<and> (\<forall>c \<in> set (ct_comments s). cm_score c = vote_sum (cm_id c) (ct_votes s))"

lemma find_vote_None: "List.find (vote_of i u) ws = None \<longleftrightarrow> (i, u) \<notin> vote_key ` set ws"
  by (auto simp: find_None_iff vote_of_def vote_key_def image_iff)

lemma ballots_of_simps [simp]:
  "ballots_of [] = Map.empty"
  "ballots_of (w # ws) = (ballots_of ws)(vote_key w \<mapsto> cv_value w)"
  by (auto simp: ballots_of_def vote_of_def vote_key_def fun_eq_iff)

lemma ballots_of_append: "k \<notin> vote_key ` set ws \<Longrightarrow> vote_key w = k \<Longrightarrow> ballots_of (ws @ [w]) = (ballots_of ws)(k \<mapsto> cv_value w)"
  by (induction ws) (auto simp: fun_upd_twist)

lemma vote_of_key: "vote_of i u w \<longleftrightarrow> vote_key w = (i, u)"
  by (auto simp: vote_of_def vote_key_def)

definition revote :: "nat \<Rightarrow> nat \<Rightarrow> int \<Rightarrow> comment_vote list \<Rightarrow> comment_vote list" where
  "revote i u v = rows_update (vote_of i u) (\<lambda>w. w\<lparr>cv_value := v\<rparr>)"

lemma revote_simps [simp]:
  "revote i u v [] = []"
  "revote i u v (w # ws) = (if vote_key w = (i, u) then w\<lparr>cv_value := v\<rparr> else w) # revote i u v ws"
  by (simp_all add: revote_def rows_update_def vote_of_key)

lemma vote_key_value [simp]: "vote_key (w\<lparr>cv_value := v\<rparr>) = vote_key w"
  by (simp add: vote_key_def)

lemma revote_keys [simp]: "map vote_key (revote i u v ws) = map vote_key ws"
  by (induction ws) auto

lemma revote_set: "w' \<in> set (revote i u v ws) \<Longrightarrow> w' \<in> set ws \<or> (\<exists>w \<in> set ws. w' = w\<lparr>cv_value := v\<rparr>)"
  by (induction ws) (auto split: if_splits)

lemma revote_absent: "(i, u) \<notin> vote_key ` set ws \<Longrightarrow> revote i u v ws = ws"
  by (induction ws) auto

lemma ballots_of_revote: "(i, u) \<in> vote_key ` set ws \<Longrightarrow> ballots_of (revote i u v ws) = (ballots_of ws)((i, u) \<mapsto> v)"
proof (induction ws)
  case (Cons w ws)
  then show ?case by (cases "(i, u) \<in> vote_key ` set ws") (auto simp: revote_absent fun_upd_twist)
qed simp

lemma vote_sum_simps [simp]:
  "vote_sum i [] = 0" "vote_sum i (w # ws) = (if cv_comment w = i then cv_value w else 0) + vote_sum i ws"
  "vote_sum i (ws @ ws') = vote_sum i ws + vote_sum i ws'"
  by (simp_all add: vote_sum_def)

lemma vote_sum_revote:
  assumes "distinct (map vote_key ws)" and "List.find (vote_of i u) ws = Some w"
  shows "vote_sum j (revote i u v ws) = vote_sum j ws + (if j = i then v - cv_value w else 0)"
  using assms
proof (induction ws)
  case (Cons x ws)
  show ?case
  proof (cases "vote_key x = (i, u)")
    case True
    then have "x = w" "(i, u) \<notin> vote_key ` set ws" using Cons.prems by (auto simp: vote_of_key)
    then show ?thesis using True by (auto simp: revote_absent vote_key_def)
  next
    case False
    then show ?thesis using Cons by (simp add: vote_of_key)
  qed
qed simp

lemma vote_sum_absent: "i \<notin> cv_comment ` set ws \<Longrightarrow> vote_sum i ws = 0"
  by (induction ws) auto

text \<open>The sum of the votes counts the users whose vote is up against those whose vote is down.\<close>

lemma vote_sum_counts:
  assumes "distinct (map vote_key ws)" and "\<forall>w \<in> set ws. cv_value w = 1 \<or> cv_value w = -1"
  shows "vote_sum i ws = int (card {u. ballots_of ws (i, u) = Some 1}) - int (card {u. ballots_of ws (i, u) = Some (-1)})
     \<and> finite {u. ballots_of ws (i, u) \<noteq> None}"
  using assms
proof (induction ws)
  case (Cons w ws)
  let ?up = "\<lambda>ws x. {u. ballots_of ws (i, u) = Some (x :: int)}"
  have IH: "vote_sum i ws = int (card (?up ws 1)) - int (card (?up ws (-1)))" "finite {u. ballots_of ws (i, u) \<noteq> None}"
    using Cons by auto
  have fin: "finite (?up ws x)" for x by (rule finite_subset [OF _ IH(2)]) auto
  have new: "ballots_of ws (vote_key w) = None"
    using Cons.prems(1) find_vote_None [of "fst (vote_key w)" "snd (vote_key w)" ws] by (simp add: ballots_of_def split_beta)
  show ?case
  proof (cases "cv_comment w = i")
    case True
    then have key: "vote_key w = (i, cv_user w)" by (simp add: vote_key_def)
    have "?up (w # ws) x = (if cv_value w = x then insert (cv_user w) (?up ws x) else ?up ws x)" for x
      using new by (auto simp: key)
    moreover have "cv_user w \<notin> ?up ws x" for x using new by (simp add: key)
    moreover have "{u. ballots_of (w # ws) (i, u) \<noteq> None} \<subseteq> insert (cv_user w) {u. ballots_of ws (i, u) \<noteq> None}" by (auto simp: key)
    then have all: "finite {u. ballots_of (w # ws) (i, u) \<noteq> None}" by (rule finite_subset) (use IH(2) in simp)
    ultimately have up: "card (?up (w # ws) x) = card (?up ws x) + (if cv_value w = x then 1 else 0)" for x
      using fin [of x] by simp
    have "vote_sum i (w # ws) = int (card (?up (w # ws) 1)) - int (card (?up (w # ws) (-1)))"
      using IH(1) True Cons.prems(2) unfolding up by auto
    then show ?thesis using all by simp
  next
    case False
    then have "ballots_of (w # ws) (i, u) = ballots_of ws (i, u)" for u by (simp add: vote_key_def)
    then show ?thesis using IH False by simp
  qed
qed simp

lemma vote_comment_cases:
  assumes "vote_comment c uid val s = Inr s'"
  obtains (fresh) "val = 1 \<or> val = -1" "List.find (vote_of (cm_id c) uid) (ct_votes s) = None"
      "ct_votes s' = ct_votes s @ [\<lparr>cv_comment = cm_id c, cv_user = uid, cv_value = val\<rparr>]"
      "ct_comments s' = rows_update (\<lambda>x. cm_id x = cm_id c) (\<lambda>x. x\<lparr>cm_score := cm_score x + val\<rparr>) (ct_comments s)"
  | (same) w where "List.find (vote_of (cm_id c) uid) (ct_votes s) = Some w" "cv_value w = val" "s' = s"
  | (changed) w where "val = 1 \<or> val = -1" "List.find (vote_of (cm_id c) uid) (ct_votes s) = Some w" "cv_value w \<noteq> val"
      "ct_votes s' = revote (cm_id c) uid val (ct_votes s)"
      "ct_comments s' = rows_update (\<lambda>x. cm_id x = cm_id c) (\<lambda>x. x\<lparr>cm_score := cm_score x + (val - cv_value w)\<rparr>) (ct_comments s)"
proof -
  have val: "val = 1 \<or> val = -1" using assms by (auto simp: vote_comment_def)
  then have ne: "val \<noteq> 0" by auto
  show thesis
  proof (cases "List.find (vote_of (cm_id c) uid) (ct_votes s)")
    case None
    then have "s' = s\<lparr>ct_votes := ct_votes s @ [\<lparr>cv_comment = cm_id c, cv_user = uid, cv_value = val\<rparr>],
        ct_comments := rows_update (\<lambda>x. cm_id x = cm_id c) (\<lambda>x. x\<lparr>cm_score := cm_score x + val\<rparr>) (ct_comments s)\<rparr>"
      using assms ne by (simp add: vote_comment_def Let_def)
    then show thesis using fresh [OF val None] by simp
  next
    case (Some w)
    show thesis
    proof (cases "cv_value w = val")
      case True
      then have "s' = s" using assms Some by (simp add: vote_comment_def Let_def)
      then show thesis using same [OF Some True] by simp
    next
      case False
      then have "s' = s\<lparr>ct_votes := revote (cm_id c) uid val (ct_votes s),
          ct_comments := rows_update (\<lambda>x. cm_id x = cm_id c) (\<lambda>x. x\<lparr>cm_score := cm_score x + (val - cv_value w)\<rparr>) (ct_comments s)\<rparr>"
        using assms Some by (simp add: vote_comment_def Let_def revote_def)
      then show thesis using changed [OF val Some False] by simp
    qed
  qed
qed

lemma score_update_tags:
  "map (\<lambda>c. (cm_id c, slot c)) (rows_update p (\<lambda>x. x\<lparr>cm_score := f x\<rparr>) cs) = map (\<lambda>c. (cm_id c, slot c)) cs"
  by (simp add: rows_update_def slot_def)

lemma ids_of_tags: "map (\<lambda>c. (cm_id c, slot c)) cs' = map (\<lambda>c. (cm_id c, slot c)) cs \<Longrightarrow> cm_id ` set cs' = cm_id ` set cs"
  by (drule arg_cong [of _ _ "map fst"]) (simp add: comp_def, metis list.set_map)

text \<open>A vote adds to the scores what it adds to the sums of votes.\<close>

lemma score_updated:
  assumes "content_ok s" and "ct_comments s' = rows_update (\<lambda>x. cm_id x = i) (\<lambda>x. x\<lparr>cm_score := cm_score x + d\<rparr>) (ct_comments s)"
    and "\<And>j. vote_sum j (ct_votes s') = vote_sum j (ct_votes s) + (if j = i then d else 0)"
    and "votes_ok (cm_id ` set (ct_comments s)) (ct_votes s')"
  shows "content_ok s'"
proof -
  have tags: "map (\<lambda>c. (cm_id c, slot c)) (ct_comments s') = map (\<lambda>c. (cm_id c, slot c)) (ct_comments s)"
    by (simp add: assms(2) score_update_tags)
  have "thread_ok (ct_comments s')" using thread_ok_cong [OF _ tags] assms(1) by (simp add: content_ok_def)
  moreover have "\<forall>c \<in> set (ct_comments s'). cm_score c = vote_sum (cm_id c) (ct_votes s')"
    using assms(1) by (auto simp: assms(2,3) rows_update_def content_ok_def)
  ultimately show ?thesis using assms(4) ids_of_tags [OF tags] by (simp add: content_ok_def)
qed

lemma vote_comment_ok:
  assumes "content_ok s" and "c \<in> set (ct_comments s)" and "vote_comment c uid val s = Inr s'"
  shows "content_ok s' \<and> ballots s' = (ballots s)((cm_id c, uid) \<mapsto> val) \<and> (val = 1 \<or> val = -1)"
  using assms(3)
proof (cases rule: vote_comment_cases)
  case fresh
  have absent: "(cm_id c, uid) \<notin> vote_key ` set (ct_votes s)" using fresh(2) by (simp add: find_vote_None)
  have "votes_ok (cm_id ` set (ct_comments s)) (ct_votes s')"
    using assms(1,2) fresh(1) absent by (auto simp: fresh(3) content_ok_def votes_ok_def vote_key_def)
  then have "content_ok s'" by (intro score_updated [OF assms(1) fresh(4)]) (simp_all add: fresh(3))
  then show ?thesis using fresh(1) ballots_of_append [OF absent] by (simp add: ballots_def fresh(3) vote_key_def)
next
  case (same w)
  have "w \<in> set (ct_votes s)" using same(1) by (auto simp: find_Some_iff)
  then have "val = 1 \<or> val = -1" using assms(1) same(2) by (auto simp: content_ok_def votes_ok_def)
  moreover have "ballots s (cm_id c, uid) = Some val" using same(1,2) by (simp add: ballots_def ballots_of_def)
  ultimately show ?thesis using assms(1) same(3) by (simp add: fun_upd_idem)
next
  case (changed w)
  have keys: "distinct (map vote_key (ct_votes s))" using assms(1) by (simp add: content_ok_def votes_ok_def)
  have "(cm_id c, uid) \<in> vote_key ` set (ct_votes s)" using changed(2) find_vote_None [of "cm_id c" uid "ct_votes s"] by simp
  note box = ballots_of_revote [OF this]
  have "votes_ok (cm_id ` set (ct_comments s)) (ct_votes s')"
    using assms(1) changed(1) unfolding changed(4) content_ok_def votes_ok_def revote_keys by (auto dest!: revote_set)
  then have "content_ok s'"
    by (intro score_updated [OF assms(1) changed(5)]) (simp_all add: changed(4) vote_sum_revote [OF keys changed(2)])
  then show ?thesis using changed(1) box by (simp add: ballots_def changed(4))
qed

section \<open>Steps\<close>

inductive content_step :: "content_move \<Rightarrow> content_site \<Rightarrow> content_site \<Rightarrow> bool" where
  vote: "api_vote_comment now (Some u) i val s = Inr s' \<Longrightarrow> content_step (Cast i (u_id u) val) s s'"
| reply: "api_add_comment now v slug body parent s = Inr (c, s') \<Longrightarrow> content_step Quiet s s'"
| edit: "api_edit_comment now v i body s = Inr (c, s') \<Longrightarrow> content_step Quiet s s'"
| remove: "api_delete_comment now v i s = Inr (c, s') \<Longrightarrow> content_step Quiet s s'"
| post: "api_create_post slugify v x s = Inr (p, s') \<Longrightarrow> content_step Quiet s s'"
| change: "api_update_post v slug fs ids s = Inr (p, s') \<Longrightarrow> content_step Quiet s s'"
| publish: "api_publish_post now v slug s = Inr (p, s') \<Longrightarrow> content_step Quiet s s'"
| pin: "content_step Quiet s (pin_post p s)"
| unpin: "content_step Quiet s (unpin_post p s)"
| elsewhere: "content_step Quiet s (s\<lparr>ct_db := d, ct_organizations := gs, ct_navigation := ns\<rparr>)"

text \<open>What leaves comments and votes alone.\<close>

definition same_talk :: "content_site \<Rightarrow> content_site \<Rightarrow> bool" where
  "same_talk s s' \<longleftrightarrow> ct_comments s' = ct_comments s \<and> ct_votes s' = ct_votes s"

lemma save_post_talk [simp]: "ct_comments (save_post p s) = ct_comments s" "ct_votes (save_post p s) = ct_votes s"
  by (simp_all add: save_post_def)

lemma post_talk:
  "same_talk s (snd (create_post slugify title author content vis s))" "same_talk s (snd (update_post p fs s))"
  "set_organizations ids (p, s) = Inr (p', s') \<Longrightarrow> same_talk s s'" "same_talk s (pin_post p s)" "same_talk s (unpin_post p s)"
  by (auto simp: same_talk_def create_post_def update_post_def set_organizations_def pin_post_def unpin_post_def Let_def)

lemma same_talk_trans: "same_talk s s' \<Longrightarrow> same_talk s' s'' \<Longrightarrow> same_talk s s''"
  by (simp add: same_talk_def)

lemma same_talk_ok: "same_talk s s' \<Longrightarrow> content_ok s \<Longrightarrow> content_ok s' \<and> ballots s' = ballots s"
  by (simp add: same_talk_def content_ok_def ballots_def)

lemma comment_or_404_Inr: "comment_or_404 i s = Inr c \<Longrightarrow> c \<in> set (ct_comments s) \<and> cm_id c = i"
  by (auto simp: comment_or_404_def split: option.splits dest: row_get_SomeD)

lemma save_comment_ok:
  assumes "content_ok s" and "c \<in> set (ct_comments s)" and "cm_id c' = cm_id c" and "slot c' = slot c" and "cm_score c' = cm_score c"
  shows "content_ok (save_comment c' s) \<and> ballots (save_comment c' s) = ballots s"
proof -
  let ?cs = "ct_comments s" and ?cs' = "ct_comments (save_comment c' s)"
  have dist: "distinct (map cm_id ?cs)" using assms(1) by (simp add: content_ok_def thread_ok_def)
  have only: "x = c" if "x \<in> set ?cs" "cm_id x = cm_id c" for x
    using that assms(2) dist by (auto simp: distinct_map dest: inj_onD)
  have cs': "?cs' = map (\<lambda>x. if cm_id x = cm_id c then c' else x) ?cs"
    by (simp add: save_comment_def row_put_def rows_update_def assms(3))
  have tags: "map (\<lambda>x. (cm_id x, slot x)) ?cs' = map (\<lambda>x. (cm_id x, slot x)) ?cs"
    using assms(3,4) only by (auto simp: cs')
  have "\<forall>x \<in> set ?cs'. cm_score x = vote_sum (cm_id x) (ct_votes s)"
    using assms(1,2,3,5) by (auto simp: cs' content_ok_def)
  moreover have "ct_votes (save_comment c' s) = ct_votes s" by (simp add: save_comment_def)
  ultimately show ?thesis using assms(1) thread_ok_cong [OF _ tags] ids_of_tags [OF tags] by (simp add: content_ok_def ballots_def)
qed

lemma add_comment_ok:
  assumes "content_ok s" and "api_add_comment now v slug body parent s = Inr (c, s')"
  shows "content_ok s' \<and> ballots s' = ballots s"
proof -
  obtain post author par where run: "create_comment now post author body par s = Inr (c, s')" and mem: "\<forall>q. par = Some q \<longrightarrow> q \<in> set (ct_comments s)"
    using assms(2) by (auto simp: api_add_comment_def split: option.splits dest: comment_or_404_Inr)
  have ok: "thread_ok (ct_comments s)" using assms(1) by (simp add: content_ok_def)
  have new: "thread_ok (ct_comments s')" "ct_comments s' = ct_comments s @ [c]" "cm_score c = 0"
    "cm_id c \<notin> cm_id ` set (ct_comments s)" "ct_votes s' = ct_votes s"
    using create_comment_ok [OF ok run mem] by blast+
  have votes: "votes_ok (cm_id ` set (ct_comments s)) (ct_votes s)" using assms(1) by (simp add: content_ok_def)
  then have "vote_sum (cm_id c) (ct_votes s) = 0" using new(4) by (intro vote_sum_absent) (auto simp: votes_ok_def)
  moreover have "votes_ok (cm_id ` set (ct_comments s')) (ct_votes s)" using votes by (auto simp: votes_ok_def new(2))
  ultimately show ?thesis using assms(1) new by (auto simp: content_ok_def ballots_def)
qed

lemma set_organizations_talk: "set_organizations gs ps = Inr (p, s') \<Longrightarrow> same_talk (snd ps) s'"
  by (cases ps) (simp add: post_talk(3))

lemma api_post_talk:
  "api_create_post slugify v x s = Inr (p, s') \<Longrightarrow> same_talk s s'"
  "api_update_post v slug fs ids s = Inr (p, s') \<Longrightarrow> same_talk s s'"
  "api_publish_post now v slug s = Inr (p, s') \<Longrightarrow> same_talk s s'"
proof -
  show "same_talk s s'" if run: "api_create_post slugify v x s = Inr (p, s')"
  proof -
    obtain u where u: "content_staff v = Inr u" using run by (auto simp: api_create_post_def)
    define made where "made = create_post slugify (pci_title x) (u_id u) (pci_content x) (pci_visibility x) s"
    define ps where "ps = update_post (fst made) (optional_fields x) (snd made)"
    have "same_talk s (snd ps)" unfolding ps_def made_def by (rule same_talk_trans [OF post_talk(1) post_talk(2)])
    moreover have "ps = (p, s') \<or> set_organizations (pci_organization_ids x) ps = Inr (p, s')"
      using run by (auto simp: api_create_post_def u ps_def made_def Let_def case_prod_unfold split: if_splits)
    ultimately show ?thesis using set_organizations_talk same_talk_trans by fastforce
  qed
  show "same_talk s s'" if run: "api_update_post v slug fs ids s = Inr (p, s')"
  proof -
    obtain q where q: "get_post_by_slug slug s = Inr q" using run by (auto simp: api_update_post_def)
    define ps where "ps = update_post q fs s"
    have "same_talk s (snd ps)" unfolding ps_def by (rule post_talk(2))
    moreover have "ps = (p, s') \<or> (\<exists>gs. set_organizations gs ps = Inr (p, s'))"
      using run by (auto simp: api_update_post_def q ps_def Let_def split: option.splits)
    ultimately show ?thesis using set_organizations_talk same_talk_trans by fastforce
  qed
  show "same_talk s s'" if "api_publish_post now v slug s = Inr (p, s')"
    using that by (auto simp: api_publish_post_def publish_post_def Let_def same_talk_def)
qed

lemma content_step_ok:
  assumes "content_ok s" and "content_step l s s'"
  shows "content_ok s' \<and> castable l (ballots s) \<and> ballots s' = cast_move l (ballots s)"
  using assms(2)
proof (cases rule: content_step.cases)
  case (vote now u i val)
  then obtain c where "c \<in> set (ct_comments s)" "cm_id c = i" "vote_comment c (u_id u) val s = Inr s'"
    by (auto simp: api_vote_comment_def content_authenticated_def split: option.splits dest!: comment_or_404_Inr)
  then show ?thesis using vote_comment_ok [OF assms(1)] vote(1) by auto
next
  case (reply now v slug body parent c)
  then show ?thesis using add_comment_ok [OF assms(1)] by simp
next
  case (edit now v i body c)
  then obtain c0 where "c0 \<in> set (ct_comments s)" "s' = save_comment (c0\<lparr>cm_body := body, cm_updated_at := now\<rparr>) s"
    by (auto simp: api_edit_comment_def edit_comment_def Let_def dest!: comment_or_404_Inr)
  then show ?thesis using save_comment_ok [OF assms(1)] edit(1) by (simp add: slot_def)
next
  case (remove now v i c)
  then obtain c0 where "c0 \<in> set (ct_comments s)"
    "s' = save_comment (c0\<lparr>cm_visibility := Com_DELETED, cm_body := ''[deleted]'', cm_updated_at := now\<rparr>) s"
    by (auto simp: api_delete_comment_def delete_comment_def Let_def dest!: comment_or_404_Inr)
  then show ?thesis using save_comment_ok [OF assms(1)] remove(1) by (simp add: slot_def)
next
  case (post slugify v x p)
  then show ?thesis using same_talk_ok [OF api_post_talk(1) assms(1)] by simp
next
  case (change v slug fs ids p)
  then show ?thesis using same_talk_ok [OF api_post_talk(2) assms(1)] by simp
next
  case (publish now v slug p)
  then show ?thesis using same_talk_ok [OF api_post_talk(3) assms(1)] by simp
next
  case (pin p)
  then show ?thesis using same_talk_ok [OF post_talk(4) assms(1)] by simp
next
  case (unpin p)
  then show ?thesis using same_talk_ok [OF post_talk(5) assms(1)] by simp
next
  case (elsewhere d gs ns)
  then have "same_talk s s'" by (simp add: same_talk_def)
  then show ?thesis using same_talk_ok [OF _ assms(1)] elsewhere(1) by simp
qed

interpretation ballots: labelled_simulation content_step content_ok ballots castable cast_move
  using content_step_ok by unfold_locales blast+

section \<open>The comment tree\<close>

lemma comments_listed: "c \<in> set (get_comments_for_post post s) \<longleftrightarrow> c \<in> set (ct_comments s) \<and> cm_post c = post \<and> cm_visibility c = Com_VISIBLE"
  by (auto simp: get_comments_for_post_def)

lemma comments_sorted:
  assumes "thread_ok (ct_comments s)"
  shows "sorted_wrt (<) (map cm_path (get_comments_for_post post s))" and "distinct (map cm_id (get_comments_for_post post s))"
proof -
  have ids: "distinct (map cm_id (ct_comments s))" using assms by (simp add: thread_ok_def)
  have dist: "distinct (get_comments_for_post post s)" using ids by (simp add: get_comments_for_post_def distinct_map)
  moreover have "inj_on cm_path (set (get_comments_for_post post s))"
    by (rule inj_onI) (auto simp: comments_listed intro: path_unique [OF assms])
  ultimately have "distinct (map cm_path (get_comments_for_post post s))" by (simp add: distinct_map)
  moreover have "sorted (map cm_path (get_comments_for_post post s))" by (simp add: get_comments_for_post_def)
  ultimately show "sorted_wrt (<) (map cm_path (get_comments_for_post post s))" by (simp add: strict_sorted_iff)
  have "inj_on cm_id (set (get_comments_for_post post s))"
    by (rule inj_on_subset [of _ "set (ct_comments s)"]) (use ids in \<open>auto simp: distinct_map comments_listed\<close>)
  then show "distinct (map cm_id (get_comments_for_post post s))" using dist by (simp add: distinct_map)
qed

lemma comment_tree_pure:
  assumes "thread_ok (ct_comments s)"
  shows "get_comment_tree post s = Some (pure_forest cm_id cm_parent (get_comments_for_post post s))"
  using read_build_forest [OF comments_sorted(2) [OF assms]] parent_not_self [OF assms]
  by (simp add: get_comment_tree_def Let_def comments_listed)

definition threaded_forest :: "comment node list \<Rightarrow> bool" where
  "threaded_forest F \<longleftrightarrow> (\<forall>t \<in> set F. threaded t \<and> extends [] (node_row t)) \<and> sorted_wrt (<) (map (\<lambda>t. cm_path (node_row t)) F)"

lemma root_in_rows: "t \<in> set F \<Longrightarrow> node_row t \<in> set (forest_rows F)"
proof -
  have "node_row t \<in> set (preorder t)" by (cases t) simp
  then show "t \<in> set F \<Longrightarrow> node_row t \<in> set (forest_rows F)" by (auto simp: forest_rows_def)
qed

text \<open>One more comment, later in the order than the ones before, whose parent is among them if it has one.\<close>

lemma threaded_insert:
  assumes "threaded_forest F" and "\<forall>y \<in> set (forest_rows F). cm_path y < cm_path x"
    and "cm_parent x = None \<Longrightarrow> extends [] x"
    and "\<And>p. cm_parent x = Some p \<Longrightarrow> p \<in> cm_id ` set (forest_rows F)
           \<and> (\<forall>y \<in> set (forest_rows F). cm_id y = p \<longrightarrow> extends (cm_path y @ ''.'') x)"
  shows "threaded_forest (insert_row cm_id cm_parent x F)"
proof (cases "cm_parent x")
  case None
  have "cm_path (node_row t) < cm_path x" if "t \<in> set F" for t using assms(2) root_in_rows [OF that] by blast
  then show ?thesis using assms(1,3) None by (auto simp: threaded_forest_def insert_row_def sorted_wrt_append)
next
  case (Some p)
  note at = assms(4) [OF Some]
  have "threaded (graft cm_id p x t)" if t: "t \<in> set F" for t
  proof (rule threaded_graft)
    have "set (preorder t) \<subseteq> set (forest_rows F)" using t by (auto simp: forest_rows_def)
    then show "\<forall>y \<in> set (preorder t). cm_path y < cm_path x" "\<forall>y \<in> set (preorder t). cm_id y = p \<longrightarrow> extends (cm_path y @ ''.'') x"
      using assms(2) at by blast+
    show "threaded t" using assms(1) t by (simp add: threaded_forest_def)
  qed
  then show ?thesis using assms(1) at Some by (auto simp: threaded_forest_def insert_row_def comp_def)
qed

lemma threaded_prefix:
  assumes ok: "thread_ok (ct_comments s)" and vis: "\<forall>c \<in> set (ct_comments s). cm_post c = post \<longrightarrow> cm_visibility c = Com_VISIBLE"
  shows "get_comments_for_post post s = xs @ ys \<Longrightarrow> threaded_forest (pure_forest cm_id cm_parent xs)"
proof (induction xs arbitrary: ys rule: rev_induct)
  case (snoc x xs)
  let ?F = "pure_forest cm_id cm_parent xs"
  have split: "get_comments_for_post post s = xs @ x # ys" using snoc.prems by simp
  have sorted: "sorted_wrt (<) (map cm_path (xs @ x # ys))" and ids: "distinct (map cm_id (xs @ x # ys))"
    using comments_sorted [OF ok, of post] by (simp_all only: split)
  have rows: "set (forest_rows ?F) = set xs" using mset_pure_forest [of cm_id xs cm_parent] ids by (metis distinct_append map_append mset_eq_setD)
  have x: "x \<in> set (ct_comments s)" "cm_post x = post" using split comments_listed [of x post s] by simp_all
  have F: "threaded_forest ?F" by (rule snoc.IH [OF split])
  have less: "\<forall>y \<in> set (forest_rows ?F). cm_path y < cm_path x" using sorted by (auto simp: rows sorted_wrt_append)
  have "placed (ct_comments s) x" using ok x by (simp add: thread_ok_def)
  then have "threaded_forest (insert_row cm_id cm_parent x ?F)"
  proof (cases rule: placed_cases)
    case (root k)
    then show ?thesis by (intro threaded_insert [OF F less]) (simp_all add: extends_def length_padded)
  next
    case (reply k q)
    have "q \<in> set (xs @ x # ys)" using vis reply(2,3) x(2) comments_listed [of q post s] by (simp add: split)
    moreover have "cm_path q < cm_path x" using prefix_less [of "''.'' @ padded k" "cm_path q"] reply(6) by simp
    moreover have "\<forall>y \<in> set ys. cm_path x < cm_path y" using sorted by (simp add: sorted_wrt_append)
    ultimately have q: "q \<in> set xs" by (auto dest: less_asym)
    have only: "y = q" if "y \<in> set xs" "cm_id y = cm_id q" for y using that q ids by (auto simp: distinct_map dest: inj_onD)
    have "extends (cm_path q @ ''.'') x" using reply(5,6) by (simp add: extends_def length_padded)
    then show ?thesis using reply(1) q only by (intro threaded_insert [OF F less]) (auto simp: rows)
  qed
  then show ?case by (simp add: pure_forest_def)
qed (simp add: pure_forest_def threaded_forest_def)

lemma same_order:
  fixes f :: "'a \<Rightarrow> 'b :: linorder"
  assumes "sorted_wrt (<) (map f xs)" and "sorted_wrt (<) (map f ys)" and "mset xs = mset ys"
  shows "xs = ys"
proof -
  have sets: "set xs = set ys" using assms(3) by (rule mset_eq_setD)
  have "map f xs = map f ys" using assms(1,2) sets by (intro sorted_distinct_set_unique) (auto simp: strict_sorted_iff)
  moreover have "inj_on f (set xs \<union> set ys)" using assms(1) sets by (simp add: strict_sorted_iff distinct_map)
  ultimately show ?thesis by (rule map_inj_on)
qed

lemma all_visible_order:
  assumes "thread_ok (ct_comments s)" and "\<forall>c \<in> set (ct_comments s). cm_post c = post \<longrightarrow> cm_visibility c = Com_VISIBLE"
  shows "forest_rows (pure_forest cm_id cm_parent (get_comments_for_post post s)) = get_comments_for_post post s"
proof -
  let ?F = "pure_forest cm_id cm_parent (get_comments_for_post post s)"
  have "threaded_forest ?F" using threaded_prefix [OF assms, of "get_comments_for_post post s" "[]"] by simp
  then have "sorted_wrt (<) (map cm_path (forest_rows ?F))"
    using siblings_ordered [of ?F "[]"] threaded_ordered by (auto simp: threaded_forest_def)
  then show ?thesis using same_order comments_sorted [OF assms(1)] mset_pure_forest by blast
qed

lemma parents_first:
  assumes ok: "thread_ok (ct_comments s)" and split: "get_comments_for_post post s = us @ x # vs"
    and p: "cm_parent x = Some p" "p \<in> cm_id ` set (get_comments_for_post post s)"
  shows "p \<in> cm_id ` set us"
proof -
  obtain y where y: "y \<in> set (get_comments_for_post post s)" "cm_id y = p" using p(2) by auto
  have x: "x \<in> set (ct_comments s)" using split comments_listed [of x post s] by simp
  then have "placed (ct_comments s) x" using ok by (simp add: thread_ok_def)
  then show ?thesis
  proof (cases rule: placed_cases)
    case (root k)
    then show ?thesis using p(1) by simp
  next
    case (reply k q)
    have "y = q" using y reply(1,2) p(1) ok comments_listed [of y post s] by (auto simp: thread_ok_def distinct_map dest: inj_onD)
    then have "cm_path y < cm_path x" using prefix_less [of "''.'' @ padded k" "cm_path q"] reply(6) by simp
    moreover have "\<forall>z \<in> set vs. cm_path x < cm_path z" using comments_sorted(1) [OF ok, of post] by (simp add: split sorted_wrt_append)
    ultimately have "y \<in> set us" using y(1) by (auto simp: split dest: less_asym)
    then show ?thesis using y(2) by blast
  qed
qed

section \<open>Properties\<close>

definition sample_post :: post where
  "sample_post = (new_post 1 ''hello'' ''Hello'' 7 ''text'' ''text'' ''published'')\<lparr>bp_publish_date := Some 0\<rparr>"

definition sample_blog :: content_site where
  "sample_blog = \<lparr>ct_db = empty_db, ct_organizations = [], ct_posts = [sample_post], ct_comments = [], ct_votes = [], ct_navigation = []\<rparr>"

definition sample_talk :: "nat \<Rightarrow> content_site" where
  "sample_talk n = fold (\<lambda>i s. case i of
       0 \<Rightarrow> (case api_add_comment 5 (Some (new_user 8)) ''hello'' ''first'' None s of Inl e \<Rightarrow> s | Inr (c, s') \<Rightarrow> s')
     | Suc 0 \<Rightarrow> (case api_add_comment 6 (Some (new_user 9)) ''hello'' ''reply'' (Some 1) s of Inl e \<Rightarrow> s | Inr (c, s') \<Rightarrow> s')
     | _ \<Rightarrow> (case api_vote_comment 7 (Some (new_user 9)) 1 1 s of Inl e \<Rightarrow> s | Inr s' \<Rightarrow> s')) [0..<n] sample_blog"

lemma sample_blog_ok: "content_ok sample_blog"
  by (simp add: content_ok_def sample_blog_def thread_ok_def votes_ok_def)

lemma sample_talk_run: "labelled_run content_step sample_blog [Quiet, Quiet, Cast 1 9 1] (sample_talk 3)"
proof -
  have 0: "sample_talk 0 = sample_blog" by (simp add: sample_talk_def)
  have "case api_add_comment 5 (Some (new_user 8)) ''hello'' ''first'' None sample_blog of Inl e \<Rightarrow> False | Inr (c, s') \<Rightarrow> s' = sample_talk 1"
    by code_simp
  then obtain c1 where 1: "api_add_comment 5 (Some (new_user 8)) ''hello'' ''first'' None sample_blog = Inr (c1, sample_talk 1)"
    by (auto split: sum.splits)
  have "case api_add_comment 6 (Some (new_user 9)) ''hello'' ''reply'' (Some 1) (sample_talk 1) of Inl e \<Rightarrow> False | Inr (c, s') \<Rightarrow> s' = sample_talk 2"
    by code_simp
  then obtain c2 where 2: "api_add_comment 6 (Some (new_user 9)) ''hello'' ''reply'' (Some 1) (sample_talk 1) = Inr (c2, sample_talk 2)"
    by (auto split: sum.splits)
  have "case api_vote_comment 7 (Some (new_user 9)) 1 1 (sample_talk 2) of Inl e \<Rightarrow> False | Inr s' \<Rightarrow> s' = sample_talk 3" by code_simp
  then have 3: "api_vote_comment 7 (Some (new_user 9)) 1 1 (sample_talk 2) = Inr (sample_talk 3)" by (auto split: sum.splits)
  have "content_step (Cast 1 9 1) (sample_talk 2) (sample_talk 3)" using content_step.vote [OF 3] by (simp add: new_user_def)
  then show ?thesis using content_step.reply [OF 1] content_step.reply [OF 2] by (meson labelled_run.intros)
qed

text \<open>C30: Votes refine a ballot box: in any history of requests the votes stored are the last vote of every
  user on every comment, whatever was cast, changed or repeated before, and the score shown for a
  comment is the number of users whose last vote is up less the number whose last vote is down.\<close>

theorem votes_refined:
  assumes "content_ok s" and "labelled_run content_step s ls s'"
  shows "machine_run castable cast_move (ballots s) ls = Some (ballots s')
     \<and> (\<forall>c \<in> set (ct_comments s'). cm_score c = int (card {u. ballots s' (cm_id c, u) = Some 1}) - int (card {u. ballots s' (cm_id c, u) = Some (-1)}))"
proof -
  have "content_ok s'" by (rule ballots.run_ok [OF assms(2,1)])
  then show ?thesis using ballots.run_refines [OF assms(2,1)] vote_sum_counts [of "ct_votes s'"]
    by (auto simp: content_ok_def votes_ok_def ballots_def)
qed

theorem votes_refined_witness:
  "ballots (sample_talk 3) (1, 9) = Some 1"
  using votes_refined [OF sample_blog_ok sample_talk_run, THEN conjunct1] by (auto dest: sym split: if_splits)

text \<open>C31: Comment paths stay in order: after any history of requests the comments of a post have different
  paths, a reply's path is its parent's with a number of three digits more, and no path is deeper
  than 10 levels or longer than 39 characters.\<close>

theorem comment_paths_ordered:
  assumes "content_ok s" and "labelled_run content_step s ls s'"
  shows "(\<forall>c \<in> set (ct_comments s'). placed (ct_comments s') c \<and> path_depth (cm_path c) \<le> 10 \<and> length (cm_path c) \<le> 39)
     \<and> (\<forall>c \<in> set (ct_comments s'). \<forall>d \<in> set (ct_comments s'). cm_post c = cm_post d \<and> cm_path c = cm_path d \<longrightarrow> c = d)"
proof -
  have ok: "thread_ok (ct_comments s')" using ballots.run_ok [OF assms(2,1)] by (simp add: content_ok_def)
  have "placed (ct_comments s') c \<and> short_path c" if "c \<in> set (ct_comments s')" for c using ok that by (simp add: thread_ok_def)
  then show ?thesis using path_unique [OF ok] by (fastforce simp: short_path_def max_depth_def)
qed

theorem comment_paths_ordered_witness:
  "map cm_path (ct_comments (sample_talk 3)) = [''001'', ''001.001''] \<and> list_all (\<lambda>c. length (cm_path c) \<le> 39) (ct_comments (sample_talk 3))"
proof -
  have "map cm_path (ct_comments (sample_talk 3)) = [''001'', ''001.001'']" by code_simp
  then show ?thesis using comment_paths_ordered [OF sample_blog_ok sample_talk_run] by (simp add: list_all_iff)
qed

text \<open>C32: The comment tree of a post always builds, with every visible comment in it exactly once: a reply
  is below the comment it answers where that is visible, and among the roots only where it is not;
  and when no comment of the post is hidden or deleted, reading the tree from top to bottom gives the
  comments in the order of their paths.\<close>

theorem comment_tree_complete:
  assumes "content_ok s" and "labelled_run content_step s ls s'"
  shows "\<exists>F. get_comment_tree post s' = Some F \<and> mset (forest_rows F) = mset (get_comments_for_post post s')
     \<and> (\<forall>t \<in> set F. hung cm_id cm_parent t)
     \<and> (\<forall>t \<in> set F. \<forall>p. cm_parent (node_row t) = Some p \<longrightarrow> p \<notin> cm_id ` set (get_comments_for_post post s'))
     \<and> ((\<forall>c \<in> set (ct_comments s'). cm_post c = post \<longrightarrow> cm_visibility c = Com_VISIBLE) \<longrightarrow> forest_rows F = get_comments_for_post post s')"
proof -
  have ok: "thread_ok (ct_comments s')" using ballots.run_ok [OF assms(2,1)] by (simp add: content_ok_def)
  let ?F = "pure_forest cm_id cm_parent (get_comments_for_post post s')"
  have roots: "p \<notin> cm_id ` set (get_comments_for_post post s')" if "t \<in> set ?F" "cm_parent (node_row t) = Some p" for t p
    by (rule pure_forest_roots [THEN conjunct2, OF comments_sorted(2) [OF ok] _ that], rule parents_first [OF ok])
  show ?thesis
  proof (intro exI [of _ ?F] conjI)
    show "get_comment_tree post s' = Some ?F" by (rule comment_tree_pure [OF ok])
    show "mset (forest_rows ?F) = mset (get_comments_for_post post s')" by (rule mset_pure_forest [OF comments_sorted(2) [OF ok]])
    show "\<forall>t \<in> set ?F. hung cm_id cm_parent t" by (rule pure_forest_hung)
    show "\<forall>t \<in> set ?F. \<forall>p. cm_parent (node_row t) = Some p \<longrightarrow> p \<notin> cm_id ` set (get_comments_for_post post s')"
      using roots by blast
  qed (use all_visible_order [OF ok] in blast)
qed

theorem comment_tree_complete_witness:
  "\<exists>F. get_comment_tree 1 (sample_talk 3) = Some F \<and> map cm_path (forest_rows F) = [''001'', ''001.001'']"
proof -
  have "\<forall>c \<in> set (ct_comments (sample_talk 3)). cm_post c = 1 \<longrightarrow> cm_visibility c = Com_VISIBLE"
    "map cm_path (get_comments_for_post 1 (sample_talk 3)) = [''001'', ''001.001'']" by code_simp+
  then show ?thesis using comment_tree_complete [OF sample_blog_ok sample_talk_run, of 1] by metis
qed

text \<open>Setting the visibility of a draft to published does not publish it: without a publication date nobody
  but staff ever sees the post, not even its author, at any instant.\<close>

theorem published_without_date:
  assumes "api_update_post v slug [PF_visibility ''published''] None s = Inr (p, s')" and "bp_publish_date p = None"
    and "distinct (map bp_id (ct_posts s))" and "\<not> u_is_staff u"
  shows "bp_visibility p = Post_PUBLISHED \<and> \<not> can_view_post now (Some u) p s' \<and> \<not> can_view_post now None p s'"
proof -
  obtain q where q: "q \<in> set (ct_posts s)" "p = q\<lparr>bp_visibility := Post_PUBLISHED\<rparr>" "s' = save_post p s"
    using assms(1) by (auto simp: api_update_post_def update_post_def Let_def post_visibility_of_def get_post_by_slug_def
        split: option.splits dest!: first_in)
  have only: "x = p" if "x \<in> set (ct_posts s')" "bp_id x = bp_id p" for x
    using that q(1,2) assms(3) by (auto simp: q(3) save_post_def set_row_put distinct_map split: if_splits)
  then have "\<not> is_published now x" if "x \<in> set (ct_posts s')" "bp_id x = bp_id p" for x
    using only [OF that] assms(2) by (simp add: is_published_def)
  then show ?thesis using assms(4) q(2) by (auto simp: can_view_post_def get_visible_posts_def list_ex_iff)
qed

theorem published_without_date_witness:
  "\<not> can_view_post 9 (Some (new_user 7)) (sample_post\<lparr>bp_publish_date := None\<rparr>)
      (sample_blog\<lparr>ct_posts := [sample_post\<lparr>bp_publish_date := None\<rparr>]\<rparr>)"
proof -
  let ?draft = "sample_post\<lparr>bp_visibility := Post_DRAFT, bp_publish_date := None\<rparr>"
  let ?p = "sample_post\<lparr>bp_publish_date := None\<rparr>"
  have "api_update_post (Some (new_user 7)) ''hello'' [PF_visibility ''published''] None (sample_blog\<lparr>ct_posts := [?draft]\<rparr>)
      = Inr (?p, sample_blog\<lparr>ct_posts := [?p]\<rparr>)" by code_simp
  from published_without_date [OF this] show ?thesis by (simp add: sample_blog_def new_user_def)
qed

text \<open>A derived summary has at most 280 characters, ends in three dots when it was cut, and is the content
  with its white space collapsed when that fits.\<close>

theorem summary_fits:
  "length (derive_summary content 280) \<le> 280
     \<and> (if length (collapse content) \<le> 280 then derive_summary content 280 = collapse content
        else \<exists>t. derive_summary content 280 = t @ ''...'' \<and> take (length t) (collapse content) = t)"
proof -
  have cut: "\<exists>k \<le> length s. rstrip s = take k s" for s
  proof -
    have "s = rstrip s @ rev (takeWhile is_space (rev s))"
      by (metis rstrip_def rev_append rev_rev_ident takeWhile_dropWhile_id)
    then have "rstrip s = take (length (rstrip s)) s" "length (rstrip s) \<le> length s" by (metis append_eq_conv_conj, metis length_append le_add1)
    then show ?thesis by blast
  qed
  obtain k where "k \<le> length (take 277 (collapse content))" "rstrip (take 277 (collapse content)) = take k (take 277 (collapse content))"
    using cut by blast
  then show ?thesis by (auto simp: derive_summary_def Let_def intro!: exI [of _ "take k (take 277 (collapse content))"])
qed

end
