(* ===== verification/Tags.thy ===== *)
theory Tags
  imports Accounts
begin

text \<open>
  Tags: \<open>apps/tags/services/tag_service.py\<close> and \<open>apps/tags/api/router.py\<close>. The relation of tags and
  problems is a column of the tag rows. Django's \<open>slugify\<close> is an argument.
\<close>

section \<open>Tables\<close>

record tag =
  tg_id :: nat
  tg_name :: string
  tg_code :: string
  tg_slug :: string
  tg_problems :: "nat list"

record solution =
  sl_id :: nat
  sl_problem :: nat
  sl_author :: nat
  sl_content :: string
  sl_is_public :: bool
  sl_verdict :: "string option"
  sl_created_at :: time

text \<open>The tables of problems, of the tags on them and of the solutions to them.\<close>

record catalog =
  ca_db :: db
  ca_tags :: "tag list"
  ca_solutions :: "solution list"

section \<open>The service\<close>

definition tag_by_code :: "string \<Rightarrow> catalog \<Rightarrow> tag option" where
  "tag_by_code code s = List.find (\<lambda>t. tg_code t = code) (ca_tags s)"

text \<open>Names are unique: creating a tag whose name another code has is refused by the database.\<close>

definition get_or_create_tag :: "(string \<Rightarrow> string) \<Rightarrow> string \<Rightarrow> catalog \<Rightarrow> (tag \<times> catalog) result" where
  "get_or_create_tag slugify name s =
     (let normalized_name = strip name; tag_code = slugify normalized_name
      in raise_if (tag_code = []) (ValueError ''Tag name cannot produce an empty slug.'')
        (case tag_by_code tag_code s of
           Some t \<Rightarrow> Inr (t, s)
         | None \<Rightarrow>
             raise_if (list_ex (\<lambda>t. tg_name t = normalized_name) (ca_tags s)) (IntegrityError ''tags_tag.name'')
               (let t = \<lparr>tg_id = fresh_key tg_id (ca_tags s), tg_name = normalized_name, tg_code = tag_code,
                         tg_slug = save_slug slugify [] tag_code (map tg_slug (ca_tags s)), tg_problems = []\<rparr>
                in Inr (t, s\<lparr>ca_tags := ca_tags s @ [t]\<rparr>))))"

text \<open>The loop of \<open>tag_problem\<close> runs outside a transaction: tags created before an exception stay.\<close>

fun collect_tags :: "(string \<Rightarrow> string) \<Rightarrow> string list \<Rightarrow> catalog \<Rightarrow> tag list result \<times> catalog" where
  "collect_tags slugify [] s = (Inr [], s)"
| "collect_tags slugify (name # names) s =
     (if strip name = [] then collect_tags slugify names s
      else case get_or_create_tag slugify name s of
        Inl e \<Rightarrow> (Inl e, s)
      | Inr (t, s') \<Rightarrow> (case collect_tags slugify names s' of (r, s'') \<Rightarrow> (andThen r (\<lambda>ts. Inr (t # ts)), s'')))"

definition add_problem_to :: "nat \<Rightarrow> tag \<Rightarrow> tag" where
  "add_problem_to pid t = (if pid \<in> set (tg_problems t) then t else t\<lparr>tg_problems := tg_problems t @ [pid]\<rparr>)"

definition tag_problem :: "(string \<Rightarrow> string) \<Rightarrow> nat \<Rightarrow> string list \<Rightarrow> catalog \<Rightarrow> unit result \<times> catalog" where
  "tag_problem slugify pid tag_names s =
     (case collect_tags slugify tag_names s of
        (Inl e, s') \<Rightarrow> (Inl e, s')
      | (Inr tags, s') \<Rightarrow>
          (Inr (), s'\<lparr>ca_tags := rows_update (\<lambda>t. tg_id t \<in> tg_id ` set tags) (add_problem_to pid) (ca_tags s')\<rparr>))"

definition untag_problem :: "nat \<Rightarrow> string list \<Rightarrow> catalog \<Rightarrow> catalog" where
  "untag_problem pid tag_names s =
     (let cleaned_names = filter (\<lambda>n. n \<noteq> []) (map strip tag_names)
      in if cleaned_names = [] then s
         else s\<lparr>ca_tags := rows_update (\<lambda>t. tg_name t \<in> set cleaned_names)
                 (\<lambda>t. t\<lparr>tg_problems := removeAll pid (tg_problems t)\<rparr>) (ca_tags s)\<rparr>)"

definition problem_total :: "viewer \<Rightarrow> catalog \<Rightarrow> tag \<Rightarrow> nat" where
  "problem_total v s t = length (filter (\<lambda>p. p_id p \<in> set (tg_problems t)) (get_visible_problems v (ca_db s)))"

definition get_popular_tags :: "nat \<Rightarrow> viewer \<Rightarrow> catalog \<Rightarrow> (tag \<times> nat) list" where
  "get_popular_tags limit v s =
     take limit (sort_key (\<lambda>(t, n). (- int n, tg_name t)) (map (\<lambda>t. (t, problem_total v s t)) (ca_tags s)))"

definition get_problems_by_tag :: "string \<Rightarrow> viewer \<Rightarrow> catalog \<Rightarrow> problem list result" where
  "get_problems_by_tag tag_code v s =
     (case tag_by_code tag_code s of
        None \<Rightarrow> Inl (NotFoundError (''Tag '' @ [CHR 0x27] @ tag_code @ [CHR 0x27] @ '' does not exist.''))
      | Some t \<Rightarrow> Inr (sort_key p_code (filter (\<lambda>p. p_id p \<in> set (tg_problems t)) (get_visible_problems v (ca_db s)))))"

section \<open>The endpoints\<close>

record tag_out =
  to_name :: string
  to_code :: string
  to_problem_count :: nat

definition serialize_tag :: "tag \<Rightarrow> nat \<Rightarrow> tag_out" where
  "serialize_tag t n = \<lparr>to_name = tg_name t, to_code = tg_code t, to_problem_count = n\<rparr>"

definition api_list_tags :: "viewer \<Rightarrow> catalog \<Rightarrow> tag_out list" where
  "api_list_tags v s = map (\<lambda>(t, n). serialize_tag t n) (get_popular_tags 200 v s)"

definition api_tag_detail :: "viewer \<Rightarrow> string \<Rightarrow> catalog \<Rightarrow> (tag_out \<times> problem list) result" where
  "api_tag_detail v code s =
     (case tag_by_code code s of
        None \<Rightarrow> Inl not_found
      | Some t \<Rightarrow> andThen (get_problems_by_tag code v s) (\<lambda>ps. Inr (serialize_tag t (length ps), ps)))"

definition api_create_tag :: "(string \<Rightarrow> string) \<Rightarrow> viewer \<Rightarrow> string \<Rightarrow> catalog \<Rightarrow> (tag_out \<times> catalog) result" where
  "api_create_tag slugify v name s =
     raise_if (case v of None \<Rightarrow> True | Some u \<Rightarrow> \<not> u_is_staff u) (PermissionDeniedError ''Only staff users can create tags.'')
       (andThen (get_or_create_tag slugify name s) (\<lambda>(t, s'). Inr (serialize_tag t (length (tg_problems t)), s')))"

section \<open>Properties\<close>

definition shown_tag :: "problem list \<Rightarrow> tag \<Rightarrow> string \<times> string \<times> bool list" where
  "shown_tag ps t = (tg_name t, tg_code t, map (\<lambda>p. p_id p \<in> set (tg_problems t)) ps)"

lemma filter_length_bools: "length (filter f xs) = length (filter id (map f xs))"
  by (induction xs) auto

lemma insort_key_map: "insort_key f (g x) (map g ys) = map g (insort_key (\<lambda>y. f (g y)) x ys)"
  by (induction ys) auto

lemma sort_key_map: "sort_key f (map g xs) = map g (sort_key (\<lambda>y. f (g y)) xs)"
  by (induction xs) (simp_all add: insort_key_map)

text \<open>The tag list gives away nothing about problems a viewer cannot see: two sites whose tags have the
  same names and codes, and are on the same problems among those the viewer sees, give him the
  same list with the same counts.\<close>

theorem tag_counts_private:
  assumes "get_visible_problems v (ca_db s) = ps" and "get_visible_problems v (ca_db s') = ps"
    and "map (shown_tag ps) (ca_tags s) = map (shown_tag ps) (ca_tags s')"
  shows "api_list_tags v s = api_list_tags v s'"
proof -
  have out: "api_list_tags v s = map (\<lambda>(a, b, bs). \<lparr>to_name = a, to_code = b, to_problem_count = length (filter id bs)\<rparr>)
      (take 200 (sort_key (\<lambda>(a, b, bs). (- int (length (filter id bs)), a)) (map (shown_tag ps) (ca_tags s))))"
    if "get_visible_problems v (ca_db s) = ps" for s
  proof -
    have "problem_total v s t = length (filter id (map (\<lambda>p. p_id p \<in> set (tg_problems t)) ps))" for t
      using that filter_length_bools [of "\<lambda>p. p_id p \<in> set (tg_problems t)" ps] by (simp add: problem_total_def)
    then show ?thesis
      by (simp add: api_list_tags_def get_popular_tags_def sort_key_map take_map comp_def split_beta shown_tag_def serialize_tag_def)
  qed
  show ?thesis unfolding out [OF assms(1)] out [OF assms(2)] assms(3) ..
qed

definition sample_tag :: tag where
  "sample_tag = \<lparr>tg_id = 1, tg_name = ''graphs'', tg_code = ''graphs'', tg_slug = ''graphs'', tg_problems = [5]\<rparr>"

definition sample_catalog :: "nat list \<Rightarrow> catalog" where
  "sample_catalog ids = \<lparr>ca_db = empty_db\<lparr>db_problems := [(new_problem 5)\<lparr>p_visibility := Prob_PUBLIC\<rparr>, new_problem 6]\<rparr>,
     ca_tags = [sample_tag\<lparr>tg_problems := ids\<rparr>], ca_solutions = []\<rparr>"

theorem tag_counts_private_witness:
  "api_list_tags (Some (new_user 8)) (sample_catalog [5]) = api_list_tags (Some (new_user 8)) (sample_catalog [5, 6])"
  by (rule tag_counts_private) code_simp+

lemma find_append: "List.find P (xs @ ys) = (case List.find P xs of None \<Rightarrow> List.find P ys | Some x \<Rightarrow> Some x)"
  by (induction xs) auto

text \<open>Asking twice for a tag gives the same tag and changes nothing the second time, also under another
  name of the same slug: the first name stays.\<close>

theorem tag_once:
  assumes "get_or_create_tag slugify name s = Inr (t, s')" and "slugify (strip name') = slugify (strip name)"
  shows "get_or_create_tag slugify name' s' = Inr (t, s') \<and> tag_by_code (slugify (strip name)) s' = Some t"
  using assms by (auto simp: get_or_create_tag_def tag_by_code_def Let_def find_append split: option.splits if_splits)

definition letters_only :: "string \<Rightarrow> string" where
  "letters_only s = filter slug_char (lower s)"

theorem tag_once_witness:
  "\<exists>t s'. get_or_create_tag letters_only ''C++'' (sample_catalog []) = Inr (t, s') \<and> tg_name t = ''C++''
     \<and> get_or_create_tag letters_only ''C#'' s' = Inr (t, s')"
proof -
  have "case get_or_create_tag letters_only ''C++'' (sample_catalog []) of Inl e \<Rightarrow> False | Inr (t, s') \<Rightarrow> tg_name t = ''C++''" by code_simp
  then obtain t s' where run: "get_or_create_tag letters_only ''C++'' (sample_catalog []) = Inr (t, s')" "tg_name t = ''C++''"
    by (auto split: sum.splits)
  have "letters_only (strip ''C#'') = letters_only (strip ''C++'')" by code_simp
  from tag_once [OF run(1) this] run show ?thesis by blast
qed

text \<open>Taking a tag off a problem by the name it was put on with does nothing when the tag is stored under
  another name of the same slug.\<close>

theorem untag_misses:
  "let s1 = snd (tag_problem letters_only 6 [''Graphs''] (sample_catalog [5])); s2 = untag_problem 6 [''Graphs''] s1
   in map tg_problems (ca_tags s1) = [[5, 6]] \<and> s2 = s1"
  by code_simp

end
