(* ===== verification/Problems.thy ===== *)
theory Problems
  imports Tags Submissions "HOL-Library.Sublist"
begin

text \<open>
  The problem catalogue: creation and update in \<open>problem_service.py\<close>, the \<open>types\<close> of the \<open>Problem\<close> model and
  the endpoints of \<open>problems/api/router.py\<close>, over the tables \<open>catalog\<close>. The columns a request fills are
  checked against their widths, which PostgreSQL does. A row without a wanted key sorts as PostgreSQL
  sorts \<open>NULL\<close>: last, and first in descending order; the order of rows with the same key, which the database leaves
  open, is the parameter \<open>ties\<close> of each query. The histories of requests keep the table well-typed (\<open>catalog_ok\<close>).
\<close>

section \<open>Visibility codes\<close>

definition problem_visibility_of :: "string \<Rightarrow> problem_visibility" where
  "problem_visibility_of s = (if s = ''private'' then Prob_PRIVATE else if s = ''unlisted'' then Prob_UNLISTED
     else if s = ''public'' then Prob_PUBLIC else if s = ''contest_only'' then Prob_CONTEST_ONLY else Prob_OTHER s)"

fun problem_visibility_code :: "problem_visibility \<Rightarrow> string" where
  "problem_visibility_code Prob_PRIVATE = ''private''"
| "problem_visibility_code Prob_UNLISTED = ''unlisted''"
| "problem_visibility_code Prob_PUBLIC = ''public''"
| "problem_visibility_code Prob_CONTEST_ONLY = ''contest_only''"
| "problem_visibility_code (Prob_OTHER s) = s"

section \<open>Problem types (\<open>Problem.types\<close>)\<close>

text \<open>\<open>int(x or 0)\<close>\<close>

fun int_or_zero :: "json \<Rightarrow> int result" where
  "int_or_zero JNull = Inr 0"
| "int_or_zero (JBool b) = Inr (if b then 1 else 0)"
| "int_or_zero (JInt n) = Inr n"
| "int_or_zero (JFloat x) = Inr (if x < 0 then \<lceil>x\<rceil> else \<lfloor>x\<rfloor>)"
| "int_or_zero (JStr s) = (if s = [] then Inr 0 else case py_int s of
     None \<Rightarrow> Inl (ValueError ''invalid literal for int()'') | Some n \<Rightarrow> Inr n)"
| "int_or_zero (JArr xs) = (if xs = [] then Inr 0 else Inl (TypeError ''int() argument must be a string or a number''))"
| "int_or_zero (JObj xs) = (if xs = [] then Inr 0 else Inl (TypeError ''int() argument must be a string or a number''))"

definition checker_type :: "manifest \<Rightarrow> json option" where
  "checker_type m = (case m_checker m of Some (JObj kvs) \<Rightarrow> map_of kvs ''type'' | _ \<Rightarrow> None)"

definition problem_types :: "db \<Rightarrow> problem \<Rightarrow> string list result" where
  "problem_types d p =
     (let base = ''standard'' # (if p_partial_score p then [''multi_step''] else [])
      in case active_package (p_id p) d of
           None \<Rightarrow> Inr (sort (remdups base))
         | Some k \<Rightarrow>
             (let m = pk_manifest k; t = checker_type m
              in andThen (int_or_zero (get_or (m_output_prefix m) (JInt 0))) (\<lambda>prefix.
                 Inr (sort (remdups (base @ (if t = Some (JStr ''interactive'') then [''interactive''] else [])
                   @ (if t = Some (JStr ''communication'') then [''communication''] else [])
                   @ (if prefix > 0 then [''output_only''] else [])))))))"

section \<open>Creating and updating\<close>

text \<open>\<open>ProblemCreateIn\<close>; an option is a field that may be missing.\<close>

record problem_create_in =
  pci_code :: string
  pci_name :: string
  pci_description :: string
  pci_difficulty :: "string option"
  pci_points :: rat
  pci_partial_score :: bool
  pci_short_circuit :: bool
  pci_source :: string
  pci_visibility :: string
  pci_summary :: string
  pci_time_limit :: "rat option"
  pci_memory_limit :: "int option"

text \<open>What the columns of a row hold, whatever is written: \<open>varchar\<close> widths and a non-negative integer.\<close>

definition memory_max :: int where
  "memory_max = 2147483647"

definition fits :: "problem \<Rightarrow> bool" where
  "fits p \<longleftrightarrow> length (p_code p) \<le> 32 \<and> length (p_name p) \<le> 255
     \<and> (case p_difficulty p of None \<Rightarrow> True | Some s \<Rightarrow> length s \<le> 8) \<and> length (p_source p) \<le> 255
     \<and> length (problem_visibility_code (p_visibility p)) \<le> 16 \<and> p_memory_limit p \<le> memory_max"

text \<open>An \<open>INSERT\<close> or \<open>UPDATE\<close> of the row: values that do not fit, then the check and unique constraints.\<close>

definition store_checks :: "problem list \<Rightarrow> problem \<Rightarrow> 'a result \<Rightarrow> 'a result" where
  "store_checks others p r =
     raise_if (\<not> fits p) (DataError ''value out of range for the column'')
    (raise_if (p_memory_limit p < 0) (IntegrityError ''problems_problem.memory_limit'')
    (raise_if (list_ex (\<lambda>q. p_code q = p_code p) others) (IntegrityError ''problems_problem.code'') r))"

definition created_problem :: "(string \<Rightarrow> string) \<Rightarrow> nat \<Rightarrow> problem_create_in \<Rightarrow> catalog \<Rightarrow> problem" where
  "created_problem slugify author x s =
     \<lparr>p_id = fresh_key p_id (db_problems (ca_db s)), p_code = pci_code x, p_authors = [author], p_curators = [],
      p_testers = [], p_time_limit = get_or (pci_time_limit x) 2, p_memory_limit = get_or (pci_memory_limit x) 262144,
      p_points = pci_points x, p_partial_score = pci_partial_score x, p_short_circuit = pci_short_circuit x,
      p_languages_allowed = [], p_visibility = problem_visibility_of (pci_visibility x), p_is_organization_private = False,
      p_organizations = [], p_name = pci_name x,
      p_slug = save_slug slugify [] (pci_code x) (map p_slug (db_problems (ca_db s))),
      p_description = pci_description x, p_difficulty = pci_difficulty x, p_source = pci_source x, p_summary = pci_summary x\<rparr>"

definition problem_event :: "string \<Rightarrow> problem \<Rightarrow> event" where
  "problem_event ty p = \<lparr>ev_type = ty, ev_payload = [(''problem_id'', JInt (int (p_id p))), (''code'', JStr (p_code p))],
     ev_group = None\<rparr>"

definition publish_problem :: "string \<Rightarrow> problem \<Rightarrow> catalog \<Rightarrow> catalog" where
  "publish_problem ty p s = s\<lparr>ca_db := publish (problem_event ty p) (ca_db s)\<rparr>"

definition create_problem ::
    "(string \<Rightarrow> string) \<Rightarrow> nat \<Rightarrow> problem_create_in \<Rightarrow> catalog \<Rightarrow> (problem \<times> catalog) result" where
  "create_problem slugify author x s =
     (let p = created_problem slugify author x s
      in store_checks (db_problems (ca_db s)) p
           (Inr (p, publish_problem ''problem.created'' p
                      (s\<lparr>ca_db := (ca_db s)\<lparr>db_problems := db_problems (ca_db s) @ [p]\<rparr>\<rparr>))))"

text \<open>One item of \<open>payload.model_dump(exclude_none=True)\<close> for \<open>ProblemUpdateIn\<close>.\<close>

datatype problem_field =
    UF_name string
  | UF_description string
  | UF_difficulty string
  | UF_points rat
  | UF_partial_score bool
  | UF_short_circuit bool
  | UF_source string
  | UF_visibility string
  | UF_summary string
  | UF_time_limit rat
  | UF_memory_limit int

fun set_problem_field :: "problem_field \<Rightarrow> problem \<Rightarrow> problem" where
  "set_problem_field (UF_name x) p = p\<lparr>p_name := x\<rparr>"
| "set_problem_field (UF_description x) p = p\<lparr>p_description := x\<rparr>"
| "set_problem_field (UF_difficulty x) p = p\<lparr>p_difficulty := Some x\<rparr>"
| "set_problem_field (UF_points x) p = p\<lparr>p_points := x\<rparr>"
| "set_problem_field (UF_partial_score x) p = p\<lparr>p_partial_score := x\<rparr>"
| "set_problem_field (UF_short_circuit x) p = p\<lparr>p_short_circuit := x\<rparr>"
| "set_problem_field (UF_source x) p = p\<lparr>p_source := x\<rparr>"
| "set_problem_field (UF_visibility x) p = p\<lparr>p_visibility := problem_visibility_of x\<rparr>"
| "set_problem_field (UF_summary x) p = p\<lparr>p_summary := x\<rparr>"
| "set_problem_field (UF_time_limit x) p = p\<lparr>p_time_limit := x\<rparr>"
| "set_problem_field (UF_memory_limit x) p = p\<lparr>p_memory_limit := x\<rparr>"

text \<open>The code is not among the fields, so the save cannot clash with another row.\<close>

definition update_problem :: "problem \<Rightarrow> problem_field list \<Rightarrow> catalog \<Rightarrow> (problem \<times> catalog) result" where
  "update_problem p fs s =
     (let p' = fold set_problem_field fs p
      in store_checks [] p'
           (Inr (p', publish_problem ''problem.updated'' p'
                       (s\<lparr>ca_db := (ca_db s)\<lparr>db_problems := row_put p_id p' (db_problems (ca_db s))\<rparr>\<rparr>))))"

section \<open>Lists, details and statistics\<close>

record problem_list_out =
  plo_code :: string
  plo_slug :: string
  plo_name :: string
  plo_difficulty :: "string option"
  plo_points :: rat
  plo_visibility :: string
  plo_is_public :: bool

definition serialize_problem_list :: "problem \<Rightarrow> problem_list_out" where
  "serialize_problem_list p = \<lparr>plo_code = p_code p, plo_slug = p_slug p, plo_name = p_name p,
     plo_difficulty = p_difficulty p, plo_points = p_points p,
     plo_visibility = problem_visibility_code (p_visibility p), plo_is_public = is_public p\<rparr>"

text \<open>\<open>ProblemDetailOut\<close>: the row and its types.\<close>

record problem_detail =
  pd_problem :: problem
  pd_types :: "string list"

definition serialize_problem_detail :: "problem \<Rightarrow> catalog \<Rightarrow> problem_detail result" where
  "serialize_problem_detail p s =
     andThen (problem_types (ca_db s) p) (\<lambda>ts. Inr \<lparr>pd_problem = p, pd_types = ts\<rparr>)"

text \<open>The query parameters of the list.\<close>

record problem_query =
  pq_difficulty :: "string option"
  pq_min_points :: "rat option"
  pq_max_points :: "rat option"
  pq_search :: "string option"
  pq_tag :: "string option"
  pq_source :: "string option"
  pq_solved :: bool
  pq_ordering :: string

text \<open>\<open>__icontains\<close>\<close>

definition icontains :: "string \<Rightarrow> string \<Rightarrow> bool" where
  "icontains needle hay = sublist (lower needle) (lower hay)"

text \<open>A parameter that is missing or empty filters nothing.\<close>

definition given :: "string option \<Rightarrow> (string \<Rightarrow> bool) \<Rightarrow> bool" where
  "given x f = (case x of None \<Rightarrow> True | Some s \<Rightarrow> if s = [] then True else f s)"

definition has_solved :: "viewer \<Rightarrow> db \<Rightarrow> problem \<Rightarrow> bool" where
  "has_solved v d p = (case v of None \<Rightarrow> True
     | Some u \<Rightarrow> list_ex (\<lambda>x. s_problem x = p_id p \<and> s_user x = u_id u \<and> s_result x = Some AC) (db_submissions d))"

definition matches :: "viewer \<Rightarrow> problem_query \<Rightarrow> catalog \<Rightarrow> problem \<Rightarrow> bool" where
  "matches v q s p \<longleftrightarrow>
     given (pq_difficulty q) (\<lambda>x. p_difficulty p = Some x)
     \<and> (case pq_min_points q of None \<Rightarrow> True | Some x \<Rightarrow> p_points p \<ge> x)
     \<and> (case pq_max_points q of None \<Rightarrow> True | Some x \<Rightarrow> p_points p \<le> x)
     \<and> given (pq_search q) (\<lambda>x. icontains x (p_code p) \<or> icontains x (p_name p) \<or> icontains x (p_summary p))
     \<and> given (pq_tag q) (\<lambda>x. list_ex (\<lambda>t. tg_code t = x \<and> p_id p \<in> set (tg_problems t)) (ca_tags s))
     \<and> given (pq_source q) (\<lambda>x. icontains x (p_source p))
     \<and> (pq_solved q \<longrightarrow> has_solved v (ca_db s) p)"

definition difficulty_key :: "problem \<Rightarrow> bool \<times> string" where
  "difficulty_key p = (case p_difficulty p of None \<Rightarrow> (True, []) | Some x \<Rightarrow> (False, x))"

text \<open>\<open>order_by\<close> of one query: \<open>ties\<close> is the order in which the database hands out the rows of that query
  before it sorts them, which decides the order of rows with the same key.\<close>

definition order_problems :: "(problem list \<Rightarrow> problem list) \<Rightarrow> string \<Rightarrow> problem list \<Rightarrow> problem list" where
  "order_problems ties ord qs =
     (let ps = ties qs
      in if ord = ''-code'' then rev (sort_key p_code ps)
         else if ord = ''points'' then sort_key p_points ps
         else if ord = ''-points'' then rev (sort_key p_points ps)
         else if ord = ''difficulty'' then sort_key difficulty_key ps
         else if ord = ''-difficulty'' then rev (sort_key difficulty_key ps)
         else sort_key p_code ps)"

definition list_problems ::
    "(problem list \<Rightarrow> problem list) \<Rightarrow> viewer \<Rightarrow> problem_query \<Rightarrow> int \<Rightarrow> int \<Rightarrow> catalog \<Rightarrow> problem_list_out page" where
  "list_problems ties v q page page_size s =
     (let pg = paginate_queryset (order_problems ties (pq_ordering q) (filter (matches v q s) (get_visible_problems v (ca_db s))))
                 page page_size
      in \<lparr>pg_count = pg_count pg, pg_page = pg_page pg, pg_page_size = pg_page_size pg, pg_total_pages = pg_total_pages pg,
          pg_results = map serialize_problem_list (pg_results pg)\<rparr>)"

record problem_stats_out =
  pso_statistics :: problem_statistics
  pso_total_public_solutions :: nat

definition total_public_solutions :: "problem \<Rightarrow> catalog \<Rightarrow> nat" where
  "total_public_solutions p s = length (filter (\<lambda>x. sl_problem x = p_id p \<and> sl_is_public x) (ca_solutions s))"

section \<open>The endpoints\<close>

text \<open>The service commits before the response is built, so a response that fails leaves the change behind.\<close>

definition api_create_problem ::
    "(string \<Rightarrow> string) \<Rightarrow> viewer \<Rightarrow> problem_create_in \<Rightarrow> catalog \<Rightarrow> problem_detail result \<times> catalog" where
  "api_create_problem slugify v x s =
     (case v of
        None \<Rightarrow> (Inl (PermissionDeniedError ''Authentication required.''), s)
      | Some u \<Rightarrow> (case create_problem slugify (u_id u) x s of
          Inl e \<Rightarrow> (Inl e, s)
        | Inr (p, s') \<Rightarrow> (serialize_problem_detail p s', s')))"

definition no_problem_access :: error where
  "no_problem_access = PermissionDeniedError ''You do not have access to this problem.''"

definition get_problem_detail :: "viewer \<Rightarrow> string \<Rightarrow> catalog \<Rightarrow> problem_detail result" where
  "get_problem_detail v code s =
     andThen (get_problem_by_code code (ca_db s)) (\<lambda>p.
     raise_if (\<not> can_see_problem v p) no_problem_access (serialize_problem_detail p s))"

definition api_update_problem ::
    "viewer \<Rightarrow> string \<Rightarrow> problem_field list \<Rightarrow> catalog \<Rightarrow> problem_detail result \<times> catalog" where
  "api_update_problem v code fs s =
     (case get_problem_by_code code (ca_db s) of
        Inl e \<Rightarrow> (Inl e, s)
      | Inr p \<Rightarrow>
          if \<not> can_edit_problem v p
          then (Inl (PermissionDeniedError ''You do not have permission to edit this problem.''), s)
          else if fs = [] then (serialize_problem_detail p s, s)
          else (case update_problem p fs s of
                  Inl e \<Rightarrow> (Inl e, s)
                | Inr (p', s') \<Rightarrow> (serialize_problem_detail p' s', s')))"

definition api_problem_statistics :: "viewer \<Rightarrow> string \<Rightarrow> catalog \<Rightarrow> problem_stats_out result" where
  "api_problem_statistics v code s =
     andThen (get_problem_by_code code (ca_db s)) (\<lambda>p.
     raise_if (\<not> can_see_problem v p) no_problem_access
       (Inr \<lparr>pso_statistics = get_problem_statistics p (ca_db s), pso_total_public_solutions = total_public_solutions p s\<rparr>))"

definition list_solutions :: "viewer \<Rightarrow> string \<Rightarrow> catalog \<Rightarrow> solution list result" where
  "list_solutions v code s =
     andThen (get_problem_by_code code (ca_db s)) (\<lambda>p.
     raise_if (\<not> can_see_problem v p) no_problem_access
       (Inr (sort_key (\<lambda>x. - sl_created_at x)
          (filter (\<lambda>x. sl_problem x = p_id p \<and> (can_edit_problem v p \<or> sl_is_public x)) (ca_solutions s)))))"

record solution_in =
  sli_content :: string
  sli_is_public :: bool
  sli_verdict :: "string option"

definition create_solution :: "time \<Rightarrow> viewer \<Rightarrow> string \<Rightarrow> solution_in \<Rightarrow> catalog \<Rightarrow> (solution \<times> catalog) result" where
  "create_solution now v code x s =
     andThen (get_problem_by_code code (ca_db s)) (\<lambda>p.
     raise_if (\<not> can_see_problem v p) no_problem_access
     (raise_if (\<not> can_edit_problem v p) (PermissionDeniedError ''Only problem maintainers can publish solutions.'')
     (case v of
        None \<Rightarrow> Inl (ValueError ''Solution.author must be a User instance.'')
      | Some u \<Rightarrow>
          raise_if (case sli_verdict x of None \<Rightarrow> False | Some w \<Rightarrow> length w > 32) (DataError ''value too long for type character varying(32)'')
          (let y = \<lparr>sl_id = fresh_key sl_id (ca_solutions s), sl_problem = p_id p, sl_author = u_id u, sl_content = sli_content x,
                    sl_is_public = sli_is_public x, sl_verdict = sli_verdict x, sl_created_at = now\<rparr>
           in Inr (y, s\<lparr>ca_solutions := ca_solutions s @ [y]\<rparr>)))))"

section \<open>The catalogue stays well-typed\<close>

text \<open>What the columns, keys and foreign keys of the tables promise.\<close>

definition problems_ok :: "problem list \<Rightarrow> bool" where
  "problems_ok ps \<longleftrightarrow> distinct (map p_id ps) \<and> distinct (map p_code ps) \<and> distinct (map p_slug ps)
     \<and> (\<forall>p \<in> set ps. fits p \<and> 0 \<le> p_memory_limit p \<and> p_authors p \<noteq> [])"

definition tags_ok :: "nat set \<Rightarrow> tag list \<Rightarrow> bool" where
  "tags_ok ids ts \<longleftrightarrow> distinct (map tg_id ts) \<and> distinct (map tg_code ts) \<and> distinct (map tg_name ts) \<and> distinct (map tg_slug ts)
     \<and> (\<forall>t \<in> set ts. tg_code t \<noteq> [] \<and> distinct (tg_problems t) \<and> set (tg_problems t) \<subseteq> ids)"

definition solutions_ok :: "nat set \<Rightarrow> solution list \<Rightarrow> bool" where
  "solutions_ok ids xs \<longleftrightarrow> distinct (map sl_id xs) \<and> sl_problem ` set xs \<subseteq> ids"

abbreviation problem_ids :: "catalog \<Rightarrow> nat set" where
  "problem_ids s \<equiv> p_id ` set (db_problems (ca_db s))"

definition catalog_ok :: "catalog \<Rightarrow> bool" where
  "catalog_ok s \<longleftrightarrow> problems_ok (db_problems (ca_db s)) \<and> pk_problem ` set (db_packages (ca_db s)) \<subseteq> problem_ids s
     \<and> tags_ok (problem_ids s) (ca_tags s) \<and> solutions_ok (problem_ids s) (ca_solutions s)"

text \<open>One request or service call; \<open>elsewhere\<close> is any change of the other tables, with the packages of
  problems that exist.\<close>

inductive catalog_step :: "(string \<Rightarrow> string) \<Rightarrow> catalog \<Rightarrow> catalog \<Rightarrow> bool" for slugify where
  create: "api_create_problem slugify v x s = (r, s') \<Longrightarrow> catalog_step slugify s s'"
| update: "api_update_problem v code fs s = (r, s') \<Longrightarrow> catalog_step slugify s s'"
| solution: "create_solution now v code y s = Inr (z, s') \<Longrightarrow> catalog_step slugify s s'"
| new_tag: "api_create_tag slugify v name s = Inr (t, s') \<Longrightarrow> catalog_step slugify s s'"
| tag_on: "p \<in> set (db_problems (ca_db s)) \<Longrightarrow> tag_problem slugify (p_id p) names s = (q, s') \<Longrightarrow> catalog_step slugify s s'"
| tag_off: "catalog_step slugify s (untag_problem pid names s)"
| elsewhere: "db_problems d = db_problems (ca_db s) \<Longrightarrow> pk_problem ` set (db_packages d) \<subseteq> problem_ids s
    \<Longrightarrow> catalog_step slugify s (s\<lparr>ca_db := d\<rparr>)"

inductive catalog_reachable :: "(string \<Rightarrow> string) \<Rightarrow> catalog \<Rightarrow> bool" for slugify where
  initial: "catalog_reachable slugify \<lparr>ca_db = empty_db, ca_tags = [], ca_solutions = []\<rparr>"
| step: "catalog_reachable slugify s \<Longrightarrow> catalog_step slugify s s' \<Longrightarrow> catalog_reachable slugify s'"

lemma fold_set_problem_field_keeps [simp]:
  "p_id (fold set_problem_field fs p) = p_id p" "p_code (fold set_problem_field fs p) = p_code p"
  "p_slug (fold set_problem_field fs p) = p_slug p" "p_authors (fold set_problem_field fs p) = p_authors p"
proof (induction fs arbitrary: p)
  case (Cons f fs)
  { case 1 then show ?case using Cons(1) [of "set_problem_field f p"] by (cases f) simp_all
  next case 2 then show ?case using Cons(2) [of "set_problem_field f p"] by (cases f) simp_all
  next case 3 then show ?case using Cons(3) [of "set_problem_field f p"] by (cases f) simp_all
  next case 4 then show ?case using Cons(4) [of "set_problem_field f p"] by (cases f) simp_all }
qed simp_all

lemma store_checks_Inr [simp]:
  "store_checks others p r = Inr y \<longleftrightarrow>
     fits p \<and> 0 \<le> p_memory_limit p \<and> p_code p \<notin> p_code ` set others \<and> r = Inr y"
  by (simp add: store_checks_def list_ex_iff not_less image_iff) metis

lemma problems_ok_snoc:
  "problems_ok (ps @ [p]) \<longleftrightarrow> problems_ok ps \<and> p_id p \<notin> p_id ` set ps \<and> p_code p \<notin> p_code ` set ps
     \<and> p_slug p \<notin> p_slug ` set ps \<and> fits p \<and> 0 \<le> p_memory_limit p \<and> p_authors p \<noteq> []"
  by (auto simp: problems_ok_def)

lemma free_slug: "save_slug slugify [] source taken \<notin> set taken"
  using slug_loop_cases by (simp add: save_slug_def Let_def)

lemma ids_mono:
  "tags_ok ids ts \<Longrightarrow> tags_ok (insert i ids) ts" "solutions_ok ids xs \<Longrightarrow> solutions_ok (insert i ids) xs"
  by (auto simp: tags_ok_def solutions_ok_def)

lemma created_ok:
  assumes "catalog_ok s" and "create_problem slugify author x s = Inr (p, s')"
  shows "catalog_ok s'"
proof -
  let ?ps = "db_problems (ca_db s)"
  have run: "p = created_problem slugify author x s" "fits p" "0 \<le> p_memory_limit p" "p_code p \<notin> p_code ` set ?ps"
    "s' = publish_problem ''problem.created'' p (s\<lparr>ca_db := (ca_db s)\<lparr>db_problems := ?ps @ [p]\<rparr>\<rparr>)"
    using assms(2) by (auto simp: create_problem_def Let_def)
  have "p_id p \<notin> p_id ` set ?ps" "p_slug p \<notin> p_slug ` set ?ps" "p_authors p \<noteq> []"
    using fresh_key_notin [of p_id ?ps] free_slug [of slugify "pci_code x" "map p_slug ?ps"]
    by (simp_all add: run(1) created_problem_def)
  then have "problems_ok (?ps @ [p])" using assms(1) run(2-4) by (simp add: problems_ok_snoc catalog_ok_def)
  then show ?thesis
    using assms(1) ids_mono by (simp add: run(5) catalog_ok_def publish_problem_def publish_def subset_insertI2)
qed

lemma problems_ok_put:
  assumes ok: "problems_ok ps" and p: "p \<in> set ps" and "fits p'" "0 \<le> p_memory_limit p'"
    and same: "p_id p' = p_id p" "p_code p' = p_code p" "p_slug p' = p_slug p" "p_authors p' = p_authors p"
  shows "problems_ok (row_put p_id p' ps) \<and> p_id ` set (row_put p_id p' ps) = p_id ` set ps"
proof -
  have only: "q = p" if "q \<in> set ps" "p_id q = p_id p" for q
    using that ok p by (auto simp: problems_ok_def distinct_map dest: inj_onD)
  have cols: "map p_code (row_put p_id p' ps) = map p_code ps" "map p_slug (row_put p_id p' ps) = map p_slug ps"
    by (rule map_row_put; use only same in auto)+
  have keys: "map p_id (row_put p_id p' ps) = map p_id ps" by (rule keys_row_put)
  have "fits q \<and> 0 \<le> p_memory_limit q \<and> p_authors q \<noteq> []" if "q \<in> set (row_put p_id p' ps)" for q
    using that assms by (auto simp: row_put_def rows_update_def problems_ok_def split: if_splits)
  then show ?thesis using ok cols keys by (metis problems_ok_def list.set_map)
qed

lemma updated_ok:
  assumes "catalog_ok s" and "p \<in> set (db_problems (ca_db s))" and "update_problem p fs s = Inr (p', s')"
  shows "catalog_ok s'"
proof -
  let ?p = "fold set_problem_field fs p"
  have run: "p' = ?p" "fits ?p" "0 \<le> p_memory_limit ?p"
    "s' = publish_problem ''problem.updated'' ?p (s\<lparr>ca_db := (ca_db s)\<lparr>db_problems := row_put p_id ?p (db_problems (ca_db s))\<rparr>\<rparr>)"
    using assms(3) by (auto simp: update_problem_def Let_def)
  have "problems_ok (row_put p_id ?p (db_problems (ca_db s))) \<and> p_id ` set (row_put p_id ?p (db_problems (ca_db s))) = problem_ids s"
    using assms(1,2) run(2,3) by (intro problems_ok_put) (simp_all add: catalog_ok_def)
  then show ?thesis using assms(1) by (simp add: run(4) catalog_ok_def publish_problem_def publish_def)
qed

lemma get_problem_by_codeD: "get_problem_by_code code d = Inr p \<Longrightarrow> p \<in> set (db_problems d) \<and> p_code p = code"
  by (auto simp: get_problem_by_code_def split: option.splits dest!: first_in)

section \<open>Tags stay well-typed\<close>

lemma tags_ok_snoc:
  "tags_ok ids (ts @ [t]) \<longleftrightarrow> tags_ok ids ts \<and> tg_id t \<notin> tg_id ` set ts \<and> tg_code t \<notin> tg_code ` set ts
     \<and> tg_name t \<notin> tg_name ` set ts \<and> tg_slug t \<notin> tg_slug ` set ts \<and> tg_code t \<noteq> [] \<and> distinct (tg_problems t) \<and> set (tg_problems t) \<subseteq> ids"
  by (auto simp: tags_ok_def)

lemma new_tag_ok:
  assumes "tags_ok ids (ca_tags s)" and "get_or_create_tag slugify name s = Inr (t, s')"
  shows "tags_ok ids (ca_tags s') \<and> ca_db s' = ca_db s \<and> ca_solutions s' = ca_solutions s"
  using assms fresh_key_notin [of tg_id "ca_tags s"] free_slug [of slugify _ "map tg_slug (ca_tags s)"]
  by (auto simp: get_or_create_tag_def Let_def tag_by_code_def tags_ok_snoc list_ex_iff find_None_iff image_iff split: option.splits; metis)

lemma collect_tags_ok:
  "tags_ok ids (ca_tags s) \<Longrightarrow> collect_tags slugify names s = (r, s')
   \<Longrightarrow> tags_ok ids (ca_tags s') \<and> ca_db s' = ca_db s \<and> ca_solutions s' = ca_solutions s"
proof (induction slugify names s arbitrary: r s' rule: collect_tags.induct)
  case (2 slugify name names s)
  show ?case
  proof (cases "strip name = []")
    case False
    show ?thesis
    proof (cases "get_or_create_tag slugify name s")
      case (Inr b)
      obtain t s1 where b: "b = (t, s1)" by force
      obtain r2 s2 where rest: "collect_tags slugify names s1 = (r2, s2)" by force
      have "s' = s2" using 2(4) Inr b rest False by (simp split: prod.splits)
      then show ?thesis using 2(2) [OF False Inr b [symmetric] _ rest] rest new_tag_ok [OF 2(3)] Inr b by simp
    qed (use 2(3,4) False in auto)
  qed (use 2 in auto)
qed auto

lemma tags_ok_map:
  assumes "tags_ok ids ts" and "\<And>t. t \<in> set ts \<Longrightarrow> tg_id (f t) = tg_id t \<and> tg_code (f t) = tg_code t \<and> tg_name (f t) = tg_name t
      \<and> tg_slug (f t) = tg_slug t \<and> distinct (tg_problems (f t)) \<and> set (tg_problems (f t)) \<subseteq> ids"
  shows "tags_ok ids (map f ts)"
proof -
  have "map tg_id (map f ts) = map tg_id ts" "map tg_code (map f ts) = map tg_code ts"
    "map tg_name (map f ts) = map tg_name ts" "map tg_slug (map f ts) = map tg_slug ts" using assms(2) by simp_all
  then show ?thesis using assms by (simp only: tags_ok_def) auto
qed

lemma tag_problem_ok:
  assumes ok: "tags_ok ids (ca_tags s)" and "pid \<in> ids" and run: "tag_problem slugify pid names s = (r, s')"
  shows "tags_ok ids (ca_tags s') \<and> ca_db s' = ca_db s \<and> ca_solutions s' = ca_solutions s"
proof -
  obtain q s1 where c: "collect_tags slugify names s = (q, s1)" by force
  note s1 = collect_tags_ok [OF ok c]
  have "tags_ok ids (rows_update P (add_problem_to pid) (ca_tags s1))" for P
    unfolding rows_update_def using s1 assms(2) by (intro tags_ok_map) (auto simp: tags_ok_def add_problem_to_def)
  then show ?thesis using run s1 by (auto simp: tag_problem_def c split: sum.splits)
qed

lemma untag_problem_ok:
  assumes "tags_ok ids (ca_tags s)"
  shows "tags_ok ids (ca_tags (untag_problem pid names s)) \<and> ca_db (untag_problem pid names s) = ca_db s
     \<and> ca_solutions (untag_problem pid names s) = ca_solutions s"
proof -
  have "tags_ok ids (rows_update P (\<lambda>t. t\<lparr>tg_problems := removeAll pid (tg_problems t)\<rparr>) (ca_tags s))" for P
    unfolding rows_update_def using assms by (intro tags_ok_map) (auto simp: tags_ok_def distinct_removeAll)
  then show ?thesis using assms by (simp add: untag_problem_def Let_def)
qed

lemma catalog_tags_only:
  assumes "catalog_ok s" and "tags_ok (problem_ids s) (ca_tags s') \<and> ca_db s' = ca_db s \<and> ca_solutions s' = ca_solutions s"
  shows "catalog_ok s'"
  using assms by (simp add: catalog_ok_def)

lemma catalog_step_ok: "catalog_step slugify s s' \<Longrightarrow> catalog_ok s \<Longrightarrow> catalog_ok s'"
proof (induction rule: catalog_step.induct)
  case (create v x s r s')
  then show ?case by (auto simp: api_create_problem_def split: option.splits sum.splits intro: created_ok)
next
  case (update v code fs s r s')
  then show ?case
    by (auto simp: api_update_problem_def split: sum.splits if_splits dest: get_problem_by_codeD intro: updated_ok)
next
  case (solution now v code y s z s')
  then obtain p where "p \<in> set (db_problems (ca_db s))" "sl_problem z = p_id p" "sl_id z = fresh_key sl_id (ca_solutions s)"
    "s' = s\<lparr>ca_solutions := ca_solutions s @ [z]\<rparr>"
    by (auto simp: create_solution_def Let_def dest!: get_problem_by_codeD split: option.splits)
  then show ?case using solution(2) fresh_key_notin [of sl_id "ca_solutions s"] by (simp add: catalog_ok_def solutions_ok_def)
next
  case (new_tag v name s t s')
  then obtain tg where "get_or_create_tag slugify name s = Inr (tg, s')" by (auto simp: api_create_tag_def)
  from new_tag_ok [OF _ this, of "problem_ids s"] show ?case
    using catalog_tags_only [OF new_tag(2)] new_tag(2) by (simp add: catalog_ok_def)
next
  case (tag_on p s names q s')
  then show ?case using catalog_tags_only [OF tag_on(3)] tag_problem_ok [of "problem_ids s" s "p_id p" slugify names q s']
    by (auto simp: catalog_ok_def)
next
  case (tag_off s pid names)
  then show ?case using catalog_tags_only [OF tag_off] untag_problem_ok [of "problem_ids s" s pid names]
    by (simp add: catalog_ok_def)
next
  case (elsewhere d s)
  then show ?case by (simp add: catalog_ok_def)
qed

lemma catalog_reachable_ok: "catalog_reachable slugify s \<Longrightarrow> catalog_ok s"
proof (induction rule: catalog_reachable.induct)
  case initial
  show ?case by (simp add: catalog_ok_def problems_ok_def tags_ok_def solutions_ok_def empty_db_def)
qed (rule catalog_step_ok)

section \<open>Properties\<close>

lemma code_finds:
  assumes "problems_ok (db_problems d)" and "p \<in> set (db_problems d)"
  shows "get_problem_by_code (p_code p) d = Inr p"
proof -
  obtain q where q: "first (filter (\<lambda>q. p_code q = p_code p) (db_problems d)) = Some q"
    using assms(2) by (cases "filter (\<lambda>q. p_code q = p_code p) (db_problems d)") (auto simp: filter_empty_conv)
  then have "q \<in> set (db_problems d)" "p_code q = p_code p" by (auto dest!: first_in)
  then have "q = p" using assms by (auto simp: problems_ok_def distinct_map dest: inj_onD)
  then show ?thesis using q by (simp add: get_problem_by_code_def)
qed

lemma visible_is_accessible: "get_visible_problems v d = filter (is_accessible_by v) (db_problems d)"
  by (cases v) (auto simp: get_visible_problems_def access_defs intro!: filter_cong filter_True [symmetric] split: if_splits)

lemma opens_iff:
  "(\<exists>r. serialize_problem_detail p s = Inr r) \<longleftrightarrow>
     (case active_package (p_id p) (ca_db s) of None \<Rightarrow> True
      | Some k \<Rightarrow> \<exists>n. int_or_zero (get_or (m_output_prefix (pk_manifest k)) (JInt 0)) = Inr n)"
  by (auto simp: serialize_problem_detail_def problem_types_def Let_def split: option.splits)

text \<open>C34: Whatever requests, tagging and changes of other tables happened (those that leave the problems
  alone and keep every package with a problem that exists): keys, codes and slugs of problems are
  unique, every problem has an author and values that fit its columns, solutions and tags belong to
  problems that exist, and the codes, names and slugs of tags are unique. So a problem in the list of
  a viewer is never reported as missing or forbidden under its code: the answer is made of that
  problem, and is an error only when the active package has an output prefix that is not a number.\<close>

theorem catalog_well_typed:
  assumes "catalog_reachable slugify s"
  shows "catalog_ok s
     \<and> (\<forall>p \<in> set (get_visible_problems v (ca_db s)).
          get_problem_detail v (p_code p) s = serialize_problem_detail p s
          \<and> ((\<exists>r. get_problem_detail v (p_code p) s = Inr r) \<longleftrightarrow>
               (case active_package (p_id p) (ca_db s) of None \<Rightarrow> True
                | Some k \<Rightarrow> \<exists>n. int_or_zero (get_or (m_output_prefix (pk_manifest k)) (JInt 0)) = Inr n)))"
proof -
  have ok: "catalog_ok s" by (rule catalog_reachable_ok [OF assms])
  have "get_problem_detail v (p_code p) s = serialize_problem_detail p s" if "p \<in> set (get_visible_problems v (ca_db s))" for p
    using that code_finds [of "ca_db s" p] ok by (auto simp: visible_is_accessible get_problem_detail_def can_see_problem_def catalog_ok_def)
  then show ?thesis using ok opens_iff [of _ s] by simp
qed

definition sample_problem_in :: problem_create_in where
  "sample_problem_in = \<lparr>pci_code = ''aplusb'', pci_name = ''A plus B'', pci_description = ''Add.'', pci_difficulty = Some ''10'',
     pci_points = 5, pci_partial_score = False, pci_short_circuit = False, pci_source = [], pci_visibility = ''public'',
     pci_summary = [], pci_time_limit = None, pci_memory_limit = None\<rparr>"

definition empty_catalog :: catalog where
  "empty_catalog = \<lparr>ca_db = empty_db, ca_tags = [], ca_solutions = []\<rparr>"

definition first_catalog :: catalog where
  "first_catalog = snd (api_create_problem letters_only (Some (new_user 7)) sample_problem_in empty_catalog)"

lemma first_catalog_reachable: "catalog_reachable letters_only first_catalog"
  by (rule catalog_reachable.step [OF catalog_reachable.initial catalog_step.create])
    (simp add: first_catalog_def empty_catalog_def prod_eq_iff)

theorem catalog_well_typed_witness:
  "map p_code (db_problems (ca_db first_catalog)) = [''aplusb'']
   \<and> list_all (\<lambda>p. \<exists>r. get_problem_detail None (p_code p) first_catalog = Inr r) (get_visible_problems None (ca_db first_catalog))"
proof -
  have "map p_code (db_problems (ca_db first_catalog)) = [''aplusb'']" "db_packages (ca_db first_catalog) = []" by code_simp+
  moreover from this have none: "active_package i (ca_db first_catalog) = None" for i by (simp add: active_package_def)
  have "\<exists>r. get_problem_detail None (p_code p) first_catalog = Inr r" if p: "p \<in> set (get_visible_problems None (ca_db first_catalog))" for p
    using bspec [OF catalog_well_typed [OF first_catalog_reachable, of None, THEN conjunct2] p] unfolding none option.case by blast
  ultimately show ?thesis unfolding list_all_iff by blast
qed

lemma order_problems_facts:
  assumes "mset (ties ps) = mset ps"
  shows "mset (order_problems ties ord ps) = mset ps"
    and "if ord = ''-code'' then sorted (rev (map p_code (order_problems ties ord ps)))
      else if ord = ''points'' then sorted (map p_points (order_problems ties ord ps))
      else if ord = ''-points'' then sorted (rev (map p_points (order_problems ties ord ps)))
      else if ord = ''difficulty'' then sorted (map difficulty_key (order_problems ties ord ps))
      else if ord = ''-difficulty'' then sorted (rev (map difficulty_key (order_problems ties ord ps)))
      else sorted (map p_code (order_problems ties ord ps))"
  by (simp_all add: order_problems_def Let_def assms rev_map)

text \<open>With different codes the orders by code do not depend on the order of the rows.\<close>

lemma code_order_unique:
  assumes "mset (ties ps) = mset ps" and "mset (ties' ps) = mset ps" and "inj_on p_code (set ps)"
    and "ord \<notin> {''points'', ''-points'', ''difficulty'', ''-difficulty''}"
  shows "order_problems ties ord ps = order_problems ties' ord ps"
proof -
  have "set (ties ps) = set ps" using assms(1) by (rule mset_eq_setD)
  then have "sort_key p_code (ties ps) = sort_key p_code (ties' ps)"
    by (intro sort_key_inj_key_eq) (use assms(1-3) in simp_all)
  then show ?thesis using assms(4) by (simp add: order_problems_def Let_def)
qed

text \<open>C35: The pages of the problem list, one after the other, are the problems the viewer may open that pass
  every filter, each exactly once, in the order asked for; each page is a query of its own, in which the
  database may deliver the rows in an order of its own. For the orders by points and by difficulty,
  where problems may tie, this takes that the database delivers them in the same order every time.\<close>

theorem problem_pages:
  assumes "0 < sz" and "\<And>i xs. mset (ties i xs) = mset xs" and "distinct (map p_code (db_problems (ca_db s)))"
    and "pq_ordering q \<in> {''points'', ''-points'', ''difficulty'', ''-difficulty''} \<longrightarrow> (\<forall>i. ties i = ties 0)"
  shows "\<exists>ps. concat (map (\<lambda>i. pg_results (list_problems (ties i) v q (int i + 1) sz s))
                 [0..<nat (pg_total_pages (list_problems (ties n) v q page sz s))]) = map serialize_problem_list ps
     \<and> mset ps = filter_mset (\<lambda>p. is_accessible_by v p \<and> matches v q s p) (mset (db_problems (ca_db s)))
     \<and> (let ord = pq_ordering q
        in if ord = ''-code'' then sorted (rev (map p_code ps))
           else if ord = ''points'' then sorted (map p_points ps)
           else if ord = ''-points'' then sorted (rev (map p_points ps))
           else if ord = ''difficulty'' then sorted (map difficulty_key ps)
           else if ord = ''-difficulty'' then sorted (rev (map difficulty_key ps))
           else sorted (map p_code ps))"
proof -
  let ?L = "filter (matches v q s) (get_visible_problems v (ca_db s))"
  let ?ps = "order_problems (ties 0) (pq_ordering q) ?L"
  have "distinct (map p_code ?L)" unfolding visible_is_accessible by (intro distinct_map_filter assms(3))
  then have inj: "inj_on p_code (set ?L)" by (simp add: distinct_map)
  have same: "order_problems (ties i) (pq_ordering q) ?L = ?ps" for i
  proof (cases "pq_ordering q \<in> {''points'', ''-points'', ''difficulty'', ''-difficulty''}")
    case True
    then have "ties i = ties 0" using assms(4) by blast
    then show ?thesis by simp
  next
    case False
    then show ?thesis by (intro code_order_unique assms(2) inj)
  qed
  have "pg_results (list_problems (ties i) v q k sz s) = map serialize_problem_list (pg_results (paginate_queryset ?ps k sz))" for i k
    unfolding list_problems_def Let_def by (subst same) simp
  then have "concat (map (\<lambda>i. pg_results (list_problems (ties i) v q (int i + 1) sz s)) is)
      = map serialize_problem_list (concat (map (\<lambda>i. pg_results (paginate_queryset ?ps (int i + 1) sz)) is))" for "is"
    by (simp add: map_concat comp_def)
  moreover have "pg_total_pages (list_problems (ties n) v q page sz s) = pg_total_pages (paginate_queryset ?ps page sz)"
    unfolding list_problems_def Let_def by (subst same) simp
  ultimately have pages: "concat (map (\<lambda>i. pg_results (list_problems (ties i) v q (int i + 1) sz s))
      [0..<nat (pg_total_pages (list_problems (ties n) v q page sz s))]) = map serialize_problem_list ?ps"
    using pages_cover [OF assms(1), of ?ps page] by simp
  have "mset ?L = filter_mset (\<lambda>p. is_accessible_by v p \<and> matches v q s p) (mset (db_problems (ca_db s)))"
    by (simp add: visible_is_accessible filter_filter_mset conj_commute)
  then show ?thesis unfolding Let_def
    using pages order_problems_facts [of "ties 0" ?L "pq_ordering q", OF assms(2)] by (intro exI [of _ ?ps]) simp
qed

text \<open>A database that hands the rows out from first to last and from last to first in turn.\<close>

definition changing_ties :: "nat \<Rightarrow> problem list \<Rightarrow> problem list" where
  "changing_ties i xs = (if even i then xs else rev xs)"

theorem problem_pages_witness:
  "\<exists>ps. concat (map (\<lambda>i. pg_results (list_problems (changing_ties i) None \<lparr>pq_difficulty = None, pq_min_points = Some 1, pq_max_points = None,
        pq_search = Some ''PLUS'', pq_tag = None, pq_source = None, pq_solved = False, pq_ordering = ''code''\<rparr> (int i + 1) 1 first_catalog))
      [0..<1]) = map serialize_problem_list ps \<and> map p_code ps = [''aplusb'']"
proof -
  let ?q = "\<lparr>pq_difficulty = None, pq_min_points = Some (1::rat), pq_max_points = None, pq_search = Some ''PLUS'', pq_tag = None,
     pq_source = None, pq_solved = False, pq_ordering = ''code''\<rparr>"
  have n: "nat (pg_total_pages (list_problems (changing_ties 0) None ?q 1 1 first_catalog)) = 1" by code_simp
  have m: "filter (\<lambda>p. is_accessible_by None p \<and> matches None ?q first_catalog p) (db_problems (ca_db first_catalog))
      = db_problems (ca_db first_catalog)" by code_simp
  have c: "map p_code (db_problems (ca_db first_catalog)) = [''aplusb'']" by code_simp
  then have dist: "distinct (map p_code (db_problems (ca_db first_catalog)))" by simp
  obtain p where p: "db_problems (ca_db first_catalog) = [p]" "p_code p = ''aplusb''" using c by auto
  have ties: "mset (changing_ties i xs) = mset xs" for i xs by (simp add: changing_ties_def)
  have "pq_ordering ?q \<in> {''points'', ''-points'', ''difficulty'', ''-difficulty''} \<longrightarrow> (\<forall>i. changing_ties i = changing_ties 0)" by simp
  from problem_pages [OF zero_less_one ties dist this, where v = None and n = 0 and page = 1]
  obtain ps where ps: "concat (map (\<lambda>i. pg_results (list_problems (changing_ties i) None ?q (int i + 1) 1 first_catalog)) [0..<1])
      = map serialize_problem_list ps" "mset ps = mset [p]"
    unfolding n mset_filter [symmetric] p(1) m [unfolded p(1)] by (elim exE conjE) (rule that)
  have "ps = [p]" using ps(2) by simp
  then show ?thesis using ps(1) p(2) by (intro exI [of _ ps]) simp
qed

text \<open>A problem that was just created is found under its code by its author, with the values and the
  defaults of the request, and editable by him; others without rights find it exactly when it was created
  public or unlisted; and the pages of all other codes stay as they were.\<close>

theorem created_problem_roundtrip:
  assumes "catalog_ok s" and "api_create_problem slugify (Some u) x s = (Inr r, s')"
  shows "get_problem_detail (Some u) (pci_code x) s' = Inr r \<and> can_edit_problem (Some u) (pd_problem r)
     \<and> p_name (pd_problem r) = pci_name x \<and> p_description (pd_problem r) = pci_description x \<and> p_points (pd_problem r) = pci_points x
     \<and> p_time_limit (pd_problem r) = get_or (pci_time_limit x) 2 \<and> p_memory_limit (pd_problem r) = get_or (pci_memory_limit x) 262144
     \<and> pd_types r = (if pci_partial_score x then [''multi_step'', ''standard''] else [''standard''])
     \<and> get_problem_detail None (pci_code x) s' =
          (if pci_visibility x \<in> {''public'', ''unlisted''} then Inr r else Inl no_problem_access)
     \<and> (\<forall>w c. c \<noteq> pci_code x \<longrightarrow> get_problem_detail w c s' = get_problem_detail w c s)"
proof -
  let ?p = "created_problem slugify (u_id u) x s"
  let ?t = "if pci_partial_score x then [''multi_step'', ''standard''] else [''standard'']"
  have run: "create_problem slugify (u_id u) x s = Inr (?p, s')" "serialize_problem_detail ?p s' = Inr r"
    using assms(2) by (auto simp: api_create_problem_def create_problem_def Let_def split: sum.splits)
  have s': "db_problems (ca_db s') = db_problems (ca_db s) @ [?p]" "db_packages (ca_db s') = db_packages (ca_db s)"
    using run(1) by (auto simp: create_problem_def Let_def publish_problem_def publish_def)
  have ok: "problems_ok (db_problems (ca_db s'))" using created_ok [OF assms(1) run(1)] by (simp add: catalog_ok_def)
  have code: "get_problem_by_code (pci_code x) (ca_db s') = Inr ?p"
    using code_finds [OF ok, of ?p] s'(1) by (simp add: created_problem_def)
  have "pk_problem k \<noteq> p_id ?p" if "k \<in> set (db_packages (ca_db s))" for k
    using that assms(1) fresh_key_notin [of p_id "db_problems (ca_db s)"]
    by (simp add: catalog_ok_def created_problem_def image_subset_iff) metis
  then have "active_package (p_id ?p) (ca_db s') = None" by (simp add: active_package_def s'(2) filter_empty_conv)
  moreover have "sort [''standard''] = [''standard'']" "sort [''standard'', ''multi_step''] = [''multi_step'', ''standard'']" by code_simp+
  ultimately have r: "r = \<lparr>pd_problem = ?p, pd_types = ?t\<rparr>"
    using run(2) by (simp add: serialize_problem_detail_def problem_types_def Let_def created_problem_def split: if_splits)
  have other: "get_problem_by_code c (ca_db s') = get_problem_by_code c (ca_db s)" if "c \<noteq> pci_code x" for c
    using that by (simp add: get_problem_by_code_def s'(1) created_problem_def)
  have types: "serialize_problem_detail p s' = serialize_problem_detail p s" for p
    by (simp add: serialize_problem_detail_def problem_types_def active_package_def s'(2))
  have "get_problem_detail w c s' = get_problem_detail w c s" if "c \<noteq> pci_code x" for w c
    by (simp add: get_problem_detail_def other [OF that] types)
  moreover have "can_see_problem (Some u) ?p" "can_edit_problem (Some u) ?p"
    "can_see_problem None ?p \<longleftrightarrow> pci_visibility x \<in> {''public'', ''unlisted''}"
    by (auto simp: access_defs created_problem_def problem_visibility_of_def)
  ultimately show ?thesis using run(2) r code by (simp add: get_problem_detail_def created_problem_def)
qed

theorem created_problem_roundtrip_witness:
  "\<exists>r. get_problem_detail None ''aplusb'' first_catalog = Inr r \<and> pd_types r = [''standard'']"
proof -
  have "case api_create_problem letters_only (Some (new_user 7)) sample_problem_in empty_catalog of (Inr r, s') \<Rightarrow> True | _ \<Rightarrow> False"
    by code_simp
  then obtain r where run: "api_create_problem letters_only (Some (new_user 7)) sample_problem_in empty_catalog = (Inr r, first_catalog)"
    unfolding first_catalog_def by (auto split: prod.splits sum.splits)
  have "catalog_ok empty_catalog" using catalog_reachable_ok [OF catalog_reachable.initial] by (simp add: empty_catalog_def)
  from created_problem_roundtrip [OF this run] show ?thesis by (auto simp: sample_problem_in_def)
qed

text \<open>The validators of the limits never run for the API: a maintainer can store any time limit, negative
  ones too, and any memory limit the column holds, also those that the validators refuse, and the next
  submission is judged with them.\<close>

theorem limits_not_validated:
  assumes "catalog_ok s" and "get_problem_by_code code (ca_db s) = Inr p" and "can_edit_problem v p"
    and "validate_time_limit t \<noteq> Inr ()" and "validate_memory_limit m \<noteq> Inr ()" and "0 \<le> m" and "m \<le> memory_max"
    and "\<forall>ll \<in> set (db_language_limits (ca_db s)). ll_problem ll \<noteq> p_id p"
  shows "\<exists>p' d. ca_db (snd (api_update_problem v code [UF_time_limit t, UF_memory_limit m] s)) = d
     \<and> get_problem_by_code code d = Inr p' \<and> p_id p' = p_id p
     \<and> cf_time_limit (build_job_config p' l pkg None mode ci eo d) = Some t
     \<and> cf_memory_limit (build_job_config p' l pkg None mode ci eo d) = Some m"
proof -
  let ?p = "p\<lparr>p_time_limit := t, p_memory_limit := m\<rparr>"
  have p: "p \<in> set (db_problems (ca_db s))" "p_code p = code" using get_problem_by_codeD [OF assms(2)] by simp_all
  have "fits ?p" using p(1) assms(1,7) by (auto simp: catalog_ok_def problems_ok_def fits_def)
  then obtain s' where run: "update_problem p [UF_time_limit t, UF_memory_limit m] s = Inr (?p, s')"
    using assms(6) by (simp add: update_problem_def Let_def)
  then have s': "db_problems (ca_db s') = row_put p_id ?p (db_problems (ca_db s))"
      "db_language_limits (ca_db s') = db_language_limits (ca_db s)"
    by (auto simp: update_problem_def Let_def publish_problem_def publish_def)
  have "problems_ok (db_problems (ca_db s'))" using updated_ok [OF assms(1) p(1) run] by (simp add: catalog_ok_def)
  moreover have "?p \<in> set (db_problems (ca_db s'))" using p(1) by (auto simp: s'(1) row_put_def rows_update_def image_iff)
  ultimately have "get_problem_by_code code (ca_db s') = Inr ?p" using code_finds [of "ca_db s'" ?p] p(2) by simp
  moreover have "first (filter (\<lambda>ll. ll_problem ll = p_id ?p \<and> ll_language ll = l_id l) (db_language_limits (ca_db s'))) = None"
    using assms(8) by (auto simp: s'(2) filter_empty_conv)
  moreover have "snd (api_update_problem v code [UF_time_limit t, UF_memory_limit m] s) = s'"
    using assms(2,3) run by (simp add: api_update_problem_def)
  ultimately show ?thesis
    by (intro exI [of _ ?p] exI [of _ "ca_db s'"]) (simp add: build_job_config_def Let_def)
qed

theorem limits_not_validated_witness:
  "\<exists>p' d. ca_db (snd (api_update_problem (Some (new_user 7)) ''aplusb'' [UF_time_limit (-1), UF_memory_limit 0] first_catalog)) = d
     \<and> cf_time_limit (build_job_config p' \<lparr>l_id = 1, l_key = ''py'', l_is_enabled = True, l_name = [], l_short_name = [], l_ace_mode = [],
          l_pygments_name = [], l_description = [], l_extension = []\<rparr> None None Mode_SUBMIT [] [] d) = Some (-1)"
proof -
  have "case get_problem_by_code ''aplusb'' (ca_db first_catalog) of Inl e \<Rightarrow> False
      | Inr p \<Rightarrow> can_edit_problem (Some (new_user 7)) p" by code_simp
  then obtain p where p: "get_problem_by_code ''aplusb'' (ca_db first_catalog) = Inr p" "can_edit_problem (Some (new_user 7)) p"
    by (auto split: sum.splits)
  have t: "validate_time_limit (-1) \<noteq> Inr ()" by (simp add: validate_time_limit_def)
  have m: "validate_memory_limit 0 \<noteq> Inr ()" by (simp add: validate_memory_limit_def)
  have "db_language_limits (ca_db first_catalog) = []" by code_simp
  then have "\<forall>ll \<in> set (db_language_limits (ca_db first_catalog)). ll_problem ll \<noteq> p_id p" by simp
  from limits_not_validated [OF catalog_reachable_ok [OF first_catalog_reachable] p t m _ _ this, where pkg = None and mode = Mode_SUBMIT
      and ci = "[]" and eo = "[]"]
  show ?thesis unfolding memory_max_def by simp metis
qed

end
