(* ===== verification/JudgeAdmin.thy ===== *)
theory JudgeAdmin
  imports JobInvariant "HOL-Library.List_Lexorder" "HOL-Library.Char_ord"
begin

text \<open>
  The administration of judges: \<open>judge_service.py\<close>, \<open>judge_maintenance_service.py\<close> and
  \<open>judge/api/router.py\<close>. Blocking a judge shuts every endpoint of the worker API to it, and the
  maintenance of sessions is related to the invariant of the queue.
\<close>

section \<open>The service\<close>

definition judge_status :: "judge \<Rightarrow> string" where
  "judge_status g =
     (if j_is_blocked g then ''DI'' else if \<not> j_online g then ''OF''
      else if (case j_load g of None \<Rightarrow> False | Some x \<Rightarrow> x \<ge> 85 / 100) then ''BU'' else ''AV'')"

definition judge_uptime :: "time \<Rightarrow> judge \<Rightarrow> time option" where
  "judge_uptime now g = map_option (\<lambda>t. now - t) (j_start_time g)"

definition get_judge :: "string \<Rightarrow> db \<Rightarrow> judge result" where
  "get_judge name d =
     (case first (filter (\<lambda>g. j_name g = name) (db_judges d)) of
        None \<Rightarrow> Inl (NotFoundError (''Judge '' @ [CHR 0x27] @ name @ [CHR 0x27] @ '' was not found.'')) | Some g \<Rightarrow> Inr g)"

definition list_judges :: "db \<Rightarrow> judge list" where
  "list_judges d = sort_key j_name (db_judges d)"

definition get_available_judges :: "db \<Rightarrow> judge list" where
  "get_available_judges d = sort_key j_name (filter (\<lambda>g. j_online g \<and> \<not> j_is_blocked g) (db_judges d))"

definition update_judge_ping :: "time \<Rightarrow> judge \<Rightarrow> rat \<Rightarrow> db \<Rightarrow> db" where
  "update_judge_ping now g ping_ms d =
     save_judge (g\<lparr>j_ping := Some ping_ms, j_online := True,
       j_start_time := (case j_start_time g of None \<Rightarrow> Some now | Some t \<Rightarrow> Some t), j_updated_at := now\<rparr>) d"

definition block_judge :: "time \<Rightarrow> judge \<Rightarrow> db \<Rightarrow> db" where
  "block_judge now g d = save_judge (g\<lparr>j_is_blocked := True, j_updated_at := now\<rparr>) d"

definition unblock_judge :: "time \<Rightarrow> judge \<Rightarrow> db \<Rightarrow> db" where
  "unblock_judge now g d = save_judge (g\<lparr>j_is_blocked := False, j_updated_at := now\<rparr>) d"

definition get_supported_languages :: "db \<Rightarrow> language list" where
  "get_supported_languages d = sort_key l_key (filter l_is_enabled (db_languages d))"

definition get_language_by_key :: "string \<Rightarrow> db \<Rightarrow> language result" where
  "get_language_by_key key d =
     (case first (filter (\<lambda>l. l_key l = key) (db_languages d)) of
        None \<Rightarrow> Inl (NotFoundError (''Language '' @ [CHR 0x27] @ key @ [CHR 0x27] @ '' was not found.'')) | Some l \<Rightarrow> Inr l)"

section \<open>Maintenance\<close>

definition heartbeat_timeout :: time where
  "heartbeat_timeout = seconds 120"

definition stale_judge :: "time \<Rightarrow> judge \<Rightarrow> bool" where
  "stale_judge now g \<longleftrightarrow> j_online g \<and> j_updated_at g < now - heartbeat_timeout"

definition monitor_judges :: "time \<Rightarrow> db \<Rightarrow> nat \<times> db" where
  "monitor_judges now d =
     (length (filter (stale_judge now) (db_judges d)),
      d\<lparr>db_judges := rows_update (stale_judge now) (\<lambda>g. g\<lparr>j_online := False, j_updated_at := now\<rparr>) (db_judges d)\<rparr>)"

text \<open>The submissions in judging whose judge is offline.\<close>

definition stale_submissions :: "db \<Rightarrow> submission list" where
  "stale_submissions d = filter (\<lambda>s. s_status s \<in> {Sub_COMPILING, Sub_JUDGING}
     \<and> (case s_judged_on s of None \<Rightarrow> False
        | Some i \<Rightarrow> (case row_get j_id i (db_judges d) of None \<Rightarrow> False | Some g \<Rightarrow> \<not> j_online g))) (db_submissions d)"

definition cleanup_stale_sessions :: "time \<Rightarrow> db \<Rightarrow> nat result \<times> db" where
  "cleanup_stale_sessions now d =
     (let subs = stale_submissions d
      in case rejudge_all now (map s_id subs) d of
           (Some e, d') \<Rightarrow> (Inl e, d') | (None, d') \<Rightarrow> (Inr (length subs), d'))"

section \<open>The endpoints\<close>

definition require_staff :: "viewer \<Rightarrow> user result" where
  "require_staff v = (case v of
     None \<Rightarrow> Inl (PermissionDeniedError ''Authentication required.'')
   | Some u \<Rightarrow> raise_if (\<not> u_is_staff u) (PermissionDeniedError ''Staff access required.'') (Inr u))"

definition require_superuser :: "viewer \<Rightarrow> user result" where
  "require_superuser v = andThen (require_staff v) (\<lambda>u.
     raise_if (\<not> u_is_superuser u) (PermissionDeniedError ''Superuser access required.'') (Inr u))"

record judge_out =
  jo_name :: string
  jo_online :: bool
  jo_is_blocked :: bool
  jo_status :: string
  jo_ping :: "rat option"
  jo_load :: "rat option"

definition judge_out_of :: "judge \<Rightarrow> judge_out" where
  "judge_out_of g = \<lparr>jo_name = j_name g, jo_online = j_online g, jo_is_blocked = j_is_blocked g, jo_status = judge_status g,
     jo_ping = j_ping g, jo_load = j_load g\<rparr>"

definition api_list_judges :: "viewer \<Rightarrow> db \<Rightarrow> judge_out list result" where
  "api_list_judges v d = andThen (require_staff v) (\<lambda>_. Inr (map judge_out_of (list_judges d)))"

text \<open>\<open>int(x.total_seconds())\<close>: the whole seconds, towards zero.\<close>

definition whole_seconds :: "time \<Rightarrow> int" where
  "whole_seconds t = (if t < 0 then - ((- t) div 1000000) else t div 1000000)"

record judge_detail_out =
  jd_judge :: judge_out
  jd_hostname :: string
  jd_description :: string
  jd_last_ip :: "string option"
  jd_start_time :: "time option"
  jd_uptime_seconds :: "int option"
  jd_languages :: "string list"
  jd_problems :: "string list"
  jd_capabilities :: json

text \<open>A time difference of zero is falsy.\<close>

definition judge_detail :: "time \<Rightarrow> viewer \<Rightarrow> string \<Rightarrow> db \<Rightarrow> judge_detail_out result" where
  "judge_detail now v name d =
     andThen (require_staff v) (\<lambda>_.
     andThen (get_judge name d) (\<lambda>g.
     Inr \<lparr>jd_judge = judge_out_of g, jd_hostname = j_hostname g, jd_description = j_description g, jd_last_ip = j_last_ip g,
          jd_start_time = j_start_time g,
          jd_uptime_seconds = (case judge_uptime now g of None \<Rightarrow> None
                               | Some t \<Rightarrow> if t = 0 then None else Some (whole_seconds t)),
          jd_languages = map l_key (sort_key l_key (filter (\<lambda>l. l_id l \<in> set (j_runtimes g)) (db_languages d))),
          jd_problems = map p_code (sort_key p_code (filter (\<lambda>p. p_id p \<in> set (j_problems g)) (db_problems d))),
          jd_capabilities = (if truthy (j_capabilities g) then j_capabilities g else JObj [])\<rparr>))"

record judge_metrics_out =
  jm_queued :: nat
  jm_claimed :: nat
  jm_running :: nat
  jm_failed_last_24h :: nat
  jm_online_judges :: nat
  jm_blocked_judges :: nat
  jm_oldest_queued_seconds :: int
  jm_leases_expiring_60s :: nat

definition count_jobs :: "(judge_job \<Rightarrow> bool) \<Rightarrow> db \<Rightarrow> nat" where
  "count_jobs f d = length (filter f (db_jobs d))"

definition judge_metrics :: "time \<Rightarrow> viewer \<Rightarrow> db \<Rightarrow> judge_metrics_out result" where
  "judge_metrics now v d =
     andThen (require_staff v) (\<lambda>_.
       let oldest = first (sort (map jj_created_at (filter (\<lambda>j. jj_status j = Job_QUEUED) (db_jobs d))))
       in Inr \<lparr>jm_queued = count_jobs (\<lambda>j. jj_status j = Job_QUEUED) d,
               jm_claimed = count_jobs (\<lambda>j. jj_status j = Job_CLAIMED) d,
               jm_running = count_jobs (\<lambda>j. jj_status j = Job_RUNNING) d,
               jm_failed_last_24h = count_jobs (\<lambda>j. jj_status j = Job_FAILED
                 \<and> (case jj_finished_at j of None \<Rightarrow> False | Some t \<Rightarrow> t \<ge> now - minutes (24 * 60))) d,
               jm_online_judges = length (filter (\<lambda>g. j_online g \<and> \<not> j_is_blocked g) (db_judges d)),
               jm_blocked_judges = length (filter j_is_blocked (db_judges d)),
               jm_oldest_queued_seconds = (case oldest of None \<Rightarrow> 0 | Some t \<Rightarrow> max 0 (whole_seconds (now - t))),
               jm_leases_expiring_60s = count_jobs (\<lambda>j. jj_status j \<in> {Job_CLAIMED, Job_RUNNING}
                 \<and> (case jj_lease_expires_at j of None \<Rightarrow> False | Some t \<Rightarrow> t > now \<and> t \<le> now + seconds 60)) d\<rparr>)"

text \<open>\<open>LanguageOut\<close> holds every modelled column of the row.\<close>

definition api_list_languages :: "db \<Rightarrow> language list" where
  "api_list_languages d = get_supported_languages d"

definition api_language_detail :: "string \<Rightarrow> db \<Rightarrow> language result" where
  "api_language_detail key d = get_language_by_key key d"

definition api_block_judge :: "time \<Rightarrow> viewer \<Rightarrow> string \<Rightarrow> db \<Rightarrow> db result" where
  "api_block_judge now v name d =
     andThen (require_superuser v) (\<lambda>_. andThen (get_judge name d) (\<lambda>g. Inr (block_judge now g d)))"

definition api_unblock_judge :: "time \<Rightarrow> viewer \<Rightarrow> string \<Rightarrow> db \<Rightarrow> db result" where
  "api_unblock_judge now v name d =
     andThen (require_superuser v) (\<lambda>_. andThen (get_judge name d) (\<lambda>g. Inr (unblock_judge now g d)))"

section \<open>Blocking\<close>

text \<open>The unique columns of the judge table.\<close>

definition judges_ok :: "judge list \<Rightarrow> bool" where
  "judges_ok gs \<longleftrightarrow> distinct (map j_id gs) \<and> distinct (map j_name gs)
     \<and> (\<forall>g \<in> set gs. \<forall>h \<in> set gs. j_token_hash g \<noteq> None \<longrightarrow> j_token_hash g = j_token_hash h \<longrightarrow> j_id g = j_id h)"

lemma get_judgeD: "get_judge name d = Inr g \<Longrightarrow> g \<in> set (db_judges d) \<and> j_name g = name"
  by (auto simp: get_judge_def split: option.splits dest!: first_in)

lemma judges_ok_put:
  assumes ok: "judges_ok gs" and g: "g \<in> set gs"
    and same: "j_id g' = j_id g" "j_name g' = j_name g" "j_token_hash g' = j_token_hash g"
  shows "judges_ok (row_put j_id g' gs) \<and> g' \<in> set (row_put j_id g' gs)"
proof -
  have only: "h = g" if "h \<in> set gs" "j_id h = j_id g" for h
    using that ok g by (auto simp: judges_ok_def distinct_map dest: inj_onD)
  have cols: "map j_name (row_put j_id g' gs) = map j_name gs" "map j_id (row_put j_id g' gs) = map j_id gs"
    by (rule map_row_put; use only same in auto)+
  have old: "\<exists>h0 \<in> set gs. j_token_hash h = j_token_hash h0 \<and> j_id h = j_id h0" if "h \<in> set (row_put j_id g' gs)" for h
    using that g same by (auto simp: row_put_def rows_update_def split: if_splits)
  have "j_id a = j_id b" if ab: "a \<in> set (row_put j_id g' gs)" "b \<in> set (row_put j_id g' gs)" "j_token_hash a \<noteq> None"
    "j_token_hash a = j_token_hash b" for a b
  proof -
    obtain a0 b0 where "a0 \<in> set gs" "j_token_hash a = j_token_hash a0" "j_id a = j_id a0"
      "b0 \<in> set gs" "j_token_hash b = j_token_hash b0" "j_id b = j_id b0" using old [OF ab(1)] old [OF ab(2)] by blast
    then show ?thesis using ok ab(3,4) unfolding judges_ok_def by metis
  qed
  moreover have "distinct (map j_id (row_put j_id g' gs))" "distinct (map j_name (row_put j_id g' gs))"
    using ok cols by (simp_all add: judges_ok_def)
  moreover have "g' \<in> set (row_put j_id g' gs)" using g same(1) by (auto simp: row_put_def rows_update_def image_iff)
  ultimately show ?thesis unfolding judges_ok_def by blast
qed

lemma judge_of_token:
  assumes "judges_ok (db_judges d)" and "g \<in> set (db_judges d)" and "j_token_hash g = Some (e_sha256_hex env token)"
  shows "authenticate_judge env token d = raise_if (j_is_blocked g) (HttpError 403 ''Judge is blocked.'') (Inr (Some g))"
proof -
  let ?f = "filter (\<lambda>h. j_token_hash h = Some (e_sha256_hex env token)) (db_judges d)"
  have "?f \<noteq> []" using assms(2,3) unfolding filter_empty_conv by blast
  then obtain h where h: "first ?f = Some h" by (cases ?f) simp_all
  then have in_h: "h \<in> set (db_judges d)" "j_token_hash h = Some (e_sha256_hex env token)" using first_in [OF h] by simp_all
  have "\<forall>a \<in> set (db_judges d). \<forall>b \<in> set (db_judges d). j_token_hash a \<noteq> None \<longrightarrow> j_token_hash a = j_token_hash b \<longrightarrow> j_id a = j_id b"
    using assms(1) unfolding judges_ok_def by blast
  from bspec [OF bspec [OF this in_h(1)] assms(2)] have "j_id h = j_id g" using in_h(2) assms(3) by simp
  moreover have "inj_on j_id (set (db_judges d))" using assms(1) by (simp add: judges_ok_def distinct_map)
  ultimately have "h = g" using in_h(1) assms(2) by (simp add: inj_on_def)
  then show ?thesis using h by (simp add: authenticate_judge_def)
qed

lemma blocked_row:
  assumes "judges_ok (db_judges d)" and "get_judge name d = Inr g" and "j_token_hash g = Some (e_sha256_hex env token)"
    and "api_block_judge now v name d = Inr d'" and "db_judges d'' = db_judges d'"
  shows "request_judge env token d'' = Inl (HttpError 403 ''Judge is blocked.'')"
proof -
  let ?g = "g\<lparr>j_is_blocked := True, j_updated_at := now\<rparr>"
  have "db_judges d'' = row_put j_id ?g (db_judges d)"
    using assms(2,4,5) by (auto simp: api_block_judge_def block_judge_def save_judge_def)
  then have "judges_ok (db_judges d'')" "?g \<in> set (db_judges d'')"
    using judges_ok_put [OF assms(1), of g ?g] get_judgeD [OF assms(2)] by simp_all
  from judge_of_token [OF this, of env token] show ?thesis using assms(3) by (simp add: request_judge_def)
qed

section \<open>Properties\<close>

text \<open>Once a superuser has blocked a judge, every endpoint of the worker API answers 403 to it and changes
  nothing, as long as its row stays as it is: it registers, beats, claims, starts, reports, finishes
  and fails nothing and gets no package, neither for judge jobs nor for shadow jobs.\<close>

theorem blocked_judge_locked_out:
  assumes "judges_ok (db_judges d)" and "get_judge name d = Inr g" and "j_token_hash g = Some (e_sha256_hex env token)"
    and "api_block_judge now v name d = Inr d'" and "db_judges d'' = db_judges d'"
  shows "u_is_superuser (the v) \<and> (\<forall>e. e = HttpError 403 ''Judge is blocked.'' \<longrightarrow>
     register env t token ver caps d'' = Inl e \<and> heartbeat env t token ld d'' = Inl e
     \<and> api_claim env t token langs d'' = Inl e \<and> api_start env t token i d'' = Inl e
     \<and> api_cases env t token i sha cs d'' = Inl e \<and> api_finish env t token i fin d'' = Inl e
     \<and> api_fail env t token i flr d'' = Inl e \<and> download_package env token prob hash d'' = Inl e
     \<and> api_shadow_claim env t token langs d'' = Inl e \<and> api_shadow_start env t token i d'' = Inl e
     \<and> api_shadow_cases env t token i sha cs d'' = Inl e \<and> api_shadow_finish env t token i fin d'' = Inl e
     \<and> api_shadow_fail env t token i flr d'' = Inl e)"
proof -
  note shut = blocked_row [OF assms]
  have "u_is_superuser (the v)" using assms(4)
    by (auto simp: api_block_judge_def require_superuser_def require_staff_def split: option.splits)
  then show ?thesis
    by (simp add: shut register_def heartbeat_def api_claim_def api_start_def api_cases_def api_finish_def api_fail_def
        download_package_def api_shadow_claim_def api_shadow_start_def api_shadow_cases_def api_shadow_finish_def api_shadow_fail_def)
qed

theorem blocked_judge_locked_out_witness:
  "\<exists>d'. api_block_judge 5 (Some ((new_user 1)\<lparr>u_is_staff := True, u_is_superuser := True\<rparr>)) ''j''
       (sample_site\<lparr>db_judges := [(new_judge 2 0)\<lparr>j_name := ''j'', j_token_hash := Some (e_sha256_hex sample_env ''t'')\<rparr>, new_judge 3 0]\<rparr>) = Inr d'
     \<and> api_claim sample_env 6 ''t'' [] d' = Inl (HttpError 403 ''Judge is blocked.'')"
proof -
  let ?j = "(new_judge 2 0)\<lparr>j_name := ''j'', j_token_hash := Some (e_sha256_hex sample_env ''t'')\<rparr>"
  let ?d = "sample_site\<lparr>db_judges := [?j, new_judge 3 0]\<rparr>"
  let ?u = "(new_user 1)\<lparr>u_is_staff := True, u_is_superuser := True\<rparr>"
  have ok: "judges_ok (db_judges ?d)" by (simp add: judges_ok_def new_judge_def)
  have g: "get_judge ''j'' ?d = Inr ?j" by (simp add: get_judge_def)
  obtain d' where run: "api_block_judge 5 (Some ?u) ''j'' ?d = Inr d'"
    using g by (simp add: api_block_judge_def require_superuser_def require_staff_def)
  have "j_token_hash ?j = Some (e_sha256_hex sample_env ''t'')" by simp
  from blocked_judge_locked_out [OF ok g this run refl] run show ?thesis by blast
qed

text \<open>The cleanup of stale sessions never finds anything in the worker queue: a submission that is being
  judged names no judge, since the judge is only recorded with its result, so in every state the
  operations reach the task requeues nothing, whatever judges are offline.\<close>

theorem stale_cleanup_idle:
  assumes "queue_reachable env d"
  shows "cleanup_stale_sessions now d = (Inr 0, d)"
proof -
  have ok: "queue_ok d" by (rule queue_reachable_ok [OF assms])
  have "s_judged_on s = None" if s: "s \<in> set (db_submissions d)" "s_status s \<in> {Sub_COMPILING, Sub_JUDGING}" for s
  proof -
    have "s_id s \<in> jj_submission ` set (db_jobs d)" using ok s(1) by (auto simp: queue_ok_def)
    then obtain j where j: "j \<in> set (db_jobs d)" "s_id s = jj_submission j" by blast
    then have "coupled j s" using ok s(1) by (simp add: queue_ok_def)
    then show ?thesis using s(2) by (auto simp: coupled_def unjudged_def split: job_status.splits)
  qed
  then have "stale_submissions d = []" by (auto simp: stale_submissions_def filter_empty_conv)
  then show ?thesis by (simp add: cleanup_stale_sessions_def)
qed

theorem stale_cleanup_idle_witness:
  "\<exists>d. start (seconds 2) 1 2 sample_claimed = Inr d \<and> map s_status (db_submissions d) = [Sub_JUDGING]
     \<and> map j_online (db_judges d) = [False, False] \<and> cleanup_stale_sessions (seconds 900) d = (Inr 0, d)"
proof -
  have "case start (seconds 2) 1 2 sample_claimed of Inl e \<Rightarrow> False
    | Inr d \<Rightarrow> map s_status (db_submissions d) = [Sub_JUDGING] \<and> map j_online (db_judges d) = [False, False]" by code_simp
  then obtain d where run: "start (seconds 2) 1 2 sample_claimed = Inr d" "map s_status (db_submissions d) = [Sub_JUDGING]"
    "map j_online (db_judges d) = [False, False]" by (auto split: sum.splits)
  have "queue_reachable sample_env d" by (rule queue_reachable.step [OF sample_reachable queue_step.start_job [OF run(1)]])
  then have "cleanup_stale_sessions (seconds 900) d = (Inr 0, d)" by (rule stale_cleanup_idle)
  with run show ?thesis by (intro exI conjI)
qed

end
