(* ===== verification/Bridge.thy ===== *)
theory Bridge
  imports JudgeAdmin
begin

text \<open>
  The legacy bridge: \<open>judge_handler.py\<close> and \<open>bridge_manager.py\<close> under \<open>judge/bridge\<close>, the result callbacks of
  \<open>submission_service.py\<close> they call and the tasks of \<open>submissions/tasks.py\<close>. A handler is a number; \<open>br_judges\<close>
  is its attribute \<open>judge\<close>, the instance read when it connected, and \<open>br_registry\<close> the dictionary of the
  manager. The transport is an argument that says which payloads it takes. Numbers in a payload are numbers,
  its status is one of the enumeration, and a case has no batch; judges that ever connected keep their row,
  and the websocket broadcasts are left out. A value outside its column makes the database refuse the row.

  The handlers hold copies of judge rows, which no later change of the rows reaches: the histories
  (\<open>bridge_reachable\<close>, where the tables may change in any way between two calls) show what the
  registry then knows of a judge, and what a dispatch does.
\<close>

record bridge =
  br_db :: db
  br_judges :: "(nat, judge) dict"
  br_registry :: "(string, nat) dict"

section \<open>The result callbacks\<close>

record bridge_result =
  bs_status :: "sub_status option"
  bs_result :: "string option"
  bs_points :: "rat option"
  bs_time_used :: "rat option"
  bs_memory_used :: "int option"
  bs_case_total :: "int option"
  bs_case_passed :: "int option"
  bs_current_testcase :: "int option"
  bs_error_message :: "string option"

text \<open>An empty verdict text is stored as it is, which every reader takes for no verdict.\<close>

definition reported_verdict :: "string option \<Rightarrow> verdict option" where
  "reported_verdict r = (case r of None \<Rightarrow> None | Some s \<Rightarrow> if s = [] then None else Some (get_or (verdict_of_code s) IE))"

definition positive_columns :: "int list \<Rightarrow> 'a result \<Rightarrow> 'a result" where
  "positive_columns ns r = raise_if (list_ex (\<lambda>n. n > 2147483647) ns) (DataError ''integer out of range'')
     (raise_if (list_ex (\<lambda>n. n < 0) ns) (IntegrityError ''violates check constraint'') r)"

definition update_submission_result :: "time \<Rightarrow> nat \<Rightarrow> bridge_result \<Rightarrow> db \<Rightarrow> (submission \<times> db) result" where
  "update_submission_result now i x d =
     (case get_submission_row i d of
        None \<Rightarrow> Inl (NotFoundError (''Submission '' @ show_nat i @ '' was not found.''))
      | Some s \<Rightarrow>
          let s' = s\<lparr>s_status := get_or (bs_status x) Sub_COMPLETED, s_result := reported_verdict (bs_result x),
                     s_points := get_or (bs_points x) (s_points s), s_time_used := get_or (bs_time_used x) (s_time_used s),
                     s_memory_used := get_or (bs_memory_used x) (s_memory_used s),
                     s_case_total := get_or (bs_case_total x) (s_case_total s),
                     s_case_passed := get_or (bs_case_passed x) (s_case_passed s),
                     s_current_testcase := get_or (bs_current_testcase x) (s_current_testcase s),
                     s_error_message := get_or (bs_error_message x) (s_error_message s), s_judged_at := Some now\<rparr>
          in positive_columns [s_memory_used s', s_case_total s', s_case_passed s', s_current_testcase s']
             (Inr (s', publish \<lparr>ev_type = ''submission.judged'',
               ev_payload = [(''submission_id'', JInt (int i)), (''status'', JStr (status_code (s_status s'))),
                 (''result'', verdict_json (s_result s')), (''points'', JFloat (s_points s')),
                 (''time_used'', JFloat (s_time_used s')), (''memory_used'', JInt (s_memory_used s')),
                 (''case_total'', JInt (s_case_total s')), (''case_passed'', JInt (s_case_passed s'))],
               ev_group = None\<rparr> (save_submission s' d))))"

record bridge_case =
  bc_case_number :: int
  bc_status :: "string option"
  bc_time_used :: "rat option"
  bc_memory_used :: "int option"
  bc_points :: "rat option"
  bc_total_points :: "rat option"
  bc_feedback :: "string option"
  bc_output :: "string option"
  bc_case_total :: "int option"

definition fill_case :: "bridge_case \<Rightarrow> test_case \<Rightarrow> test_case" where
  "fill_case x t = t\<lparr>t_status := normalise_verdict (get_or (bc_status x) (verdict_code IR)),
     t_time_used := get_or (bc_time_used x) 0, t_memory_used := get_or (bc_memory_used x) 0, t_points := get_or (bc_points x) 0,
     t_total_points := get_or (bc_total_points x) 0, t_feedback := get_or (bc_feedback x) [], t_output := get_or (bc_output x) []\<rparr>"

definition blank_case :: "nat \<Rightarrow> int \<Rightarrow> test_case" where
  "blank_case i n = \<lparr>t_submission = i, t_case_number = n, t_status = IR, t_time_used = 0, t_memory_used = 0, t_points = 0,
     t_total_points = 0, t_group = ''default'', t_feedback = [], t_output = []\<rparr>"

definition put_case :: "nat \<Rightarrow> bridge_case \<Rightarrow> test_case list \<Rightarrow> test_case list" where
  "put_case i x ts =
     (let same = (\<lambda>t. t_submission t = i \<and> t_case_number t = bc_case_number x)
      in if list_ex same ts then rows_update same (fill_case x) ts
         else ts @ [fill_case x (blank_case i (bc_case_number x))])"

definition update_test_case_result :: "nat \<Rightarrow> bridge_case \<Rightarrow> db \<Rightarrow> db result" where
  "update_test_case_result i x d =
     (case get_submission_row i d of
        None \<Rightarrow> Inl (NotFoundError (''Submission '' @ show_nat i @ '' was not found.''))
      | Some s \<Rightarrow>
          let ts = put_case i x (db_test_cases d); n = bc_case_number x;
              s' = s\<lparr>s_current_testcase := max (s_current_testcase s) n,
                     s_case_total := max (max (s_case_total s) (get_or (bc_case_total x) (s_case_total s))) n,
                     s_case_passed := int (length (filter (\<lambda>t. t_submission t = i \<and> t_status t = AC) ts)), s_status := Sub_JUDGING\<rparr>
          in positive_columns [n, get_or (bc_memory_used x) 0]
             (positive_columns [s_current_testcase s', s_case_total s', s_case_passed s']
               (Inr (publish \<lparr>ev_type = ''submission.judging'',
               ev_payload = [(''submission_id'', JInt (int i)), (''case_number'', JInt n),
                 (''status'', JStr (verdict_code (t_status (fill_case x (blank_case i n))))), (''case_total'', JInt (s_case_total s')),
                 (''case_passed'', JInt (s_case_passed s')), (''current_testcase'', JInt (s_current_testcase s'))],
               ev_group = None\<rparr> (save_submission s' (d\<lparr>db_test_cases := ts\<rparr>))))))"

section \<open>Connections (\<open>judge_handler.py\<close>)\<close>

text \<open>A save with \<open>update_fields\<close> writes these columns of the row only.\<close>

definition set_online :: "time \<Rightarrow> bool \<Rightarrow> judge \<Rightarrow> db \<Rightarrow> db" where
  "set_online now b g d = d\<lparr>db_judges := rows_update (\<lambda>x. j_id x = j_id g)
     (\<lambda>x. x\<lparr>j_online := b, j_start_time := j_start_time g, j_updated_at := now\<rparr>) (db_judges d)\<rparr>"

definition register_judge :: "nat \<Rightarrow> bridge \<Rightarrow> bridge" where
  "register_judge h b =
     (case map_of (br_judges b) h of
        None \<Rightarrow> b | Some g \<Rightarrow> b\<lparr>br_registry := AList.update (j_name g) h (br_registry b)\<rparr>)"

definition unregister_judge :: "nat \<Rightarrow> bridge \<Rightarrow> bridge" where
  "unregister_judge h b =
     (case map_of (br_judges b) h of
        None \<Rightarrow> b | Some g \<Rightarrow> b\<lparr>br_registry := AList.delete (j_name g) (br_registry b)\<rparr>)"

text \<open>\<open>hmac.compare_digest\<close> takes ASCII strings only.\<close>

definition is_ascii :: "string \<Rightarrow> bool" where
  "is_ascii = list_all (\<lambda>c. (of_char c :: nat) < 128)"

definition going_online :: "time \<Rightarrow> judge \<Rightarrow> judge" where
  "going_online now g = g\<lparr>j_online := True, j_updated_at := now,
     j_start_time := (case j_start_time g of None \<Rightarrow> Some now | Some t \<Rightarrow> Some t)\<rparr>"

definition on_connect :: "time \<Rightarrow> nat \<Rightarrow> string \<Rightarrow> string \<Rightarrow> bridge \<Rightarrow> (bool \<times> bridge) result" where
  "on_connect now h judge_name auth_key b =
     (case first (filter (\<lambda>g. j_name g = judge_name \<and> \<not> j_is_blocked g) (db_judges (br_db b))) of
        None \<Rightarrow> Inr (False, b)
      | Some g \<Rightarrow>
          if j_auth_key g = [] then Inr (False, b)
          else raise_if (\<not> is_ascii (j_auth_key g) \<or> \<not> is_ascii auth_key) (TypeError ''comparing strings with non-ASCII characters is not supported'')
            (if j_auth_key g \<noteq> auth_key then Inr (False, b)
             else (let g' = going_online now g
                   in Inr (True, register_judge h (b\<lparr>br_db := set_online now True g' (br_db b),
                                                     br_judges := AList.update h g' (br_judges b)\<rparr>)))))"

text \<open>Here only \<open>online\<close> is written.\<close>

definition on_disconnect :: "time \<Rightarrow> nat \<Rightarrow> bridge \<Rightarrow> bridge" where
  "on_disconnect now h b =
     (case map_of (br_judges b) h of
        None \<Rightarrow> b
      | Some g \<Rightarrow> unregister_judge h
          (b\<lparr>br_db := (br_db b)\<lparr>db_judges := rows_update (\<lambda>x. j_id x = j_id g) (\<lambda>x. x\<lparr>j_online := False, j_updated_at := now\<rparr>)
                                  (db_judges (br_db b))\<rparr>,
             br_judges := AList.update h (g\<lparr>j_online := False, j_updated_at := now\<rparr>) (br_judges b)\<rparr>))"

definition on_submission_result :: "time \<Rightarrow> nat \<Rightarrow> bridge_result \<Rightarrow> bridge \<Rightarrow> bridge result" where
  "on_submission_result now i x b = andThen (update_submission_result now i x (br_db b)) (\<lambda>(s, d). Inr (b\<lparr>br_db := d\<rparr>))"

definition on_test_case_result :: "nat \<Rightarrow> bridge_case \<Rightarrow> bridge \<Rightarrow> bridge result" where
  "on_test_case_result i x b = andThen (update_test_case_result i x (br_db b)) (\<lambda>d. Inr (b\<lparr>br_db := d\<rparr>))"

definition on_compile_error :: "time \<Rightarrow> nat \<Rightarrow> string \<Rightarrow> bridge \<Rightarrow> bridge result" where
  "on_compile_error now i error_msg b =
     on_submission_result now i \<lparr>bs_status = Some Sub_ERROR, bs_result = Some (verdict_code CE), bs_points = Some 0, bs_time_used = Some 0,
       bs_memory_used = Some 0, bs_case_total = None, bs_case_passed = None, bs_current_testcase = None, bs_error_message = Some error_msg\<rparr> b"

section \<open>Dispatching (\<open>bridge_manager.py\<close>)\<close>

text \<open>The relations of a judge are queries on its row; \<open>online\<close>, \<open>is_blocked\<close> and \<open>load\<close> are attributes of the
  instance.\<close>

definition judge_row :: "judge \<Rightarrow> db \<Rightarrow> judge option" where
  "judge_row g d = row_get j_id (j_id g) (db_judges d)"

definition is_candidate :: "nat \<Rightarrow> nat \<Rightarrow> bridge \<Rightarrow> nat \<Rightarrow> bool" where
  "is_candidate problem_id language_id b h =
     (case map_of (br_judges b) h of
        None \<Rightarrow> False
      | Some g \<Rightarrow> j_online g \<and> \<not> j_is_blocked g
          \<and> (case judge_row g (br_db b) of
                None \<Rightarrow> False
              | Some r \<Rightarrow> language_id \<in> set (j_runtimes r) \<and> (j_problems r = [] \<or> problem_id \<in> set (j_problems r))))"

definition handler_load :: "bridge \<Rightarrow> nat \<Rightarrow> rat" where
  "handler_load b h = (case map_of (br_judges b) h of None \<Rightarrow> 0 | Some g \<Rightarrow> get_or (j_load g) 0)"

definition get_available_judge :: "nat \<Rightarrow> nat \<Rightarrow> bridge \<Rightarrow> nat option" where
  "get_available_judge problem_id language_id b =
     first (sort_key (handler_load b) (filter (is_candidate problem_id language_id b) (map snd (br_registry b))))"

record bridge_payload =
  bp_submission_id :: nat
  bp_problem_id :: nat
  bp_language_id :: nat
  bp_language_key :: string
  bp_source_code :: string
  bp_time_limit :: rat
  bp_memory_limit :: int

definition payload_of :: "submission \<Rightarrow> problem \<Rightarrow> language \<Rightarrow> db \<Rightarrow> bridge_payload" where
  "payload_of s p l d = \<lparr>bp_submission_id = s_id s, bp_problem_id = s_problem s, bp_language_id = s_language s,
     bp_language_key = l_key l, bp_source_code = source_of d (s_id s), bp_time_limit = p_time_limit p, bp_memory_limit = p_memory_limit p\<rparr>"

text \<open>\<open>sends h x\<close>: the handler has a transport and a judge, and the transport takes the payload.\<close>

definition send_submission :: "(nat \<Rightarrow> bridge_payload \<Rightarrow> bool) \<Rightarrow> nat \<Rightarrow> bridge_payload \<Rightarrow> bridge \<Rightarrow> bool" where
  "send_submission sends h x b = (map_of (br_judges b) h \<noteq> None \<and> sends h x)"

definition dispatch_submission ::
    "(nat \<Rightarrow> bridge_payload \<Rightarrow> bool) \<Rightarrow> submission \<Rightarrow> problem \<Rightarrow> language \<Rightarrow> bridge \<Rightarrow> bool \<times> bridge" where
  "dispatch_submission sends s p l b =
     (case get_available_judge (p_id p) (l_id l) b of
        None \<Rightarrow> (False, b)
      | Some h \<Rightarrow>
          if \<not> send_submission sends h (payload_of s p l (br_db b)) b then (False, b)
          else (True, b\<lparr>br_db := save_submission
                  (s\<lparr>s_status := Sub_COMPILING, s_judged_on := map_option j_id (map_of (br_judges b) h)\<rparr>) (br_db b)\<rparr>))"

definition judge_snapshot :: "judge \<Rightarrow> judge_out" where
  "judge_snapshot g = \<lparr>jo_name = j_name g, jo_online = j_online g, jo_is_blocked = j_is_blocked g, jo_status = judge_status g,
     jo_ping = j_ping g, jo_load = j_load g\<rparr>"

definition get_connected_judges :: "bridge \<Rightarrow> judge_out list" where
  "get_connected_judges b = map judge_snapshot (List.map_filter (map_of (br_judges b)) (map snd (br_registry b)))"

text \<open>The task; a foreign key always has its row.\<close>

definition judge_submission :: "(nat \<Rightarrow> bridge_payload \<Rightarrow> bool) \<Rightarrow> nat \<Rightarrow> bridge \<Rightarrow> bridge result" where
  "judge_submission sends i b =
     (case get_submission_row i (br_db b) of
        None \<Rightarrow> Inr b
      | Some s \<Rightarrow>
          (case (row_get p_id (s_problem s) (db_problems (br_db b)), row_get l_id (s_language s) (db_languages (br_db b))) of
             (Some p, Some l) \<Rightarrow>
               (case dispatch_submission sends s p l b of
                  (dispatched, b') \<Rightarrow> raise_if (\<not> dispatched)
                    (JudgeUnavailableError ''No available judge could accept the submission.'') (Inr b'))
           | _ \<Rightarrow> Inl (ValueError ''matching query does not exist.'')))"

section \<open>Histories\<close>

text \<open>A handler serves one connection, so it connects once. The tables change in any way between two calls.\<close>

inductive bridge_step :: "(nat \<Rightarrow> bridge_payload \<Rightarrow> bool) \<Rightarrow> bridge \<Rightarrow> bridge \<Rightarrow> bool" for sends where
  connect: "map_of (br_judges b) h = None \<Longrightarrow> on_connect now h name key b = Inr (accepted, b') \<Longrightarrow> bridge_step sends b b'"
| disconnect: "bridge_step sends b (on_disconnect now h b)"
| submission_result: "on_submission_result now i x b = Inr b' \<Longrightarrow> bridge_step sends b b'"
| test_case_result: "on_test_case_result i c b = Inr b' \<Longrightarrow> bridge_step sends b b'"
| compile_error: "on_compile_error now i msg b = Inr b' \<Longrightarrow> bridge_step sends b b'"
| judge_task: "judge_submission sends i b = Inr b' \<Longrightarrow> bridge_step sends b b'"
| tables: "bridge_step sends b (b\<lparr>br_db := d\<rparr>)"

inductive bridge_reachable :: "(nat \<Rightarrow> bridge_payload \<Rightarrow> bool) \<Rightarrow> bridge \<Rightarrow> bool" for sends where
  initial: "br_registry b = [] \<Longrightarrow> br_judges b = [] \<Longrightarrow> bridge_reachable sends b"
| step: "bridge_reachable sends b \<Longrightarrow> bridge_step sends b b' \<Longrightarrow> bridge_reachable sends b'"

text \<open>A registered handler has a judge, under whose name it is registered, and whose copy is online and not
  blocked.\<close>

definition connected_copy :: "string \<Rightarrow> judge \<Rightarrow> bool" where
  "connected_copy n g \<longleftrightarrow> j_name g = n \<and> j_online g \<and> \<not> j_is_blocked g \<and> j_auth_key g \<noteq> []"

definition handlers_ok :: "(string \<rightharpoonup> nat) \<Rightarrow> (nat \<rightharpoonup> judge) \<Rightarrow> bool" where
  "handlers_ok R J \<longleftrightarrow> (\<forall>n h. R n = Some h \<longrightarrow> (\<exists>g. J h = Some g \<and> connected_copy n g))"

definition registry_ok :: "bridge \<Rightarrow> bool" where
  "registry_ok b \<longleftrightarrow> distinct (map fst (br_registry b)) \<and> handlers_ok (map_of (br_registry b)) (map_of (br_judges b))"

lemma handlers_ok_connect: "handlers_ok R J \<Longrightarrow> J h = None \<Longrightarrow> connected_copy n g \<Longrightarrow> handlers_ok (R(n \<mapsto> h)) (J(h \<mapsto> g))"
  by (fastforce simp: handlers_ok_def)

lemma handlers_ok_disconnect: "handlers_ok R J \<Longrightarrow> J h = Some g \<Longrightarrow> handlers_ok (R(j_name g := None)) (J(h \<mapsto> g'))"
  by (fastforce simp: handlers_ok_def connected_copy_def)

lemma on_connectD:
  assumes "on_connect now h name key b = Inr (accepted, b')"
  shows "(if accepted then \<exists>g \<in> set (db_judges (br_db b)). j_name g = name \<and> \<not> j_is_blocked g \<and> j_auth_key g = key \<and> key \<noteq> []
     \<and> b' = \<lparr>br_db = set_online now True (going_online now g) (br_db b), br_judges = AList.update h (going_online now g) (br_judges b),
             br_registry = AList.update name h (br_registry b)\<rparr>
     else b' = b)"
  using assms
  by (auto simp: on_connect_def raise_if_def register_judge_def Let_def update_conv' going_online_def split: option.splits if_splits dest!: first_in)

lemma registry_ok_connect:
  assumes "registry_ok b" and "map_of (br_judges b) h = None" and "on_connect now h name key b = Inr (accepted, b')"
  shows "registry_ok b'"
proof (cases accepted)
  case True
  then obtain g where g: "j_name g = name" "\<not> j_is_blocked g" "j_auth_key g \<noteq> []"
    "b' = \<lparr>br_db = set_online now True (going_online now g) (br_db b), br_judges = AList.update h (going_online now g) (br_judges b),
           br_registry = AList.update name h (br_registry b)\<rparr>" using on_connectD [OF assms(3)] by auto
  then have "connected_copy name (going_online now g)" by (simp add: connected_copy_def going_online_def)
  with handlers_ok_connect [of "map_of (br_registry b)" "map_of (br_judges b)" h name "going_online now g"] assms(1,2) show ?thesis
    by (simp add: g(4) registry_ok_def distinct_update update_conv' del: map_of_eq_Some_iff)
qed (use assms(1) on_connectD [OF assms(3)] in simp)

lemma registry_ok_disconnect:
  assumes "registry_ok b"
  shows "registry_ok (on_disconnect now h b)"
proof (cases "map_of (br_judges b) h")
  case (Some g)
  then have "handlers_ok ((map_of (br_registry b))(j_name g := None)) ((map_of (br_judges b))(h \<mapsto> g\<lparr>j_online := False, j_updated_at := now\<rparr>))"
    using assms handlers_ok_disconnect [of "map_of (br_registry b)" "map_of (br_judges b)" h g] by (simp only: registry_ok_def)
  then show ?thesis using assms Some
    by (simp add: on_disconnect_def unregister_judge_def registry_ok_def distinct_delete update_conv' delete_conv')
qed (use assms in \<open>simp add: on_disconnect_def\<close>)

lemma same_registry: "br_registry b' = br_registry b \<Longrightarrow> br_judges b' = br_judges b \<Longrightarrow> registry_ok b \<Longrightarrow> registry_ok b'"
  by (simp add: registry_ok_def)

lemma dispatch_keeps_registry:
  "br_registry (snd (dispatch_submission sends s p l b)) = br_registry b \<and> br_judges (snd (dispatch_submission sends s p l b)) = br_judges b"
  by (simp add: dispatch_submission_def split: option.splits)

lemma judge_keeps_registry:
  assumes "judge_submission sends i b = Inr b'"
  shows "br_registry b' = br_registry b \<and> br_judges b' = br_judges b"
proof -
  have "b' = b \<or> (\<exists>s p l. b' = snd (dispatch_submission sends s p l b))"
    using assms by (simp add: judge_submission_def raise_if_def split: option.splits if_splits prod.splits) (metis snd_conv)
  then show ?thesis using dispatch_keeps_registry by metis
qed

lemma registry_ok_step: "bridge_step sends b b' \<Longrightarrow> registry_ok b \<Longrightarrow> registry_ok b'"
proof (induction rule: bridge_step.induct)
  case connect then show ?case using registry_ok_connect by blast
next
  case disconnect then show ?case using registry_ok_disconnect by blast
next
  case judge_task
  then show ?case using judge_keeps_registry same_registry by metis
qed (rule same_registry; auto simp: on_submission_result_def on_test_case_result_def on_compile_error_def)+

lemma bridge_registry_ok: "bridge_reachable sends b \<Longrightarrow> registry_ok b"
proof (induction rule: bridge_reachable.induct)
  case step then show ?case by (blast intro: registry_ok_step)
qed (simp add: registry_ok_def handlers_ok_def)

text \<open>The first of the least loaded.\<close>

lemma least_loaded:
  assumes "first (sort_key f xs) = Some x"
  shows "x \<in> set xs \<and> (\<forall>y \<in> set xs. f x \<le> f y)"
proof -
  obtain ys where ys: "sort_key f xs = x # ys" using assms by (cases "sort_key f xs") simp_all
  have "set (sort_key f xs) = set xs" "sorted (map f (sort_key f xs))" by simp_all
  then have "set (x # ys) = set xs" "sorted (map f (x # ys))" unfolding ys by simp_all
  then show ?thesis by auto
qed

lemma chosen_handler:
  assumes "get_available_judge p l b = Some h"
  shows "h \<in> set (map snd (br_registry b)) \<and> is_candidate p l b h
     \<and> (\<forall>x \<in> set (map snd (br_registry b)). is_candidate p l b x \<longrightarrow> handler_load b h \<le> handler_load b x)"
  using least_loaded [OF assms [unfolded get_available_judge_def]] by auto

lemma row_get_row_put_same: "row_get key (key r) rows \<noteq> None \<Longrightarrow> row_get key (key r) (row_put key r rows) = Some r"
  by (auto simp: row_get_put)

lemma set_online_keys:
  "(\<lambda>x. (j_id x, j_name x)) ` set (db_judges (set_online t a g d)) = (\<lambda>x. (j_id x, j_name x)) ` set (db_judges d)"
proof -
  have "map (\<lambda>x. (j_id x, j_name x)) (db_judges (set_online t a g d)) = map (\<lambda>x. (j_id x, j_name x)) (db_judges d)"
    by (simp add: set_online_def rows_update_def)
  from arg_cong [OF this, of set] show ?thesis by simp
qed

section \<open>A connection\<close>

definition bridge_judge :: judge where
  "bridge_judge = (new_judge 2 0)\<lparr>j_name := ''j'', j_auth_key := ''k'', j_runtimes := [1]\<rparr>"

definition idle_bridge :: bridge where
  "idle_bridge = \<lparr>br_db = sample_created\<lparr>db_judges := [bridge_judge, new_judge 3 0]\<rparr>, br_judges = [], br_registry = []\<rparr>"

definition served_bridge :: bridge where
  "served_bridge = register_judge 10 (idle_bridge\<lparr>br_db := set_online 4 True (going_online 4 bridge_judge) (br_db idle_bridge),
     br_judges := [(10, going_online 4 bridge_judge)]\<rparr>)"

lemma served_connects: "on_connect 4 10 ''j'' ''k'' idle_bridge = Inr (True, served_bridge)"
  by code_simp

lemma served_reachable: "bridge_reachable sends served_bridge"
  by (rule bridge_reachable.step [OF bridge_reachable.initial bridge_step.connect [OF _ served_connects]]) (simp_all add: idle_bridge_def)

section \<open>Properties\<close>

text \<open>C39: A submission is sent to a connection that is registered under the name of its judge, was accepted with
  the key of the judge and has not closed, whose judge has the language and either the problem or no
  list of problems, and which is least loaded among those; the submission is then compiling on that
  judge, and the queue of the worker API is left as it is, its job included.\<close>

theorem bridge_dispatch:
  assumes "bridge_reachable sends b" and "get_submission_row (s_id s) (br_db b) = Some s"
    and "dispatch_submission sends s p l b = (True, b')"
  shows "\<exists>h g r. map_of (br_registry b) (j_name g) = Some h \<and> map_of (br_judges b) h = Some g \<and> connected_copy (j_name g) g
     \<and> judge_row g (br_db b) = Some r \<and> l_id l \<in> set (j_runtimes r) \<and> (j_problems r = [] \<or> p_id p \<in> set (j_problems r))
     \<and> (\<forall>x \<in> set (map snd (br_registry b)). is_candidate (p_id p) (l_id l) b x \<longrightarrow> handler_load b h \<le> handler_load b x)
     \<and> sends h (payload_of s p l (br_db b))
     \<and> get_submission_row (s_id s) (br_db b') = Some (s\<lparr>s_status := Sub_COMPILING, s_judged_on := Some (j_id g)\<rparr>)
     \<and> db_jobs (br_db b') = db_jobs (br_db b)"
proof -
  obtain h where h: "get_available_judge (p_id p) (l_id l) b = Some h" "sends h (payload_of s p l (br_db b))"
    "b' = b\<lparr>br_db := save_submission (s\<lparr>s_status := Sub_COMPILING, s_judged_on := map_option j_id (map_of (br_judges b) h)\<rparr>) (br_db b)\<rparr>"
    using assms(3) by (auto simp: dispatch_submission_def send_submission_def split: option.splits if_splits)
  note chosen = chosen_handler [OF h(1)]
  then obtain g r where g: "map_of (br_judges b) h = Some g" "judge_row g (br_db b) = Some r" "l_id l \<in> set (j_runtimes r)"
    "j_problems r = [] \<or> p_id p \<in> set (j_problems r)" by (auto simp: is_candidate_def split: option.splits)
  have ok: "registry_ok b" by (rule bridge_registry_ok [OF assms(1)])
  obtain n where n: "map_of (br_registry b) n = Some h" using chosen ok by (auto simp: registry_ok_def)
  then have "connected_copy n g" using ok g(1) unfolding registry_ok_def handlers_ok_def by (metis option.inject)
  then have copy: "map_of (br_registry b) (j_name g) = Some h" "connected_copy (j_name g) g" using n by (simp_all add: connected_copy_def)
  have "get_submission_row (s_id s) (br_db b') = Some (s\<lparr>s_status := Sub_COMPILING, s_judged_on := Some (j_id g)\<rparr>)"
    "db_jobs (br_db b') = db_jobs (br_db b)"
    using assms(2) g(1) by (simp_all add: h(3) save_submission_def row_get_put)
  then show ?thesis using chosen g h(2) copy by blast
qed

theorem bridge_dispatch_witness:
  "fst (dispatch_submission (\<lambda>_ _. True) sample_row sample_problem sample_language served_bridge)
   \<and> db_jobs (br_db (snd (dispatch_submission (\<lambda>_ _. True) sample_row sample_problem sample_language served_bridge))) = db_jobs (br_db served_bridge)"
proof -
  let ?r = "dispatch_submission (\<lambda>_ _. True) sample_row sample_problem sample_language served_bridge"
  have "fst ?r" "get_submission_row (s_id sample_row) (br_db served_bridge) = Some sample_row" by code_simp+
  then show ?thesis using bridge_dispatch [OF served_reachable, of sample_row "\<lambda>_ _. True" sample_problem sample_language "snd ?r"]
    by (metis prod.collapse)
qed

text \<open>A handler keeps the copy of its judge: blocking the judge through the API changes nothing for the
  bridge, which goes on choosing the same handler, while the worker API refuses it at once.\<close>

theorem block_not_seen:
  assumes "judges_ok (db_judges (br_db b))" and "api_block_judge now v name (br_db b) = Inr d"
  shows "get_available_judge p l (b\<lparr>br_db := d\<rparr>) = get_available_judge p l b"
proof -
  obtain g where g: "get_judge name (br_db b) = Inr g"
    "d = save_judge (g\<lparr>j_is_blocked := True, j_updated_at := now\<rparr>) (br_db b)"
    using assms(2) by (auto simp: api_block_judge_def block_judge_def)
  have in_g: "g \<in> set (db_judges (br_db b))" using get_judgeD [OF g(1)] by simp
  have "inj_on j_id (set (db_judges (br_db b)))" using assms(1) by (simp add: judges_ok_def distinct_map)
  then have only: "x = g" if "judge_row c (br_db b) = Some x" "j_id x = j_id g" for c x
    using that in_g by (auto simp: judge_row_def dest!: row_get_SomeD dest: inj_onD)
  have some: "judge_row c (br_db b) \<noteq> None" if "j_id c = j_id g" for c
    using that in_g by (cases "judge_row c (br_db b)") (auto simp: judge_row_def dest: row_get_NoneD)
  have row: "judge_row c d = map_option (\<lambda>x. if j_id x = j_id g then g\<lparr>j_is_blocked := True, j_updated_at := now\<rparr> else x) (judge_row c (br_db b))" for c
  proof (cases "judge_row c (br_db b)")
    case None
    then have "j_id c \<noteq> j_id g" using some by blast
    with None show ?thesis by (simp add: g(2) judge_row_def save_judge_def row_get_put)
  next
    case (Some x)
    then have "j_id x = j_id c" by (auto simp: judge_row_def dest: row_get_SomeD)
    with Some only [OF Some] show ?thesis by (auto simp: g(2) judge_row_def save_judge_def row_get_put)
  qed
  have "is_candidate p l (b\<lparr>br_db := d\<rparr>) = is_candidate p l b"
    by (rule ext) (auto simp: is_candidate_def row dest: only split: option.splits)
  then show ?thesis by (simp add: get_available_judge_def handler_load_def [abs_def])
qed

theorem block_not_seen_witness:
  "\<exists>d. api_block_judge 5 (Some ((new_user 1)\<lparr>u_is_staff := True, u_is_superuser := True\<rparr>)) ''j'' (br_db served_bridge) = Inr d
     \<and> get_available_judge 5 1 (served_bridge\<lparr>br_db := d\<rparr>) = Some 10"
proof -
  let ?u = "Some ((new_user 1)\<lparr>u_is_staff := True, u_is_superuser := True\<rparr>)"
  have "\<not> isl (api_block_judge 5 ?u ''j'' (br_db served_bridge))" "get_available_judge 5 1 served_bridge = Some 10"
    "map j_id (db_judges (br_db served_bridge)) = [2, 3]" "map j_name (db_judges (br_db served_bridge)) = [''j'', ''judge3'']"
    "map j_token_hash (db_judges (br_db served_bridge)) = [None, None]" by code_simp+
  moreover from this have "judges_ok (db_judges (br_db served_bridge))" by (auto simp: judges_ok_def map_eq_Cons_conv)
  ultimately show ?thesis using block_not_seen [of served_bridge 5 ?u "''j''" _ 5 1] by (metis isl_def sum.exhaust_sel)
qed

text \<open>A judge that connects again before its old connection is closed is lost when the old one closes: the
  registry forgets the new connection and the row says offline, though the new connection is open.\<close>

theorem late_disconnect:
  assumes "on_connect t1 h1 name key b = Inr (True, b1)" and "on_connect t2 h2 name key b1 = Inr (True, b2)" and "h1 \<noteq> h2"
    and "distinct (map j_name (db_judges (br_db b)))"
  shows "map_of (br_registry (on_disconnect t3 h1 b2)) name = None
     \<and> (\<forall>x \<in> set (db_judges (br_db (on_disconnect t3 h1 b2))). j_name x = name \<longrightarrow> \<not> j_online x)
     \<and> (\<exists>g. map_of (br_judges (on_disconnect t3 h1 b2)) h2 = Some g \<and> connected_copy name g)"
proof -
  obtain g1 where g1: "g1 \<in> set (db_judges (br_db b))" "j_name g1 = name" "\<not> j_is_blocked g1" "j_auth_key g1 \<noteq> []"
    "b1 = \<lparr>br_db = set_online t1 True (going_online t1 g1) (br_db b), br_judges = AList.update h1 (going_online t1 g1) (br_judges b),
           br_registry = AList.update name h1 (br_registry b)\<rparr>" using on_connectD [OF assms(1)] by auto
  obtain g2 where g2: "j_name g2 = name" "\<not> j_is_blocked g2" "j_auth_key g2 \<noteq> []"
    "b2 = \<lparr>br_db = set_online t2 True (going_online t2 g2) (br_db b1), br_judges = AList.update h2 (going_online t2 g2) (br_judges b1),
           br_registry = AList.update name h2 (br_registry b1)\<rparr>" using on_connectD [OF assms(2)] by auto
  have g: "map_of (br_judges b2) h1 = Some (going_online t1 g1)" using assms(3) by (simp add: g1(5) g2(4) update_conv')
  have "j_id x = j_id g1" if "x \<in> set (db_judges (br_db b2))" "j_name x = name" for x
  proof -
    have "(j_id x, j_name x) \<in> (\<lambda>x. (j_id x, j_name x)) ` set (db_judges (br_db b))"
      using imageI [OF that(1), of "\<lambda>x. (j_id x, j_name x)"] by (simp add: g1(5) g2(4) set_online_keys)
    then obtain y where "y \<in> set (db_judges (br_db b))" "j_name y = j_name x" "j_id y = j_id x" by auto
    moreover from this have "y = g1" using that(2) g1(1,2) assms(4) by (simp add: distinct_map inj_on_def)
    ultimately show ?thesis by simp
  qed
  then have "\<not> j_online x" if "x \<in> set (db_judges (br_db (on_disconnect t3 h1 b2)))" "j_name x = name" for x
    using that by (auto simp: on_disconnect_def g unregister_judge_def update_conv' rows_update_def going_online_def split: if_splits)
  moreover have "connected_copy name (going_online t2 g2)" using g2 by (simp add: connected_copy_def going_online_def)
  moreover have "map_of (br_judges (on_disconnect t3 h1 b2)) h2 = Some (going_online t2 g2)"
    using assms(3) by (simp add: on_disconnect_def g unregister_judge_def update_conv') (simp add: g2(4) update_conv')
  moreover have "map_of (br_registry (on_disconnect t3 h1 b2)) name = None"
    using g1(2) by (simp add: on_disconnect_def g unregister_judge_def update_conv' delete_conv' going_online_def)
  ultimately show ?thesis by blast
qed

theorem late_disconnect_witness:
  "\<exists>b2. on_connect 5 11 ''j'' ''k'' served_bridge = Inr (True, b2)
     \<and> map_of (br_registry b2) ''j'' = Some 11 \<and> map_of (br_registry (on_disconnect 6 10 b2)) ''j'' = None"
proof -
  have names: "distinct (map j_name (db_judges (br_db idle_bridge)))" by code_simp
  have "case on_connect 5 11 ''j'' ''k'' served_bridge of Inl e \<Rightarrow> False | Inr (ok, b2) \<Rightarrow> ok \<and> map_of (br_registry b2) ''j'' = Some 11"
    by code_simp
  then obtain b2 where b2: "on_connect 5 11 ''j'' ''k'' served_bridge = Inr (True, b2)" "map_of (br_registry b2) ''j'' = Some 11"
    by (auto split: sum.splits)
  have "(10::nat) \<noteq> 11" by simp
  from late_disconnect [OF served_connects b2(1) this names, of 6] b2 show ?thesis by (intro exI conjI) blast+
qed

end
