(* ===== verification/Commands.thy ===== *)
theory Commands
  imports JobInvariant AccountFlow
begin

text \<open>
  The maintenance commands and tasks that write the tables: \<open>cleanup_runs\<close> of \<open>submissions/tasks.py\<close>, and the
  management commands \<open>rejudge\<close>, \<open>recalculate_ratings\<close> and \<open>createjudgeloomuser\<close>. What a command prints is
  reduced to the numbers in it. The first two are related to the invariant of the queue, the third to
  what a rating row holds.
\<close>

section \<open>Deleting old runs (\<open>submissions/tasks.py\<close>)\<close>

text \<open>Deleting a submission deletes its source, cases, job and replays, which the returned number counts too.\<close>

definition delete_submissions :: "(submission \<Rightarrow> bool) \<Rightarrow> db \<Rightarrow> nat \<times> db" where
  "delete_submissions p d =
     (let ids = set (map s_id (filter p (db_submissions d)));
          d' = d\<lparr>db_submissions := rows_delete p (db_submissions d),
                 db_sources := rows_delete (\<lambda>x. src_submission x \<in> ids) (db_sources d),
                 db_test_cases := rows_delete (\<lambda>x. t_submission x \<in> ids) (db_test_cases d),
                 db_jobs := rows_delete (\<lambda>x. jj_submission x \<in> ids) (db_jobs d),
                 db_shadow_jobs := rows_delete (\<lambda>x. sh_submission x \<in> ids) (db_shadow_jobs d)\<rparr>
      in (length (filter p (db_submissions d)) + length (filter (\<lambda>x. src_submission x \<in> ids) (db_sources d))
          + length (filter (\<lambda>x. t_submission x \<in> ids) (db_test_cases d)) + length (filter (\<lambda>x. jj_submission x \<in> ids) (db_jobs d))
          + length (filter (\<lambda>x. sh_submission x \<in> ids) (db_shadow_jobs d)), d'))"

definition old_run :: "time \<Rightarrow> int \<Rightarrow> submission \<Rightarrow> bool" where
  "old_run now ttl_minutes s \<longleftrightarrow> s_mode s = Mode_RUN \<and> s_created_at s < now - minutes ttl_minutes"

definition cleanup_runs :: "time \<Rightarrow> int \<Rightarrow> db \<Rightarrow> nat \<times> db" where
  "cleanup_runs now ttl_minutes d = delete_submissions (old_run now ttl_minutes) d"

section \<open>\<open>manage.py rejudge\<close>\<close>

record rejudge_options =
  ro_problem :: "string option"
  ro_users :: "string list option"
  ro_id_from :: "int option"
  ro_id_to :: "int option"

definition option_set :: "'a option \<Rightarrow> 'a \<Rightarrow> bool" where
  "option_set x falsy \<longleftrightarrow> x \<noteq> None \<and> x \<noteq> Some falsy"

text \<open>The rows a filter keeps; \<open>any\<close> takes zero and empty for no filter, a range bound of zero filters.\<close>

definition rejudge_matches :: "rejudge_options \<Rightarrow> db \<Rightarrow> submission list" where
  "rejudge_matches ro d = sort_key (\<lambda>s. - s_created_at s) (filter (\<lambda>s.
       (option_set (ro_problem ro) [] \<longrightarrow>
          (\<exists>p \<in> set (db_problems d). p_id p = s_problem s \<and> Some (p_code p) = ro_problem ro))
     \<and> (option_set (ro_users ro) [] \<longrightarrow>
          (\<exists>u \<in> set (db_users d). u_id u = s_user s \<and> u_username u \<in> set (get_or (ro_users ro) [])))
     \<and> (case ro_id_from ro of None \<Rightarrow> True | Some a \<Rightarrow> int (s_id s) \<ge> a)
     \<and> (case ro_id_to ro of None \<Rightarrow> True | Some b \<Rightarrow> int (s_id s) \<le> b)) (db_submissions d))"

text \<open>A \<open>SubmissionError\<close> is reported and the loop goes on; any other exception ends the command, and what
  was rejudged stays rejudged.\<close>

fun rejudge_each :: "time \<Rightarrow> nat list \<Rightarrow> db \<Rightarrow> nat result \<times> db" where
  "rejudge_each now [] d = (Inr 0, d)"
| "rejudge_each now (i # is) d =
     (case rejudge_submission now i d of
        Inl e \<Rightarrow> (case e of SubmissionError _ \<Rightarrow> rejudge_each now is d | _ \<Rightarrow> (Inl e, d))
      | Inr d1 \<Rightarrow> (case rejudge_each now is d1 of (r, d2) \<Rightarrow> (andThen r (\<lambda>n. Inr (Suc n)), d2)))"

definition rejudge_command :: "time \<Rightarrow> rejudge_options \<Rightarrow> db \<Rightarrow> nat result \<times> db" where
  "rejudge_command now ro d =
     (if \<not> option_set (ro_problem ro) [] \<and> \<not> option_set (ro_users ro) [] \<and> \<not> option_set (ro_id_from ro) 0 \<and> \<not> option_set (ro_id_to ro) 0
      then (Inl (CommandError ''At least one filter is required: --problem, --user, --id-from, or --id-to.''), d)
      else rejudge_each now (map s_id (rejudge_matches ro d)) d)"

section \<open>\<open>manage.py recalculate_ratings\<close>\<close>

definition py_trunc :: "rat \<Rightarrow> int" where
  "py_trunc q = (if q < 0 then \<lceil>q\<rceil> else \<lfloor>q\<rfloor>)"

definition eligible :: "contest \<Rightarrow> db \<Rightarrow> participation list" where
  "eligible c d = sort_key (\<lambda>p. (- pa_score p, pa_cumulative_time p))
     (filter (\<lambda>p. pa_contest p = c_id c \<and> pa_status p = Part_LIVE \<and> \<not> pa_is_disqualified p) (db_participations d))"

text \<open>The participations in order with the rows of their users, numbered from 1.\<close>

definition ranked_users :: "contest \<Rightarrow> db \<Rightarrow> (nat \<times> participation \<times> user) list" where
  "ranked_users c d = enumerate 1 (List.map_filter (\<lambda>p. map_option (Pair p) (row_get u_id (pa_user p) (db_users d))) (eligible c d))"

definition command_performance :: "participation \<Rightarrow> int" where
  "command_performance p = py_trunc (pa_score p * 10)"

definition command_rating :: "nat \<Rightarrow> participation \<Rightarrow> user \<Rightarrow> int" where
  "command_rating rank p u =
     (let weight = 1 / of_nat rank; delta = py_trunc (of_int (command_performance p - u_rating u) * weight * (4 / 10))
      in max (u_rating u + delta) 0)"

definition command_row :: "time \<Rightarrow> contest \<Rightarrow> nat \<Rightarrow> (nat \<times> participation \<times> user) \<Rightarrow> rating" where
  "command_row now c base x =
     (case x of (rank, p, u) \<Rightarrow>
       \<lparr>rt_id = base + rank, rt_user = u_id u, rt_contest = c_id c, rt_participation = pa_id p, rt_rank = int rank,
        rt_rating_before = u_rating u, rt_rating_after = command_rating rank p u, rt_mean = 1500, rt_volatility_before = 0,
        rt_volatility_after = 0, rt_performance = of_int (command_performance p), rt_created_at = now\<rparr>)"

definition sync_user :: "rating \<times> user \<Rightarrow> user list \<Rightarrow> user list" where
  "sync_user x = (case x of (r, u) \<Rightarrow> rows_update (\<lambda>v. u_id v = u_id u)
     (\<lambda>v. v\<lparr>u_rating := rt_rating_after r, u_max_rating := max (rt_rating_after r) (u_max_rating u)\<rparr>))"

text \<open>One transaction per contest; a user has at most one row per contest.\<close>

definition command_rate_contest :: "time \<Rightarrow> contest \<Rightarrow> db \<Rightarrow> db result" where
  "command_rate_contest now c d =
     (let kept = rows_delete (\<lambda>r. rt_contest r = c_id c) (db_ratings d); entries = ranked_users c d;
          rows = map (command_row now c (fresh_key rt_id (db_ratings d))) entries
      in raise_if (\<not> distinct (map rt_user rows)) (IntegrityError ''ratings_rating'')
           (Inr (d\<lparr>db_ratings := kept @ rows,
                   db_users := fold sync_user (zip rows (map (\<lambda>(_, _, u). u) entries)) (db_users d)\<rparr>)))"

text \<open>The keys and numbers of participants of the contests that were recalculated.\<close>

fun command_rate_contests :: "time \<Rightarrow> bool \<Rightarrow> contest list \<Rightarrow> db \<Rightarrow> (string \<times> nat) list result \<times> db" where
  "command_rate_contests now dry_run [] d = (Inr [], d)"
| "command_rate_contests now dry_run (c # cs) d =
     (let n = length (eligible c d)
      in if n = 0 \<or> dry_run then command_rate_contests now dry_run cs d
         else case command_rate_contest now c d of
                Inl e \<Rightarrow> (Inl e, d)
              | Inr d1 \<Rightarrow> (case command_rate_contests now dry_run cs d1 of
                  (r, d2) \<Rightarrow> (andThen r (\<lambda>out. Inr ((c_key c, n) # out)), d2)))"

definition recalculate_command :: "time \<Rightarrow> string option \<Rightarrow> bool \<Rightarrow> db \<Rightarrow> (string \<times> nat) list result \<times> db" where
  "recalculate_command now contest_key dry_run d =
     command_rate_contests now dry_run
       (filter (\<lambda>c. option_set contest_key [] \<longrightarrow> Some (c_key c) = contest_key)
         (sort_key c_end_time (filter c_is_rated (db_contests d)))) d"

section \<open>\<open>manage.py createjudgeloomuser\<close>\<close>

text \<open>\<open>normalize_email\<close>: the part behind the last at sign is lowered.\<close>

definition normalize_email :: "string \<Rightarrow> string" where
  "normalize_email s =
     (let t = strip s; domain = rev (takeWhile (\<lambda>c. c \<noteq> CHR 0x40) (rev t))
      in if CHR 0x40 \<notin> set t then s else take (length t - length domain) t @ lower domain)"

text \<open>The two answers are what is typed at the prompts when no password is given.\<close>

definition create_platform_user ::
    "'t auth_lib \<Rightarrow> string \<Rightarrow> string \<Rightarrow> string \<Rightarrow> user_role \<Rightarrow> string option \<Rightarrow> string \<times> string \<Rightarrow> bool \<Rightarrow> db \<Rightarrow> (user \<times> db) result" where
  "create_platform_user lib salt username email role password answers superuser d =
     raise_if (list_ex (\<lambda>u. u_username u = username) (db_users d)) (CommandError ''User already exists.'')
     (raise_if (password = None \<and> fst answers \<noteq> snd answers) (CommandError ''Passwords do not match.'')
      (let pw = get_or password (fst answers)
       in raise_if (pw = []) (CommandError ''Password must not be empty.'')
          (raise_if (username = []) (ValueError ''The given username must be set'')
            (let u = (account_row lib salt username (normalize_email email) pw (fresh_key u_id (db_users d)))
                     \<lparr>u_role := role, u_is_staff := superuser, u_is_superuser := superuser\<rparr>
             in Inr (u, d\<lparr>db_users := db_users d @ [u]\<rparr>)))))"

section \<open>Lemmas\<close>

lemma delete_submissions_ok:
  assumes ok: "queue_ok d"
  shows "queue_ok (snd (delete_submissions p d))"
proof -
  let ?ids = "set (map s_id (filter p (db_submissions d)))" and ?d = "snd (delete_submissions p d)"
  have inj: "inj_on s_id (set (db_submissions d))" using ok by (simp add: queue_ok_def distinct_map)
  have subs: "db_submissions ?d = filter (\<lambda>s. \<not> p s) (db_submissions d)"
    and jobs: "db_jobs ?d = filter (\<lambda>j. jj_submission j \<notin> ?ids) (db_jobs d)"
    by (simp_all add: delete_submissions_def Let_def rows_delete_def)
  have kept: "s_id s \<in> ?ids \<longleftrightarrow> p s" if "s \<in> set (db_submissions d)" for s
    using that inj by (auto simp: inj_on_def)
  have "s_id ` {s \<in> set (db_submissions d). \<not> p s} = jj_submission ` {j \<in> set (db_jobs d). jj_submission j \<notin> ?ids}"
  proof (intro subset_antisym subsetI)
    fix i assume "i \<in> s_id ` {s \<in> set (db_submissions d). \<not> p s}"
    then obtain s where s: "s \<in> set (db_submissions d)" "\<not> p s" "i = s_id s" by blast
    have "s_id s \<in> jj_submission ` set (db_jobs d)" using ok s(1) by (auto simp: queue_ok_def)
    then obtain j where j: "j \<in> set (db_jobs d)" "jj_submission j = s_id s" by (metis imageE)
    have "jj_submission j \<notin> ?ids" using kept [OF s(1)] s(2) j(2) by simp
    then show "i \<in> jj_submission ` {j \<in> set (db_jobs d). jj_submission j \<notin> ?ids}"
      using j s(3) by (intro image_eqI [of _ _ j]) simp_all
  next
    fix i assume "i \<in> jj_submission ` {j \<in> set (db_jobs d). jj_submission j \<notin> ?ids}"
    then obtain j where j: "j \<in> set (db_jobs d)" "jj_submission j \<notin> ?ids" "i = jj_submission j" by blast
    have "jj_submission j \<in> s_id ` set (db_submissions d)" using ok j(1) by (simp add: queue_ok_def)
    then obtain s where s: "s \<in> set (db_submissions d)" "jj_submission j = s_id s" by (metis imageE)
    have "\<not> p s" using kept [OF s(1)] s(2) j(2) by simp
    then show "i \<in> s_id ` {s \<in> set (db_submissions d). \<not> p s}" using s j(3) by (intro image_eqI [of _ _ s]) simp_all
  qed
  moreover have "distinct (map jj_id (db_jobs ?d))" "distinct (map s_id (db_submissions ?d))" "distinct (map jj_submission (db_jobs ?d))"
    using ok by (simp_all add: subs jobs queue_ok_def distinct_map_filter)
  ultimately show ?thesis using ok by (simp add: queue_ok_def subs jobs)
qed

lemma rows_kept: "i \<notin> A \<Longrightarrow> filter (\<lambda>x. key x = i) (rows_delete (\<lambda>x. key x \<in> A) xs) = filter (\<lambda>x. key x = i) xs"
  by (auto simp: rows_delete_def intro!: filter_cong)

lemma row_found: "i \<notin> A \<Longrightarrow> List.find (\<lambda>x. key x = i) (rows_delete (\<lambda>x. key x \<in> A) xs) = List.find (\<lambda>x. key x = i) xs"
  by (induction xs) (auto simp: rows_delete_def)

text \<open>A submission that waits for a worker from the start again.\<close>

definition queued_again :: "nat \<Rightarrow> db \<Rightarrow> bool" where
  "queued_again i d \<longleftrightarrow> (\<exists>j \<in> set (db_jobs d). jj_submission j = i \<and> jj_status j = Job_QUEUED \<and> jj_claimed_by j = None \<and> jj_attempts j = 0)"

lemma requeue_queues:
  assumes "queue_ok d" and "rejudge_submission now i d = Inr d'"
  shows "queued_again i d' \<and> (queued_again k d \<longrightarrow> queued_again k d')"
proof -
  obtain s j cf where r: "j \<in> set (db_jobs d)" "jj_submission j = i" "db_jobs d' = row_put jj_id (requeued_job cf j) (db_jobs d)"
    using assms(2,1) by (rule rejudge_cases)
  have jobs: "set (db_jobs d') = (\<lambda>x. if jj_id x = jj_id j then requeued_job cf j else x) ` set (db_jobs d)"
    by (simp add: r(3) row_put_def rows_update_def requeued_job_def)
  have new: "requeued_job cf j \<in> set (db_jobs d')" using r(1) unfolding jobs by (simp add: image_iff) metis
  have again: "queued_again i d'" unfolding queued_again_def
    by (rule bexI [OF _ new]) (simp add: requeued_job_def r(2))
  have "queued_again k d'" if k: "queued_again k d"
  proof -
    obtain x where x: "x \<in> set (db_jobs d)" "jj_submission x = k" "jj_status x = Job_QUEUED" "jj_claimed_by x = None" "jj_attempts x = 0"
      using k unfolding queued_again_def by blast
    show ?thesis
    proof (cases "jj_id x = jj_id j")
      case True
      then have "x = j" using x(1) r(1) assms(1) by (simp add: queue_ok_def distinct_map inj_on_def)
      then show ?thesis using again x(2) r(2) by simp
    next
      case False
      then have "x \<in> set (db_jobs d')" using x(1) unfolding jobs by (intro image_eqI [of _ _ x]) simp_all
      then show ?thesis using x unfolding queued_again_def by blast
    qed
  qed
  then show ?thesis using again by blast
qed

lemma rejudge_each_queues:
  "queue_reachable env d \<Longrightarrow> rejudge_each now is d = (r, d') \<Longrightarrow> queue_reachable env d' \<and> (queued_again k d \<longrightarrow> queued_again k d')"
proof (induction "is" arbitrary: d r)
  case (Cons i "is")
  show ?case
  proof (cases "rejudge_submission now i d")
    case (Inl e)
    show ?thesis using Cons.IH [OF Cons.prems(1)] Cons.prems Inl by (auto split: error.splits)
  next
    case (Inr d1)
    obtain r1 where r1: "rejudge_each now is d1 = (r1, d')" using Cons.prems(2) Inr by (auto split: prod.splits)
    have "queue_reachable env d1" using Cons.prems(1) Inr by (blast intro: queue_reachable.step queue_step.rejudge)
    from Cons.IH [OF this r1] requeue_queues [OF queue_reachable_ok [OF Cons.prems(1)] Inr, of k] show ?thesis by blast
  qed
qed auto

text \<open>Whether a rejudge of the submission goes through, which no rejudge of another submission changes.\<close>

abbreviation can_rejudge :: "time \<Rightarrow> db \<Rightarrow> nat \<Rightarrow> bool" where
  "can_rejudge now d i \<equiv> \<exists>x. rejudge_submission now i d = Inr x"

lemma can_rejudge_iff:
  "can_rejudge now d i \<longleftrightarrow> (case get_submission_row i d of None \<Rightarrow> False | Some s \<Rightarrow>
     row_get p_id (s_problem s) (db_problems d) \<noteq> None \<and> row_get l_id (s_language s) (db_languages d) \<noteq> None
     \<and> ((case job_of_submission i d of Some j \<Rightarrow> package_of d (jj_package j) | None \<Rightarrow> active_package (s_problem s) d) \<noteq> None
        \<or> s_mode s = Mode_RUN))"
  by (auto simp: rejudge_submission_def Let_def split: option.splits)

lemma rejudge_tables:
  "rejudge_submission now k d = Inr d' \<Longrightarrow> db_problems d' = db_problems d \<and> db_languages d' = db_languages d \<and> db_packages d' = db_packages d"
  by (auto simp: rejudge_submission_def Let_def delete_test_cases_def save_job_def publish_submission_def publish_def
      save_submission_def split: option.splits)

lemma rejudge_keeps_others:
  assumes "queue_ok d" and "rejudge_submission now k d = Inr d'" and "i \<noteq> k"
  shows "filter (\<lambda>j. jj_submission j = i) (db_jobs d') = filter (\<lambda>j. jj_submission j = i) (db_jobs d)"
    and "get_submission_row i d' = get_submission_row i d"
proof -
  obtain s j cf where r: "s \<in> set (db_submissions d)" "s_id s = k" "j \<in> set (db_jobs d)" "jj_submission j = k"
    "db_jobs d' = row_put jj_id (requeued_job cf j) (db_jobs d)"
    "db_submissions d' = row_put s_id (reset_submission Sub_QUEUED None [] None s) (db_submissions d)"
    using assms(2,1) by (rule rejudge_cases)
  have one: "x = j" if "x \<in> set (db_jobs d)" "jj_id x = jj_id j" for x
    using that r(3) assms(1) by (auto simp: queue_ok_def distinct_map dest: inj_onD)
  have "filter (\<lambda>j. jj_submission j = i) (row_put jj_id (requeued_job cf j) xs) = filter (\<lambda>j. jj_submission j = i) xs"
    if "\<forall>x \<in> set xs. jj_id x = jj_id j \<longrightarrow> x = j" for xs
    using that r(4) assms(3) by (induction xs) (auto simp: row_put_def rows_update_def requeued_job_def)
  then show "filter (\<lambda>j. jj_submission j = i) (db_jobs d') = filter (\<lambda>j. jj_submission j = i) (db_jobs d)"
    unfolding r(5) using one by blast
  show "get_submission_row i d' = get_submission_row i d" using r(2,6) assms(3) by (simp add: row_get_put)
qed

lemma can_rejudge_other:
  assumes "queue_ok d" and "rejudge_submission now k d = Inr d'" and "i \<noteq> k"
  shows "can_rejudge t d' i \<longleftrightarrow> can_rejudge t d i"
proof -
  have "job_of_submission i d' = job_of_submission i d" using rejudge_keeps_others(1) [OF assms] by (simp add: job_of_submission_def)
  then show ?thesis unfolding can_rejudge_iff
    using rejudge_tables [OF assms(2)] rejudge_keeps_others(2) [OF assms]
    by (simp add: package_of_def active_package_def cong: option.case_cong)
qed

lemma rejudge_each_counts:
  "queue_reachable env d \<Longrightarrow> distinct is \<Longrightarrow> rejudge_each now is d = (Inr n, d') \<Longrightarrow>
     n = length (filter (can_rejudge now d) is) \<and> (\<forall>i \<in> set is. can_rejudge now d i \<longrightarrow> queued_again i d')
     \<and> (\<forall>i. \<not> (i \<in> set is \<and> can_rejudge now d i) \<longrightarrow>
          filter (\<lambda>j. jj_submission j = i) (db_jobs d') = filter (\<lambda>j. jj_submission j = i) (db_jobs d)
          \<and> get_submission_row i d' = get_submission_row i d)"
proof (induction "is" arbitrary: d n)
  case (Cons i "is")
  show ?case
  proof (cases "rejudge_submission now i d")
    case (Inl e)
    then have "rejudge_each now is d = (Inr n, d')" using Cons.prems(3) by (auto split: error.splits)
    then show ?thesis using Cons.IH [OF Cons.prems(1)] Cons.prems(2) Inl by auto
  next
    case (Inr d1)
    obtain m where m: "rejudge_each now is d1 = (Inr m, d')" "n = Suc m"
      using Cons.prems(3) Inr by (auto split: prod.splits)
    have ok: "queue_ok d" by (rule queue_reachable_ok [OF Cons.prems(1)])
    have reach: "queue_reachable env d1" using Cons.prems(1) Inr by (blast intro: queue_reachable.step queue_step.rejudge)
    have i: "i \<notin> set is" "distinct is" using Cons.prems(2) by simp_all
    note IH = Cons.IH [OF reach i(2) m(1)]
    have same: "can_rejudge now d1 k \<longleftrightarrow> can_rejudge now d k" if "k \<noteq> i" for k using can_rejudge_other [OF ok Inr that] .
    have "filter (can_rejudge now d1) is = filter (can_rejudge now d) is" 
      using same i(1) by (intro filter_cong refl) metis
    then have "n = length (filter (can_rejudge now d) (i # is))" using IH m(2) Inr by simp
    moreover have "queued_again i d'"
      using rejudge_each_queues [OF reach m(1), of i] requeue_queues [OF ok Inr, of i] by blast
    then have "\<forall>k \<in> set (i # is). can_rejudge now d k \<longrightarrow> queued_again k d'" using IH same i(1) by (auto simp: Inr) (metis)
    moreover have "filter (\<lambda>j. jj_submission j = k) (db_jobs d') = filter (\<lambda>j. jj_submission j = k) (db_jobs d)
          \<and> get_submission_row k d' = get_submission_row k d" if k: "\<not> (k \<in> set (i # is) \<and> can_rejudge now d k)" for k
    proof -
      have "k \<noteq> i" using k Inr by auto
      then have "\<not> (k \<in> set is \<and> can_rejudge now d1 k)" using k same by simp
      then show ?thesis using IH rejudge_keeps_others [OF ok Inr \<open>k \<noteq> i\<close>] by simp
    qed
    ultimately show ?thesis by blast
  qed
qed simp

lemma matches_distinct:
  assumes "queue_ok d"
  shows "distinct (map s_id (rejudge_matches ro d))"
proof -
  have "distinct (map s_id (filter P (db_submissions d)))" for P
    using assms by (intro distinct_map_filter) (simp add: queue_ok_def)
  then show ?thesis unfolding rejudge_matches_def
    by (simp add: distinct_map)
qed

text \<open>The rows of a contest after its recalculation, and the users they were copied to.\<close>

definition contest_rows :: "contest \<Rightarrow> db \<Rightarrow> rating list" where
  "contest_rows c d = filter (\<lambda>r. rt_contest r = c_id c) (db_ratings d)"

definition entry_users :: "contest \<Rightarrow> db \<Rightarrow> (participation \<times> user) list" where
  "entry_users c d = List.map_filter (\<lambda>p. map_option (Pair p) (row_get u_id (pa_user p) (db_users d))) (eligible c d)"

lemma sync_user_untouched:
  "v \<in> set (fold sync_user xs vs) \<Longrightarrow> u_id v \<notin> (\<lambda>x. u_id (snd x)) ` set xs \<Longrightarrow> v \<in> set vs"
proof (induction xs arbitrary: vs)
  case (Cons x xs)
  then have "v \<in> set (sync_user x vs)" by simp
  then show ?case using Cons.prems(2) by (auto simp: sync_user_def rows_update_def split: prod.splits if_splits)
qed simp

lemma sync_user_synced:
  "distinct (map (\<lambda>x. u_id (snd x)) xs) \<Longrightarrow> v \<in> set (fold sync_user xs vs) \<Longrightarrow> (r, u) \<in> set xs \<Longrightarrow> u_id v = u_id u
     \<Longrightarrow> u_rating v = rt_rating_after r"
proof (induction xs arbitrary: vs)
  case (Cons x xs)
  show ?case
  proof (cases "(r, u) \<in> set xs")
    case True then show ?thesis using Cons.IH [of "sync_user x vs"] Cons.prems by simp
  next
    case False
    then have x: "x = (r, u)" using Cons.prems(3) by simp
    have "u_id v \<notin> (\<lambda>x. u_id (snd x)) ` set xs" using Cons.prems(1,4) x by simp
    then have "v \<in> set (sync_user x vs)" using sync_user_untouched [of v xs "sync_user x vs"] Cons.prems(2) by simp
    then show ?thesis using Cons.prems(4) by (auto simp: x sync_user_def rows_update_def split: if_splits)
  qed
qed simp

lemma sync_user_ids: "map u_id (fold sync_user xs vs) = map u_id vs"
proof (induction xs arbitrary: vs)
  case (Cons x xs)
  have "map u_id (sync_user x vs) = map u_id vs"
    by (simp add: sync_user_def rows_update_def split: prod.splits)
  then show ?case using Cons by simp
qed simp

lemma row_get_ids:
  assumes "map u_id us = map u_id vs"
  shows "rel_option (\<lambda>u v. u_id u = u_id v \<and> v \<in> set vs) (row_get u_id k us) (row_get u_id k vs)"
  using assms
proof (induction us arbitrary: vs)
  case (Cons u us)
  then obtain w ws where "vs = w # ws" "u_id w = u_id u" "map u_id us = map u_id ws" by (cases vs) auto
  then show ?case using Cons.IH [of ws] by (auto simp: row_get_def elim!: option.rel_mono_strong)
qed (simp add: row_get_def)

lemma map_filter_rel:
  "(\<And>x. x \<in> set xs \<Longrightarrow> rel_option R (f x) (g x)) \<Longrightarrow> list_all2 R (List.map_filter f xs) (List.map_filter g xs)"
proof (induction xs)
  case (Cons x xs)
  have "rel_option R (f x) (g x)" using Cons.prems by simp
  moreover have "list_all2 R (List.map_filter f xs) (List.map_filter g xs)" using Cons by simp
  ultimately show ?case by (cases "f x"; cases "g x") (simp_all add: List.map_filter_simps)
qed (simp add: List.map_filter_simps)

lemma command_rateD:
  assumes "command_rate_contest now c d = Inr d1"
  obtains b where "contest_rows c d1 = map (command_row now c b) (enumerate 1 (entry_users c d))"
    "distinct (map (\<lambda>(p, u). u_id u) (entry_users c d))"
    "db_users d1 = fold sync_user (zip (contest_rows c d1) (map snd (entry_users c d))) (db_users d)"
    "eligible c d1 = eligible c d" "filter (\<lambda>r. rt_contest r \<noteq> c_id c) (db_ratings d1) = filter (\<lambda>r. rt_contest r \<noteq> c_id c) (db_ratings d)"
proof -
  let ?b = "fresh_key rt_id (db_ratings d)" and ?es = "enumerate 1 (entry_users c d)"
  let ?rows = "map (command_row now c ?b) ?es"
  have users: "map (\<lambda>(_, _, u). u) ?es = map snd (entry_users c d)"
  proof -
    have "map (\<lambda>(_, _, u). u) ?es = map snd (map snd ?es)" unfolding map_map by (simp add: comp_def case_prod_unfold)
    then show ?thesis by (simp only: map_snd_enumerate)
  qed
  have run: "distinct (map rt_user ?rows)" "d1 = d\<lparr>db_ratings := rows_delete (\<lambda>r. rt_contest r = c_id c) (db_ratings d) @ ?rows,
      db_users := fold sync_user (zip ?rows (map snd (entry_users c d))) (db_users d)\<rparr>"
    using assms by (auto simp: command_rate_contest_def Let_def ranked_users_def entry_users_def [symmetric] users raise_if_def simp del: One_nat_def split: if_splits)
  have mine: "rt_contest r = c_id c" if "r \<in> set ?rows" for r
    using that by (auto simp: command_row_def split: prod.splits)
  then have rows: "contest_rows c d1 = ?rows" "filter (\<lambda>r. rt_contest r \<noteq> c_id c) ?rows = []"
    by (auto simp: run(2) contest_rows_def rows_delete_def filter_empty_conv)
  have "map rt_user ?rows = map (\<lambda>(p, u). u_id u) (map snd ?es)"
    unfolding map_map by (simp add: command_row_def comp_def case_prod_unfold)
  then have "map rt_user ?rows = map (\<lambda>(p, u). u_id u) (entry_users c d)" by (simp only: map_snd_enumerate)
  then show ?thesis using that [of ?b] run rows by (simp add: eligible_def rows_delete_def)
qed

section \<open>Properties\<close>

text \<open>Deleting old runs leaves the queue in order: jobs and submissions stay in one-to-one
  correspondence, and every submission that is not an old run stays, with its job, its cases and its
  source.\<close>

theorem cleanup_keeps_queue:
  assumes "queue_ok d"
  shows "queue_ok (snd (cleanup_runs now ttl d))
     \<and> (\<forall>s \<in> set (db_submissions d). \<not> old_run now ttl s \<longrightarrow> s \<in> set (db_submissions (snd (cleanup_runs now ttl d)))
          \<and> filter (\<lambda>j. jj_submission j = s_id s) (db_jobs (snd (cleanup_runs now ttl d))) = filter (\<lambda>j. jj_submission j = s_id s) (db_jobs d)
          \<and> cases_of (s_id s) (db_test_cases (snd (cleanup_runs now ttl d))) = cases_of (s_id s) (db_test_cases d)
          \<and> source_of (snd (cleanup_runs now ttl d)) (s_id s) = source_of d (s_id s))"
proof -
  let ?p = "old_run now ttl"
  let ?ids = "set (map s_id (filter ?p (db_submissions d)))"
  have inj: "inj_on s_id (set (db_submissions d))" using assms by (simp add: queue_ok_def distinct_map)
  have out: "s_id s \<notin> ?ids" if "s \<in> set (db_submissions d)" "\<not> ?p s" for s
    using that inj by (auto simp: inj_on_def)
  have fields: "db_submissions (snd (cleanup_runs now ttl d)) = filter (\<lambda>s. \<not> ?p s) (db_submissions d)"
    "db_jobs (snd (cleanup_runs now ttl d)) = rows_delete (\<lambda>x. jj_submission x \<in> ?ids) (db_jobs d)"
    "db_test_cases (snd (cleanup_runs now ttl d)) = rows_delete (\<lambda>x. t_submission x \<in> ?ids) (db_test_cases d)"
    "db_sources (snd (cleanup_runs now ttl d)) = rows_delete (\<lambda>x. src_submission x \<in> ?ids) (db_sources d)"
    by (simp_all add: cleanup_runs_def delete_submissions_def Let_def rows_delete_def)
  have "queue_ok (snd (cleanup_runs now ttl d))" unfolding cleanup_runs_def by (rule delete_submissions_ok [OF assms])
  moreover have "s \<in> set (db_submissions (snd (cleanup_runs now ttl d)))
      \<and> filter (\<lambda>j. jj_submission j = s_id s) (db_jobs (snd (cleanup_runs now ttl d))) = filter (\<lambda>j. jj_submission j = s_id s) (db_jobs d)
      \<and> cases_of (s_id s) (db_test_cases (snd (cleanup_runs now ttl d))) = cases_of (s_id s) (db_test_cases d)
      \<and> source_of (snd (cleanup_runs now ttl d)) (s_id s) = source_of d (s_id s)"
    if s: "s \<in> set (db_submissions d)" "\<not> ?p s" for s
    using s rows_kept [OF out [OF s], of jj_submission "db_jobs d"] rows_kept [OF out [OF s], of t_submission "db_test_cases d"]
      row_found [OF out [OF s], of src_submission "db_sources d"]
    by (simp only: fields cases_of_def source_of_def) simp
  ultimately show ?thesis by blast
qed

text \<open>The queue of the samples in \<open>JobInvariant\<close>, where the only submission is no run.\<close>

theorem cleanup_keeps_queue_witness:
  "map s_id (db_submissions (snd (cleanup_runs (seconds 90) 0 sample_claimed))) = [1]
   \<and> queue_ok (snd (cleanup_runs (seconds 90) 0 sample_claimed))"
proof -
  have "map s_id (db_submissions (snd (cleanup_runs (seconds 90) 0 sample_claimed))) = [1]" by code_simp
  then show ?thesis using cleanup_keeps_queue [OF queue_reachable_ok [OF sample_reachable], of "seconds 90" 0] by simp
qed

text \<open>C40: The command counts exactly the submissions it rejudges: those that match its filters and can be
  rejudged (the package, problem and language they need are there). Each of them waits for a worker
  from the start again, the rows and jobs of all other submissions are as they were, and the state is
  one the queue operations reach, in which whatever waited before still waits.\<close>

theorem rejudge_command_queues:
  assumes "queue_reachable env d" and "rejudge_command now ro d = (Inr n, d')"
  shows "let ids = filter (can_rejudge now d) (map s_id (rejudge_matches ro d))
    in n = length ids \<and> (\<forall>i \<in> set ids. queued_again i d')
     \<and> (\<forall>i. i \<notin> set ids \<longrightarrow> filter (\<lambda>j. jj_submission j = i) (db_jobs d') = filter (\<lambda>j. jj_submission j = i) (db_jobs d)
          \<and> get_submission_row i d' = get_submission_row i d)
     \<and> queue_reachable env d' \<and> (\<forall>i. queued_again i d \<longrightarrow> queued_again i d')"
proof -
  have run: "rejudge_each now (map s_id (rejudge_matches ro d)) d = (Inr n, d')"
    using assms(2) by (simp add: rejudge_command_def split: if_splits)
  have "queue_ok d" by (rule queue_reachable_ok [OF assms(1)])
  note counts = rejudge_each_counts [OF assms(1) matches_distinct [OF this] run]
  show ?thesis using counts rejudge_each_queues [OF assms(1) run] by (auto simp: Let_def)
qed

theorem rejudge_command_queues_witness:
  "\<exists>d'. rejudge_command (seconds 5) \<lparr>ro_problem = None, ro_users = Some [''user7''], ro_id_from = None, ro_id_to = Some 4\<rparr> sample_claimed
      = (Inr 1, d') \<and> queued_again 1 d'"
proof -
  let ?ro = "\<lparr>ro_problem = None, ro_users = Some [''user7''], ro_id_from = None, ro_id_to = Some 4\<rparr>"
  have ids: "map s_id (rejudge_matches ?ro sample_claimed) = [1]" by code_simp
  obtain d' where "rejudge_submission (seconds 5) 1 sample_claimed = Inr d'" using sample_rejudge by blast
  then have run: "rejudge_command (seconds 5) ?ro sample_claimed = (Inr 1, d')"
    by (simp add: rejudge_command_def option_set_def ids)
  have "can_rejudge (seconds 5) sample_claimed 1" using \<open>rejudge_submission (seconds 5) 1 sample_claimed = Inr d'\<close> by blast
  then have "queued_again 1 d'" using rejudge_command_queues [OF sample_reachable run] by (simp add: ids Let_def)
  with run show ?thesis by (intro exI conjI)
qed

text \<open>The recalculation of a contest numbers its participants from 1 without ties, copies every rating to its
  user, and rates on top of what it finds: a second run starts from the ratings the first one gave, so
  unlike the rating service it never settles by itself. Ratings of other contests stay.\<close>

theorem recalculation_compounds:
  assumes "command_rate_contest now c d = Inr d1"
  shows "map rt_rank (contest_rows c d1) = map int [1..<Suc (length (contest_rows c d1))]
     \<and> (\<forall>r \<in> set (contest_rows c d1). \<forall>u \<in> set (db_users d1). u_id u = rt_user r \<longrightarrow> u_rating u = rt_rating_after r)
     \<and> filter (\<lambda>r. rt_contest r \<noteq> c_id c) (db_ratings d1) = filter (\<lambda>r. rt_contest r \<noteq> c_id c) (db_ratings d)
     \<and> (\<forall>later d2. command_rate_contest later c d1 = Inr d2
          \<longrightarrow> map rt_rating_before (contest_rows c d2) = map rt_rating_after (contest_rows c d1))"
proof -
  let ?es = "entry_users c d" and ?rows = "contest_rows c d1" and ?es1 = "entry_users c d1"
  obtain b where b: "?rows = map (command_row now c b) (enumerate 1 ?es)" "distinct (map (\<lambda>(p, u). u_id u) ?es)"
    "db_users d1 = fold sync_user (zip ?rows (map snd ?es)) (db_users d)" "eligible c d1 = eligible c d"
    "filter (\<lambda>r. rt_contest r \<noteq> c_id c) (db_ratings d1) = filter (\<lambda>r. rt_contest r \<noteq> c_id c) (db_ratings d)"
    using assms by (rule command_rateD)
  have row: "?rows ! k = command_row now c b (Suc k, ?es ! k)" if "k < length ?es" for k
    using that by (simp add: b(1) nth_enumerate_eq)
  have len: "length ?rows = length ?es" by (simp add: b(1))
  have ranks: "map rt_rank ?rows = map int [1..<Suc (length ?rows)]"
    by (rule nth_equalityI) (use row in \<open>simp_all add: len command_row_def case_prod_unfold del: upt_Suc\<close>)
  have "map (\<lambda>x. u_id (snd x)) (zip ?rows (map snd ?es)) = map (\<lambda>(p, u). u_id u) ?es"
    by (rule nth_equalityI) (use len in \<open>auto simp: case_prod_unfold\<close>)
  then have ids: "distinct (map (\<lambda>x. u_id (snd x)) (zip ?rows (map snd ?es)))" using b(2) by simp
  have synced: "u_rating u = rt_rating_after (?rows ! k)"
    if k: "k < length ?es" and u: "u \<in> set (db_users d1)" "u_id u = u_id (snd (?es ! k))" for k u
  proof (rule sync_user_synced [OF ids _ _ u(2)])
    show "u \<in> set (fold sync_user (zip ?rows (map snd ?es)) (db_users d))" using u(1) b(3) by simp
    show "(?rows ! k, snd (?es ! k)) \<in> set (zip ?rows (map snd ?es))" using k len by (auto simp: set_zip)
  qed
  have copied: "u_rating u = rt_rating_after r" if r: "r \<in> set ?rows" and u: "u \<in> set (db_users d1)" "u_id u = rt_user r" for r u
  proof -
    obtain k where "k < length ?es" "r = ?rows ! k" using r len by (auto simp: in_set_conv_nth)
    then show ?thesis using synced [of k u] u row [of k] by (simp add: command_row_def split: prod.splits)
  qed
  have again: "map rt_rating_before (contest_rows c d2) = map rt_rating_after ?rows" if second: "command_rate_contest later c d1 = Inr d2" for later d2
  proof -
    obtain b2 where b2: "contest_rows c d2 = map (command_row later c b2) (enumerate 1 ?es1)"
      using second by (rule command_rateD)
    have "map u_id (db_users d) = map u_id (db_users d1)" by (simp add: b(3) sync_user_ids)
    note same = row_get_ids [OF this]
    have rel: "list_all2 (\<lambda>x y. u_id (snd x) = u_id (snd y) \<and> snd y \<in> set (db_users d1)) ?es ?es1"
      unfolding entry_users_def b(4) by (rule map_filter_rel) (use same in \<open>fastforce simp: option.rel_map elim: option.rel_mono_strong\<close>)
    then have l: "length ?es1 = length ?es" by (simp add: list_all2_lengthD)
    have "rt_rating_before (command_row later c b2 (Suc k, ?es1 ! k)) = rt_rating_after (?rows ! k)" if k: "k < length ?es" for k
      using list_all2_nthD [OF rel k] synced [OF k, of "snd (?es1 ! k)"] by (simp add: command_row_def case_prod_unfold)
    then show ?thesis by (intro nth_equalityI) (simp_all add: b2 len l nth_enumerate_eq)
  qed
  show ?thesis using ranks copied b(5) again by blast
qed

definition practice_contest :: contest where
  "practice_contest = (new_contest 3 ''r1'' 0 100)\<lparr>c_is_rated := True\<rparr>"

definition practice_site :: db where
  "practice_site = empty_db\<lparr>db_users := [new_user 7, new_user 8], db_contests := [practice_contest],
     db_participations := [(new_participation 1 3 7)\<lparr>pa_score := 100\<rparr>, (new_participation 2 3 8)\<lparr>pa_score := 250\<rparr>]\<rparr>"

theorem recalculation_compounds_witness:
  "\<exists>d1 d2. command_rate_contest 1 practice_contest practice_site = Inr d1 \<and> command_rate_contest 2 practice_contest d1 = Inr d2
     \<and> map rt_rating_after (contest_rows practice_contest d1) = [1000, 200]
     \<and> map rt_rating_before (contest_rows practice_contest d2) = [1000, 200]
     \<and> map rt_rating_after (contest_rows practice_contest d2) = [1600, 360]"
proof -
  have "case command_rate_contest 1 practice_contest practice_site of Inl e \<Rightarrow> False
    | Inr d1 \<Rightarrow> map rt_rating_after (contest_rows practice_contest d1) = [1000, 200]
        \<and> (case command_rate_contest 2 practice_contest d1 of Inl e \<Rightarrow> False
           | Inr d2 \<Rightarrow> map rt_rating_after (contest_rows practice_contest d2) = [1600, 360])" by code_simp
  then obtain d1 d2 where run: "command_rate_contest 1 practice_contest practice_site = Inr d1" "command_rate_contest 2 practice_contest d1 = Inr d2"
    "map rt_rating_after (contest_rows practice_contest d1) = [1000, 200]" "map rt_rating_after (contest_rows practice_contest d2) = [1600, 360]"
    by (auto split: sum.splits)
  then have "map rt_rating_before (contest_rows practice_contest d2) = [1000, 200]"
    using recalculation_compounds [OF run(1)] by metis
  with run show ?thesis by (intro exI conjI)
qed

end
