(* ===== verification/Display.thy ===== *)
theory Display
  imports ContestFlow ContentFlow Organizations
begin

text \<open>
  What the program shows of its rows: the properties of the \<open>Submission\<close> model, the text of a contest
  result, the payloads the routers build from rows, and the events of
  \<open>content_notification_service.py\<close>. Fixed-point text is the exact number rounded half to even, as
  Python rounds the exact value of a float.
\<close>

section \<open>Fixed-point text\<close>

fun last_digits :: "nat \<Rightarrow> nat \<Rightarrow> string" where
  "last_digits 0 n = []"
| "last_digits (Suc k) n = last_digits k (n div 10) @ [digit_char (n mod 10)]"

text \<open>\<open>f"{q:.nf}"\<close>; a value that rounds to zero keeps its sign.\<close>

definition fixed :: "nat \<Rightarrow> rat \<Rightarrow> string" where
  "fixed n q =
     (let k = nat \<bar>py_round (q * 10 ^ n)\<bar>
      in (if q < 0 then ''-'' else []) @ show_nat (k div 10 ^ n) @ (if n = 0 then [] else CHR ''.'' # last_digits n k))"

section \<open>Submissions (\<open>models/submission.py\<close>)\<close>

definition is_graded :: "submission \<Rightarrow> bool" where
  "is_graded s \<longleftrightarrow> s_status s \<in> {Sub_COMPLETED, Sub_ERROR}"

fun verdict_css_class :: "verdict \<Rightarrow> string" where
  "verdict_css_class AC = ''success''"
| "verdict_css_class PARTIAL = ''info''"
| "verdict_css_class WA = ''danger''"
| "verdict_css_class TLE = ''warning''"
| "verdict_css_class MLE = ''warning''"
| "verdict_css_class RTE = ''danger''"
| "verdict_css_class CE = ''secondary''"
| "verdict_css_class IR = ''danger''"
| "verdict_css_class OLE = ''warning''"
| "verdict_css_class IE = ''dark''"

definition result_class :: "submission \<Rightarrow> string" where
  "result_class s = (case s_result s of None \<Rightarrow> ''secondary'' | Some v \<Rightarrow> verdict_css_class v)"

definition memory_display :: "submission \<Rightarrow> string" where
  "memory_display s = (if s_memory_used s \<ge> 1024 then fixed 2 (of_int (s_memory_used s) / 1024) @ '' MB''
     else show_int (s_memory_used s) @ '' KB'')"

definition time_display :: "submission \<Rightarrow> string" where
  "time_display s = (if s_time_used s < 1 then fixed 0 (s_time_used s * 1000) @ '' ms'' else fixed 3 (s_time_used s) @ '' s'')"

definition score_percentage :: "problem \<Rightarrow> submission \<Rightarrow> rat" where
  "score_percentage p s =
     (if s_result s = Some AC then 100
      else if p_points p > 0 then round_to 2 (s_points s / p_points p * 100)
      else if s_case_total s > 0 then round_to 2 (of_int (s_case_passed s) / of_int (s_case_total s) * 100)
      else 0)"

section \<open>Contest payloads\<close>

text \<open>\<open>display_result\<close> of \<open>formats/base.py\<close>, of a result with its points and attempts, if it has them.\<close>

definition display_result :: "rat option \<Rightarrow> int option \<Rightarrow> string" where
  "display_result points attempts = fixed 2 (get_or points 0) @ '' pts ('' @ show_int (get_or attempts 0) @ '' tries)''"

record participation_out =
  po_id :: nat
  po_user_id :: nat
  po_contest_id :: nat
  po_status :: participation_status
  po_virtual_start :: "time option"
  po_score :: rat
  po_cumulative_time_seconds :: rat
  po_tiebreaker :: rat
  po_is_disqualified :: bool
  po_format_data :: json

definition participation_dict :: "participation \<Rightarrow> participation_out" where
  "participation_dict p = \<lparr>po_id = pa_id p, po_user_id = pa_user p, po_contest_id = pa_contest p, po_status = pa_status p,
     po_virtual_start = pa_virtual_start p, po_score = pa_score p,
     po_cumulative_time_seconds = of_int (pa_cumulative_time p) / 1000000, po_tiebreaker = pa_tiebreaker p,
     po_is_disqualified = pa_is_disqualified p, po_format_data = pa_format_data p\<rparr>"

definition submission_detail_dict :: "db \<Rightarrow> submission \<Rightarrow> submission_detail" where
  "submission_detail_dict d s = submission_detail_out d s True"

section \<open>Content and organization payloads\<close>

record post_list_out =
  bl_slug :: string
  bl_title :: string
  bl_summary :: string
  bl_visibility :: post_visibility
  bl_is_pinned :: bool
  bl_publish_date :: "time option"
  bl_author_id :: nat

record post_detail_out = post_list_out +
  bl_content :: string
  bl_is_organization_private :: bool
  bl_organizations :: "nat list"
  bl_og_image :: "string option"

definition post_to_list_schema :: "post \<Rightarrow> post_list_out" where
  "post_to_list_schema p = \<lparr>bl_slug = bp_slug p, bl_title = bp_title p, bl_summary = bp_summary p,
     bl_visibility = bp_visibility p, bl_is_pinned = bp_is_pinned p, bl_publish_date = bp_publish_date p, bl_author_id = bp_author p\<rparr>"

definition post_to_detail_schema :: "post \<Rightarrow> post_detail_out" where
  "post_to_detail_schema p = \<lparr>bl_slug = bp_slug p, bl_title = bp_title p, bl_summary = bp_summary p,
     bl_visibility = bp_visibility p, bl_is_pinned = bp_is_pinned p, bl_publish_date = bp_publish_date p, bl_author_id = bp_author p,
     bl_content = bp_content p, bl_is_organization_private = bp_is_organization_private p,
     bl_organizations = bp_organizations p, bl_og_image = (if bp_og_image p = [] then None else Some (bp_og_image p))\<rparr>"

text \<open>The events of the content tasks; the cached pages they drop are not tables.\<close>

definition notify_new_blogpost :: "nat \<Rightarrow> content_site \<Rightarrow> content_site" where
  "notify_new_blogpost i s =
     (case row_get bp_id i (ct_posts s) of
        None \<Rightarrow> s
      | Some p \<Rightarrow>
          if bp_visibility p \<noteq> Post_PUBLISHED then s
          else s\<lparr>ct_db := publish \<lparr>ev_type = ''content.blogpost.published'',
                 ev_payload = [(''blog_post_id'', JInt (int (bp_id p))), (''slug'', JStr (bp_slug p)), (''author_id'', JInt (int (bp_author p)))],
                 ev_group = None\<rparr> (ct_db s)\<rparr>)"

definition cleanup_old_notifications :: "int \<Rightarrow> content_site \<Rightarrow> nat \<times> content_site" where
  "cleanup_old_notifications retention_days s =
     (1, s\<lparr>ct_db := publish \<lparr>ev_type = ''content.notifications.cleaned'',
           ev_payload = [(''retention_days'', JInt retention_days)], ev_group = None\<rparr> (ct_db s)\<rparr>)"

text \<open>\<open>organizations/api/router.py\<close>: \<open>_request_user\<close>, of the user the token gave and the user of the session, and
  the reply with a join request.\<close>

definition org_request_user :: "viewer \<Rightarrow> viewer \<Rightarrow> user result" where
  "org_request_user auth session =
     (case auth of Some u \<Rightarrow> Inr u
      | None \<Rightarrow> (case session of Some u \<Rightarrow> Inr u | None \<Rightarrow> Inl (ValidationError ''Authentication required.'')))"

section \<open>Lemmas\<close>

lemma length_last_digits [simp]: "length (last_digits k n) = k"
  by (induction k arbitrary: n) simp_all

lemma round_to_bounds:
  assumes "0 \<le> x" and "x \<le> of_nat m"
  shows "0 \<le> round_to n x \<and> round_to n x \<le> of_nat m"
proof -
  have "0 \<le> py_round (x * 10 ^ n)" using py_round_mono [of 0 "x * 10 ^ n"] assms(1) by simp
  moreover have "x * 10 ^ n \<le> of_int (int m * 10 ^ n)" using assms(2) by simp
  then have "py_round (x * 10 ^ n) \<le> int m * 10 ^ n" using py_round_mono [of "x * 10 ^ n" "of_int (int m * 10 ^ n)"]
    by (simp only: py_round_of_int)
  then have "(of_int (py_round (x * 10 ^ n)) :: rat) \<le> of_nat m * 10 ^ n"
  proof -
    have "(of_int (int m * 10 ^ n) :: rat) = of_nat m * 10 ^ n" by simp
    then show ?thesis using \<open>py_round (x * 10 ^ n) \<le> int m * 10 ^ n\<close> by (metis of_int_le_iff)
  qed
  ultimately show ?thesis by (simp add: round_to_def divide_le_eq)
qed

section \<open>Properties\<close>

text \<open>The percentage of a submission lies between 0 and 100 as long as its points lie within those of its
  problem and it passes at most the cases it has; but the points come from the package, whose total
  nothing ties to the points of the problem, and beyond them the percentage grows past 100.\<close>

theorem percentage_bounds:
  assumes "0 \<le> s_points s" and "s_points s \<le> p_points p" and "0 \<le> s_case_passed s" and "s_case_passed s \<le> s_case_total s"
  shows "0 \<le> score_percentage p s \<and> score_percentage p s \<le> 100"
proof (cases "0 < p_points p")
  case True
  then have "0 \<le> s_points s / p_points p * 100" "s_points s / p_points p * 100 \<le> of_nat 100"
    using assms(1,2) by (simp_all add: divide_le_eq)
  from round_to_bounds [OF this, of 2] show ?thesis using True by (simp add: score_percentage_def)
next
  case False
  have "0 \<le> of_int (s_case_passed s) / of_int (s_case_total s) * (100 :: rat)"
    "of_int (s_case_passed s) / of_int (s_case_total s) * (100 :: rat) \<le> of_nat 100" if "0 < s_case_total s"
    using assms(3,4) that by (simp_all add: divide_le_eq)
  from round_to_bounds [OF this, of 2] show ?thesis using False by (simp add: score_percentage_def)
qed

theorem percentage_bounds_witness:
  "score_percentage (new_problem 5) ((new_submission 1 7 5 1 0)\<lparr>s_case_total := 4, s_case_passed := 1\<rparr>) \<le> 100"
  by (rule percentage_bounds [THEN conjunct2]) (simp_all add: new_problem_def new_submission_def)

theorem percentage_off_scale:
  "score_percentage ((new_problem 5)\<lparr>p_points := 10\<rparr>) ((new_submission 1 7 5 1 0)\<lparr>s_result := Some PARTIAL, s_points := 50\<rparr>) = 500"
  by code_simp

end
