(* ===== verification/Live.thy ===== *)
theory Live
  imports ContestFlow Core
begin

text \<open>
  The live feeds: the websocket consumers of \<open>submissions/consumers.py\<close>, \<open>contests/consumers.py\<close> and
  \<open>judge/consumers.py\<close>, the publishing half of \<open>core/events.py\<close>, and the two direct senders of messages,
  \<open>_broadcast\<close> and \<open>_disconnect_user_channels\<close>. The Channels library is the parameter \<open>channel_lib\<close>, with its
  documented behaviour as \<open>channel_laws\<close>: a message sent to a group reaches every consumer that joined
  it, which calls its method named by the type of the message, dots as underscores. A consumer without
  that method raises, which ends its connection. A message is handled before the next one is sent;
  types that name a method of the Channels base classes, and keys that are not valid in group names,
  are left out.

  The tables change as the services change them (\<open>lv_db\<close>); what they published is delivered to the feeds.
\<close>

section \<open>Feeds and groups\<close>

datatype feed = Submission_feed nat | Contest_feed string | Judge_feed

record connection =
  co_channel :: nat
  co_feed :: feed
  co_user :: viewer
  co_groups :: "string list"

record live =
  lv_db :: db
  lv_open :: "connection list"
  lv_sent :: "(nat \<times> (string, json) dict) list"

definition user_group :: "user \<Rightarrow> string" where
  "user_group u = ''user_'' @ show_nat (u_id u)"

definition contest_group :: "string \<Rightarrow> string" where
  "contest_group key = ''contest_'' @ key"

text \<open>The \<open>connect\<close> methods: \<open>Inl\<close> is the code the connection is closed with.\<close>

definition submission_connect :: "viewer \<Rightarrow> nat \<Rightarrow> db \<Rightarrow> int + string list" where
  "submission_connect v i d =
     (case v of
        None \<Rightarrow> Inl 4401
      | Some u \<Rightarrow>
          (case get_submission_row i d of
             None \<Rightarrow> Inl 4403
           | Some s \<Rightarrow> if can_view_submission v d s then Inr [submission_group i, user_group u] else Inl 4403))"

definition contest_connect :: "viewer \<Rightarrow> string \<Rightarrow> db \<Rightarrow> int + string list" where
  "contest_connect v key d =
     (case first (filter (\<lambda>c. c_key c = key) (db_contests d)) of
        None \<Rightarrow> Inl 4403
      | Some c \<Rightarrow>
          if can_see_contest v d c
          then Inr ((case v of None \<Rightarrow> [] | Some u \<Rightarrow> [user_group u]) @ [contest_group key]) else Inl 4403)"

definition judge_connect :: "viewer \<Rightarrow> int + string list" where
  "judge_connect v = (case v of None \<Rightarrow> Inl 4403
     | Some u \<Rightarrow> if u_is_staff u then Inr [''judges'', user_group u] else Inl 4403)"

fun feed_connect :: "feed \<Rightarrow> viewer \<Rightarrow> db \<Rightarrow> int + string list" where
  "feed_connect (Submission_feed i) v d = submission_connect v i d"
| "feed_connect (Contest_feed key) v d = contest_connect v key d"
| "feed_connect Judge_feed v d = judge_connect v"

definition open_feed :: "nat \<Rightarrow> feed \<Rightarrow> viewer \<Rightarrow> live \<Rightarrow> int option \<times> live" where
  "open_feed ch f v s =
     (case feed_connect f v (lv_db s) of
        Inl code \<Rightarrow> (Some code, s)
      | Inr gs \<Rightarrow> (None, s\<lparr>lv_open := lv_open s @ [\<lparr>co_channel = ch, co_feed = f, co_user = v, co_groups = gs\<rparr>]\<rparr>))"

definition close_feed :: "nat \<Rightarrow> live \<Rightarrow> live" where
  "close_feed ch s = s\<lparr>lv_open := filter (\<lambda>c. co_channel c \<noteq> ch) (lv_open s)\<rparr>"

section \<open>Handlers\<close>

text \<open>The message of a group; a handler sends a reply, closes the connection, or fails.\<close>

record channel_message =
  ms_type :: string
  ms_payload :: "(string, json) dict option"
  ms_event_type :: "json option"

datatype action = Reply "(string, json) dict" | Close_with int | Fails

definition put_default :: "string \<Rightarrow> json \<Rightarrow> (string, json) dict \<Rightarrow> (string, json) dict" where
  "put_default k v p = (if map_of p k = None then p @ [(k, v)] else p)"

text \<open>\<open>force_disconnect\<close>, the same in the three consumers.\<close>

definition force_disconnect :: action where
  "force_disconnect = Close_with 4401"

definition submission_handler :: "string \<Rightarrow> channel_message \<Rightarrow> action" where
  "submission_handler name m =
     (if name = ''force_disconnect'' then force_disconnect
      else if name \<in> {''broadcast'', ''submission_status'', ''submission_case'', ''submission_finished''}
      then Reply (get_or (ms_payload m) []) else Fails)"

text \<open>\<open>payload.get("type")\<close> is \<open>None\<close> for a missing key and for \<open>null\<close>.\<close>

definition type_of_payload :: "(string, json) dict \<Rightarrow> json option" where
  "type_of_payload p = (case map_of p ''type'' of Some JNull \<Rightarrow> None | x \<Rightarrow> x)"

definition unhashable :: "json \<Rightarrow> bool" where
  "unhashable j = (case j of JArr _ \<Rightarrow> True | JObj _ \<Rightarrow> True | _ \<Rightarrow> False)"

text \<open>The membership test in the set of lifecycle events raises on a list or a dictionary.\<close>

definition contest_event_reply :: "channel_message \<Rightarrow> action" where
  "contest_event_reply m =
     (let payload = get_or (ms_payload m) [];
          event_type = (case type_of_payload payload of
                          Some j \<Rightarrow> j
                        | None \<Rightarrow> (case ms_event_type m of Some (JStr t) \<Rightarrow> JStr t | _ \<Rightarrow> JStr ''contest.event''))
      in if unhashable event_type then Fails
         else if event_type \<in> set (map JStr [''contest.started'', ''contest.ended'', ''contest.frozen'', ''contest.unfrozen''])
         then Reply (AList.update ''type'' event_type payload) else Reply (put_default ''type'' event_type payload))"

definition contest_handler :: "string \<Rightarrow> channel_message \<Rightarrow> action" where
  "contest_handler name m =
     (if name = ''force_disconnect'' then force_disconnect
      else if name = ''ranking_update'' then Reply (put_default ''type'' (JStr ''contest.ranking.updated'') (get_or (ms_payload m) []))
      else if name = ''contest_event'' then contest_event_reply m
      else Fails)"

definition judge_handler :: "string \<Rightarrow> channel_message \<Rightarrow> action" where
  "judge_handler name m =
     (if name = ''force_disconnect'' then force_disconnect
      else if name = ''judge_update'' then Reply (put_default ''type'' (JStr ''judge.update'') (get_or (ms_payload m) []))
      else if name = ''queue_update'' then Reply (put_default ''type'' (JStr ''judge.queue.update'') (get_or (ms_payload m) []))
      else Fails)"

text \<open>The method Channels calls for a type of message, and the consumers among the open ones that a
  message to a group reaches. A layer that drops messages (a full channel) is outside the laws below.\<close>

record channel_lib =
  ch_method :: "string \<Rightarrow> string"
  ch_members :: "string \<Rightarrow> connection list \<Rightarrow> connection list"

definition channel_laws :: "channel_lib \<Rightarrow> bool" where
  "channel_laws lib \<longleftrightarrow> (\<forall>ty. ch_method lib ty = map (\<lambda>c. if c = CHR ''.'' then CHR ''_'' else c) ty)
     \<and> (\<forall>g cs. ch_members lib g cs = filter (\<lambda>c. g \<in> set (co_groups c)) cs)"

fun handle :: "channel_lib \<Rightarrow> feed \<Rightarrow> channel_message \<Rightarrow> action" where
  "handle lib (Submission_feed i) m = submission_handler (ch_method lib (ms_type m)) m"
| "handle lib (Contest_feed key) m = contest_handler (ch_method lib (ms_type m)) m"
| "handle lib Judge_feed m = judge_handler (ch_method lib (ms_type m)) m"

text \<open>\<open>receive_json\<close>, the same in the three consumers.\<close>

definition receive_json :: "nat \<Rightarrow> (string, json) dict \<Rightarrow> live \<Rightarrow> live" where
  "receive_json ch content s =
     (if map_of content ''type'' = Some (JStr ''ping'') \<and> ch \<in> co_channel ` set (lv_open s)
      then s\<lparr>lv_sent := lv_sent s @ [(ch, [(''type'', JStr ''pong'')])]\<rparr> else s)"

section \<open>Sending\<close>

definition answers :: "channel_lib \<Rightarrow> channel_message \<Rightarrow> connection \<Rightarrow> bool" where
  "answers lib m c = (case handle lib (co_feed c) m of Reply _ \<Rightarrow> True | _ \<Rightarrow> False)"

definition answer :: "channel_lib \<Rightarrow> channel_message \<Rightarrow> connection \<Rightarrow> (nat \<times> (string, json) dict) option" where
  "answer lib m c = (case handle lib (co_feed c) m of Reply p \<Rightarrow> Some (co_channel c, p) | _ \<Rightarrow> None)"

definition group_send :: "channel_lib \<Rightarrow> string \<Rightarrow> channel_message \<Rightarrow> live \<Rightarrow> live" where
  "group_send lib g m s =
     (let to = ch_members lib g (lv_open s)
      in s\<lparr>lv_open := filter (\<lambda>c. c \<in> set to \<longrightarrow> answers lib m c) (lv_open s),
           lv_sent := lv_sent s @ List.map_filter (answer lib m) to\<rparr>)"

definition publish_event :: "channel_lib \<Rightarrow> event \<Rightarrow> live \<Rightarrow> live" where
  "publish_event lib e s = group_send lib (resolved_group e)
     \<lparr>ms_type = ev_type e, ms_payload = Some (ev_payload e), ms_event_type = None\<rparr> s"

definition broadcast :: "channel_lib \<Rightarrow> nat \<Rightarrow> (string, json) dict \<Rightarrow> live \<Rightarrow> live" where
  "broadcast lib i payload s = group_send lib (submission_group i)
     \<lparr>ms_type = ''broadcast'', ms_payload = Some payload, ms_event_type = None\<rparr> s"

definition disconnect_user_channels :: "channel_lib \<Rightarrow> user \<Rightarrow> live \<Rightarrow> live" where
  "disconnect_user_channels lib u s = group_send lib (user_group u)
     \<lparr>ms_type = ''force.disconnect'', ms_payload = None, ms_event_type = None\<rparr> s"

text \<open>A service call: the new tables, and the events it appended to the log.\<close>

definition service_call :: "channel_lib \<Rightarrow> db \<Rightarrow> live \<Rightarrow> live" where
  "service_call lib d s = fold (publish_event lib) (drop (length (db_events (lv_db s))) (db_events d)) (s\<lparr>lv_db := d\<rparr>)"

section \<open>Histories\<close>

inductive live_step :: "channel_lib \<Rightarrow> live \<Rightarrow> live \<Rightarrow> bool" for lib where
  connect: "ch \<notin> co_channel ` set (lv_open s) \<Longrightarrow> open_feed ch f v s = (code, s') \<Longrightarrow> live_step lib s s'"
| disconnect: "live_step lib s (close_feed ch s)"
| message: "live_step lib s (receive_json ch content s)"
| service: "live_step lib s (service_call lib d s)"
| legacy: "live_step lib s (broadcast lib i payload s)"
| revoke: "live_step lib s (disconnect_user_channels lib u s)"

inductive live_reachable :: "channel_lib \<Rightarrow> live \<Rightarrow> bool" for lib where
  initial: "lv_open s = [] \<Longrightarrow> live_reachable lib s"
| step: "live_reachable lib s \<Longrightarrow> live_step lib s s' \<Longrightarrow> live_reachable lib s'"

fun feed_group :: "feed \<Rightarrow> string" where
  "feed_group (Submission_feed i) = submission_group i"
| "feed_group (Contest_feed key) = contest_group key"
| "feed_group Judge_feed = ''judges''"

text \<open>A connection is in the group of its feed, in that of its user, and in no other; only the feeds of
  contests are open to anonymous clients.\<close>

definition connection_ok :: "connection \<Rightarrow> bool" where
  "connection_ok c \<longleftrightarrow> set (co_groups c) = insert (feed_group (co_feed c)) (user_group ` set_option (co_user c))
     \<and> (co_user c = None \<longrightarrow> (\<exists>key. co_feed c = Contest_feed key))"

lemma connect_ok: "feed_connect f v d = Inr gs \<Longrightarrow> connection_ok \<lparr>co_channel = ch, co_feed = f, co_user = v, co_groups = gs\<rparr>"
  by (cases f) (auto simp: connection_ok_def submission_connect_def contest_connect_def judge_connect_def split: option.splits if_splits)

definition feeds_ok :: "live \<Rightarrow> bool" where
  "feeds_ok s \<longleftrightarrow> distinct (map co_channel (lv_open s)) \<and> (\<forall>c \<in> set (lv_open s). connection_ok c)"

lemma group_send_ok: "feeds_ok s \<Longrightarrow> feeds_ok (group_send lib g m s)"
  by (simp add: feeds_ok_def group_send_def distinct_map_filter Let_def)

lemma publish_ok: "feeds_ok s \<Longrightarrow> feeds_ok (fold (publish_event lib) es s)"
  by (induction es arbitrary: s) (simp_all add: publish_event_def group_send_ok)

lemma live_step_ok: "live_step lib s s' \<Longrightarrow> feeds_ok s \<Longrightarrow> feeds_ok s'"
proof (induction rule: live_step.induct)
  case (connect ch s f v code s')
  then show ?case using connect_ok [of f v "lv_db s" _ ch]
    by (auto simp: open_feed_def feeds_ok_def split: sum.splits)
next
  case (service s d)
  then show ?case unfolding service_call_def by (intro publish_ok) (simp add: feeds_ok_def)
qed (auto simp: close_feed_def receive_json_def broadcast_def disconnect_user_channels_def feeds_ok_def distinct_map_filter
    intro: group_send_ok [unfolded feeds_ok_def, THEN conjunct1] group_send_ok [unfolded feeds_ok_def, THEN conjunct2, THEN bspec])

lemma live_reachable_ok: "live_reachable lib s \<Longrightarrow> feeds_ok s"
proof (induction rule: live_reachable.induct)
  case step then show ?case using live_step_ok by blast
qed (simp add: feeds_ok_def)

section \<open>Groups do not collide\<close>

lemma user_group_eq [simp]: "user_group u = user_group w \<longleftrightarrow> u_id u = u_id w"
  by (simp add: user_group_def)

lemma submission_group_eq [simp]: "submission_group i = submission_group j \<longleftrightarrow> i = j"
  by (simp add: submission_group_def)

lemma user_group_not_feed [simp]: "user_group u \<noteq> feed_group f" "feed_group f \<noteq> user_group u"
  by (cases f; simp add: user_group_def submission_group_def contest_group_def)+

lemma submission_feed_group [simp]: "submission_group i = feed_group f \<longleftrightarrow> f = Submission_feed i"
  by (cases f) (auto simp: submission_group_def contest_group_def)

lemma submission_not_user [simp]: "submission_group i \<noteq> user_group u"
  by (simp add: user_group_def submission_group_def)

section \<open>What the services publish\<close>

text \<open>A message to a group, under the laws: the members answer, or are gone.\<close>

lemma group_send_members:
  assumes "channel_laws lib"
  shows "group_send lib g m s =
     s\<lparr>lv_open := filter (\<lambda>c. g \<in> set (co_groups c) \<longrightarrow> answers lib m c) (lv_open s),
       lv_sent := lv_sent s @ List.map_filter (answer lib m) (filter (\<lambda>c. g \<in> set (co_groups c)) (lv_open s))\<rparr>"
  using assms by (auto simp: group_send_def channel_laws_def Let_def intro!: live.equality filter_cong)

text \<open>An event that names no group and has one of the five namespaces of the program goes to the plural of
  its namespace; an event of a submission goes to the group of the submission.\<close>

definition legacy_event :: "event \<Rightarrow> bool" where
  "legacy_event e \<longleftrightarrow> ev_group e = None
     \<and> (\<exists>ns \<in> {''submission'', ''contest'', ''problem'', ''user'', ''content''}. \<exists>rest. ev_type e = ns @ CHR ''.'' # rest)"

definition feed_event :: "event \<Rightarrow> bool" where
  "feed_event e \<longleftrightarrow> (\<exists>i payload. ev_type e \<in> {''submission.status'', ''submission.case'', ''submission.finished''}
     \<and> ev_payload e = (''submission_id'', JInt (int i)) # payload \<and> ev_group e = Some (submission_group i))"

definition published :: "db \<Rightarrow> db \<Rightarrow> bool" where
  "published d d' \<longleftrightarrow> (\<exists>es. db_events d' = db_events d @ es \<and> (\<forall>e \<in> set es. legacy_event e \<or> feed_event e))"

lemma derived_group:
  assumes "legacy_event e" and "connection_ok c"
  shows "resolved_group e \<notin> set (co_groups c)"
proof -
  obtain ns rest where ns: "ns \<in> {''submission'', ''contest'', ''problem'', ''user'', ''content''}" "ev_type e = ns @ CHR ''.'' # rest"
    "ev_group e = None" using assms(1) unfolding legacy_event_def by blast
  from ns(1) have "CHR ''.'' \<notin> set ns" by auto
  then have "split_on (CHR ''.'') ns = [ns]" by (rule split_on_no_sep)
  then have "hd (split_on (CHR ''.'') (ev_type e)) = ns" by (simp add: ns(2) split_on_append_sep)
  moreover have "last ns \<noteq> CHR ''s''" using ns(1) by auto
  ultimately have "derive_channel (ev_type e) = ns @ ''s''" by (simp add: derive_channel_def)
  then have g: "resolved_group e = ns @ ''s''" by (simp add: resolved_group_def ns(3))
  have "ns @ ''s'' \<noteq> feed_group (co_feed c)" "ns @ ''s'' \<noteq> user_group u" for u
    using ns(1) by (cases "co_feed c"; auto simp: user_group_def submission_group_def contest_group_def)+
  then show ?thesis using assms(2) by (auto simp: g connection_ok_def)
qed

lemma publish_legacy:
  assumes "channel_laws lib" and "legacy_event e" and "feeds_ok s"
  shows "publish_event lib e s = s"
  using derived_group [OF assms(2)] assms(3)
  by (auto simp: publish_event_def group_send_members [OF assms(1)] feeds_ok_def List.map_filter_def filter_empty_conv
      intro!: live.equality)

lemma publish_feed:
  assumes "channel_laws lib" and "feed_event e" and "feeds_ok s"
  obtains i where "lv_open (publish_event lib e s) = lv_open s" "ev_group e = Some (submission_group i)"
    "lv_sent (publish_event lib e s) = lv_sent s
       @ map (\<lambda>c. (co_channel c, ev_payload e)) (filter (\<lambda>c. co_feed c = Submission_feed i) (lv_open s))"
proof -
  obtain i where e: "ev_type e \<in> {''submission.status'', ''submission.case'', ''submission.finished''}"
    "ev_group e = Some (submission_group i)" using assms(2) by (auto simp: feed_event_def)
  let ?m = "\<lparr>ms_type = ev_type e, ms_payload = Some (ev_payload e), ms_event_type = None\<rparr>"
  have g: "resolved_group e = submission_group i" by (simp add: resolved_group_def e(2) submission_group_def)
  have mem: "submission_group i \<in> set (co_groups c) \<longleftrightarrow> co_feed c = Submission_feed i" if "c \<in> set (lv_open s)" for c
    using assms(3) that by (auto simp: feeds_ok_def connection_ok_def)
  then have to: "filter (\<lambda>c. submission_group i \<in> set (co_groups c)) (lv_open s) = filter (\<lambda>c. co_feed c = Submission_feed i) (lv_open s)"
    by (rule filter_cong [OF refl])
  have reply: "handle lib (Submission_feed i) ?m = Reply (ev_payload e)"
    using e(1) assms(1) by (auto simp: submission_handler_def channel_laws_def get_or_def)
  have "List.map_filter (answer lib ?m) (filter (\<lambda>c. co_feed c = Submission_feed i) cs)
    = map (\<lambda>c. (co_channel c, ev_payload e)) (filter (\<lambda>c. co_feed c = Submission_feed i) cs)" for cs
    by (induction cs) (auto simp: List.map_filter_simps answer_def reply simp del: handle.simps)
  moreover have "lv_open (publish_event lib e s) = lv_open s"
    unfolding publish_event_def group_send_members [OF assms(1)] g
    by (simp add: filter_id_conv answers_def mem reply del: handle.simps)
  ultimately show ?thesis
    using that [of i] e(2) by (simp add: publish_event_def group_send_members [OF assms(1)] g to del: handle.simps)
qed

text \<open>What the open feeds are sent of an event: its payload, once to every feed of its submission.\<close>

definition deliveries :: "connection list \<Rightarrow> event \<Rightarrow> (nat \<times> (string, json) dict) list" where
  "deliveries cs e = map (\<lambda>c. (co_channel c, ev_payload e))
     (filter (\<lambda>c. case co_feed c of Submission_feed i \<Rightarrow> ev_group e = Some (submission_group i) | _ \<Rightarrow> False) cs)"

lemma publish_delivers:
  assumes "channel_laws lib" and "legacy_event e \<or> feed_event e" and "feeds_ok s"
  shows "lv_open (publish_event lib e s) = lv_open s \<and> lv_sent (publish_event lib e s) = lv_sent s @ deliveries (lv_open s) e"
proof (cases "legacy_event e")
  case True
  then have "deliveries (lv_open s) e = []"
    by (auto simp: legacy_event_def deliveries_def filter_empty_conv split: feed.splits)
  then show ?thesis using publish_legacy [OF assms(1) True assms(3)] by simp
next
  case False
  then have "feed_event e" using assms(2) by simp
  then obtain i where i: "lv_open (publish_event lib e s) = lv_open s" "ev_group e = Some (submission_group i)"
    "lv_sent (publish_event lib e s) = lv_sent s
       @ map (\<lambda>c. (co_channel c, ev_payload e)) (filter (\<lambda>c. co_feed c = Submission_feed i) (lv_open s))"
    using publish_feed [OF assms(1) _ assms(3)] by metis
  have "(case f of Submission_feed k \<Rightarrow> ev_group e = Some (submission_group k) | _ \<Rightarrow> False) \<longleftrightarrow> f = Submission_feed i" for f
    by (auto simp: i(2) split: feed.splits)
  then show ?thesis by (simp add: i(1,3) deliveries_def)
qed

lemma publish_all:
  "channel_laws lib \<Longrightarrow> \<forall>e \<in> set es. legacy_event e \<or> feed_event e \<Longrightarrow> feeds_ok s \<Longrightarrow>
     lv_open (fold (publish_event lib) es s) = lv_open s
     \<and> lv_sent (fold (publish_event lib) es s) = lv_sent s @ concat (map (deliveries (lv_open s)) es)"
proof (induction es arbitrary: s)
  case (Cons e es)
  have "feeds_ok (publish_event lib e s)" unfolding publish_event_def by (rule group_send_ok [OF Cons.prems(3)])
  moreover have "lv_open (publish_event lib e s) = lv_open s \<and> lv_sent (publish_event lib e s) = lv_sent s @ deliveries (lv_open s) e"
    using publish_delivers Cons.prems by simp
  ultimately show ?case using Cons.IH [of "publish_event lib e s"] Cons.prems(1,2) by simp
qed simp

section \<open>What a step publishes\<close>

lemma publishedI: "db_events d' = db_events d \<Longrightarrow> published d d'"
  by (auto simp: published_def)

lemma published_refl [simp]: "published d d"
  by (rule publishedI) simp

lemma published_trans: "published d d1 \<Longrightarrow> published d1 d2 \<Longrightarrow> published d d2"
  unfolding published_def by (metis UnE append_assoc set_append)

lemma published_publish: "legacy_event e \<or> feed_event e \<Longrightarrow> published d d' \<Longrightarrow> published d (publish e d')"
  by (fastforce simp: published_def publish_def)

lemma published_submission:
  assumes "ty \<in> {''submission.status'', ''submission.case'', ''submission.finished''}" and "published d d'"
  shows "published d (publish_submission ty i payload d')"
  unfolding publish_submission_def using assms by (intro published_publish) (auto simp: feed_event_def)

lemma published_legacy:
  assumes "ns \<in> {''submission'', ''contest'', ''problem'', ''user'', ''content''}" and "published d d'"
    and "ev_type e = ns @ CHR ''.'' # rest" and "ev_group e = None"
  shows "published d (publish e d')"
  using assms by (intro published_publish) (auto simp: legacy_event_def)

lemma silent_tables [simp]:
  "db_events (save_submission s d) = db_events d"
  "db_events (save_job j d) = db_events d"
  "db_events (save_judge g d) = db_events d"
  "db_events (update_submission_row i f d) = db_events d"
  "db_events (delete_test_cases i d) = db_events d"
  "db_events (sync_user_rating r d) = db_events d"
  "db_events (delete_contest_ratings c d) = db_events d"
  "db_events (snd (upsert_rating r d)) = db_events d"
  by (simp_all add: save_submission_def update_user_stats_def save_job_def save_judge_def update_submission_row_def
      delete_test_cases_def sync_user_rating_def delete_contest_ratings_def upsert_rating_def Let_def split: option.splits)

lemma recalculate_participation_silent: "recalculate_participation env c p d = Inr d' \<Longrightarrow> db_events d' = db_events d"
  by (erule recalculate_InrD) simp

lemma refresh_silent [simp]: "db_events (refresh_contest_score env s d) = db_events d"
  by (auto simp: refresh_contest_score_def dest: recalculate_participation_silent split: option.splits sum.splits)

lemma recalculate_contest_silent: "recalculate_contest env c d = Inr d' \<Longrightarrow> db_events d' = db_events d"
  unfolding recalculate_contest_def
  by (erule fold_andThen_relates [where R = "\<lambda>d d'. db_events d' = db_events d"]) (auto dest: recalculate_participation_silent)

lemma contest_event_published:
  "ty \<in> {''contest.started'', ''contest.ended'', ''contest.ranking.updated''} \<Longrightarrow> published d d' \<Longrightarrow> published d (publish (contest_event ty c) d')"
  by (rule published_legacy [where ns = "''contest''" and rest = "drop 8 ty"]) (auto simp: contest_event_def)

lemma expire_job_published: "published d (expire_job now j d)"
  unfolding expire_job_def expire_failed_def expire_requeued_def Let_def
  by (auto intro!: published_submission intro: publishedI)

lemma expire_fold_published: "published d (fold (expire_job now) js d)"
proof (induction js arbitrary: d)
  case (Cons j js)
  then show ?case using published_trans [OF expire_job_published Cons.IH] by simp
qed simp

lemma store_rating_published: "published (snd st) (snd (store_rating env now c x st))"
proof -
  obtain item rank disp mean perf rows d where eq: "x = (item, rank, disp, mean, perf)" "st = (rows, d)"
    by (cases x; cases st) auto
  obtain r d1 where up: "upsert_rating (rating_row env now c item rank disp mean perf 0) d = (r, d1)"
    by (cases "upsert_rating (rating_row env now c item rank disp mean perf 0) d")
  then have "db_events d1 = db_events d" using silent_tables(8) by (metis snd_conv)
  then show ?thesis unfolding eq store_rating_def
    by (simp add: up Let_def) (rule published_legacy [where ns = "''user''" and rest = "''rating_changed''"],
      auto simp: rating_changed_event_def intro: publishedI)
qed

lemma store_fold_published: "published (snd st) (snd (fold (store_rating env now c) xs st))"
proof (induction xs arbitrary: st)
  case (Cons x xs)
  then show ?case using published_trans [OF store_rating_published Cons.IH] by simp
qed simp

lemma calculate_ratings_published:
  assumes "calculate_ratings env now c force d = Inr (rows, d')"
  shows "published d d'"
proof -
  have del: "published d (delete_contest_ratings c d)" by (rule publishedI) simp
  have "published d (snd (fold (store_rating env now c) xs ([], if force then delete_contest_ratings c d else d)))" for xs
    using published_trans [OF _ store_fold_published [of "([], if force then delete_contest_ratings c d else d)" env now c xs]] del
    by (cases force) simp_all
  then show ?thesis using assms del
    by (auto simp: calculate_ratings_def Let_def split: if_splits) (metis snd_conv)+
qed

lemma create_submission_published: "create_submission env now u p l code pa mode ci eo d = Inr (s, d') \<Longrightarrow> published d d'"
  by (auto simp: create_submission_def insert_submission_def Let_def intro!: published_submission intro: publishedI)

lemma end_contest_published:
  assumes "end_contest env now i d = Inr d'"
  shows "published d d'"
proof (cases "get_contest i d")
  case (Some c)
  show ?thesis
  proof (cases "c_ended_at c")
    case None
    obtain d1 d2 where "recalculate_contest env c d = Inr d1"
      and "(if c_is_rated c then andThen (calculate_ratings env now c False d1) (\<lambda>(_, x). Inr x) else Inr d1) = Inr d2"
      and d': "d' = publish (contest_event ''contest.ended'' c)
                 (d2\<lparr>db_contests := rows_update (\<lambda>y. c_id y = i) (\<lambda>y. y\<lparr>c_ended_at := Some now\<rparr>) (db_contests d2)\<rparr>)"
      using assms Some None by (auto simp: end_contest_def)
    then have "published d d1" "published d1 d2"
      by (auto dest: recalculate_contest_silent calculate_ratings_published intro: publishedI split: if_splits)
    then have "published d d2" by (rule published_trans)
    then show ?thesis unfolding d' by (intro contest_event_published) (auto simp: published_def)
  qed (use assms Some in \<open>simp add: end_contest_def\<close>)
qed (use assms in \<open>simp add: end_contest_def\<close>)

lemma start_contest_published: "published d (start_contest now i d)"
  by (auto simp: start_contest_def intro!: contest_event_published intro: publishedI split: option.splits)

lemma record_cases_published:
  assumes "record_cases now i g cases d = Inr d'"
  obtains j s total passed top d1 where "get_job i d = Some j" "get_submission_row (jj_submission j) d = Some s" "db_events d1 = db_events d"
    "d' = publish_submission ''submission.case'' (s_id s)
       [(''cases'', JArr (map case_in_json cases)), (''case_total'', JInt total),
        (''case_passed'', JInt passed), (''current_testcase'', JInt top)] d1"
proof -
  obtain j where j: "lock_job i d = Inr j" using assms by (cases "lock_job i d") (simp_all add: record_cases_def)
  have own: "assert_owned now g j = Inr ()" using assms by (cases "assert_owned now g j") (simp_all add: record_cases_def j)
  obtain s where s: "submission_of j d = Inr s" using assms by (cases "submission_of j d") (simp_all add: record_cases_def j own)
  obtain ts top where batch: "record_batch (manifest_of d (jj_package j)) (s_id s) cases (db_test_cases d, s_current_testcase s) = Inr (ts, top)"
    using assms by (cases "record_batch (manifest_of d (jj_package j)) (s_id s) cases (db_test_cases d, s_current_testcase s)")
      (auto simp: record_cases_def j own s Let_def)
  have rows: "get_job i d = Some j" "get_submission_row (jj_submission j) d = Some s"
    using j s by (auto simp: lock_job_def submission_of_def split: option.splits)
  have silent: "db_events (save_job x (save_submission s' (d\<lparr>db_test_cases := ts\<rparr>))) = db_events d" for x s'
    by simp
  note d' = assms [unfolded record_cases_def j s own Let_def andThen.simps batch prod.case sum.inject, symmetric]
  show ?thesis by (rule that [OF rows silent d'])
qed

lemma queue_step_published: "queue_step env d d' \<Longrightarrow> published d d'"
proof (induction rule: queue_step.induct)
  case create then show ?case by (rule create_submission_published)
next
  case (expire now d n d')
  then show ?case using expire_fold_published by (auto simp: expire_stale_jobs_def Let_def)
next
  case (claim now g ls d r d')
  have "published d (snd (expire_stale_jobs now d))" using expire_fold_published by (simp add: expire_stale_jobs_def Let_def)
  then show ?case using claim by (auto simp: claim_job_def Let_def published_def split: option.splits)
next
  case (record_batch_cases now i g cases d d')
  show ?case by (rule record_cases_published [OF record_batch_cases]) (auto intro!: published_submission intro: publishedI)
next
  case (finish_job now i g payload d s d')
  then show ?case by (auto simp: finish_def Let_def split: if_splits intro!: published_submission intro: publishedI)
next
  case (fail_job now i g payload d s d')
  then show ?case by (auto simp: fail_def Let_def split: if_splits intro!: published_submission intro: publishedI)
qed (auto simp: rejudge_submission_def start_def heartbeat_def set_submission_public_def create_share_token_def
    revoke_share_token_def Let_def intro!: published_submission intro: publishedI split: option.splits if_splits)

lemma contest_step_published: "contest_step env d d' \<Longrightarrow> published d d'"
proof (induction rule: contest_step.induct)
  case (join now c u code d p d')
  then show ?case
    by (auto simp: join_contest_def insert_participation_def joined_event_def Let_def split: list.splits
        intro!: published_legacy [where ns = "''contest''" and rest = "''participation.joined''"] intro: publishedI)
next
  case (submit now u c code l src d s d')
  then show ?case by (auto simp: submit_to_contest_def dest: create_submission_published split: option.splits)
next
  case (recalculate i d d')
  then show ?case
    by (auto simp: recalculate_rankings_def dest!: recalculate_contest_silent intro!: contest_event_published intro: publishedI split: option.splits)
next
  case finish then show ?case by (rule end_contest_published)
next
  case start then show ?case by (rule start_contest_published)
qed (auto simp: create_contest_def update_contest_def add_problem_def remove_problem_def reorder_problems_def start_virtual_def
    insert_participation_def set_disqualified_def Let_def intro!: publishedI split: option.splits)

lemma service_delivers:
  assumes "channel_laws lib" and "live_reachable lib s" and "published (lv_db s) d"
  shows "lv_open (service_call lib d s) = lv_open s
    \<and> lv_sent (service_call lib d s)
        = lv_sent s @ concat (map (deliveries (lv_open s)) (drop (length (db_events (lv_db s))) (db_events d)))"
proof -
  obtain es where es: "db_events d = db_events (lv_db s) @ es" "\<forall>e \<in> set es. legacy_event e \<or> feed_event e"
    using assms(3) by (auto simp: published_def)
  moreover have "feeds_ok (s\<lparr>lv_db := d\<rparr>)" using live_reachable_ok [OF assms(2)] by (simp add: feeds_ok_def)
  ultimately show ?thesis using publish_all [OF assms(1) es(2)] by (simp add: service_call_def)
qed

section \<open>A sample site with one open feed\<close>

definition sample_channels :: channel_lib where
  "sample_channels = \<lparr>ch_method = map (\<lambda>c. if c = CHR ''.'' then CHR ''_'' else c),
     ch_members = (\<lambda>g. filter (\<lambda>c. g \<in> set (co_groups c)))\<rparr>"

lemma sample_channels_laws: "channel_laws sample_channels"
  by (simp add: channel_laws_def sample_channels_def)

definition sample_live :: live where
  "sample_live = snd (open_feed 4 (Submission_feed 1) (Some (new_user 7)) \<lparr>lv_db = sample_claimed, lv_open = [], lv_sent = []\<rparr>)"

lemma sample_live_reachable: "live_reachable lib sample_live"
proof -
  have "live_reachable lib \<lparr>lv_db = sample_claimed, lv_open = [], lv_sent = []\<rparr>" by (rule live_reachable.initial) simp
  then show ?thesis unfolding sample_live_def
    by (rule live_reachable.step) (rule live_step.connect [OF _ surjective_pairing], simp)
qed

lemma sample_live_tables:
  "lv_db sample_live = sample_claimed" "lv_sent sample_live = []"
  "lv_open sample_live = [\<lparr>co_channel = 4, co_feed = Submission_feed 1, co_user = Some (new_user 7), co_groups = [''submission_1'', ''user_7'']\<rparr>]"
  by code_simp+

definition sample_started :: db where
  "sample_started = publish_submission ''submission.status'' 1 [(''status'', JStr ''JG''), (''current_testcase'', JInt 0)]
     (update_submission_row 1 (\<lambda>s. s\<lparr>s_status := Sub_JUDGING\<rparr>)
        (save_job (extend_lease (seconds 2) ((claimed_job (seconds 1) 2 sample_job)\<lparr>jj_status := Job_RUNNING, jj_started_at := Some (seconds 2)\<rparr>))
           sample_claimed))"

lemma sample_start: "start (seconds 2) 1 2 sample_claimed = Inr sample_started"
proof -
  have "jj_status (claimed_job (seconds 1) 2 sample_job) = Job_CLAIMED" "jj_submission (claimed_job (seconds 1) 2 sample_job) = 1"
    by (simp_all add: claimed_job_def)
  then show ?thesis by (simp add: start_def sample_claimed_lookups sample_started_def del: One_nat_def)
qed

section \<open>Properties\<close>

text \<open>C36: In every state the live feeds reach, what a step of the judge queue or of the contests publishes closes
  no feed and reaches the feeds of the submission it is about, each of them once and in the order of the
  events; no feed of a contest or of the judges receives anything from either.\<close>

theorem feeds_deliver_submissions:
  assumes "channel_laws lib" and "live_reachable lib s" and "queue_step env (lv_db s) d \<or> contest_step env (lv_db s) d"
  shows "lv_open (service_call lib d s) = lv_open s
    \<and> lv_sent (service_call lib d s)
        = lv_sent s @ concat (map (deliveries (lv_open s)) (drop (length (db_events (lv_db s))) (db_events d)))"
  using assms(3) by (intro service_delivers [OF assms(1,2)]) (auto intro: queue_step_published contest_step_published)

theorem feeds_deliver_submissions_witness:
  "lv_sent (service_call sample_channels sample_started sample_live)
     = [(4, [(''submission_id'', JInt 1), (''status'', JStr ''JG''), (''current_testcase'', JInt 0)])]"
proof -
  have "queue_step sample_env (lv_db sample_live) sample_started"
    unfolding sample_live_tables by (rule queue_step.start_job [OF sample_start])
  then have "lv_sent (service_call sample_channels sample_started sample_live) = lv_sent sample_live
      @ concat (map (deliveries (lv_open sample_live)) (drop (length (db_events (lv_db sample_live))) (db_events sample_started)))"
    using feeds_deliver_submissions [OF sample_channels_laws sample_live_reachable] by blast
  then show ?thesis
    by (simp add: sample_live_tables sample_started_def publish_submission_def publish_def deliveries_def del: One_nat_def)
qed

text \<open>C37: Revoking the tokens of a user closes every live feed that user has open, whichever kind it is, and
  neither closes a feed of anyone else nor sends anything.\<close>

theorem revocation_closes_feeds:
  assumes "channel_laws lib" and "live_reachable lib s"
  shows "disconnect_user_channels lib u s = s\<lparr>lv_open := filter (\<lambda>c. map_option u_id (co_user c) \<noteq> Some (u_id u)) (lv_open s)\<rparr>"
proof -
  let ?m = "\<lparr>ms_type = ''force.disconnect'', ms_payload = None, ms_event_type = None\<rparr>"
  have closes: "handle lib f ?m = Close_with 4401" for f
    by (cases f) (use assms(1) in \<open>simp_all add: channel_laws_def submission_handler_def contest_handler_def judge_handler_def force_disconnect_def\<close>)
  have "user_group u \<in> set (co_groups c) \<longleftrightarrow> map_option u_id (co_user c) = Some (u_id u)" if "c \<in> set (lv_open s)" for c
    using live_reachable_ok [OF assms(2)] that by (cases "co_user c") (auto simp: feeds_ok_def connection_ok_def)
  then show ?thesis
    by (auto simp: disconnect_user_channels_def group_send_members [OF assms(1)] answers_def answer_def closes List.map_filter_def filter_empty_conv
        intro!: live.equality filter_cong)
qed

theorem revocation_closes_feeds_witness:
  "lv_open (disconnect_user_channels sample_channels (new_user 7) sample_live) = [] \<and> lv_open (disconnect_user_channels sample_channels (new_user 8) sample_live) = lv_open sample_live"
  unfolding revocation_closes_feeds [OF sample_channels_laws sample_live_reachable] by (simp add: sample_live_tables new_user_def)

text \<open>C38: The feed of a public submission streams what the API withholds: to a viewer who is neither the author nor
  a maintainer the endpoint of the test cases answers 403, while the feed accepts the viewer and sends
  the cases of every batch with their feedback and output.\<close>

theorem feed_streams_private_cases:
  assumes "channel_laws lib" and "live_reachable lib s" and "ch \<notin> co_channel ` set (lv_open s)"
    and "get_job job (lv_db s) = Some j" and "get_submission_row (jj_submission j) (lv_db s) = Some x"
    and "s_is_public x" and "\<not> can_view_submission_private (Some u) (lv_db s) x"
    and "record_cases now job g cases (lv_db s) = Inr d"
  shows "api_test_cases (Some u) (s_id x) (lv_db s) = Inl (HttpError 403 ''You are not allowed to view test case data.'')
    \<and> (\<exists>p. (ch, p) \<in> set (lv_sent (service_call lib d (snd (open_feed ch (Submission_feed (s_id x)) (Some u) s))))
         \<and> map_of p ''cases'' = Some (JArr (map case_in_json cases)))"
proof -
  have id: "s_id x = jj_submission j" using assms(5) by (auto dest: row_get_SomeD)
  have x: "get_submission_row (s_id x) (lv_db s) = Some x" using assms(5) id by simp
  let ?c = "\<lparr>co_channel = ch, co_feed = Submission_feed (s_id x), co_user = Some u, co_groups = [submission_group (s_id x), user_group u]\<rparr>"
  let ?s = "snd (open_feed ch (Submission_feed (s_id x)) (Some u) s)"
  have s: "?s = s\<lparr>lv_open := lv_open s @ [?c]\<rparr>"
    by (simp add: open_feed_def submission_connect_def x can_view_submission_def assms(6))
  have "live_reachable lib ?s"
    by (rule live_reachable.step [OF assms(2) live_step.connect [OF assms(3) surjective_pairing]])
  moreover have "published (lv_db ?s) d"
    by (rule record_cases_published [OF assms(8)]) (auto simp: s intro!: published_submission intro: publishedI)
  ultimately have sent: "lv_sent (service_call lib d ?s)
      = lv_sent s @ concat (map (deliveries (lv_open s @ [?c])) (drop (length (db_events (lv_db s))) (db_events d)))"
    using service_delivers [OF assms(1), of ?s d] by (simp add: s)
  obtain total passed top d1 where d: "db_events d1 = db_events (lv_db s)"
    "d = publish_submission ''submission.case'' (s_id x)
       [(''cases'', JArr (map case_in_json cases)), (''case_total'', JInt total),
        (''case_passed'', JInt passed), (''current_testcase'', JInt top)] d1"
    by (rule record_cases_published [OF assms(8)]) (use assms(4,5) in auto)
  let ?p = "[(''submission_id'', JInt (int (s_id x))), (''cases'', JArr (map case_in_json cases)), (''case_total'', JInt total),
    (''case_passed'', JInt passed), (''current_testcase'', JInt top)]"
  have "(ch, ?p) \<in> set (lv_sent (service_call lib d ?s))"
    unfolding sent by (simp add: d publish_submission_def publish_def deliveries_def)
  moreover have "map_of ?p ''cases'' = Some (JArr (map case_in_json cases))" by simp
  moreover have "api_test_cases (Some u) (s_id x) (lv_db s) = Inl (HttpError 403 ''You are not allowed to view test case data.'')"
    using assms(7) by (simp add: api_test_cases_def require_authenticated_def get_submission_def x)
  ultimately show ?thesis by blast
qed

definition sample_case :: case_in where
  "sample_case = \<lparr>ci_case_number = 1, ci_status = ''WA'', ci_time_used = 0, ci_memory_used = 0, ci_points = 0, ci_total_points = 1,
     ci_feedback = ''expected 42'', ci_output = ''41''\<rparr>"

theorem feed_streams_private_cases_witness:
  "\<exists>d p. record_cases (seconds 2) 1 2 [sample_case] (sample_claimed\<lparr>db_submissions := [sample_row\<lparr>s_is_public := True\<rparr>]\<rparr>) = Inr d
     \<and> (4, p) \<in> set (lv_sent (service_call sample_channels d (snd (open_feed 4 (Submission_feed 1) (Some (new_user 8))
           \<lparr>lv_db = sample_claimed\<lparr>db_submissions := [sample_row\<lparr>s_is_public := True\<rparr>]\<rparr>, lv_open = [], lv_sent = []\<rparr>))))
     \<and> map_of p ''cases'' = Some (JArr [case_in_json sample_case])"
proof -
  let ?x = "sample_row\<lparr>s_is_public := True\<rparr>"
  let ?d = "sample_claimed\<lparr>db_submissions := [?x]\<rparr>"
  let ?s = "\<lparr>lv_db = ?d, lv_open = [], lv_sent = []\<rparr>"
  have "\<not> (case record_cases (seconds 2) 1 2 [sample_case] ?d of Inl _ \<Rightarrow> True | Inr _ \<Rightarrow> False)" by code_simp
  then obtain d where d: "record_cases (seconds 2) 1 2 [sample_case] ?d = Inr d" by (auto split: sum.splits)
  have "live_reachable sample_channels ?s" by (rule live_reachable.initial) simp
  moreover have "get_job 1 ?d = Some (claimed_job (seconds 1) 2 sample_job)" "get_submission_row (jj_submission (claimed_job (seconds 1) 2 sample_job)) ?d = Some ?x"
    "\<not> can_view_submission_private (Some (new_user 8)) ?d ?x" "s_id ?x = 1"
    by code_simp+
  ultimately show ?thesis
    using feed_streams_private_cases [OF sample_channels_laws, of ?s 4 1 "claimed_job (seconds 1) 2 sample_job" ?x "new_user 8" "seconds 2" 2 "[sample_case]" d] d by auto
qed

end
