(* ===== verification/Leases.thy ===== *)
theory Leases
  imports JobInvariant
begin

text \<open>
  The leases of the judge queue over time: what collecting expired leases does to every table, which job a
  claim takes, and how long a claimed job stays with its worker whatever happens in the meantime. The
  steps of the queue are repeated here with the instant each of them runs at.
\<close>

section \<open>Expired leases, row by row\<close>

text \<open>What becomes of a job, and of its submission, when its lease has run out.\<close>

definition settled :: "time \<Rightarrow> judge_job \<Rightarrow> judge_job" where
  "settled now j =
     (if \<not> stale_job now j then j
      else if jj_max_attempts j \<le> jj_attempts j
      then j\<lparr>jj_status := Job_FAILED, jj_finished_at := Some now, jj_lease_expires_at := None,
             jj_last_error := ''Lease expired after maximum attempts.''\<rparr>
      else j\<lparr>jj_status := Job_QUEUED, jj_claimed_by := None, jj_claimed_at := None, jj_started_at := None,
             jj_finished_at := None, jj_lease_expires_at := None, jj_last_error := ''Lease expired; job requeued.''\<rparr>)"

definition settled_submission :: "time \<Rightarrow> judge_job \<Rightarrow> submission \<Rightarrow> submission" where
  "settled_submission now j s =
     (if jj_max_attempts j \<le> jj_attempts j
      then s\<lparr>s_status := Sub_ERROR, s_result := Some IE, s_points := 0, s_time_used := 0, s_memory_used := 0,
             s_case_total := 0, s_case_passed := 0, s_current_testcase := 0, s_subtask_scores := [],
             s_error_message := ''Judge lease expired after maximum attempts.'', s_judged_at := Some now, s_judged_on := None\<rparr>
      else s\<lparr>s_status := Sub_QUEUED, s_result := None, s_points := 0, s_time_used := 0, s_memory_used := 0,
             s_case_total := 0, s_case_passed := 0, s_current_testcase := 0, s_subtask_scores := [],
             s_error_message := [], s_judged_at := None, s_judged_on := None\<rparr>)"

lemma settled_simps [simp]:
  "jj_id (settled now j) = jj_id j" "jj_submission (settled now j) = jj_submission j" "s_id (settled_submission now j s) = s_id s"
  by (simp_all add: settled_def settled_submission_def)

lemma settled_not_stale: "\<not> stale_job now (settled now j)"
  by (simp add: settled_def stale_job_def active_job_def)

lemma expire_job_tables:
  "stale_job now j \<Longrightarrow> db_jobs (expire_job now j d) = map (\<lambda>x. if jj_id x = jj_id j then settled now j else x) (db_jobs d)"
  "db_submissions (expire_job now j d) = map (\<lambda>s. if s_id s = jj_submission j then settled_submission now j s else s) (db_submissions d)"
  "db_test_cases (expire_job now j d) = filter (\<lambda>t. t_submission t \<noteq> jj_submission j) (db_test_cases d)"
  by (auto simp: expire_job_def expire_failed_def expire_requeued_def Let_def settled_def settled_submission_def row_put_def
      delete_test_cases_def rows_update_def rows_delete_def update_submission_row_def reset_submission_def lease_failed_message_def)

text \<open>Updates of different keys, one after the other, are one pass over the table.\<close>

lemma fold_keyed:
  assumes "\<And>j d. j \<in> set js \<Longrightarrow> rows (f j d) = map (\<lambda>x. if key x = k j then g j x else x) (rows d)"
    and "\<And>j x. j \<in> set js \<Longrightarrow> key x = k j \<Longrightarrow> key (g j x) = k j" and "distinct (map k js)"
  shows "rows (fold f js d) = map (\<lambda>x. case List.find (\<lambda>j. k j = key x) js of None \<Rightarrow> x | Some j \<Rightarrow> g j x) (rows d)"
  using assms
proof (induction js arbitrary: d)
  case (Cons j js)
  have none: "List.find (\<lambda>i. k i = k j) js = None" using Cons.prems(3) by (simp add: find_None_iff) (metis image_eqI)
  have "rows (fold f js (f j d)) = map (\<lambda>x. case List.find (\<lambda>i. k i = key x) js of None \<Rightarrow> x | Some i \<Rightarrow> g i x) (rows (f j d))"
    by (rule Cons.IH) (use Cons.prems in auto)
  then show ?case using none Cons.prems(1,2) [of j] by (auto simp: comp_def)
qed simp

lemma fold_delete:
  assumes "\<And>j d. rows (f j d) = filter (\<lambda>t. h t \<noteq> k j) (rows d)"
  shows "rows (fold f js d) = filter (\<lambda>t. h t \<notin> k ` set js) (rows d)"
  by (induction js arbitrary: d) (auto simp: assms conj_commute)

lemma find_unique:
  assumes "distinct (map k xs)" and "set js = {j \<in> set xs. P j}" and "x \<in> set xs"
  shows "List.find (\<lambda>j. k j = k x) js = (if P x then Some x else None)"
proof -
  have one: "j = x" if "j \<in> set xs" "k j = k x" for j using that assms(1,3) by (auto simp: distinct_map dest: inj_onD)
  show ?thesis
  proof (cases "List.find (\<lambda>j. k j = k x) js")
    case None
    then have "x \<notin> set js" by (auto simp: find_None_iff)
    then show ?thesis using None assms(2,3) by auto
  next
    case (Some j)
    then have "j \<in> set js" "k j = k x" by (auto simp: find_Some_iff)
    then show ?thesis using Some one assms(2) by auto
  qed
qed

lemma stale_jobs_set: "set (stale_jobs now d) = {j \<in> set (db_jobs d). stale_job now j}"
  by (auto simp: stale_jobs_def)

lemma stale_jobs_distinct: "distinct (map k (db_jobs d)) \<Longrightarrow> distinct (map k (stale_jobs now d))"
proof -
  assume "distinct (map k (db_jobs d))"
  then have "distinct (map k (filter (stale_job now) (db_jobs d)))" by (rule distinct_map_filter)
  then show ?thesis by (simp add: stale_jobs_def distinct_map)
qed

lemma expired_jobs:
  assumes "distinct (map jj_id (db_jobs d))"
  shows "db_jobs (snd (expire_stale_jobs now d)) = map (settled now) (db_jobs d)"
proof -
  have "db_jobs (fold (expire_job now) (stale_jobs now d) d)
      = map (\<lambda>x. case List.find (\<lambda>j. jj_id j = jj_id x) (stale_jobs now d) of None \<Rightarrow> x | Some j \<Rightarrow> settled now j) (db_jobs d)"
    by (rule fold_keyed) (use stale_jobs_distinct [OF assms] in \<open>auto simp: stale_jobs_set expire_job_tables\<close>)
  also have "\<dots> = map (settled now) (db_jobs d)"
    by (rule map_cong [OF refl]) (simp add: find_unique [OF assms stale_jobs_set], simp add: settled_def)
  finally show ?thesis by (simp add: expire_stale_jobs_def Let_def)
qed

lemma find_filter: "List.find P (filter Q xs) = List.find (\<lambda>x. Q x \<and> P x) xs"
  by (induction xs) auto

lemma expired_submissions:
  assumes "distinct (map jj_submission (db_jobs d))"
  shows "db_submissions (snd (expire_stale_jobs now d)) =
    map (\<lambda>s. case List.find (\<lambda>j. stale_job now j \<and> jj_submission j = s_id s) (db_jobs d) of
               None \<Rightarrow> s | Some j \<Rightarrow> settled_submission now j s) (db_submissions d)"
proof -
  have find: "List.find (\<lambda>j. jj_submission j = i) (stale_jobs now d) = List.find (\<lambda>j. stale_job now j \<and> jj_submission j = i) (db_jobs d)" for i
  proof (cases "List.find (\<lambda>j. stale_job now j \<and> jj_submission j = i) (db_jobs d)")
    case None
    then have "List.find (\<lambda>j. jj_submission j = i) (stale_jobs now d) = None" by (auto simp: find_None_iff stale_jobs_set)
    then show ?thesis using None by simp
  next
    case (Some j)
    then have "j \<in> set (db_jobs d)" "stale_job now j" "jj_submission j = i" by (auto simp: find_Some_iff)
    then show ?thesis using find_unique [OF assms stale_jobs_set, of j now] Some by simp
  qed
  have "db_submissions (fold (expire_job now) (stale_jobs now d) d)
      = map (\<lambda>s. case List.find (\<lambda>j. jj_submission j = s_id s) (stale_jobs now d) of None \<Rightarrow> s | Some j \<Rightarrow> settled_submission now j s) (db_submissions d)"
    by (rule fold_keyed) (use stale_jobs_distinct [OF assms] in \<open>simp_all add: expire_job_tables\<close>)
  then show ?thesis by (simp add: expire_stale_jobs_def Let_def find)
qed

lemma expired_test_cases:
  "db_test_cases (snd (expire_stale_jobs now d))
     = filter (\<lambda>t. \<not> (\<exists>j \<in> set (db_jobs d). stale_job now j \<and> t_submission t = jj_submission j)) (db_test_cases d)"
proof -
  have "db_test_cases (fold (expire_job now) (stale_jobs now d) d)
      = filter (\<lambda>t. t_submission t \<notin> jj_submission ` set (stale_jobs now d)) (db_test_cases d)"
    by (rule fold_delete) (rule expire_job_tables(3))
  also have "\<dots> = filter (\<lambda>t. \<not> (\<exists>j \<in> set (db_jobs d). stale_job now j \<and> t_submission t = jj_submission j)) (db_test_cases d)"
    by (rule filter_cong [OF refl]) (auto simp: stale_jobs_set)
  finally show ?thesis by (simp add: expire_stale_jobs_def Let_def)
qed

section \<open>Steps with their instants\<close>

text \<open>\<open>queue_step\<close> with the instant of the step and the submission that it rejudges, if it does.\<close>

inductive timed_step :: "env \<Rightarrow> time \<Rightarrow> nat option \<Rightarrow> db \<Rightarrow> db \<Rightarrow> bool" for env where
  create: "create_submission env now u p l code pa mode ci eo d = Inr (s, d') \<Longrightarrow> timed_step env now None d d'"
| rejudge: "rejudge_submission now i d = Inr d' \<Longrightarrow> timed_step env now (Some i) d d'"
| expire: "expire_stale_jobs now d = (n, d') \<Longrightarrow> timed_step env now None d d'"
| claim: "claim_job now g ls d = (r, d') \<Longrightarrow> timed_step env now None d d'"
| start_job: "start now i g d = Inr d' \<Longrightarrow> timed_step env now None d d'"
| record_batch_cases: "record_cases now i g cases d = Inr d' \<Longrightarrow> timed_step env now None d d'"
| finish_job: "finish env now i g finish_payload d = Inr (s, d') \<Longrightarrow> timed_step env now None d d'"
| fail_job: "fail env now i g fail_payload d = Inr (s, d') \<Longrightarrow> timed_step env now None d d'"
| beat: "heartbeat env now token ld d = Inr d' \<Longrightarrow> timed_step env now None d d'"
| visibility: "get_submission i d = Inr s0 \<Longrightarrow> set_submission_public s0 b d = (s, d') \<Longrightarrow> timed_step env now None d d'"
| share: "get_submission i d = Inr s0 \<Longrightarrow> create_share_token t s0 d = (s, d') \<Longrightarrow> timed_step env now None d d'"
| revoke: "get_submission i d = Inr s0 \<Longrightarrow> revoke_share_token s0 d = (s, d') \<Longrightarrow> timed_step env now None d d'"

lemma timed_is_step: "timed_step env now r d d' \<Longrightarrow> queue_step env d d'"
  by (induction rule: timed_step.induct) (blast intro: queue_step.intros)+

lemma step_is_timed: "queue_step env d d' \<Longrightarrow> \<exists>now r. timed_step env now r d d'"
  by (induction rule: queue_step.induct) (blast intro: timed_step.intros)+

text \<open>A job that no worker can be given before the instant \<open>t\<close>: it is done, or leased until then at least.\<close>

definition withheld :: "time \<Rightarrow> judge_job \<Rightarrow> bool" where
  "withheld t j \<longleftrightarrow> jj_status j \<in> {Job_SUCCEEDED, Job_FAILED}
     \<or> jj_status j \<in> {Job_CLAIMED, Job_RUNNING} \<and> (\<exists>e. jj_lease_expires_at j = Some e \<and> t \<le> e)"

definition held :: "nat \<Rightarrow> nat \<Rightarrow> time \<Rightarrow> db \<Rightarrow> bool" where
  "held i sub t d \<longleftrightarrow> (\<exists>j \<in> set (db_jobs d). jj_id j = i \<and> jj_submission j = sub \<and> withheld t j)"

lemma held_same: "held i sub t d \<Longrightarrow> db_jobs d' = db_jobs d \<Longrightarrow> held i sub t d'"
  by (simp add: held_def)

lemma held_put:
  assumes "queue_ok d" and "held i sub t d" and "j \<in> set (db_jobs d)" and "db_jobs d' = row_put jj_id j' (db_jobs d)"
    and "jj_id j' = jj_id j" and "jj_id j = i \<Longrightarrow> jj_submission j = sub \<Longrightarrow> withheld t j \<Longrightarrow> jj_submission j' = sub \<and> withheld t j'"
  shows "held i sub t d'"
proof -
  obtain x where x: "x \<in> set (db_jobs d)" "jj_id x = i" "jj_submission x = sub" "withheld t x"
    using assms(2) by (auto simp: held_def)
  show ?thesis
  proof (cases "jj_id j = i")
    case True
    then have "j = x" using x(1,2) assms(1,3) by (auto simp: queue_ok_def distinct_map dest: inj_onD)
    then have "jj_submission j' = sub \<and> withheld t j'" using assms(6) x by simp
    moreover have "j' \<in> set (db_jobs d')" using assms(3-5) by (auto simp: set_row_put)
    ultimately show ?thesis using assms(5) True by (auto simp: held_def)
  next
    case False
    then have "x \<in> set (db_jobs d')" using x(1,2) assms(4,5) by (auto simp: set_row_put)
    then show ?thesis using x by (auto simp: held_def)
  qed
qed

lemma held_map:
  assumes "held i sub t d" and "db_jobs d' = map f (db_jobs d)"
    and "\<And>j. j \<in> set (db_jobs d) \<Longrightarrow> jj_id (f j) = jj_id j \<and> jj_submission (f j) = jj_submission j \<and> (withheld t j \<longrightarrow> withheld t (f j))"
  shows "held i sub t d'"
  using assms by (auto simp: held_def)

lemma held_expired:
  assumes "queue_ok d" and "held i sub t d" and "now \<le> t"
  shows "held i sub t (snd (expire_stale_jobs now d))"
proof (rule held_map [OF assms(2) expired_jobs])
  have "\<not> stale_job now j" if "withheld t j" for j
    using that assms(3) by (auto simp: withheld_def stale_job_def active_job_def)
  then show "jj_id (settled now j) = jj_id j \<and> jj_submission (settled now j) = jj_submission j \<and> (withheld t j \<longrightarrow> withheld t (settled now j))" for j
    by (simp add: settled_def)
qed (use assms(1) in \<open>simp add: queue_ok_def\<close>)

lemma withheld_extended: "active_job j \<Longrightarrow> t \<le> now + lease_seconds \<Longrightarrow> withheld t (extend_lease now j)"
  by (simp add: withheld_def extend_lease_def active_job_def)

lemma held_finished:
  "queue_ok d \<Longrightarrow> held i sub t d \<Longrightarrow> j \<in> set (db_jobs d) \<Longrightarrow> db_jobs d' = row_put jj_id j' (db_jobs d)
     \<Longrightarrow> jj_id j' = jj_id j \<Longrightarrow> jj_submission j' = jj_submission j \<Longrightarrow> withheld t j' \<Longrightarrow> held i sub t d'"
  by (rule held_put [where j = j and j' = j']) auto

lemma held_start:
  assumes "queue_ok d" and "held i sub t d" and "t \<le> now + lease_seconds" and "start now k g d = Inr d'"
  shows "held i sub t d'"
proof -
  obtain j where j: "lock_job k d = Inr j" using assms(4) by (auto simp: start_def)
  let ?j = "extend_lease now (j\<lparr>jj_status := Job_RUNNING, jj_started_at := Some now\<rparr>)"
  have "db_jobs d' = row_put jj_id (extend_lease now j) (db_jobs d) \<and> active_job j \<or> db_jobs d' = row_put jj_id ?j (db_jobs d)"
    using assms(4) j by (cases "jj_status j = Job_RUNNING") (auto simp: start_def active_job_def)
  then show ?thesis
    using held_finished [OF assms(1,2), of j d'] lock_jobD [OF j] withheld_extended [OF _ assms(3)] assms(3)
    by (auto simp: extend_lease_def withheld_def active_job_def)
qed

lemma held_record:
  assumes "queue_ok d" and "held i sub t d" and "t \<le> now + lease_seconds" and "record_cases now k g cases d = Inr d'"
  shows "held i sub t d'"
proof -
  obtain j s where j: "lock_job k d = Inr j" "assert_owned now g j = Inr ()" "submission_of j d = Inr s"
    using assms(4) by (auto simp: record_cases_def)
  let ?j = "if jj_status j = Job_CLAIMED
      then j\<lparr>jj_status := Job_RUNNING, jj_started_at := (case jj_started_at j of Some t \<Rightarrow> Some t | None \<Rightarrow> Some now)\<rparr> else j"
  have "db_jobs d' = row_put jj_id (extend_lease now ?j) (db_jobs d)"
    using assms(4) j by (auto simp: record_cases_def Let_def case_prod_beta)
  then show ?thesis
    by (rule held_finished [OF assms(1,2) lock_jobD [OF j(1), THEN conjunct1]])
      (use assert_ownedD [OF j(2)] assms(3) in \<open>auto simp: extend_lease_def withheld_def active_job_def\<close>)
qed

lemma held_finish:
  assumes "queue_ok d" and "held i sub t d" and "finish env now k g payload d = Inr (s', d')"
  shows "held i sub t d'"
  using assms(3)
proof (cases rule: finish_cases)
  case already
  then show ?thesis using assms(2) by simp
next
  case (judged j s s0)
  show ?thesis
    by (rule held_finished [OF assms(1,2) lock_jobD [OF judged(1), THEN conjunct1] judged(6)]) (simp_all add: withheld_def)
qed

lemma held_fail:
  assumes "queue_ok d" and "held i sub t d" and "fail env now k g payload d = Inr (s', d')"
  shows "held i sub t d'"
  using assms(3)
proof (cases rule: fail_cases)
  case already
  then show ?thesis using assms(2) by simp
next
  case (failed j s)
  show ?thesis
    by (rule held_finished [OF assms(1,2) lock_jobD [OF failed(1), THEN conjunct1] failed(5)]) (simp_all add: withheld_def)
qed

lemma held_claim:
  assumes "queue_ok d" and "held i sub t d" and "now \<le> t" and "claim_job now g ls d = (r, d')"
  shows "held i sub t d' \<and> (\<forall>j. r = Some j \<longrightarrow> jj_id j \<noteq> i)"
  using assms(4)
proof (cases rule: claim_job_cases)
  case none
  then show ?thesis using held_expired [OF assms(1-3)] by simp
next
  case (some j)
  let ?d = "snd (expire_stale_jobs now d)"
  have held: "held i sub t ?d" by (rule held_expired [OF assms(1-3)])
  have ok: "queue_ok ?d" by (rule expire_stale_ok [OF assms(1)])
  have queued: "\<not> withheld t j" using some(4) by (simp add: claimable_def withheld_def)
  obtain x where "x \<in> set (db_jobs ?d)" "jj_id x = i" "withheld t x" using held by (auto simp: held_def)
  then have other: "jj_id j \<noteq> i" using queued some(3) ok by (auto simp: queue_ok_def distinct_map dest: inj_onD)
  have "held i sub t d'"
    by (rule held_put [OF ok held some(3), where j' = "claimed_job now g j"]) (use some(2) queued in auto)
  then show ?thesis using some(1) other by simp
qed

lemma held_rejudge:
  assumes "queue_ok d" and "held i sub t d" and "k \<noteq> sub" and "rejudge_submission now k d = Inr d'"
  shows "held i sub t d'"
proof -
  obtain j cf where "j \<in> set (db_jobs d)" "jj_submission j = k" "db_jobs d' = row_put jj_id (requeued_job cf j) (db_jobs d)"
    using assms(4,1) by (rule rejudge_cases)
  then show ?thesis using assms(3) by (intro held_put [OF assms(1,2), of j d' "requeued_job cf j"]) (auto simp: requeued_job_def)
qed

lemma held_beat:
  assumes "held i sub t d" and "t \<le> now + lease_seconds" and "heartbeat env now token ld d = Inr d'"
  shows "held i sub t d'"
proof -
  obtain g where g: "request_judge env token d = Inr g" using assms(3) by (auto simp: heartbeat_def)
  then have "db_jobs d' = map (\<lambda>j. if jj_claimed_by j = Some (j_id g) \<and> active_job j then extend_lease now j else j) (db_jobs d)"
    using assms(3) by (auto simp: heartbeat_def Let_def save_judge_def rows_update_def)
  then show ?thesis
    by (rule held_map [OF assms(1)]) (use withheld_extended [OF _ assms(2)] in \<open>auto simp: extend_lease_def\<close>)
qed

lemma held_create: "held i sub t d \<Longrightarrow> create_submission env now u p l code pa mode ci eo d = Inr (s, d') \<Longrightarrow> held i sub t d'"
  by (auto simp: create_submission_def insert_submission_def Let_def held_def)

lemma held_step:
  assumes "timed_step env now r d d'" and "queue_ok d" and "held i sub t d"
    and "now \<le> t" and "t \<le> now + lease_seconds" and "r \<noteq> Some sub"
  shows "held i sub t d'"
  using assms
proof (induction rule: timed_step.induct)
  case (expire now d n d')
  then show ?case using held_expired [of d i sub t now] by simp
next
  case (claim now g ls d r d')
  then show ?case using held_claim by blast
next
  case (rejudge now k d d')
  then show ?case using held_rejudge [of d i sub t k now d'] by blast
next
  case (visibility i d s0 b s d')
  then show ?case by (elim held_same) (auto simp: set_submission_public_def Let_def)
next
  case (share i d s0 t s d')
  then show ?case by (elim held_same) (auto simp: create_share_token_def Let_def)
next
  case (revoke i d s0 s d')
  then show ?case by (elim held_same) (auto simp: revoke_share_token_def Let_def)
qed (blast intro: held_create held_start held_record held_finish held_fail held_beat)+

definition queue_label :: "env \<Rightarrow> time \<times> nat option \<Rightarrow> db \<Rightarrow> db \<Rightarrow> bool" where
  "queue_label env l = timed_step env (fst l) (snd l)"

lemma held_run:
  assumes "labelled_run (queue_label env) d ls d'" and "queue_ok d" and "held i sub t d"
    and "\<forall>(u, r) \<in> set ls. u \<le> t \<and> t \<le> u + lease_seconds \<and> r \<noteq> Some sub"
  shows "queue_ok d' \<and> held i sub t d'"
  using assms
proof (induction rule: labelled_run.induct)
  case (next_step l d d1 ls d2)
  then have step: "timed_step env (fst l) (snd l) d d1" by (simp add: queue_label_def)
  have "queue_ok d1" using queue_step_ok [OF timed_is_step [OF step] next_step.prems(1)] .
  moreover have "held i sub t d1" by (rule held_step [OF step next_step.prems(1,2)]) (use next_step.prems(3) in auto)
  ultimately show ?case using next_step.IH next_step.prems(3) by simp
qed simp

lemma held_claimed:
  assumes "queue_ok d" and "claim_job now g ls d = (Some j, d')"
  shows "held (jj_id j) (jj_submission j) (now + lease_seconds) d'"
  using assms(2)
proof (cases rule: claim_job_cases)
  case (some j1)
  have "j \<in> set (db_jobs d')" using some(1-3) by (auto simp: set_row_put)
  then show ?thesis unfolding held_def using some(1) by (intro bexI [of _ j]) (auto simp: withheld_def)
qed simp

section \<open>Properties\<close>

text \<open>C2: The exclusivity of a lease: once a worker has been given a job, then whatever the workers and
  the users do during its lease of 60 seconds, in any order, no claim made before the lease runs out
  gives the same job to any worker; only a rejudge of the job's own submission may end the lease early.\<close>

theorem claims_are_exclusive:
  assumes "queue_ok d" and "claim_job now g ls d = (Some j, d1)"
    and "labelled_run (queue_label env) d1 steps d2"
    and "\<forall>(u, r) \<in> set steps. now \<le> u \<and> u \<le> now + lease_seconds \<and> r \<noteq> Some (jj_submission j)"
    and "now' \<le> now + lease_seconds" and "claim_job now' g' ls' d2 = (Some j', d3)"
  shows "jj_id j' \<noteq> jj_id j"
proof -
  have "queue_ok d2 \<and> held (jj_id j) (jj_submission j) (now + lease_seconds) d2"
    by (rule held_run [OF assms(3) claim_ok [OF assms(1,2)] held_claimed [OF assms(1,2)]]) (use assms(4) in auto)
  then show ?thesis using held_claim [OF _ _ assms(5,6)] by blast
qed

definition sample_job2 :: judge_job where
  "sample_job2 = sample_job\<lparr>jj_id := 2, jj_submission := 2, jj_priority := -1\<rparr>"

definition sample_pair :: db where
  "sample_pair = sample_created\<lparr>db_jobs := [sample_job, sample_job2], db_submissions := [sample_row, sample_row\<lparr>s_id := 2\<rparr>]\<rparr>"

definition sample_pair_claimed :: db where
  "sample_pair_claimed = save_job (claimed_job 0 2 sample_job) sample_pair"

lemma sample_pair_tables [simp]:
  "db_jobs sample_pair = [sample_job, sample_job2]" "jj_id sample_job2 = 2" "jj_status sample_job2 = Job_QUEUED"
  "jj_language sample_job2 = 1" "queue_key sample_job = (0, 0)" "queue_key sample_job2 = (1, 0)"
  "db_jobs sample_pair_claimed = [claimed_job 0 2 sample_job, sample_job2]"
  "db_languages sample_pair = [sample_language]" "db_languages sample_pair_claimed = [sample_language]"
  by (simp_all add: sample_pair_def sample_job2_def queue_key_def sample_pair_claimed_def row_put_def rows_update_def)
    (simp_all add: sample_job_def new_job_def sample_created_def sample_site_def)

lemma sample_pair_ok: "queue_ok sample_pair"
  by (simp add: queue_ok_def sample_pair_def sample_job2_def sample_job_def new_job_def sample_row_def new_submission_def
      job_ok_def coupled_def unjudged_def)

lemma sample_pair_claims:
  "claim_job 0 2 [''py''] sample_pair = (Some (claimed_job 0 2 sample_job), sample_pair_claimed)"
  "claim_job 1 3 [''py''] sample_pair_claimed = (Some (claimed_job 1 3 sample_job2), save_job (claimed_job 1 3 sample_job2) sample_pair_claimed)"
proof -
  have "stale_jobs 0 sample_pair = []" by (simp add: stale_jobs_def stale_job_def active_job_def)
  then show "claim_job 0 2 [''py''] sample_pair = (Some (claimed_job 0 2 sample_job), sample_pair_claimed)"
    by (simp add: claim_job_def expire_stale_jobs_def Let_def claimable_def language_key_def row_get_def sample_pair_claimed_def)
  have "stale_jobs 1 sample_pair_claimed = []"
    by (simp add: stale_jobs_def stale_job_def active_job_def lease_seconds_def seconds_def)
  then show "claim_job 1 3 [''py''] sample_pair_claimed = (Some (claimed_job 1 3 sample_job2), save_job (claimed_job 1 3 sample_job2) sample_pair_claimed)"
    by (simp add: claim_job_def expire_stale_jobs_def Let_def claimable_def language_key_def row_get_def)
qed

lemma sample_pair_run: "\<exists>d2. labelled_run (queue_label sample_env) sample_pair_claimed [(1, None), (1, Some 2)] d2"
proof -
  let ?d1 = "save_job (claimed_job 1 3 sample_job2) sample_pair_claimed"
  have one: "queue_label sample_env (1, None) sample_pair_claimed ?d1"
    using timed_step.claim [OF sample_pair_claims(2)] by (simp add: queue_label_def)
  have "get_submission_row 2 ?d1 = Some (sample_row\<lparr>s_id := 2\<rparr>)" "job_of_submission 2 ?d1 = Some (claimed_job 1 3 sample_job2)"
    "row_get p_id (s_problem (sample_row\<lparr>s_id := 2\<rparr>)) (db_problems ?d1) = Some sample_problem"
    "row_get l_id (s_language (sample_row\<lparr>s_id := 2\<rparr>)) (db_languages ?d1) = Some sample_language"
    "package_of ?d1 (jj_package (claimed_job 1 3 sample_job2)) = Some sample_package"
    by code_simp+
  then have "\<exists>d2. rejudge_submission 1 2 ?d1 = Inr d2" by (simp add: rejudge_submission_def Let_def)
  then obtain d2 where "rejudge_submission 1 2 ?d1 = Inr d2" by blast
  then have "queue_label sample_env (1, Some 2) ?d1 d2" using timed_step.rejudge by (simp add: queue_label_def)
  with one show ?thesis by (meson labelled_run.intros)
qed

text \<open>The second job is claimed and rejudged while the first is leased; a claim then finds the second one.\<close>

theorem claims_are_exclusive_witness:
  "\<exists>d2. labelled_run (queue_label sample_env) sample_pair_claimed [(1, None), (1, Some 2)] d2
     \<and> map_option jj_id (fst (claim_job 2 4 [''py''] d2)) \<noteq> Some 1"
proof -
  obtain d2 where run: "labelled_run (queue_label sample_env) sample_pair_claimed [(1, None), (1, Some 2)] d2"
    using sample_pair_run by blast
  have "map_option jj_id (fst (claim_job 2 4 [''py''] d2)) \<noteq> Some 1"
  proof
    assume "map_option jj_id (fst (claim_job 2 4 [''py''] d2)) = Some 1"
    then obtain j' d3 where c: "claim_job 2 4 [''py''] d2 = (Some j', d3)" "jj_id j' = 1"
      by (cases "claim_job 2 4 [''py''] d2") auto
    have "jj_id j' \<noteq> jj_id (claimed_job 0 2 sample_job)"
      by (rule claims_are_exclusive [OF sample_pair_ok sample_pair_claims(1) run _ _ c(1)])
        (simp_all add: lease_seconds_def seconds_def)
    then show False using c(2) by simp
  qed
  with run show ?thesis by blast
qed

text \<open>C9: Collecting the expired leases settles every stale job and nothing else: the table of jobs is the
  old one with each stale job requeued without owner or lease, or failed when it has used up its
  attempts; its submission is put back to unjudged, or to an internal error; its recorded cases are
  deleted; every other row is as it was, and no stale job is left.\<close>

theorem expiry_settles:
  assumes "distinct (map jj_id (db_jobs d))" and "distinct (map jj_submission (db_jobs d))"
    and "expire_stale_jobs now d = (n, d')"
  shows "n = length (filter (stale_job now) (db_jobs d))
   \<and> db_jobs d' = map (settled now) (db_jobs d)
   \<and> db_submissions d' = map (\<lambda>s. case List.find (\<lambda>j. stale_job now j \<and> jj_submission j = s_id s) (db_jobs d) of
          None \<Rightarrow> s | Some j \<Rightarrow> settled_submission now j s) (db_submissions d)
   \<and> db_test_cases d' = filter (\<lambda>t. \<not> (\<exists>j \<in> set (db_jobs d). stale_job now j \<and> t_submission t = jj_submission j)) (db_test_cases d)
   \<and> filter (stale_job now) (db_jobs d') = []"
proof -
  have d': "d' = snd (expire_stale_jobs now d)" and n: "n = fst (expire_stale_jobs now d)" using assms(3) by simp_all
  have "n = length (filter (stale_job now) (db_jobs d))" by (simp add: n expire_stale_jobs_def Let_def stale_jobs_def)
  moreover have "filter (stale_job now) (map (settled now) (db_jobs d)) = []" by (auto simp: filter_empty_conv settled_not_stale)
  ultimately show ?thesis
    using expired_jobs [OF assms(1), of now] expired_submissions [OF assms(2), of now] expired_test_cases [of now d]
    by (simp add: d')
qed

theorem expiry_settles_witness:
  "\<exists>n d'. expire_stale_jobs (seconds 100) sample_pair_claimed = (n, d') \<and> n = 1
     \<and> map jj_status (db_jobs d') = [Job_QUEUED, Job_QUEUED] \<and> map jj_claimed_by (db_jobs d') = [None, None]"
proof -
  obtain n d' where run: "expire_stale_jobs (seconds 100) sample_pair_claimed = (n, d')" by (metis surj_pair)
  have jobs: "stale_job (seconds 100) (claimed_job 0 2 sample_job)" "\<not> stale_job (seconds 100) sample_job2"
    "jj_attempts sample_job = 0" "jj_max_attempts sample_job = 3" "jj_claimed_by sample_job2 = None"
    by (simp_all add: stale_job_def active_job_def lease_seconds_def seconds_def sample_job2_def sample_job_def new_job_def)
  have "distinct (map jj_id (db_jobs sample_pair_claimed))" "distinct (map jj_submission (db_jobs sample_pair_claimed))"
    by (simp_all add: sample_job2_def)
  from expiry_settles [OF this run] show ?thesis using run jobs by (simp add: settled_def)
qed

text \<open>C10: A claim takes the first job of the queue: once the expired leases have been collected, the worker
  gets a queued job in one of its languages, of the highest priority and the oldest among equals, now
  claimed by it, and no other row changes; it gets nothing only when no queued job is in its languages.\<close>

theorem claim_takes_first:
  assumes "claim_job now g ls d = (r, d')"
  shows "let d1 = snd (expire_stale_jobs now d);
             waiting = filter (\<lambda>x. jj_status x = Job_QUEUED \<and> language_key d1 (jj_language x) \<in> Some ` set ls) (db_jobs d1)
         in case r of None \<Rightarrow> waiting = [] \<and> d' = d1
          | Some j \<Rightarrow> \<exists>j0 \<in> set waiting. j = claimed_job now g j0 \<and> d' = save_job j d1
              \<and> (\<forall>x \<in> set waiting. jj_priority x < jj_priority j0
                   \<or> jj_priority x = jj_priority j0 \<and> jj_created_at j0 \<le> jj_created_at x)"
proof -
  let ?d = "snd (expire_stale_jobs now d)"
  have wait: "claimable ?d ls x \<longleftrightarrow> jj_status x = Job_QUEUED \<and> language_key ?d (jj_language x) \<in> Some ` set ls" for x
    by (auto simp: claimable_def split: option.splits)
  show ?thesis using assms
  proof (cases rule: claim_job_cases)
    case none
    then show ?thesis using claim_none [of now g ls d d'] assms wait by (auto simp: Let_def filter_empty_conv)
  next
    case (some j)
    have least: "jj_priority x < jj_priority j \<or> jj_priority x = jj_priority j \<and> jj_created_at j \<le> jj_created_at x"
      if "x \<in> set (db_jobs ?d)" "claimable ?d ls x" for x
    proof -
      have "queue_key j \<le> queue_key x" using some(5) by (rule first_sort_key_least) (use that in simp)
      then show ?thesis by (auto simp: queue_key_def)
    qed
    show ?thesis unfolding Let_def some(1) option.case
      by (rule bexI [of _ j]) (use some(2-4) least wait in auto)
  qed
qed

theorem claim_takes_first_witness:
  "jj_priority sample_job2 < jj_priority sample_job \<and> fst (claim_job 0 2 [''py''] sample_pair) = Some (claimed_job 0 2 sample_job)"
proof -
  have "snd (expire_stale_jobs 0 sample_pair) = sample_pair"
    by (simp add: expire_stale_jobs_def stale_jobs_def stale_job_def active_job_def Let_def)
  moreover have "jj_priority sample_job2 \<noteq> jj_priority sample_job" by (simp add: sample_job2_def sample_job_def new_job_def)
  moreover have "claimed_job 0 2 sample_job \<noteq> claimed_job 0 2 sample_job2"
  proof
    assume "claimed_job 0 2 sample_job = claimed_job 0 2 sample_job2"
    then have "jj_id (claimed_job 0 2 sample_job) = jj_id (claimed_job 0 2 sample_job2)" by (rule arg_cong)
    then show False unfolding claimed_job_simps by simp
  qed
  ultimately show ?thesis
    using claim_takes_first [OF sample_pair_claims(1)] sample_pair_claims(1) by (auto simp: Let_def language_key_def row_get_def)
qed

end
