(* ===== verification/Spec2Isabelle.thy ===== *)
theory Spec2Isabelle
  imports ContestFlow AccountFlow PackageFlow Tickets OrganizationFlow ContentFlow Problems Bridge Commands Display Live Leases
begin

text \<open>
  JudgeLoom core, the Django back end of a programming-contest judge.

  \<^bold>\<open>The program.\<close> Users submit source code to problems; a submission becomes a row of a job queue that
  remote workers (the Go program under \<open>worker/\<close>) claim over HTTP, run and report case by case; the
  scoring service turns the reported cases into points and a verdict; contests group problems and
  rank their participants by one of five formats. Each \<open>apps/<name>\<close> package holds models (tables),
  services (transactions on them) and an API router (guards and payloads).

  \<^bold>\<open>How it is modelled.\<close> The database is the record \<open>db\<close> of tables, each the list of its rows in primary
  key order. A service call is a function from its arguments, the current instant \<open>now\<close> and the
  database to \<open>error + result \<times> db\<close>: an exception is \<open>Inl\<close>, and as each call is one transaction the
  \<open>Inl\<close> branch leaves no trace. Row locks make the transactions on one job run one after another, so
  the interleavings of workers and users are the sequences of steps of \<open>queue_step\<close>. An instant is
  its exact number of microseconds; a Python float is a rational, so IEEE rounding is not modelled,
  while every explicit \<open>round\<close> of the code is. Text is a list of ASCII characters. Settings, SHA-256
  and pydantic's integer coercion are fields of the parameter \<open>env\<close>; random tokens are arguments.
  Events are appended to a log; caches and log lines are left out.

  \<^item> \<open>Prelude\<close>: the exceptions of \<open>core/exceptions.py\<close> as \<open>error\<close>, their HTTP status, Python's \<open>round\<close>,
    ordered dictionaries, JSON, text helpers, table operations (locale \<open>keyed_rows\<close>).
  \<^item> \<open>Model\<close>: the enumerations of the \<open>constants.py\<close> files, one record per model class, \<open>db\<close>, \<open>env\<close>.
  \<^item> \<open>Scoring\<close>: \<open>apps/judge/services/scoring_service.py\<close>. Its three dictionary loops are followed
    literally and shown to compute a reference definition of the subtask scores; from it come the
    bounds and the meaning of the verdicts.
  \<^item> \<open>Formats\<close>: \<open>apps/contests/formats\<close> and \<open>ranking_service.py\<close>. The locale \<open>contest_format\<close> states
    what a ranking needs of a format (it reads only the submissions up to the freeze and none of
    the stored results) and is interpreted on the five formats and on the registry.
  \<^item> \<open>Jobs\<close>: \<open>judge_gateway_service.py\<close>, \<open>judge_result_service.py\<close>, \<open>judge/auth.py\<close>,
    \<open>judge/api/gateway.py\<close> and the signal handler of \<open>submissions/signals.py\<close>: leases, claims,
    progress, results and the worker's endpoints.
  \<^item> \<open>Shadow\<close>: \<open>shadow_job_service.py\<close> and its endpoints, the replays that never score.
  \<^item> \<open>Access\<close>: who sees and edits problems, contests and submissions (\<open>problem_service.py\<close>,
    \<open>contest_service.py\<close>, \<open>core/permissions.py\<close>); the locales \<open>policy\<close> and \<open>listed_policy\<close>.
  \<^item> \<open>Submissions\<close>: \<open>submission_service.py\<close> and \<open>submissions/api/router.py\<close>.
  \<^item> \<open>JobFlow\<close>: which tables an operation leaves alone, and the locale \<open>leased_queue\<close>, the contract of a
    queue with leases, interpreted on the judge queue and on the shadow queue.
  \<^item> \<open>JobInvariant\<close>: the invariant \<open>queue_ok\<close> of jobs and submissions, kept by every operation
    (\<open>queue_step\<close>, \<open>queue_reachable\<close>), and the properties of the flow as a whole.
  \<^item> \<open>Leases\<close>: the same steps with their instants (\<open>timed_step\<close>): a job stays with its worker during its
    lease in every run; expiry as one pass over the tables (\<open>settled\<close>); the job a claim takes.

  \<^item> \<open>EloMmr\<close>: \<open>apps/ratings/services/elo_mmr.py\<close> over the reals: the variance cache, the safeguarded
    Newton iteration and the divide-and-conquer computation of the performances, with their order.
  \<^item> \<open>Ratings\<close>: \<open>rating_service.py\<close>, \<open>ratings/signals.py\<close> and the endpoints; the arithmetic of tied ranks,
    the bounds of ratings and their agreement with the users' rows.
  \<^item> \<open>Core\<close>: pagination, slugs, validators, cache keys and the rate limiter under \<open>core/\<close>; Django's cache and
    \<open>slugify\<close> are arguments.
  \<^item> \<open>Contests\<close>: \<open>contest_service.py\<close>, \<open>contest_lifecycle_service.py\<close> and \<open>contests/api/router.py\<close>.
  \<^item> \<open>ContestFlow\<close>: the invariant \<open>contests_ok\<close> of contests, their problems and participations, kept by
    every operation (\<open>contest_step\<close>, \<open>contest_reachable\<close>), and the properties that rest on it.
  \<^item> \<open>Accounts\<close>: \<open>auth_service.py\<close>, \<open>profile_service.py\<close>, \<open>account_maintenance_service.py\<close>, the token
    authentication of \<open>core/permissions.py\<close> and \<open>accounts/api/router.py\<close>. Password hashing and JWT
    encoding are the parameter \<open>auth_lib\<close>; its documented laws are \<open>jwt_laws\<close>.
  \<^item> \<open>AccountFlow\<close>: every history of account operations refines an abstract session machine without
    tokens, versions and claims; revocation, the end of sessions, and logging in.
  \<^item> \<open>Packages\<close>: \<open>package_service.py\<close>, with the archive as the list of its entries; the ZIP and JSON parsers
    are the parameter \<open>import_lib\<close>.
  \<^item> \<open>PackageFlow\<close>: what the packages that pass the import look like to the queue and the scoring service.
  \<^item> \<open>Tickets\<close>: \<open>apps/tickets\<close>, its histories of requests (\<open>ticket_step\<close>) and who may touch a ticket.
  \<^item> \<open>Organizations\<close>: \<open>org_service.py\<close> and \<open>organizations/api/router.py\<close>; membership is a column of the users.
  \<^item> \<open>OrganizationFlow\<close>: every history of organization requests refines a machine of three relations (members,
    administrators, pending requests), an instance of the locale \<open>labelled_simulation\<close> of \<open>Prelude\<close>.
  \<^item> \<open>Forest\<close>: the loop that builds a tree from rows naming their parent, over an explicit store of nodes, with
    the pure insertion it computes.
  \<^item> \<open>Content\<close>: \<open>post_service.py\<close>, \<open>comment_service.py\<close> and \<open>content/api/router.py\<close>.
  \<^item> \<open>ContentFlow\<close>: histories of comments and votes refine a ballot box (\<open>labelled_simulation\<close> again); the
    order of comment paths and the completeness of the comment tree.
  \<^item> \<open>Tags\<close>: \<open>tag_service.py\<close> and \<open>tags/api/router.py\<close>.
  \<^item> \<open>Problems\<close>: \<open>problem_service.py\<close> and \<open>problems/api/router.py\<close> over the tables \<open>catalog\<close>; \<open>catalog_step\<close> and
    \<open>catalog_reachable\<close> are the histories of requests, \<open>catalog_ok\<close> the invariant of the columns and keys they
    keep; the pages of the problem list and the round trip of a created problem. The order in which the
    database hands out the rows of a query is the parameter \<open>ties\<close>.
  \<^item> \<open>JudgeAdmin\<close>: \<open>judge_service.py\<close>, \<open>judge_maintenance_service.py\<close> and \<open>judge/api/router.py\<close>: blocking a judge
    and the clean-up of sessions, stated against the invariant of the queue.
  \<^item> \<open>Bridge\<close>: \<open>judge_handler.py\<close>, \<open>bridge_manager.py\<close>, the result callbacks of \<open>submission_service.py\<close> and the
    dispatch task. \<open>bridge_reachable\<close> are the histories of connections, with arbitrary changes of the tables
    between calls; \<open>registry_ok\<close> is what they keep of the registry.
  \<^item> \<open>Commands\<close>: \<open>cleanup_runs\<close> and the commands \<open>rejudge\<close>, \<open>recalculate_ratings\<close> and \<open>createjudgeloomuser\<close>, against
    the invariant of the queue and what a rating row holds.
  \<^item> \<open>Display\<close>: the computed properties of a submission and the payloads routers build from rows.
  \<^item> \<open>Live\<close>: the websocket consumers of submissions, contests and judges, and what they are sent. The Channels
    library is the parameter \<open>channel_lib\<close>; \<open>live_reachable\<close> are the histories of connections, client messages,
    service calls and revocations. Every event a step of \<open>queue_step\<close> or \<open>contest_step\<close> publishes is followed
    to the feeds it reaches.

  \<^bold>\<open>Termination.\<close> Most loops run over a finite list. The others are functions with a measure: the runs of
    tied ranks, the slug loop (the taken candidates ahead), the variance cache, the safeguarded iteration
    of \<open>_solve\<close> (the width of the interval in whole units) and the divide and conquer of the performances
    (the width of the range). Only reading a comment tree or a menu back from its store uses fuel, the
  number of its rows, which is proved to be enough.

  \<^bold>\<open>Not modelled.\<close> Django's forms, admin and migrations, the transport of the websockets and of the legacy bridge,
  the commands that load sample data, cache invalidation and the Celery wrappers of the services, the
  settings, and the worker, a program in Go; the manifest of the development lists every part with its
  reason.
\<close>

end
